(* ===== verification/Kron_Prelude.thy ===== *)
theory Kron_Prelude
  imports Main "HOL-Library.Word" "HOL-Library.Multiset"
begin

text \<open>
  Prelude of the development: the machine integers and their saturating operations, the
  failure type shared by all components, the third-party libraries as a parameter record,
  and the fragment of the Rust standard library on strings that the sources use (trimming,
  suffixes, decimal numbers, lines of a file, UTF-8 validity), with the lemmas the
  components share.

  Strings are byte strings: one \<open>char\<close> is one byte of the UTF-8 text, as in a Rust
  \<open>String\<close>.  Instants (\<open>chrono::DateTime<Utc>\<close>) are integers, nanoseconds since the
  Unix epoch.  Integer arithmetic is that of the release profile, in which plain
  operators wrap.
\<close>

named_theorems kron_defs \<open>small definitions unfolded by the component proofs\<close>

section \<open>Machine integers\<close>

type_synonym u8 = "8 word"
type_synonym u16 = "16 word"
type_synonym u32 = "32 word"
type_synonym u64 = "64 word"

text \<open>Instants, in nanoseconds since the epoch.\<close>

type_synonym datetime = int

definition nanos_per_sec :: int where
  "nanos_per_sec = 1000000000"

definition saturating_add :: "'a::len word \<Rightarrow> 'a word \<Rightarrow> 'a word" where
  "saturating_add a b = (if unat a + unat b < 2 ^ LENGTH('a) then a + b else - 1)"

definition saturating_sub :: "'a::len word \<Rightarrow> 'a word \<Rightarrow> 'a word" where
  "saturating_sub a b = (if b \<le> a then a - b else 0)"

definition saturating_mul :: "'a::len word \<Rightarrow> 'a word \<Rightarrow> 'a word" where
  "saturating_mul a b = (if unat a * unat b < 2 ^ LENGTH('a) then a * b else - 1)"

definition saturating_pow :: "'a::len word \<Rightarrow> nat \<Rightarrow> 'a word" where
  "saturating_pow a n = (if unat a ^ n < 2 ^ LENGTH('a) then a ^ n else - 1)"

lemma unat_max_word: "unat (- 1 :: 'a::len word) = 2 ^ LENGTH('a) - 1"
  by (simp add: unsigned_minus_1_eq_mask mask_eq_exp_minus_1)

lemma unat_saturating_add:
  "unat (saturating_add a b :: 'a::len word) = min (unat a + unat b) (2 ^ LENGTH('a) - 1)"
proof (cases "unat a + unat b < 2 ^ LENGTH('a)")
  case True
  then have "unat (a + b) = unat a + unat b"
    by (simp add: unat_word_ariths)
  with True show ?thesis by (simp add: saturating_add_def)
next
  case False
  then show ?thesis by (simp add: saturating_add_def unat_max_word)
qed

lemma unat_saturating_mul:
  "unat (saturating_mul a b :: 'a::len word) = min (unat a * unat b) (2 ^ LENGTH('a) - 1)"
proof (cases "unat a * unat b < 2 ^ LENGTH('a)")
  case True
  then have "unat (a * b) = unat a * unat b"
    by (simp add: unat_word_ariths)
  with True show ?thesis by (simp add: saturating_mul_def)
next
  case False
  then show ?thesis by (simp add: saturating_mul_def unat_max_word)
qed

lemma unat_saturating_sub:
  "unat (saturating_sub a b :: 'a::len word) = unat a - unat b"
proof (cases "b \<le> a")
  case True
  then show ?thesis by (simp add: saturating_sub_def unat_sub)
next
  case False
  then show ?thesis by (simp add: saturating_sub_def word_le_nat_alt)
qed

lemma unat_power_word:
  "unat a ^ n < 2 ^ LENGTH('a) \<Longrightarrow> unat (a ^ n :: 'a::len word) = unat a ^ n"
proof -
  have "a ^ n = of_nat (unat a ^ n)" by simp
  then have "unat (a ^ n) = unat a ^ n mod 2 ^ LENGTH('a)"
    by (simp only: unat_of_nat)
  then show "unat a ^ n < 2 ^ LENGTH('a) \<Longrightarrow> unat (a ^ n) = unat a ^ n" by simp
qed

lemma unat_saturating_pow:
  "unat (saturating_pow a n :: 'a::len word) = min (unat a ^ n) (2 ^ LENGTH('a) - 1)"
proof (cases "unat a ^ n < 2 ^ LENGTH('a)")
  case True
  then show ?thesis by (simp add: saturating_pow_def unat_power_word)
next
  case False
  then show ?thesis by (simp add: saturating_pow_def unat_max_word)
qed

lemmas unat_saturating = unat_saturating_add unat_saturating_sub unat_saturating_mul
  unat_saturating_pow

lemma unat_min_word: "unat (min a b :: 'a::len word) = min (unat a) (unat b)"
  by (simp add: min_def word_le_nat_alt)

text \<open>A capped product is insensitive to where the machine product saturates.\<close>

lemma min_absorb_cap: "c \<le> m \<Longrightarrow> min (min x m) c = min x (c::nat)"
  by simp

section \<open>Lists\<close>

lemma find_append:
  "List.find P (xs @ ys) = (case List.find P xs of Some x \<Rightarrow> Some x | None \<Rightarrow> List.find P ys)"
  by (induction xs) auto

section \<open>Failures\<close>

text \<open>\<open>KronError\<close> of error.rs; the nested \<open>io::Error\<close> and \<open>serde_json::Error\<close>
  values are represented by their messages.\<close>

datatype kron_error =
    InvalidCron string
  | InvalidTimezone string
  | TimerNotFound string
  | LogIo string
  | LogSerde string
  | CorruptLog string nat string
  | AlreadyStarted
  | AlreadyStopped
  | ShutdownTimeout u64
  | DataDirLocked string
  | InvalidSnapshot string
  | IpcUnavailable string

text \<open>What a fallible call can end with besides a value: an error value, or a panic.\<close>

datatype fault = Err kron_error | Panic string

type_synonym 'a res = "fault + 'a"

section \<open>Third-party libraries\<close>

text \<open>
  The crates chrono, chrono-tz and cron are not part of the sources.  They enter the model
  as a record of the functions the code calls:
  \<^item> \<open>tz_known name\<close>: \<open>name.parse::<Tz>()\<close> succeeds;
  \<^item> \<open>cron_error expr\<close>: the error message of \<open>cron::Schedule::from_str(expr)\<close>, if any;
  \<^item> \<open>cron_after expr tz t\<close>: the first item of \<open>after(&t.with_timezone(tz))\<close>, in UTC;
  \<^item> \<open>add_seconds t n\<close>: \<open>t + Duration::seconds(n)\<close>, \<open>None\<close> where chrono panics
    (duration or date out of range);
  \<^item> \<open>rfc3339 t\<close>: \<open>t.to_rfc3339()\<close>, and \<open>parse_rfc3339\<close> its parser.
\<close>

record libs =
  tz_known :: "string \<Rightarrow> bool"
  cron_error :: "string \<Rightarrow> string option"
  cron_after :: "string \<Rightarrow> string \<Rightarrow> datetime \<Rightarrow> datetime option"
  add_seconds :: "datetime \<Rightarrow> int \<Rightarrow> datetime option"
  rfc3339 :: "datetime \<Rightarrow> string"
  parse_rfc3339 :: "string \<Rightarrow> string + datetime"

text \<open>Documented behaviour: chrono's addition is exact where it returns, and the cron
  iterator yields occurrences strictly after its starting point.\<close>

definition chrono_exact :: "libs \<Rightarrow> bool" where
  "chrono_exact L \<longleftrightarrow>
     (\<forall>t n t'. add_seconds L t n = Some t' \<longrightarrow> t' = t + n * nanos_per_sec)"

definition cron_strict :: "libs \<Rightarrow> bool" where
  "cron_strict L \<longleftrightarrow> (\<forall>e tz t t'. cron_after L e tz t = Some t' \<longrightarrow> t < t')"

lemma chrono_exactD:
  "chrono_exact L \<Longrightarrow> add_seconds L t n = Some t' \<Longrightarrow> t' = t + n * nanos_per_sec"
  by (simp add: chrono_exact_def)

text \<open>A concrete library: chrono's documented range of durations (\<open>i64::MAX\<close>
  milliseconds) with unbounded dates, the time zone UTC only, and a cron engine that
  knows the every-minute expression.  The witnesses of the development use it.\<close>

definition minute_libs :: libs where
  "minute_libs = \<lparr>
     tz_known = (\<lambda>tz. tz = ''UTC''),
     cron_error = (\<lambda>e. if e = ''0 * * * * * *'' then None else Some ''bad expression''),
     cron_after = (\<lambda>_ _ t. Some ((t div (60 * nanos_per_sec) + 1) * (60 * nanos_per_sec))),
     add_seconds = (\<lambda>t n. if \<bar>n\<bar> \<le> 9223372036854775 then Some (t + n * nanos_per_sec) else None),
     rfc3339 = (\<lambda>_. ''1970-01-01T00:00:00+00:00''),
     parse_rfc3339 = (\<lambda>s. Inl ''bad date'')\<rparr>"

lemma minute_libs_exact: "chrono_exact minute_libs"
  by (simp add: chrono_exact_def minute_libs_def)

lemma minute_libs_strict: "cron_strict minute_libs"
proof -
  have "t < (t div (60 * nanos_per_sec) + 1) * (60 * nanos_per_sec)" for t :: int
    unfolding nanos_per_sec_def by presburger
  then show ?thesis by (simp add: cron_strict_def minute_libs_def)
qed

end
