(* ===== verification/Kron_Text.thy ===== *)
theory Kron_Text
  imports Kron_Prelude "HOL-Library.Sublist"
begin

text \<open>
  The text operations of the Rust standard library that the sources use, on byte strings:
  \<open>str::trim\<close>, \<open>strip_suffix\<close>, \<open>parse::<u64>\<close>, the decimal \<open>Display\<close> of integers,
  \<open>BufRead::lines\<close> and UTF-8 validation.  They are executable, and the lemmas here are
  the ones the duration parser, the append-only log, the audit log and the clients need.
\<close>

section \<open>Decimal numbers\<close>

definition digit_val :: "char \<Rightarrow> nat option" where
  "digit_val c = (let n = of_char c :: nat in if 48 \<le> n \<and> n \<le> 57 then Some (n - 48) else None)"

definition digit_char :: "nat \<Rightarrow> char" where
  "digit_char d = char_of (48 + d)"

fun digits_val :: "nat \<Rightarrow> string \<Rightarrow> nat option" where
  "digits_val acc [] = Some acc"
| "digits_val acc (c # cs) =
     (case digit_val c of None \<Rightarrow> None | Some d \<Rightarrow> digits_val (10 * acc + d) cs)"

text \<open>\<open>str::parse\<close> for an unsigned type with \<open>w\<close> bits: an optional plus sign, at least one
  digit, no overflow.\<close>

definition parse_unsigned :: "nat \<Rightarrow> string \<Rightarrow> nat option" where
  "parse_unsigned w s =
     (let ds = (case s of c # cs \<Rightarrow> if c = CHR ''+'' then cs else s | [] \<Rightarrow> s)
      in if ds = [] then None
         else (case digits_val 0 ds of
                 None \<Rightarrow> None
               | Some n \<Rightarrow> if n < 2 ^ w then Some n else None))"

fun show_nat :: "nat \<Rightarrow> string" where
  "show_nat n = (if n < 10 then [digit_char n] else show_nat (n div 10) @ [digit_char (n mod 10)])"

declare show_nat.simps [simp del]

lemma digit_val_char [simp]: "d < 10 \<Longrightarrow> digit_val (digit_char d) = Some d"
  by (simp add: digit_val_def digit_char_def)

lemma of_char_digit: "d < 10 \<Longrightarrow> (of_char (digit_char d) :: nat) = 48 + d"
  by (simp add: digit_char_def)

lemma digit_char_neq: "d < 10 \<Longrightarrow> (of_char c :: nat) < 48 \<Longrightarrow> digit_char d \<noteq> c"
  using of_char_digit [of d] by auto

lemma digits_val_append:
  "digits_val acc (xs @ ys) =
     (case digits_val acc xs of None \<Rightarrow> None | Some a \<Rightarrow> digits_val a ys)"
  by (induction xs arbitrary: acc) (auto split: option.splits)

lemma digits_val_show: "digits_val 0 (show_nat n) = Some n"
proof (induction n rule: show_nat.induct)
  case (1 n)
  show ?case
  proof (cases "n < 10")
    case True
    then show ?thesis by (simp add: show_nat.simps [of n])
  next
    case False
    with 1 show ?thesis by (simp add: show_nat.simps [of n] digits_val_append)
  qed
qed

lemma show_nat_not_Nil [simp]: "show_nat n \<noteq> []"
  by (subst show_nat.simps) simp

lemma show_nat_digits: "c \<in> set (show_nat n) \<Longrightarrow> \<exists>d<10. c = digit_char d"
proof (induction n rule: show_nat.induct)
  case (1 n)
  show ?case
  proof (cases "n < 10")
    case True
    with "1.prems" show ?thesis by (auto simp: show_nat.simps [of n])
  next
    case False
    then have "set (show_nat n) = insert (digit_char (n mod 10)) (set (show_nat (n div 10)))"
      by (simp add: show_nat.simps [of n])
    moreover have "n mod 10 < 10" by simp
    ultimately show ?thesis using False "1.prems" "1.IH" by blast
  qed
qed

lemma parse_show: "n < 2 ^ w \<Longrightarrow> parse_unsigned w (show_nat n) = Some n"
proof -
  assume n: "n < 2 ^ w"
  obtain c cs where s: "show_nat n = c # cs"
    by (cases "show_nat n") auto
  have "c \<noteq> CHR ''+''"
    using show_nat_digits [of c n] s digit_char_neq [of _ "CHR ''+''"] by auto
  with s n digits_val_show [of n] show ?thesis
    by (simp add: parse_unsigned_def)
qed

section \<open>Trimming\<close>

text \<open>The UTF-8 encodings of the characters with the \<open>White_Space\<close> property, which
  \<open>str::trim\<close> removes at both ends.\<close>

definition bytes_str :: "nat list \<Rightarrow> string" where
  "bytes_str = map char_of"

definition ws_codes :: "string list" where
  "ws_codes =
     map bytes_str
       ([[9], [10], [11], [12], [13], [32], [0xC2, 0x85], [0xC2, 0xA0], [0xE1, 0x9A, 0x80]]
        @ map (\<lambda>b. [0xE2, 0x80, b]) ([0x80 ..< 0x8B] @ [0xA8, 0xA9, 0xAF])
        @ [[0xE2, 0x81, 0x9F], [0xE3, 0x80, 0x80]])"

definition ws_prefix :: "string \<Rightarrow> nat" where
  "ws_prefix s = (case List.find (\<lambda>w. take (length w) s = w) ws_codes of
                    None \<Rightarrow> 0 | Some w \<Rightarrow> length w)"

fun trim_start_fuel :: "nat \<Rightarrow> string \<Rightarrow> string" where
  "trim_start_fuel 0 s = s"
| "trim_start_fuel (Suc n) s =
     (if ws_prefix s = 0 then s else trim_start_fuel n (drop (ws_prefix s) s))"

definition ws_suffix :: "string \<Rightarrow> nat" where
  "ws_suffix s = (case List.find (\<lambda>w. suffix w s) ws_codes of
                    None \<Rightarrow> 0 | Some w \<Rightarrow> length w)"

fun trim_end_fuel :: "nat \<Rightarrow> string \<Rightarrow> string" where
  "trim_end_fuel 0 s = s"
| "trim_end_fuel (Suc n) s =
     (if ws_suffix s = 0 then s else trim_end_fuel n (take (length s - ws_suffix s) s))"

text \<open>Each round removes at least one byte, so the length is enough fuel.\<close>

definition trim_start :: "string \<Rightarrow> string" where
  "trim_start s = trim_start_fuel (length s) s"

definition trim_end :: "string \<Rightarrow> string" where
  "trim_end s = trim_end_fuel (length s) s"

definition trim :: "string \<Rightarrow> string" where
  "trim s = trim_end (trim_start s)"

definition strip_suffix :: "char \<Rightarrow> string \<Rightarrow> string option" where
  "strip_suffix c s = (if s \<noteq> [] \<and> last s = c then Some (butlast s) else None)"

lemma strip_suffix_snoc [simp]: "strip_suffix c (s @ [d]) = (if d = c then Some s else None)"
  by (simp add: strip_suffix_def)

lemma ws_codes_first:
  assumes "w \<in> set ws_codes"
  shows "w \<noteq> [] \<and> ((of_char (hd w) :: nat) \<le> 32 \<or> 127 < (of_char (hd w) :: nat))
         \<and> ((of_char (last w) :: nat) \<le> 32 \<or> 127 < (of_char (last w) :: nat))"
  using assms by (auto simp: ws_codes_def bytes_str_def)

text \<open>A printable ASCII character at an end stops the trimming there.\<close>

definition graphic :: "char \<Rightarrow> bool" where
  "graphic c \<longleftrightarrow> 32 < (of_char c :: nat) \<and> (of_char c :: nat) \<le> 127"

lemma ws_prefix_graphic: "s = [] \<or> graphic (hd s) \<Longrightarrow> ws_prefix s = 0"
proof -
  assume s: "s = [] \<or> graphic (hd s)"
  have "take (length w) s \<noteq> w" if "w \<in> set ws_codes" for w
  proof
    assume t: "take (length w) s = w"
    have "w \<noteq> []" using ws_codes_first [OF that] by simp
    then have "s \<noteq> []" and "hd s = hd w"
      using t by (cases s; cases w; simp)+
    with s ws_codes_first [OF that] show False by (simp add: graphic_def)
  qed
  then have "List.find (\<lambda>w. take (length w) s = w) ws_codes = None"
    unfolding find_None_iff by blast
  then show ?thesis by (simp add: ws_prefix_def)
qed

lemma ws_suffix_graphic: "s = [] \<or> graphic (last s) \<Longrightarrow> ws_suffix s = 0"
proof -
  assume s: "s = [] \<or> graphic (last s)"
  have "\<not> suffix w s" if "w \<in> set ws_codes" for w
  proof
    assume "suffix w s"
    moreover have "w \<noteq> []" using ws_codes_first [OF that] by simp
    ultimately have "s \<noteq> []" and "last s = last w"
      by (auto simp: suffix_def)
    with s ws_codes_first [OF that] show False by (simp add: graphic_def)
  qed
  then have "List.find (\<lambda>w. suffix w s) ws_codes = None"
    unfolding find_None_iff by blast
  then show ?thesis by (simp add: ws_suffix_def)
qed

lemma trim_start_graphic [simp]: "s = [] \<or> graphic (hd s) \<Longrightarrow> trim_start s = s"
  unfolding trim_start_def by (cases "length s") (simp_all add: ws_prefix_graphic)

lemma trim_end_graphic [simp]: "s = [] \<or> graphic (last s) \<Longrightarrow> trim_end s = s"
  unfolding trim_end_def by (cases "length s") (simp_all add: ws_suffix_graphic)

lemma trim_graphic: "s = [] \<or> graphic (hd s) \<and> graphic (last s) \<Longrightarrow> trim s = s"
  by (auto simp: trim_def)

lemma trim_end_fuel_prefix: "prefix (trim_end_fuel n s) s"
proof (induction n arbitrary: s)
  case (Suc n)
  then show ?case
    by (auto intro: prefix_order.trans take_is_prefix)
qed simp

lemma trim_end_prefix: "prefix (trim_end s) s"
  by (simp add: trim_end_def trim_end_fuel_prefix)

text \<open>A printable first byte survives.\<close>

lemma ws_suffix_Cons:
  assumes "graphic c"
  shows "ws_suffix (c # s) \<le> length s"
proof (cases "List.find (\<lambda>w. suffix w (c # s)) ws_codes")
  case (Some w)
  then have w: "suffix w (c # s)" "w \<in> set ws_codes"
    by (auto simp: find_Some_iff)
  moreover have "w \<noteq> c # s"
    using ws_codes_first [OF w(2)] assms by (auto simp: graphic_def)
  ultimately have "suffix w s" by (simp add: suffix_Cons)
  then show ?thesis using Some by (simp add: ws_suffix_def suffix_length_le)
qed (simp add: ws_suffix_def)

lemma trim_end_fuel_Cons: "graphic c \<Longrightarrow> trim_end_fuel n (c # s) \<noteq> []"
proof (induction n arbitrary: s)
  case (Suc n)
  then have "length (c # s) - ws_suffix (c # s) = Suc (length s - ws_suffix (c # s))"
    using ws_suffix_Cons [of c s] by simp
  with Suc show ?case by simp
qed simp

lemma trim_end_Cons: "graphic c \<Longrightarrow> trim_end (c # s) \<noteq> []"
  by (simp add: trim_end_def trim_end_fuel_Cons del: trim_end_fuel.simps)

lemma trim_Nil [simp]: "trim [] = []"
  by (simp add: trim_graphic)

lemma ws_codes_start: "ws_codes = [CHR 0x09] # [CHR 0x0A] # drop 2 ws_codes"
  by code_simp

lemma ws_suffix_LF: "ws_suffix (s @ [CHR 0x0A]) = 1"
  unfolding ws_suffix_def by (subst ws_codes_start) simp

lemma trim_end_LF: "s \<noteq> [] \<Longrightarrow> graphic (last s) \<Longrightarrow> trim_end (s @ [CHR 0x0A]) = s"
  by (cases "length s") (simp_all add: trim_end_def ws_suffix_LF ws_suffix_graphic)

lemma trim_LF:
  assumes "s \<noteq> []" "graphic (hd s)" "graphic (last s)"
  shows "trim (s @ [CHR 0x0A]) = s"
proof -
  have "trim_start (s @ [CHR 0x0A]) = s @ [CHR 0x0A]" using assms by (intro trim_start_graphic) simp
  with assms show ?thesis by (simp add: trim_def trim_end_LF)
qed

section \<open>Lines of a file\<close>

text \<open>\<open>BufRead::lines\<close> splits at line feeds; a line that a line feed ends loses one
  carriage return before it, and a last line with no line feed is yielded if it has any byte
  at all.  \<open>split_lines\<close> gives the raw lines with a flag telling whether a line feed ended
  them.\<close>

abbreviation LF :: char where "LF \<equiv> CHR 0x0A"
abbreviation CR :: char where "CR \<equiv> CHR 0x0D"

fun split_lines :: "string \<Rightarrow> string \<Rightarrow> (string \<times> bool) list" where
  "split_lines acc [] = (if acc = [] then [] else [(rev acc, False)])"
| "split_lines acc (c # cs) =
     (if c = LF then (rev acc, True) # split_lines [] cs else split_lines (c # acc) cs)"

definition strip_cr :: "string \<times> bool \<Rightarrow> string" where
  "strip_cr l = (if snd l \<and> fst l \<noteq> [] \<and> last (fst l) = CR then butlast (fst l) else fst l)"

definition read_lines :: "string \<Rightarrow> string list" where
  "read_lines s = map strip_cr (split_lines [] s)"

lemma split_lines_line:
  "LF \<notin> set l \<Longrightarrow> split_lines acc (l @ LF # s) = (rev acc @ l, True) # split_lines [] s"
  by (induction l arbitrary: acc) auto

lemma split_lines_tail:
  "LF \<notin> set l \<Longrightarrow> split_lines acc l = (if acc = [] \<and> l = [] then [] else [(rev acc @ l, False)])"
  by (induction l arbitrary: acc) auto

text \<open>A text line: no line feed inside and no carriage return at its end.\<close>

definition plain_line :: "string \<Rightarrow> bool" where
  "plain_line l \<longleftrightarrow> LF \<notin> set l \<and> (l = [] \<or> last l \<noteq> CR)"

lemma read_lines_line:
  "plain_line l \<Longrightarrow> read_lines (l @ LF # s) = l # read_lines s"
  by (auto simp: read_lines_def plain_line_def split_lines_line strip_cr_def)

lemma read_lines_tail:
  "LF \<notin> set l \<Longrightarrow> read_lines l = (if l = [] then [] else [l])"
  by (simp add: read_lines_def split_lines_tail strip_cr_def)

lemma read_lines_Nil [simp]: "read_lines [] = []"
  by (simp add: read_lines_def)

text \<open>The file a writer of whole lines produces.\<close>

definition unlines :: "string list \<Rightarrow> string" where
  "unlines ls = concat (map (\<lambda>l. l @ [LF]) ls)"

lemma unlines_simps [simp]:
  "unlines [] = []" "unlines (l # ls) = l @ LF # unlines ls"
  "unlines (ls @ ms) = unlines ls @ unlines ms"
  by (simp_all add: unlines_def)

lemma read_unlines:
  "(\<And>l. l \<in> set ls \<Longrightarrow> plain_line l) \<Longrightarrow> read_lines (unlines ls @ s) = ls @ read_lines s"
  by (induction ls) (simp_all add: read_lines_line)

text \<open>A proper prefix of a file of lines is some of its lines and a beginning of the next.\<close>

lemma take_unlines:
  assumes "k < length (unlines ls)"
  obtains i j where "i < length ls" "j \<le> length (ls ! i)"
    "take k (unlines ls) = unlines (take i ls) @ take j (ls ! i)"
proof -
  have "\<exists>i j. i < length ls \<and> j \<le> length (ls ! i)
          \<and> take k (unlines ls) = unlines (take i ls) @ take j (ls ! i)"
    using assms
  proof (induction ls arbitrary: k)
    case (Cons l ls)
    show ?case
    proof (cases "k \<le> length l")
      case True
      then show ?thesis by (intro exI [of _ 0] exI [of _ k]) simp
    next
      case False
      with Cons.prems have "k - Suc (length l) < length (unlines ls)" by simp
      from Cons.IH [OF this] obtain i j where "i < length ls" "j \<le> length (ls ! i)"
        "take (k - Suc (length l)) (unlines ls) = unlines (take i ls) @ take j (ls ! i)" by blast
      moreover from False have "k - length l = Suc (k - Suc (length l))" by simp
      ultimately show ?thesis
        using False by (intro exI [of _ "Suc i"] exI [of _ j]) simp
    qed
  qed simp
  with that show thesis by blast
qed

section \<open>UTF-8\<close>

text \<open>\<open>String\<close>-producing readers reject bytes that are not UTF-8.  The validator of
  \<open>core::str::from_utf8\<close>, by the first byte of each character.\<close>

definition cont_byte :: "nat \<Rightarrow> nat \<Rightarrow> char \<Rightarrow> bool" where
  "cont_byte lo hi c \<longleftrightarrow> lo \<le> (of_char c :: nat) \<and> (of_char c :: nat) \<le> hi"

text \<open>The ranges of the bytes that must follow a first byte.\<close>

definition utf8_follow :: "nat \<Rightarrow> (nat \<times> nat) list option" where
  "utf8_follow b =
     (if b < 0x80 then Some []
      else if 0xC2 \<le> b \<and> b \<le> 0xDF then Some [(0x80, 0xBF)]
      else if b = 0xE0 then Some [(0xA0, 0xBF), (0x80, 0xBF)]
      else if 0xE1 \<le> b \<and> b \<le> 0xEC then Some [(0x80, 0xBF), (0x80, 0xBF)]
      else if b = 0xED then Some [(0x80, 0x9F), (0x80, 0xBF)]
      else if 0xEE \<le> b \<and> b \<le> 0xEF then Some [(0x80, 0xBF), (0x80, 0xBF)]
      else if b = 0xF0 then Some [(0x90, 0xBF), (0x80, 0xBF), (0x80, 0xBF)]
      else if 0xF1 \<le> b \<and> b \<le> 0xF3 then Some [(0x80, 0xBF), (0x80, 0xBF), (0x80, 0xBF)]
      else if b = 0xF4 then Some [(0x80, 0x8F), (0x80, 0xBF), (0x80, 0xBF)]
      else None)"

fun utf8_run :: "(nat \<times> nat) list \<Rightarrow> string \<Rightarrow> bool" where
  "utf8_run need [] = (need = [])"
| "utf8_run ((lo, hi) # need) (c # cs) = (cont_byte lo hi c \<and> utf8_run need cs)"
| "utf8_run [] (c # cs) =
     (case utf8_follow (of_char c) of None \<Rightarrow> False | Some need \<Rightarrow> utf8_run need cs)"

definition utf8_ok :: "string \<Rightarrow> bool" where
  "utf8_ok s = utf8_run [] s"

definition ascii :: "string \<Rightarrow> bool" where
  "ascii s \<longleftrightarrow> (\<forall>c \<in> set s. (of_char c :: nat) < 0x80)"

lemma utf8_ascii: "ascii s \<Longrightarrow> utf8_ok s"
  unfolding utf8_ok_def by (induction s) (auto simp: ascii_def utf8_follow_def)

lemma ascii_take: "ascii s \<Longrightarrow> ascii (take n s)"
  unfolding ascii_def using in_set_takeD by fast

section \<open>Bytes and hexadecimal digits\<close>

text \<open>\<open>as_bytes\<close> of a string, and the digits of the format \<open>{:x}\<close>.\<close>

definition as_bytes :: "string \<Rightarrow> u8 list" where
  "as_bytes s = map (\<lambda>c. of_nat (of_char c)) s"

definition hex_digit :: "nat \<Rightarrow> char" where
  "hex_digit d = (if d < 10 then char_of (48 + d) else char_of (87 + d))"

lemma as_bytes_inj: "as_bytes s = as_bytes t \<longleftrightarrow> s = t"
proof -
  have "inj (\<lambda>c :: char. of_nat (of_char c) :: u8)"
  proof (rule injI)
    fix c d :: char
    assume "(of_nat (of_char c) :: u8) = of_nat (of_char d)"
    then have "unat (of_nat (of_char c) :: u8) = unat (of_nat (of_char d) :: u8)" by simp
    then have "(of_char c :: nat) = of_char d" by (simp add: unat_of_nat)
    then show "c = d" by simp
  qed
  then show ?thesis by (simp add: as_bytes_def inj_map_eq_map)
qed

lemma of_char_hex:
  "d < 16 \<Longrightarrow> (of_char (hex_digit d) :: nat) = (if d < 10 then 48 + d else 87 + d)"
  by (simp add: hex_digit_def)

lemma hex_digit_inj:
  assumes "d < 16" "e < 16" "hex_digit d = hex_digit e"
  shows "d = e"
proof -
  have "(if d < 10 then 48 + d else 87 + d) = (if e < 10 then 48 + e else 87 + e)"
    using of_char_hex [OF assms(1)] of_char_hex [OF assms(2)] assms(3) by simp
  then show ?thesis by (auto split: if_splits)
qed

end
