(* ===== verification/Kron_Retry.thy ===== *)
theory Kron_Retry
  imports Kron_Prelude
begin

text \<open>
  retry.rs: the retry policy of a timer and its back-off strategies.  The code computes the
  delay with saturating 64-bit operations; \<open>documented_delay\<close> is the formula of the
  documentation on natural numbers, and the two agree on every attempt number from 1 on.
\<close>

section \<open>Data\<close>

datatype backoff_strategy =
    Fixed (fixed_seconds: u64)
  | Exponential u64 u64
  | Linear u64 u64 u64

record retry_policy =
  max_attempts :: u32
  backoff :: backoff_strategy

definition default_retry :: retry_policy where
  "default_retry = \<lparr>max_attempts = 3, backoff = Exponential 30 3600\<rparr>"

definition no_retry :: retry_policy where
  "no_retry = \<lparr>max_attempts = 1, backoff = Fixed 0\<rparr>"

section \<open>Operations\<close>

definition delay_seconds :: "backoff_strategy \<Rightarrow> u32 \<Rightarrow> u64" where
  "delay_seconds b attempt =
     (case b of
        Fixed seconds \<Rightarrow> seconds
      | Exponential base_seconds max_seconds \<Rightarrow>
          let exp = saturating_pow 2 (unat (saturating_sub attempt 1));
              delay = saturating_mul base_seconds exp
          in min delay max_seconds
      | Linear base_seconds step_seconds max_seconds \<Rightarrow>
          let delay = saturating_add base_seconds
                        (saturating_mul step_seconds (ucast (attempt - 1)))
          in min delay max_seconds)"

text \<open>\<open>from + Duration::seconds(delay as i64)\<close>: the cast reads the delay as a signed
  number, and chrono panics where the sum has no date.\<close>

definition plus_seconds :: "libs \<Rightarrow> datetime \<Rightarrow> u64 \<Rightarrow> datetime res" where
  "plus_seconds L t n =
     (case add_seconds L t (sint n) of
        None \<Rightarrow> Inl (Panic ''date arithmetic out of range'')
      | Some t' \<Rightarrow> Inr t')"

definition next_retry_at ::
  "libs \<Rightarrow> retry_policy \<Rightarrow> datetime \<Rightarrow> u32 \<Rightarrow> datetime option res" where
  "next_retry_at L p from attempt =
     (if max_attempts p \<le> attempt then Inr None
      else (case plus_seconds L from (delay_seconds (backoff p) attempt) of
              Inl e \<Rightarrow> Inl e
            | Inr t \<Rightarrow> Inr (Some t)))"

section \<open>The documented delay\<close>

fun documented_delay :: "backoff_strategy \<Rightarrow> nat \<Rightarrow> nat" where
  "documented_delay (Fixed s) k = unat s"
| "documented_delay (Exponential b m) k = min (unat b * 2 ^ (k - 1)) (unat m)"
| "documented_delay (Linear b s m) k = min (unat b + unat s * (k - 1)) (unat m)"

lemma min_mul_saturated:
  assumes "c \<le> M"
  shows "min (min (b * min x M) M) c = min (b * x) (c::nat)"
proof (cases "x \<le> M \<or> b = 0")
  case True
  with assms show ?thesis by auto
next
  case False
  then have "M \<le> b * M" "b * M \<le> b * x" and x: "min x M = M" by auto
  then have "c \<le> b * M" "c \<le> b * x" using assms by linarith+
  with assms show ?thesis unfolding x by linarith
qed

lemma min_add_saturated: "c \<le> M \<Longrightarrow> min (min (b + min x M) M) c = min (b + x) (c::nat)"
  by simp

lemma word64_le_max: "unat (m :: u64) \<le> 2 ^ 64 - 1"
  using unsigned_less [where 'a=nat, of m] by simp

lemma unat_pred:
  assumes "0 < unat (a :: u32)"
  shows "unat (a - 1) = unat a - 1"
proof -
  from assms have "1 \<le> a" by (simp add: word_le_nat_alt)
  then show ?thesis by (simp add: unat_sub)
qed

lemma unat_pred_u64: "0 < unat (a :: u32) \<Longrightarrow> unat (ucast (a - 1) :: u64) = unat a - 1"
  using unsigned_less [where 'a=nat, of a] by (simp add: unsigned_ucast_eq take_bit_nat_eq_self unat_pred)

lemma delay_documented:
  "0 < unat attempt \<Longrightarrow> unat (delay_seconds b attempt) = documented_delay b (unat attempt)"
proof (cases b)
  case (Exponential base m)
  have "unat (delay_seconds b attempt)
        = min (min (unat base * min (2 ^ (unat attempt - 1)) (2 ^ 64 - 1)) (2 ^ 64 - 1)) (unat m)"
    by (simp add: Exponential delay_seconds_def unat_min_word unat_saturating)
  then show ?thesis
    by (simp only: Exponential documented_delay.simps min_mul_saturated [OF word64_le_max])
next
  case (Linear base step m)
  assume "0 < unat attempt"
  then have "unat (delay_seconds b attempt)
        = min (min (unat base + min (unat step * (unat attempt - 1)) (2 ^ 64 - 1)) (2 ^ 64 - 1)) (unat m)"
    by (simp add: Linear delay_seconds_def unat_min_word unat_saturating unat_pred_u64)
  then show ?thesis
    by (simp only: Linear documented_delay.simps min_add_saturated [OF word64_le_max])
qed (simp add: delay_seconds_def)

lemma documented_delay_mono: "j \<le> k \<Longrightarrow> documented_delay b j \<le> documented_delay b k"
proof (cases b)
  case (Exponential base m)
  assume "j \<le> k"
  then have "(2::nat) ^ (j - 1) \<le> 2 ^ (k - 1)" by (simp add: power_increasing)
  then have "unat base * 2 ^ (j - 1) \<le> unat base * 2 ^ (k - 1)" by (rule mult_le_mono2)
  then show ?thesis by (simp add: Exponential min_le_iff_disj)
next
  case (Linear base step m)
  assume "j \<le> k"
  then have "unat step * (j - 1) \<le> unat step * (k - 1)" by (intro mult_le_mono2) simp
  then show ?thesis by (simp add: Linear min_le_iff_disj)
qed simp

text \<open>For attempt numbers from 1 on, the saturating 64-bit computation of the delay
  returns exactly the documented delay, whatever the base, step, cap and attempt (the
  saturation of the intermediate power and products never shows through the cap), and
  the delays never shrink from one attempt to a later one.\<close>

theorem delay_seconds_documented:
  assumes "0 < unat attempt" "attempt \<le> later"
  shows "unat (delay_seconds b attempt) = documented_delay b (unat attempt)
         \<and> delay_seconds b attempt \<le> delay_seconds b later"
proof
  from assms show "unat (delay_seconds b attempt) = documented_delay b (unat attempt)"
    by (simp add: delay_documented)
  from assms have "0 < unat later" "unat attempt \<le> unat later"
    by (simp_all add: word_le_nat_alt)
  with assms show "delay_seconds b attempt \<le> delay_seconds b later"
    by (simp add: word_le_nat_alt delay_documented documented_delay_mono)
qed

theorem delay_seconds_documented_witness:
  "unat (delay_seconds (Exponential 30 3600) 70) = documented_delay (Exponential 30 3600) 70
   \<and> delay_seconds (Exponential 30 3600) 70 \<le> delay_seconds (Exponential 30 3600) 80"
  using delay_seconds_documented [of 70 80 "Exponential 30 3600"] by simp

lemma sint_small:
  assumes "unat (n :: u64) < 2 ^ 63"
  shows "sint n = int (unat n)"
proof -
  have "int (unat n) < 2 ^ 63"
    using assms by (metis of_nat_less_iff of_nat_numeral of_nat_power)
  moreover have "- (2 ^ 63) \<le> (0::int)" "0 \<le> uint n" by simp_all
  ultimately have "uint n < 2 ^ 63" "- (2 ^ 63) \<le> uint n" by (simp, linarith)
  then show ?thesis by (simp add: sint_uint signed_take_bit_int_eq_self)
qed

lemma sint_large:
  assumes "2 ^ 63 \<le> unat (n :: u64)"
  shows "sint n = int (unat n) - 2 ^ 64"
proof -
  have up: "2 ^ 63 \<le> uint n"
    using assms by (metis of_nat_le_iff of_nat_numeral of_nat_power of_nat_unat)
  have lt: "uint n < 2 ^ 64" using uint_lt2p [of n] by simp
  have "(uint n + 2 ^ 63) mod 2 ^ 64 = ((uint n + 2 ^ 63) - 2 ^ 64) mod (2 ^ 64 :: int)"
    by (rule minus_mod_self2 [symmetric])
  also have "\<dots> = uint n + 2 ^ 63 - 2 ^ 64" by (rule mod_pos_pos_trivial) (use up lt in simp_all)
  finally have "signed_take_bit 63 (uint n) = uint n - 2 ^ 64"
    unfolding signed_take_bit_eq_take_bit_shift take_bit_int_def by simp
  then show ?thesis by (simp add: sint_uint)
qed

lemma sint_range:
  fixes n :: u64
  shows "sint n = (if unat n < 2 ^ 63 then int (unat n) else int (unat n) - 2 ^ 64)"
    "0 < sint n \<longleftrightarrow> 0 < unat n \<and> unat n < 2 ^ 63"
proof -
  show range: "sint n = (if unat n < 2 ^ 63 then int (unat n) else int (unat n) - 2 ^ 64)"
    using sint_small [of n] sint_large [of n] by (simp only: not_less split: if_split) simp
  have "uint n < 2 ^ 64" using uint_lt2p [of n] by simp
  then have "\<not> 0 < int (unat n) - 2 ^ 64" by simp
  then show "0 < sint n \<longleftrightarrow> 0 < unat n \<and> unat n < 2 ^ 63"
    unfolding range by (cases "unat n < 2 ^ 63") (simp_all only: if_True if_False of_nat_0_less_iff simp_thms)
qed

lemma plus_seconds_exact:
  "chrono_exact L \<Longrightarrow> unat n < 2 ^ 63 \<Longrightarrow> plus_seconds L t n = Inr t'
     \<Longrightarrow> t' = t + int (unat n) * nanos_per_sec"
  by (auto simp: plus_seconds_def sint_small split: option.splits dest: chrono_exactD)

lemma next_retry_at_None [simp]:
  "next_retry_at L p from attempt = Inr None \<longleftrightarrow> max_attempts p \<le> attempt"
  by (simp add: next_retry_at_def split: sum.splits)

lemma next_retry_at_SomeD:
  "next_retry_at L p from attempt = Inr (Some t) \<Longrightarrow>
     attempt < max_attempts p \<and> plus_seconds L from (delay_seconds (backoff p) attempt) = Inr t"
  by (auto simp: next_retry_at_def split: if_splits sum.splits)

text \<open>A retry is granted exactly while the attempt number is below \<open>max_attempts\<close>, and a
  granted retry is due exactly the documented delay after the failure (for delays below
  \<open>2^63\<close> seconds, where the cast to a signed number keeps the value).\<close>

theorem next_retry_at_exact:
  assumes "chrono_exact L" "0 < unat attempt"
    and "documented_delay (backoff p) (unat attempt) < 2 ^ 63"
    and "next_retry_at L p from attempt = Inr r"
  shows "r = (if max_attempts p \<le> attempt then None
              else Some (from + int (documented_delay (backoff p) (unat attempt)) * nanos_per_sec))"
proof (cases r)
  case None
  with assms(4) show ?thesis by simp
next
  case (Some t)
  with assms(4) have "attempt < max_attempts p"
    and t: "plus_seconds L from (delay_seconds (backoff p) attempt) = Inr t"
    by (auto dest: next_retry_at_SomeD)
  moreover from assms(1-3) have "t = from + int (documented_delay (backoff p) (unat attempt)) * nanos_per_sec"
    using plus_seconds_exact [OF _ _ t] by (simp add: delay_documented)
  ultimately show ?thesis using Some by simp
qed

theorem next_retry_at_exact_witness:
  "next_retry_at minute_libs default_retry 0 2 = Inr (Some 60000000000)
   \<and> Some 60000000000 = (if max_attempts default_retry \<le> 2 then None
        else Some (0 + int (documented_delay (backoff default_retry) (unat (2::u32))) * nanos_per_sec))"
proof
  show w: "next_retry_at minute_libs default_retry 0 2 = Inr (Some 60000000000)"
    by (simp add: next_retry_at_def plus_seconds_def delay_seconds_def default_retry_def
        minute_libs_def nanos_per_sec_def saturating_pow_def saturating_sub_def saturating_mul_def)
  show "Some 60000000000 = (if max_attempts default_retry \<le> 2 then None
        else Some (0 + int (documented_delay (backoff default_retry) (unat (2::u32))) * nanos_per_sec))"
    by (rule next_retry_at_exact [OF minute_libs_exact _ _ w]) (simp_all add: default_retry_def)
qed

end
