(* ===== verification/Kron_Schedule.thy ===== *)
theory Kron_Schedule
  imports Kron_Text Kron_Retry
begin

text \<open>
  schedule.rs: the four kinds of schedule, the next run time of each, and the parser of
  durations such as \<open>30m\<close>.  The cron engine, the time-zone database and chrono's date
  arithmetic are the parameter \<open>L\<close>.
\<close>

section \<open>Data and operations\<close>

datatype schedule =
    Cron (expr: string)
  | Every (every_seconds: u64)
  | At (at_time: datetime)
  | After (after_seconds: u64) (registered_at: datetime)

definition next_run_after ::
  "libs \<Rightarrow> schedule \<Rightarrow> datetime \<Rightarrow> string \<Rightarrow> datetime option res" where
  "next_run_after L s after tz =
     (if \<not> tz_known L tz then Inl (Err (InvalidTimezone tz))
      else case s of
        Cron e \<Rightarrow>
          let full_expr = ''0 '' @ e @ '' *''
          in (case cron_error L full_expr of
                Some msg \<Rightarrow> Inl (Err (InvalidCron msg))
              | None \<Rightarrow> Inr (cron_after L full_expr tz after))
      | Every seconds \<Rightarrow>
          (case plus_seconds L after seconds of
             Inl f \<Rightarrow> Inl f
           | Inr t \<Rightarrow> Inr (Some t))
      | At t \<Rightarrow> Inr (if after < t then Some t else None)
      | After seconds registered \<Rightarrow>
          (case plus_seconds L registered seconds of
             Inl f \<Rightarrow> Inl f
           | Inr fire_at \<Rightarrow> Inr (if after < fire_at then Some fire_at else None)))"

fun is_one_shot :: "schedule \<Rightarrow> bool" where
  "is_one_shot (At _) = True"
| "is_one_shot (After _ _) = True"
| "is_one_shot _ = False"

text \<open>One branch of the parser: the number before the unit, times the seconds of the unit.
  The multiplication wraps.\<close>

definition parse_scaled :: "string \<Rightarrow> string \<Rightarrow> u64 \<Rightarrow> u64 res" where
  "parse_scaled s stripped unit =
     (case parse_unsigned 64 stripped of
        None \<Rightarrow> Inl (Err (InvalidCron (''invalid duration: '' @ s)))
      | Some n \<Rightarrow> Inr (of_nat n * unit))"

definition parse_duration_str :: "string \<Rightarrow> u64 res" where
  "parse_duration_str s0 =
     (let s = trim s0 in
      case strip_suffix CHR ''s'' s of
        Some stripped \<Rightarrow> parse_scaled s stripped 1
      | None \<Rightarrow>
      case strip_suffix CHR ''m'' s of
        Some stripped \<Rightarrow> parse_scaled s stripped 60
      | None \<Rightarrow>
      case strip_suffix CHR ''h'' s of
        Some stripped \<Rightarrow> parse_scaled s stripped 3600
      | None \<Rightarrow>
      case strip_suffix CHR ''d'' s of
        Some stripped \<Rightarrow> parse_scaled s stripped 86400
      | None \<Rightarrow> Inl (Err (InvalidCron (''duration must end with s/m/h/d: '' @ s))))"

section \<open>Next runs\<close>

text \<open>The schedules whose next run lies in the future: every kind, but for intervals that
  are zero or that the cast to a signed number turns negative.\<close>

fun advancing :: "schedule \<Rightarrow> bool" where
  "advancing (Every s) \<longleftrightarrow> 0 < unat s \<and> unat s < 2 ^ 63"
| "advancing _ \<longleftrightarrow> True"

lemma next_run_after_tz:
  "next_run_after L s after tz = Inr r \<Longrightarrow> tz_known L tz"
  by (auto simp: next_run_after_def split: if_splits)

lemma nanos_pos [simp]: "0 < nanos_per_sec"
  by (simp add: nanos_per_sec_def)

lemma next_run_every:
  assumes "chrono_exact L" "next_run_after L (Every n) after tz = Inr (Some t)"
  shows "t = after + sint n * nanos_per_sec"
  using assms by (auto simp: next_run_after_def plus_seconds_def dest: chrono_exactD
      split: if_splits sum.splits option.splits)

lemma next_run_after_future:
  assumes "chrono_exact L" "cron_strict L" "next_run_after L s after tz = Inr (Some t)"
  shows "after < t \<longleftrightarrow> advancing s"
proof (cases s)
  case (Every n)
  with next_run_every assms(1,3) have "after < t \<longleftrightarrow> 0 < sint n * nanos_per_sec" by fastforce
  also have "\<dots> \<longleftrightarrow> 0 < sint n" by (simp add: zero_less_mult_iff nanos_per_sec_def)
  finally show ?thesis unfolding Every by (simp only: sint_range(2) advancing.simps)
qed (use assms in \<open>auto simp: next_run_after_def cron_strict_def Let_def
       split: if_splits option.splits sum.splits\<close>)

text \<open>C11: the next run of a schedule, with no restriction on the schedule.  In an unknown time zone
  the call fails and names the zone.  A next run lies strictly after the reference time exactly when
  the schedule is not an interval of zero seconds or of \<open>2\<^sup>6\<^sup>3\<close> seconds and more; an interval runs
  exactly its length later, where the length is read as a signed number, so that a zero interval runs
  at the reference time itself and an over-long one, where chrono can represent it, in the past.  A one-shot schedule never runs again
  once its run time has come.\<close>

theorem next_run_after_correct:
  assumes "chrono_exact L" "cron_strict L"
  shows "(\<not> tz_known L tz \<longrightarrow> next_run_after L s after tz = Inl (Err (InvalidTimezone tz)))
    \<and> (next_run_after L s after tz = Inr (Some t) \<longrightarrow>
         (after < t \<longleftrightarrow> advancing s)
         \<and> (\<forall>n. s = Every n \<longrightarrow>
              t = after + (if unat n < 2 ^ 63 then int (unat n) else int (unat n) - 2 ^ 64) * nanos_per_sec)
         \<and> (is_one_shot s \<longrightarrow> (\<forall>later \<ge> t. next_run_after L s later tz = Inr None)))"
proof (intro conjI impI allI)
  assume "\<not> tz_known L tz"
  then show "next_run_after L s after tz = Inl (Err (InvalidTimezone tz))"
    by (simp add: next_run_after_def)
next
  assume next_run: "next_run_after L s after tz = Inr (Some t)"
  with assms show "after < t \<longleftrightarrow> advancing s" by (rule next_run_after_future)
  show "t = after + (if unat n < 2 ^ 63 then int (unat n) else int (unat n) - 2 ^ 64) * nanos_per_sec"
    if "s = Every n" for n
    using next_run_every [OF assms(1)] next_run unfolding that sint_range(1) .
  show "next_run_after L s later tz = Inr None" if "is_one_shot s" "t \<le> later" for later
    using next_run that
    by (cases s) (auto simp: next_run_after_def split: if_splits sum.splits)
qed

theorem next_run_after_correct_witness:
  "next_run_after minute_libs (After 5 1000) 2000 ''UTC'' = Inr (Some 5000001000)
   \<and> next_run_after minute_libs (After 5 1000) 5000001000 ''UTC'' = Inr None
   \<and> next_run_after minute_libs (Every 0) 2000 ''UTC'' = Inr (Some 2000) \<and> \<not> advancing (Every 0)"
proof (intro conjI)
  show run: "next_run_after minute_libs (After 5 1000) 2000 ''UTC'' = Inr (Some 5000001000)"
    and zero: "next_run_after minute_libs (Every 0) 2000 ''UTC'' = Inr (Some 2000)"
    by (simp_all add: next_run_after_def plus_seconds_def minute_libs_def nanos_per_sec_def)
  show "next_run_after minute_libs (After 5 1000) 5000001000 ''UTC'' = Inr None"
    using next_run_after_correct [OF minute_libs_exact minute_libs_strict,
        of "''UTC''" "After 5 1000" 2000 5000001000] run by simp
  show "\<not> advancing (Every 0)"
    using next_run_after_correct [OF minute_libs_exact minute_libs_strict,
        of "''UTC''" "Every 0" 2000 2000] zero by simp
qed

section \<open>Durations\<close>

datatype unit_name = Seconds | Minutes | Hours | Days

fun unit_char :: "unit_name \<Rightarrow> char" where
  "unit_char Seconds = CHR ''s''"
| "unit_char Minutes = CHR ''m''"
| "unit_char Hours = CHR ''h''"
| "unit_char Days = CHR ''d''"

fun unit_secs :: "unit_name \<Rightarrow> nat" where
  "unit_secs Seconds = 1"
| "unit_secs Minutes = 60"
| "unit_secs Hours = 3600"
| "unit_secs Days = 86400"

definition show_duration :: "nat \<Rightarrow> unit_name \<Rightarrow> string" where
  "show_duration n u = show_nat n @ [unit_char u]"

lemma graphic_unit [simp]: "graphic (unit_char u)"
  by (cases u) (simp_all add: graphic_def)

lemma graphic_digit [simp]: "d < 10 \<Longrightarrow> graphic (digit_char d)"
  using of_char_digit [of d] by (simp add: graphic_def)

lemma trim_show_duration: "trim (show_duration n u) = show_duration n u"
proof -
  have "hd (show_nat n) \<in> set (show_nat n)" by simp
  then have "graphic (hd (show_nat n))"
    using show_nat_digits graphic_digit by metis
  then show ?thesis
    by (intro trim_graphic) (simp add: show_duration_def)
qed

lemma parse_scaled_show:
  "n < 2 ^ 64 \<Longrightarrow> parse_scaled s (show_nat n) k = Inr (of_nat n * k)"
  by (simp add: parse_scaled_def parse_show)

lemma parse_duration_shown:
  "n < 2 ^ 64 \<Longrightarrow>
     parse_duration_str (show_duration n u) = Inr (of_nat n * of_nat (unit_secs u))"
  unfolding parse_duration_str_def Let_def trim_show_duration
  by (cases u) (simp_all add: show_duration_def parse_scaled_show)

text \<open>A duration written as a number and a unit parses to the number of seconds it
  denotes, for every unit and every value whose seconds fit in 64 bits.\<close>

theorem parse_duration_roundtrip:
  assumes "n * unit_secs u < 2 ^ 64"
  shows "\<exists>w. parse_duration_str (show_duration n u) = Inr w \<and> unat w = n * unit_secs u"
proof -
  have "n * 1 \<le> n * unit_secs u" by (intro mult_le_mono2) (cases u; simp)
  with assms have "n < 2 ^ 64" by linarith
  then have "parse_duration_str (show_duration n u) = Inr (of_nat (n * unit_secs u))"
    by (simp add: parse_duration_shown)
  moreover have "unat (of_nat (n * unit_secs u) :: u64) = n * unit_secs u"
    using assms by (simp only: unat_of_nat) simp
  ultimately show ?thesis by blast
qed

theorem parse_duration_roundtrip_witness:
  "\<exists>w. parse_duration_str (show_duration 30 Minutes) = Inr w \<and> unat w = 1800"
  using parse_duration_roundtrip [of 30 Minutes] by simp

text \<open>The product wraps: a duration of \<open>2^64 + 44\<close> seconds is read as 44 seconds.\<close>

lemma parse_duration_wraps:
  "parse_duration_str (show_duration 307445734561825861 Minutes) = Inr 44"
  by (simp add: parse_duration_shown)

end
