(* ===== verification/Kron_Timer.thy ===== *)
theory Kron_Timer
  imports Kron_Schedule
begin

text \<open>
  timer.rs and event.rs: identifiers, the immutable specification of a timer, a run, the
  lifecycle states, the summary shown to users, and the events that the log records.
\<close>

section \<open>timer.rs\<close>

datatype timer_id = TimerId (timer_id_str: string)

datatype run_id = RunId (run_id_str: string)

text \<open>\<open>RunId::new\<close>: the ULID generator is outside the sources; \<open>ulid\<close> is the lower-case text
  of the identifier it produced.\<close>

definition new_run_id :: "string \<Rightarrow> run_id" where
  "new_run_id ulid = RunId (''run_'' @ ulid)"

datatype overlap_policy = Delay | Skip | Allow

definition default_overlap :: overlap_policy where
  "default_overlap = Delay"

record timer_spec =
  ts_id :: timer_id
  ts_schedule :: schedule
  ts_retry :: retry_policy
  ts_timezone :: string
  ts_created_at :: datetime
  ts_overlap :: overlap_policy

record run =
  run_ident :: run_id
  run_timer :: timer_id
  run_scheduled_at :: datetime
  run_started_at :: "datetime option"
  run_finished_at :: "datetime option"
  run_attempt :: u32

definition new_run :: "string \<Rightarrow> timer_id \<Rightarrow> datetime \<Rightarrow> run" where
  "new_run ulid tid scheduled =
     \<lparr>run_ident = new_run_id ulid, run_timer = tid, run_scheduled_at = scheduled,
      run_started_at = None, run_finished_at = None, run_attempt = 1\<rparr>"

text \<open>Milliseconds between two instants, not below zero.\<close>

definition millis_between :: "datetime \<Rightarrow> datetime \<Rightarrow> u64" where
  "millis_between start finish = of_int (max 0 ((finish - start) div 1000000))"

definition duration_ms :: "run \<Rightarrow> u64 option" where
  "duration_ms r =
     (case (run_started_at r, run_finished_at r) of
        (Some start, Some finish) \<Rightarrow> Some (millis_between start finish)
      | _ \<Rightarrow> None)"

datatype timer_state =
  Scheduled | Running | Retrying | Dead | Orphaned | Paused | Cancelled

record timer_summary =
  sum_id :: timer_id
  sum_state :: timer_state
  sum_fn_name :: "string option"
  sum_last_run_at :: "datetime option"
  sum_last_duration_ms :: "u64 option"
  sum_last_status :: "string option"
  sum_next_run_at :: "datetime option"
  sum_retries_last_7d :: u32

section \<open>event.rs\<close>

datatype event =
    TimerCreated timer_spec
  | TimerUpdated timer_spec
  | TimerPaused timer_id datetime
  | TimerResumed timer_id datetime
  | TimerCancelled timer_id datetime
  | RunDue timer_id run_id datetime
  | RunStarted timer_id run_id datetime u32
  | RunSkippedOverlap timer_id run_id datetime datetime
  | RunSucceeded timer_id run_id datetime u64
  | RunFailed timer_id run_id datetime string u32
  | RunRetrying timer_id run_id u32 datetime
  | RunDead timer_id run_id datetime

record log_entry =
  le_v :: u8
  le_ts :: datetime
  le_event :: event

definition new_log_entry :: "datetime \<Rightarrow> event \<Rightarrow> log_entry" where
  "new_log_entry now e = \<lparr>le_v = 1, le_ts = now, le_event = e\<rparr>"

text \<open>The timer an event is about.\<close>

fun event_timer :: "event \<Rightarrow> timer_id" where
  "event_timer (TimerCreated spec) = ts_id spec"
| "event_timer (TimerUpdated spec) = ts_id spec"
| "event_timer (TimerPaused t _) = t"
| "event_timer (TimerResumed t _) = t"
| "event_timer (TimerCancelled t _) = t"
| "event_timer (RunDue t _ _) = t"
| "event_timer (RunStarted t _ _ _) = t"
| "event_timer (RunSkippedOverlap t _ _ _) = t"
| "event_timer (RunSucceeded t _ _ _) = t"
| "event_timer (RunFailed t _ _ _ _) = t"
| "event_timer (RunRetrying t _ _ _) = t"
| "event_timer (RunDead t _ _) = t"

lemma new_log_entry_simps [simp]:
  "le_event (new_log_entry now e) = e" "le_ts (new_log_entry now e) = now"
  "le_v (new_log_entry now e) = 1"
  by (simp_all add: new_log_entry_def)

end
