(* ===== verification/Kron_Binary_Heap.thy ===== *)
theory Kron_Binary_Heap
  imports Kron_Prelude
begin

text \<open>
  The \<open>BinaryHeap\<close> of the Rust standard library on its array, for elements wrapped in
  \<open>Reverse\<close> and compared by a key: the parent of every element has a key that is not
  greater.  The sift loops are those of the library (sift up; sift down to the bottom and
  back up, as \<open>pop\<close> does; sift down in place, as \<open>rebuild\<close> does); moving the hole is written
  as a swap.
\<close>

section \<open>The sift loops\<close>

definition swap :: "nat \<Rightarrow> nat \<Rightarrow> 'a list \<Rightarrow> 'a list" where
  "swap i j xs = xs[i := xs ! j, j := xs ! i]"

lemma length_swap [simp]: "length (swap i j xs) = length xs"
  by (simp add: swap_def)

lemma mset_swap_eq [simp]: "i < length xs \<Longrightarrow> j < length xs \<Longrightarrow> mset (swap i j xs) = mset xs"
  by (simp add: swap_def mset_swap)

lemma nth_swap:
  "i < length xs \<Longrightarrow> j < length xs \<Longrightarrow>
     swap i j xs ! n = (if n = j then xs ! i else if n = i then xs ! j else xs ! n)"
  by (auto simp: swap_def nth_list_update)

fun sift_up :: "('a \<Rightarrow> 'k::linorder) \<Rightarrow> nat \<Rightarrow> 'a list \<Rightarrow> 'a list" where
  "sift_up key pos xs =
     (if pos = 0 then xs
      else let parent = (pos - 1) div 2 in
           if key (xs ! parent) \<le> key (xs ! pos) then xs
           else sift_up key parent (swap pos parent xs))"

declare sift_up.simps [simp del]

text \<open>The index of the child to follow: the right one when its key is not greater.\<close>

definition lesser_child :: "('a \<Rightarrow> 'k::linorder) \<Rightarrow> nat \<Rightarrow> 'a list \<Rightarrow> nat" where
  "lesser_child key child xs = (if key (xs ! (child + 1)) \<le> key (xs ! child) then child + 1 else child)"

lemma lesser_child_cases: "lesser_child key child xs = child \<or> lesser_child key child xs = child + 1"
  by (simp add: lesser_child_def)

lemma lesser_child_bounds:
  "child \<le> lesser_child key child xs" "lesser_child key child xs \<le> child + 1"
  by (simp_all add: lesser_child_def)

lemma lesser_child_below: "child = 2 * pos + 1 \<Longrightarrow> pos < lesser_child key child xs"
  by (simp add: lesser_child_def)

function sink :: "('a \<Rightarrow> 'k::linorder) \<Rightarrow> nat \<Rightarrow> 'a list \<Rightarrow> 'a list \<times> nat" where
  "sink key pos xs =
     (let child = 2 * pos + 1 in
      if child + 1 < length xs
      then (let c = lesser_child key child xs in sink key c (swap pos c xs))
      else if child + 1 = length xs then (swap pos child xs, child)
      else (xs, pos))"
  by pat_completeness auto
termination
  by (relation "measure (\<lambda>(key, pos, xs). length xs - pos)") (auto intro!: diff_less_mono2 lesser_child_below)

declare sink.simps [simp del]

text \<open>\<open>sift_down_to_bottom\<close>: to a leaf first, then up again.\<close>

definition sift_down_to_bottom :: "('a \<Rightarrow> 'k::linorder) \<Rightarrow> 'a list \<Rightarrow> 'a list" where
  "sift_down_to_bottom key xs = (let (ys, pos) = sink key 0 xs in sift_up key pos ys)"

function sift_down :: "('a \<Rightarrow> 'k::linorder) \<Rightarrow> nat \<Rightarrow> 'a list \<Rightarrow> 'a list" where
  "sift_down key pos xs =
     (let child = 2 * pos + 1 in
      if child + 1 < length xs
      then (let c = lesser_child key child xs in
            if key (xs ! pos) \<le> key (xs ! c) then xs
            else sift_down key c (swap pos c xs))
      else if child + 1 = length xs \<and> key (xs ! child) < key (xs ! pos)
      then swap pos child xs
      else xs)"
  by pat_completeness auto
termination
  by (relation "measure (\<lambda>(key, pos, xs). length xs - pos)") (auto intro!: diff_less_mono2 lesser_child_below)

declare sift_down.simps [simp del]

fun rebuild_from :: "('a \<Rightarrow> 'k::linorder) \<Rightarrow> nat \<Rightarrow> 'a list \<Rightarrow> 'a list" where
  "rebuild_from key 0 xs = xs"
| "rebuild_from key (Suc n) xs = rebuild_from key n (sift_down key n xs)"

section \<open>The operations\<close>

definition heap_push :: "('a \<Rightarrow> 'k::linorder) \<Rightarrow> 'a \<Rightarrow> 'a list \<Rightarrow> 'a list" where
  "heap_push key x xs = sift_up key (length xs) (xs @ [x])"

definition heap_peek :: "'a list \<Rightarrow> 'a option" where
  "heap_peek xs = (case xs of [] \<Rightarrow> None | x # _ \<Rightarrow> Some x)"

definition heap_pop :: "('a \<Rightarrow> 'k::linorder) \<Rightarrow> 'a list \<Rightarrow> ('a \<times> 'a list) option" where
  "heap_pop key xs =
     (if xs = [] then None
      else let item = last xs; rest = butlast xs in
           if rest = [] then Some (item, rest)
           else Some (rest ! 0, sift_down_to_bottom key (rest[0 := item])))"

text \<open>\<open>extend\<close> of an empty heap: all elements are new, so the library rebuilds the array.\<close>

definition heap_from_list :: "('a \<Rightarrow> 'k::linorder) \<Rightarrow> 'a list \<Rightarrow> 'a list" where
  "heap_from_list key xs = rebuild_from key (length xs div 2) xs"

section \<open>Elements are kept\<close>

lemma mset_sift_up: "pos < length xs \<Longrightarrow> mset (sift_up key pos xs) = mset xs"
proof (induction key pos xs rule: sift_up.induct)
  case (1 key pos xs)
  then show ?case by (subst sift_up.simps) (auto simp: Let_def)
qed

lemma sink_props:
  "pos < length xs \<Longrightarrow>
     mset (fst (sink key pos xs)) = mset xs \<and> snd (sink key pos xs) < length xs"
proof (induction key pos xs rule: sink.induct)
  case (1 key pos xs)
  then show ?case
    using lesser_child_bounds [where child = "2 * pos + 1" and key = key and xs = xs]
    by (subst (1 2) sink.simps) (auto simp: Let_def)
qed

lemma length_sink: "length (fst (sink key pos xs)) = length xs"
proof (induction key pos xs rule: sink.induct)
  case (1 key pos xs)
  then show ?case by (subst sink.simps) (auto simp: Let_def)
qed

lemma mset_sift_down_to_bottom: "xs \<noteq> [] \<Longrightarrow> mset (sift_down_to_bottom key xs) = mset xs"
  using sink_props [of 0 xs key] length_sink [of key 0 xs]
  by (auto simp: sift_down_to_bottom_def mset_sift_up split: prod.splits)

lemma mset_sift_down: "pos < length xs \<Longrightarrow> mset (sift_down key pos xs) = mset xs"
proof (induction key pos xs rule: sift_down.induct)
  case (1 key pos xs)
  then show ?case
    using lesser_child_bounds [where child = "2 * pos + 1" and key = key and xs = xs]
    by (subst sift_down.simps) (auto simp: Let_def)
qed

lemma length_sift_down: "length (sift_down key pos xs) = length xs"
proof (induction key pos xs rule: sift_down.induct)
  case (1 key pos xs)
  then show ?case by (subst sift_down.simps) (auto simp: Let_def)
qed

lemma mset_rebuild: "n \<le> length xs \<Longrightarrow> mset (rebuild_from key n xs) = mset xs"
proof (induction n arbitrary: xs)
  case (Suc n)
  then show ?case by (simp add: mset_sift_down length_sift_down)
qed simp

section \<open>The heap order\<close>

definition par :: "nat \<Rightarrow> nat" where
  "par i = (i - 1) div 2"

lemma par_less: "0 < i \<Longrightarrow> par i < i"
  by (simp add: par_def)

lemma par_le: "par i \<le> i"
  by (simp add: par_def)

lemma par_eq_iff: "0 < i \<Longrightarrow> par i = p \<longleftrightarrow> i = 2 * p + 1 \<or> i = 2 * p + 2"
  by (auto simp: par_def)

text \<open>The edges of the tree with their parent at \<open>n\<close> or later, but for those in \<open>A\<close>.\<close>

definition edges_ok :: "('a \<Rightarrow> 'k::linorder) \<Rightarrow> nat \<Rightarrow> (nat \<Rightarrow> bool) \<Rightarrow> 'a list \<Rightarrow> bool" where
  "edges_ok key n P xs \<longleftrightarrow>
     (\<forall>i. 0 < i \<longrightarrow> i < length xs \<longrightarrow> n \<le> par i \<longrightarrow> P i \<longrightarrow> key (xs ! par i) \<le> key (xs ! i))"

definition is_heap :: "('a \<Rightarrow> 'k::linorder) \<Rightarrow> 'a list \<Rightarrow> bool" where
  "is_heap key xs = edges_ok key 0 (\<lambda>_. True) xs"

text \<open>The children of \<open>pos\<close> are in order with its parent.\<close>

definition bridge_ok :: "('a \<Rightarrow> 'k::linorder) \<Rightarrow> nat \<Rightarrow> nat \<Rightarrow> 'a list \<Rightarrow> bool" where
  "bridge_ok key n pos xs \<longleftrightarrow>
     (\<forall>i. 0 < i \<longrightarrow> i < length xs \<longrightarrow> par i = pos \<longrightarrow> 0 < pos \<longrightarrow> n \<le> par pos
        \<longrightarrow> key (xs ! par pos) \<le> key (xs ! i))"

lemma edges_okD:
  "edges_ok key n P xs \<Longrightarrow> 0 < i \<Longrightarrow> i < length xs \<Longrightarrow> n \<le> par i \<Longrightarrow> P i
     \<Longrightarrow> key (xs ! par i) \<le> key (xs ! i)"
  by (simp add: edges_ok_def)

lemma bridge_okD:
  "bridge_ok key n pos xs \<Longrightarrow> 0 < i \<Longrightarrow> i < length xs \<Longrightarrow> par i = pos \<Longrightarrow> 0 < pos \<Longrightarrow> n \<le> par pos
     \<Longrightarrow> key (xs ! par pos) \<le> key (xs ! i)"
  by (simp add: bridge_ok_def)

text \<open>One step up.\<close>

lemma sift_up_step:
  assumes pos: "0 < pos" "pos < length xs"
    and gt: "key (xs ! pos) < key (xs ! par pos)"
    and e: "edges_ok key 0 (\<lambda>i. i \<noteq> pos) xs" and b: "bridge_ok key 0 pos xs"
  shows "edges_ok key 0 (\<lambda>i. i \<noteq> par pos) (swap pos (par pos) xs)"
    and "bridge_ok key 0 (par pos) (swap pos (par pos) xs)"
proof -
  let ?p = "par pos" and ?ys = "swap pos (par pos) xs"
  have p: "?p < length xs" "?p < pos" using pos par_less [OF pos(1)] by linarith+
  have ys: "?ys ! n = (if n = ?p then xs ! pos else if n = pos then xs ! ?p else xs ! n)" for n
    by (rule nth_swap [OF pos(2) p(1)])
  show "edges_ok key 0 (\<lambda>i. i \<noteq> ?p) ?ys"
    unfolding edges_ok_def
  proof (intro allI impI)
    fix i assume i: "0 < i" "i < length ?ys" "i \<noteq> ?p"
    have le: "i \<noteq> pos \<Longrightarrow> key (xs ! par i) \<le> key (xs ! i)" using edges_okD [OF e] i by simp
    have br: "par i = pos \<Longrightarrow> key (xs ! ?p) \<le> key (xs ! i)" using bridge_okD [OF b] i pos by simp
    show "key (?ys ! par i) \<le> key (?ys ! i)"
    proof (cases "i = pos")
      case True
      then show ?thesis using p gt by (simp add: ys)
    next
      case False
      have "par i = ?p \<Longrightarrow> key (xs ! pos) \<le> key (xs ! i)" using le False gt by simp
      then show ?thesis using False i le br by (auto simp: ys)
    qed
  qed
  show "bridge_ok key 0 ?p ?ys"
    unfolding bridge_ok_def
  proof (intro allI impI)
    fix i assume i: "0 < i" "i < length ?ys" "par i = ?p" "0 < ?p"
    have pp: "key (xs ! par ?p) \<le> key (xs ! ?p)"
      using edges_okD [OF e, of ?p] i p by simp
    have "i \<noteq> pos \<Longrightarrow> key (xs ! ?p) \<le> key (xs ! i)" using edges_okD [OF e, of i] i by simp
    moreover have "par ?p \<noteq> ?p" "par ?p \<noteq> pos" "i \<noteq> ?p"
      using i p par_less [of ?p] par_less [of i] by auto
    ultimately show "key (?ys ! par ?p) \<le> key (?ys ! i)"
      using pp by (cases "i = pos") (auto simp: ys)
  qed
qed

lemma sift_up_heap:
  "pos < length xs \<Longrightarrow> edges_ok key 0 (\<lambda>i. i \<noteq> pos) xs \<Longrightarrow> bridge_ok key 0 pos xs
     \<Longrightarrow> is_heap key (sift_up key pos xs)"
proof (induction key pos xs rule: sift_up.induct)
  case (1 key pos xs)
  show ?case
  proof (cases "0 < pos \<and> key (xs ! pos) < key (xs ! par pos)")
    case True
    with "1.prems" have "edges_ok key 0 (\<lambda>i. i \<noteq> par pos) (swap pos (par pos) xs)"
      "bridge_ok key 0 (par pos) (swap pos (par pos) xs)" using sift_up_step by blast+
    moreover have "par pos < length (swap pos (par pos) xs)"
      using "1.prems" True par_less [of pos] by simp
    ultimately have "is_heap key (sift_up key (par pos) (swap pos (par pos) xs))"
      using True "1.IH" [OF _ refl] by (simp add: par_def not_le)
    with True show ?thesis
      by (subst sift_up.simps) (auto simp: par_def Let_def)
  next
    case False
    with "1.prems"(2) have "is_heap key xs"
      by (auto simp: is_heap_def edges_ok_def not_less)
    with False show ?thesis
      by (subst sift_up.simps) (auto simp: par_def Let_def)
  qed
qed

text \<open>One step down along the lesser child.\<close>

lemma lesser_child_le:
  "child = 2 * pos + 1 \<Longrightarrow> 0 < i \<Longrightarrow> par i = pos \<Longrightarrow>
     key (xs ! lesser_child key child xs) \<le> key (xs ! i)"
  by (auto simp: lesser_child_def par_eq_iff)

lemma sink_step:
  assumes c: "c < length xs" "0 < c" "par c = pos" "\<And>i. 0 < i \<Longrightarrow> i < length xs \<Longrightarrow> par i = pos \<Longrightarrow> key (xs ! c) \<le> key (xs ! i)"
    and e: "edges_ok key n (\<lambda>i. i \<noteq> pos \<and> par i \<noteq> pos) xs" and b: "bridge_ok key n pos xs"
    and n: "n \<le> pos"
  shows "edges_ok key n (\<lambda>i. i \<noteq> c \<and> par i \<noteq> c) (swap pos c xs)"
    and "bridge_ok key n c (swap pos c xs)"
proof -
  let ?ys = "swap pos c xs"
  have p: "pos < length xs" "pos < c" using c par_less [of c] by auto
  have ys: "?ys ! k = (if k = c then xs ! pos else if k = pos then xs ! c else xs ! k)" for k
    using p c by (simp add: nth_swap)
  show "edges_ok key n (\<lambda>i. i \<noteq> c \<and> par i \<noteq> c) ?ys"
    unfolding edges_ok_def
  proof (intro allI impI)
    fix i assume i: "0 < i" "i < length ?ys" "n \<le> par i" "i \<noteq> c \<and> par i \<noteq> c"
    consider "i = pos" | "par i = pos" "i \<noteq> pos" | "i \<noteq> pos" "par i \<noteq> pos" by blast
    then show "key (?ys ! par i) \<le> key (?ys ! i)"
    proof cases
      case 1
      then show ?thesis using i p bridge_okD [OF b c(2,1,3)] par_less [of i] by (auto simp: ys)
    next
      case 2
      then show ?thesis using i c(4) [of i] by (simp add: ys)
    next
      case 3
      then show ?thesis using i edges_okD [OF e, of i] by (simp add: ys)
    qed
  qed
  show "bridge_ok key n c ?ys"
    unfolding bridge_ok_def
  proof (intro allI impI)
    fix i assume i: "0 < i" "i < length ?ys" "par i = c"
    then have "i \<noteq> c" "i \<noteq> pos" using p par_less [of i] by auto
    then show "key (?ys ! par c) \<le> key (?ys ! i)"
      using i p c n edges_okD [OF e, of i] by (simp add: ys)
  qed
qed

lemma no_children_edges:
  assumes "edges_ok key n (\<lambda>i. i \<noteq> pos \<and> par i \<noteq> pos) xs" "length xs \<le> 2 * pos + 1"
  shows "edges_ok key n (\<lambda>i. i \<noteq> pos) xs \<and> bridge_ok key n pos xs"
  using assms by (auto simp: edges_ok_def bridge_ok_def par_eq_iff)

lemma sink_up_ok:
  "edges_ok key 0 (\<lambda>i. i \<noteq> pos \<and> par i \<noteq> pos) xs \<Longrightarrow> bridge_ok key 0 pos xs \<Longrightarrow>
     edges_ok key 0 (\<lambda>i. i \<noteq> snd (sink key pos xs)) (fst (sink key pos xs))
     \<and> bridge_ok key 0 (snd (sink key pos xs)) (fst (sink key pos xs))"
proof (induction key pos xs rule: sink.induct)
  case (1 key pos xs)
  let ?child = "2 * pos + 1" let ?c = "lesser_child key ?child xs"
  consider "?child + 1 < length xs" | "?child + 1 = length xs" | "length xs \<le> ?child" by linarith
  then show ?case
  proof cases
    case 1
    have "?c < length xs" "0 < ?c" "par ?c = pos"
      using 1 lesser_child_cases [of key ?child xs] by (auto simp: par_eq_iff lesser_child_def)
    then have "edges_ok key 0 (\<lambda>i. i \<noteq> ?c \<and> par i \<noteq> ?c) (swap pos ?c xs)" "bridge_ok key 0 ?c (swap pos ?c xs)"
      using sink_step [of ?c xs pos key 0] "1.prems" lesser_child_le by blast+
    with "1.IH" [OF refl 1 refl] 1 show ?thesis by (subst (1 2 3 4) sink.simps) (simp add: Let_def)
  next
    case 2
    have "edges_ok key 0 (\<lambda>i. i \<noteq> ?child \<and> par i \<noteq> ?child) (swap pos ?child xs)"
      using 2 sink_step(1) [of ?child xs pos key 0] "1.prems" by (auto simp: par_eq_iff)
    from no_children_edges [OF this] 2 show ?thesis
      by (subst (1 2 3 4) sink.simps) (simp add: Let_def)
  next
    case 3
    with no_children_edges [OF "1.prems"(1)] show ?thesis
      by (subst (1 2 3 4) sink.simps) (simp add: Let_def)
  qed
qed

lemma sift_down_to_bottom_heap:
  assumes "xs \<noteq> []" "edges_ok key 0 (\<lambda>i. par i \<noteq> 0) xs"
  shows "is_heap key (sift_down_to_bottom key xs)"
proof -
  have "edges_ok key 0 (\<lambda>i. i \<noteq> 0 \<and> par i \<noteq> 0) xs" "bridge_ok key 0 0 xs"
    using assms(2) by (simp_all add: edges_ok_def bridge_ok_def)
  from sink_up_ok [OF this] sink_props [of 0 xs key] length_sink [of key 0 xs] assms(1)
  show ?thesis
    by (auto simp: sift_down_to_bottom_def sift_up_heap split: prod.splits)
qed

text \<open>Sifting down inside the part of the array from \<open>n\<close> on.\<close>

lemma sift_down_step_edges:
  assumes c: "c < length xs" "0 < c" "par c = pos"
    and le: "\<And>i. 0 < i \<Longrightarrow> i < length xs \<Longrightarrow> par i = pos \<Longrightarrow> key (xs ! c) \<le> key (xs ! i)"
    and gt: "key (xs ! c) < key (xs ! pos)"
    and e: "edges_ok key n (\<lambda>i. par i \<noteq> pos) xs" and b: "bridge_ok key n pos xs" and n: "n \<le> pos"
  shows "edges_ok key n (\<lambda>i. par i \<noteq> c) (swap pos c xs)"
  unfolding edges_ok_def
proof (intro allI impI)
  fix i assume i: "0 < i" "i < length (swap pos c xs)" "n \<le> par i" "par i \<noteq> c"
  have p: "pos < length xs" "pos < c" using c par_less [OF c(2)] by linarith+
  from e have "edges_ok key n (\<lambda>i. i \<noteq> pos \<and> par i \<noteq> pos) xs" by (simp add: edges_ok_def)
  note sunk = sink_step(1) [where key = key and n = n, OF c le this b n]
  show "key (swap pos c xs ! par i) \<le> key (swap pos c xs ! i)"
  proof (cases "i = c")
    case True
    then show ?thesis using c(3) p gt nth_swap [OF p(1) c(1)] by simp
  next
    case False
    then show ?thesis using edges_okD [OF sunk i(1-3)] i(4) by blast
  qed
qed

text \<open>A position whose lesser child is not smaller is in order.\<close>

lemma edges_ok_settled:
  assumes "edges_ok key n (\<lambda>i. par i \<noteq> pos) xs"
    and "\<And>i. 0 < i \<Longrightarrow> i < length xs \<Longrightarrow> par i = pos \<Longrightarrow> key (xs ! pos) \<le> key (xs ! i)"
  shows "edges_ok key n (\<lambda>_. True) xs"
  using assms by (auto simp: edges_ok_def)

text \<open>A single child at the end of the array.\<close>

lemma sift_down_single:
  assumes one: "2 * pos + 2 = length xs" and "n \<le> pos" "edges_ok key n (\<lambda>i. par i \<noteq> pos) xs" "bridge_ok key n pos xs"
  shows "edges_ok key n (\<lambda>_. True) (sift_down key pos xs)"
proof -
  let ?child = "2 * pos + 1"
  have only: "i = ?child" if "0 < i" "i < length xs" "par i = pos" for i
    using that one by (auto simp: par_eq_iff)
  show ?thesis
  proof (cases "key (xs ! ?child) < key (xs ! pos)")
    case True
    have "edges_ok key n (\<lambda>i. par i \<noteq> ?child) (swap pos ?child xs)"
      using sift_down_step_edges [of ?child xs pos key n] True assms only by (auto simp: par_eq_iff)
    then have "edges_ok key n (\<lambda>_. True) (swap pos ?child xs)"
      using one by (auto simp: edges_ok_def par_eq_iff)
    with True one show ?thesis by (subst sift_down.simps) (simp add: Let_def)
  next
    case False
    then have "edges_ok key n (\<lambda>_. True) xs"
      using only by (intro edges_ok_settled [OF assms(3)]) (metis not_less)
    with False one show ?thesis by (subst sift_down.simps) (simp add: Let_def)
  qed
qed

lemma sift_down_edges:
  "n \<le> pos \<Longrightarrow> edges_ok key n (\<lambda>i. par i \<noteq> pos) xs \<Longrightarrow> bridge_ok key n pos xs
     \<Longrightarrow> edges_ok key n (\<lambda>_. True) (sift_down key pos xs)"
proof (induction key pos xs rule: sift_down.induct)
  case (1 key pos xs)
  let ?child = "2 * pos + 1" let ?c = "lesser_child key ?child xs"
  have e': "edges_ok key n (\<lambda>i. i \<noteq> pos \<and> par i \<noteq> pos) xs"
    using "1.prems"(2) by (simp add: edges_ok_def)
  consider (both) "?child + 1 < length xs" | (one) "2 * pos + 2 = length xs"
    | (none) "length xs \<le> ?child" by linarith
  then show ?case
  proof cases
    case both
    have c: "?c < length xs" "0 < ?c" "par ?c = pos"
      using both lesser_child_cases [of key ?child xs] by (auto simp: par_eq_iff lesser_child_def)
    have le: "0 < i \<Longrightarrow> i < length xs \<Longrightarrow> par i = pos \<Longrightarrow> key (xs ! ?c) \<le> key (xs ! i)" for i
      using lesser_child_le by blast
    show ?thesis
    proof (cases "key (xs ! pos) \<le> key (xs ! ?c)")
      case True
      then have "edges_ok key n (\<lambda>_. True) xs"
        using le by (intro edges_ok_settled [OF "1.prems"(2)]) (metis order.trans)
      with True both show ?thesis by (subst sift_down.simps) (simp add: Let_def)
    next
      case False
      then have "edges_ok key n (\<lambda>i. par i \<noteq> ?c) (swap pos ?c xs)"
        using sift_down_step_edges [where key = key and n = n, OF c le] "1.prems" not_le by blast
      moreover have "bridge_ok key n ?c (swap pos ?c xs)"
        using sink_step(2) [where key = key and n = n, OF c le e' "1.prems"(3,1)] .
      moreover have "n \<le> ?c" using "1.prems"(1) c par_less [OF c(2)] by linarith
      ultimately show ?thesis
        using "1.IH" [OF refl both refl False] False both
        by (subst sift_down.simps) (simp add: Let_def)
    qed
  next
    case one
    then show ?thesis using sift_down_single "1.prems" by blast
  next
    case none
    then have "edges_ok key n (\<lambda>_. True) xs"
      using "1.prems"(2) by (auto simp: edges_ok_def par_eq_iff)
    with none show ?thesis by (subst sift_down.simps) (simp add: Let_def)
  qed
qed

lemma rebuild_heap:
  "edges_ok key n (\<lambda>_. True) xs \<Longrightarrow> is_heap key (rebuild_from key n xs)"
proof (induction n arbitrary: xs)
  case (Suc n)
  have "edges_ok key n (\<lambda>i. par i \<noteq> n) xs"
    using Suc.prems by (auto simp: edges_ok_def)
  moreover have "bridge_ok key n n xs"
    using par_less [of n] by (auto simp: bridge_ok_def)
  ultimately have "edges_ok key n (\<lambda>_. True) (sift_down key n xs)"
    by (intro sift_down_edges) simp_all
  then show ?case using Suc.IH by simp
qed (simp add: is_heap_def)

section \<open>Correctness of the operations\<close>

lemma heap_head_least:
  assumes "is_heap key xs" "i < length xs"
  shows "key (xs ! 0) \<le> key (xs ! i)"
  using assms(2)
proof (induction i rule: less_induct)
  case (less i)
  show ?case
  proof (cases "i = 0")
    case False
    then have "par i < i" "par i < length xs" using less.prems par_less [of i] by linarith+
    then have "key (xs ! 0) \<le> key (xs ! par i)" using less.IH by blast
    also have "\<dots> \<le> key (xs ! i)"
      using assms(1) False less.prems by (simp add: is_heap_def edges_ok_def)
    finally show ?thesis .
  qed simp
qed

lemma is_heap_Nil [simp]: "is_heap key []"
  by (simp add: is_heap_def edges_ok_def)

lemma heap_push_heap: "is_heap key xs \<Longrightarrow> is_heap key (heap_push key x xs)"
  unfolding heap_push_def
proof (rule sift_up_heap)
  assume h: "is_heap key xs"
  show "edges_ok key 0 (\<lambda>i. i \<noteq> length xs) (xs @ [x])"
    unfolding edges_ok_def
  proof (intro allI impI)
    fix i assume i: "0 < i" "i < length (xs @ [x])" "i \<noteq> length xs"
    then have "i < length xs" "par i < length xs" using par_le [of i] by auto
    with h i show "key ((xs @ [x]) ! par i) \<le> key ((xs @ [x]) ! i)"
      by (simp add: nth_append is_heap_def edges_ok_def)
  qed
  show "bridge_ok key 0 (length xs) (xs @ [x])"
    by (auto simp: bridge_ok_def par_eq_iff)
qed simp

lemma mset_heap_push [simp]: "mset (heap_push key x xs) = add_mset x (mset xs)"
  by (simp add: heap_push_def mset_sift_up)

lemma heap_pop_Some:
  assumes "is_heap key xs" "heap_pop key xs = Some (x, ys)"
  shows "x = xs ! 0 \<and> xs \<noteq> [] \<and> mset xs = add_mset x (mset ys) \<and> is_heap key ys"
proof -
  from assms(2) obtain zs z where xs: "xs = zs @ [z]"
    by (cases xs rule: rev_cases) (auto simp: heap_pop_def)
  show ?thesis
  proof (cases zs)
    case Nil
    with assms(2) xs show ?thesis by (auto simp: heap_pop_def)
  next
    case (Cons w ws)
    with assms(2) xs have x: "x = w" and ys: "ys = sift_down_to_bottom key (z # ws)"
      by (auto simp: heap_pop_def Let_def)
    have "edges_ok key 0 (\<lambda>i. par i \<noteq> 0) (z # ws)"
      unfolding edges_ok_def
    proof (intro allI impI)
      fix i assume i: "0 < i" "i < length (z # ws)" "par i \<noteq> 0"
      then have "i < length xs" "par i < length zs" "i < length zs"
        using par_le [of i] xs Cons by auto
      moreover have "key (xs ! par i) \<le> key (xs ! i)"
        using assms(1) i(1) \<open>i < length xs\<close> by (simp add: is_heap_def edges_ok_def)
      ultimately have "key (zs ! par i) \<le> key (zs ! i)"
        unfolding xs by (simp add: nth_append)
      with i Cons show "key ((z # ws) ! par i) \<le> key ((z # ws) ! i)" by simp
    qed
    then have "is_heap key ys" unfolding ys by (intro sift_down_to_bottom_heap) simp_all
    with x ys xs Cons show ?thesis by (simp add: mset_sift_down_to_bottom)
  qed
qed

lemma heap_pop_None [simp]: "heap_pop key xs = None \<longleftrightarrow> xs = []"
  by (simp add: heap_pop_def Let_def)

lemma heap_peek_None [simp]: "heap_peek xs = None \<longleftrightarrow> xs = []"
  by (cases xs) (simp_all add: heap_peek_def)

lemma heap_peek_nth: "xs \<noteq> [] \<Longrightarrow> heap_peek xs = Some (xs ! 0)"
  by (cases xs) (simp_all add: heap_peek_def)

lemma length_heap_pop: "heap_pop key xs = Some (x, ys) \<Longrightarrow> length ys < length xs"
proof (cases xs rule: rev_cases)
  case (snoc zs z)
  assume "heap_pop key xs = Some (x, ys)"
  then show ?thesis
    using mset_sift_down_to_bottom [of "zs[0 := z]" key, THEN mset_eq_length]
    by (auto simp: snoc heap_pop_def Let_def split: if_splits)
qed (simp add: heap_pop_def)

lemma heap_from_list_heap: "is_heap key (heap_from_list key xs)"
  unfolding heap_from_list_def
proof (rule rebuild_heap)
  have "\<not> length xs div 2 \<le> par i" if "0 < i" "i < length xs" for i
    using that by (auto simp: par_def)
  then show "edges_ok key (length xs div 2) (\<lambda>_. True) xs"
    by (auto simp: edges_ok_def)
qed

lemma mset_heap_from_list [simp]: "mset (heap_from_list key xs) = mset xs"
  by (simp add: heap_from_list_def mset_rebuild)

section \<open>The interface\<close>

text \<open>What a client of a min-queue may rely on: the contents are a multiset, \<open>peek\<close> and
  \<open>pop\<close> give an element with the least key, \<open>push\<close> adds one.\<close>

locale min_queue =
  fixes key :: "'a \<Rightarrow> 'k::linorder"
    and inv :: "'q \<Rightarrow> bool"
    and contents :: "'q \<Rightarrow> 'a multiset"
    and push :: "'a \<Rightarrow> 'q \<Rightarrow> 'q"
    and peek :: "'q \<Rightarrow> 'a option"
    and pop :: "'q \<Rightarrow> ('a \<times> 'q) option"
  assumes push_inv: "inv q \<Longrightarrow> inv (push x q)"
    and push_contents: "inv q \<Longrightarrow> contents (push x q) = add_mset x (contents q)"
    and peek_None: "inv q \<Longrightarrow> peek q = None \<longleftrightarrow> contents q = {#}"
    and peek_least: "inv q \<Longrightarrow> peek q = Some x \<Longrightarrow> x \<in># contents q \<and> (\<forall>y \<in># contents q. key x \<le> key y)"
    and pop_peek: "inv q \<Longrightarrow> map_option fst (pop q) = peek q"
    and pop_inv: "inv q \<Longrightarrow> pop q = Some (x, q') \<Longrightarrow> inv q'"
    and pop_contents: "inv q \<Longrightarrow> pop q = Some (x, q') \<Longrightarrow> contents q = add_mset x (contents q')"

text \<open>A loop that pops while the least key is at most a bound.\<close>

locale due_queue = min_queue key inv contents push peek pop
  for key :: "'a \<Rightarrow> 'k::linorder" and inv :: "'q \<Rightarrow> bool" and contents :: "'q \<Rightarrow> 'a multiset"
    and push :: "'a \<Rightarrow> 'q \<Rightarrow> 'q" and peek :: "'q \<Rightarrow> 'a option"
    and pop :: "'q \<Rightarrow> ('a \<times> 'q) option" +
  fixes pop_until :: "'k \<Rightarrow> 'q \<Rightarrow> 'a list \<times> 'q"
  assumes pop_until_unfold: "pop_until b q =
    (case peek q of
       None \<Rightarrow> ([], q)
     | Some x \<Rightarrow> if key x \<le> b
                 then (case pop q of
                         None \<Rightarrow> ([], q)
                       | Some (y, q') \<Rightarrow> (case pop_until b q' of (ys, q'') \<Rightarrow> (y # ys, q'')))
                 else ([], q))"
begin

lemma pop_until_correct:
  assumes "inv q" "pop_until b q = (ys, q')"
  shows "inv q' \<and> mset ys = filter_mset (\<lambda>x. key x \<le> b) (contents q)
         \<and> contents q' = filter_mset (\<lambda>x. \<not> key x \<le> b) (contents q)
         \<and> sorted (map key ys)"
  using assms
proof (induction "size (contents q)" arbitrary: q ys rule: less_induct)
  case less
  show ?case
  proof (cases "peek q")
    case None
    then have "contents q = {#}" using peek_None less.prems(1) by blast
    with None less.prems show ?thesis by (simp add: pop_until_unfold [of b q])
  next
    case (Some x)
    note least = peek_least [OF less.prems(1) Some]
    show ?thesis
    proof (cases "key x \<le> b")
      case False
      have "filter_mset (\<lambda>y. key y \<le> b) (contents q) = {#}"
        using least False by (auto simp: filter_mset_eq_conv)
      moreover have "filter_mset (\<lambda>y. \<not> key y \<le> b) (contents q) = contents q"
        using least False by (auto simp: filter_mset_eq_conv)
      ultimately show ?thesis using False Some less.prems by (simp add: pop_until_unfold [of b q])
    next
      case True
      from pop_peek [OF less.prems(1)] Some obtain q1 where pop: "pop q = Some (x, q1)"
        by (auto simp: map_option_case split: option.splits)
      obtain ys1 where rec: "pop_until b q1 = (ys1, q')" "ys = x # ys1"
        using less.prems(2) Some True pop by (auto simp: pop_until_unfold [of b q] split: prod.splits)
      note inv1 = pop_inv [OF less.prems(1) pop] and cont = pop_contents [OF less.prems(1) pop]
      have IH: "inv q'" "mset ys1 = filter_mset (\<lambda>x. key x \<le> b) (contents q1)"
        "contents q' = filter_mset (\<lambda>x. \<not> key x \<le> b) (contents q1)" "sorted (map key ys1)"
        using less.hyps [OF _ inv1 rec(1)] cont by auto
      have "key x \<le> key y" if "y \<in> set ys1" for y
      proof -
        from that have "y \<in># mset ys1" by simp
        with IH(2) have "y \<in># contents q1" by simp
        with least cont show ?thesis by simp
      qed
      then show ?thesis using IH True rec(2) cont by simp
    qed
  qed
qed

end

interpretation bh: min_queue key "is_heap key" mset "heap_push key" heap_peek "heap_pop key"
  for key :: "'a \<Rightarrow> 'k::linorder"
proof
  fix xs :: "'a list" and x assume h: "is_heap key xs"
  show "is_heap key (heap_push key x xs)" using h by (rule heap_push_heap)
  show "mset (heap_push key x xs) = add_mset x (mset xs)" by simp
  show "heap_peek xs = None \<longleftrightarrow> mset xs = {#}" by simp
  show "map_option fst (heap_pop key xs) = heap_peek xs"
    using heap_pop_Some [OF h] heap_peek_nth [of xs]
    by (cases "heap_pop key xs") (auto simp: heap_peek_def)
next
  fix xs :: "'a list" and x assume h: "is_heap key xs" and p: "heap_peek xs = Some x"
  then have "xs \<noteq> []" "x = xs ! 0" using heap_peek_nth [of xs] by (auto simp: heap_peek_def split: list.splits)
  then show "x \<in># mset xs \<and> (\<forall>y \<in># mset xs. key x \<le> key y)"
    using heap_head_least [OF h] by (auto simp: in_set_conv_nth)
next
  fix xs :: "'a list" and x ys assume h: "is_heap key xs" and p: "heap_pop key xs = Some (x, ys)"
  then show "is_heap key ys" "mset xs = add_mset x (mset ys)" using heap_pop_Some [OF h p] by simp_all
qed

end
