(* ===== verification/Kron_Heap.thy ===== *)
theory Kron_Heap
  imports Kron_Timer Kron_Binary_Heap
begin

text \<open>
  heap.rs: the queue of pending timers, a binary heap of entries ordered by their run time.
\<close>

section \<open>Data and operations\<close>

record scheduled_timer =
  st_timer_id :: timer_id
  st_next_run_at :: datetime
  st_run_id :: "run_id option"
  st_attempt :: u32

type_synonym timer_heap = "scheduled_timer list"

definition new_heap :: timer_heap where
  "new_heap = []"

definition push :: "scheduled_timer \<Rightarrow> timer_heap \<Rightarrow> timer_heap" where
  "push entry h = heap_push st_next_run_at entry h"

definition peek_next_at :: "timer_heap \<Rightarrow> datetime option" where
  "peek_next_at h = map_option st_next_run_at (heap_peek h)"

function pop_due :: "datetime \<Rightarrow> timer_heap \<Rightarrow> scheduled_timer list \<times> timer_heap" where
  "pop_due now h =
     (case heap_peek h of
        None \<Rightarrow> ([], h)
      | Some entry \<Rightarrow>
          if st_next_run_at entry \<le> now
          then (case heap_pop st_next_run_at h of
                  None \<Rightarrow> ([], h)
                | Some (popped, h') \<Rightarrow> (case pop_due now h' of (due, h'') \<Rightarrow> (popped # due, h'')))
          else ([], h))"
  by pat_completeness auto
termination
  by (relation "measure (length \<circ> snd)") (auto dest: length_heap_pop)

declare pop_due.simps [simp del]

definition remove_timer :: "timer_id \<Rightarrow> timer_heap \<Rightarrow> timer_heap" where
  "remove_timer tid h =
     (let kept = filter (\<lambda>e. st_timer_id e \<noteq> tid) h in heap_from_list st_next_run_at kept)"

definition heap_len :: "timer_heap \<Rightarrow> nat" where
  "heap_len h = length h"

definition heap_is_empty :: "timer_heap \<Rightarrow> bool" where
  "heap_is_empty h \<longleftrightarrow> h = []"

text \<open>The invariant of the array.\<close>

definition wf_heap :: "timer_heap \<Rightarrow> bool" where
  "wf_heap h = is_heap st_next_run_at h"

section \<open>Correctness\<close>

interpretation th: due_queue st_next_run_at wf_heap mset push heap_peek
  "heap_pop st_next_run_at" pop_due
proof
  fix h h' :: timer_heap and x now
  show "wf_heap h \<Longrightarrow> wf_heap (push x h)"
    by (simp add: wf_heap_def push_def bh.push_inv)
  show "wf_heap h \<Longrightarrow> mset (push x h) = add_mset x (mset h)"
    by (simp add: push_def)
  show "wf_heap h \<Longrightarrow> heap_peek h = None \<longleftrightarrow> mset h = {#}"
    by simp
  show "wf_heap h \<Longrightarrow> heap_peek h = Some x \<Longrightarrow>
          x \<in># mset h \<and> (\<forall>y \<in># mset h. st_next_run_at x \<le> st_next_run_at y)"
    unfolding wf_heap_def by (rule bh.peek_least)
  show "wf_heap h \<Longrightarrow> map_option fst (heap_pop st_next_run_at h) = heap_peek h"
    unfolding wf_heap_def by (rule bh.pop_peek)
  show "wf_heap h \<Longrightarrow> heap_pop st_next_run_at h = Some (x, h') \<Longrightarrow> wf_heap h'"
    unfolding wf_heap_def by (rule bh.pop_inv)
  show "wf_heap h \<Longrightarrow> heap_pop st_next_run_at h = Some (x, h') \<Longrightarrow> mset h = add_mset x (mset h')"
    unfolding wf_heap_def by (rule bh.pop_contents)
  show "pop_due now h =
    (case heap_peek h of
       None \<Rightarrow> ([], h)
     | Some x \<Rightarrow> if st_next_run_at x \<le> now
                 then (case heap_pop st_next_run_at h of
                         None \<Rightarrow> ([], h)
                       | Some (y, h') \<Rightarrow> (case pop_due now h' of (ys, h'') \<Rightarrow> (y # ys, h'')))
                 else ([], h))"
    by (rule pop_due.simps)
qed

lemma wf_new_heap [simp]: "wf_heap new_heap"
  by (simp add: wf_heap_def new_heap_def)

lemma wf_remove_timer [simp]: "wf_heap (remove_timer tid h)"
  by (simp add: wf_heap_def remove_timer_def heap_from_list_heap)

lemma mset_remove_timer [simp]:
  "mset (remove_timer tid h) = filter_mset (\<lambda>e. st_timer_id e \<noteq> tid) (mset h)"
  by (simp add: remove_timer_def)

lemma mset_push [simp]: "mset (push e h) = add_mset e (mset h)"
  by (simp add: push_def)

lemma set_push [simp]: "set (push e h) = insert e (set h)"
  using mset_push [of e h] by (metis set_mset_add_mset_insert set_mset_mset)

text \<open>C7: popping the due timers of a well-formed heap returns exactly the entries whose time
  has come, with their multiplicities and in chronological order, and leaves a well-formed heap
  of exactly the others; the next deadline it reports lies after the given time.\<close>

theorem pop_due_correct:
  assumes "wf_heap h" "pop_due now h = (due, h')"
  shows "mset due = filter_mset (\<lambda>e. st_next_run_at e \<le> now) (mset h)
    \<and> mset h' = filter_mset (\<lambda>e. now < st_next_run_at e) (mset h)
    \<and> sorted (map st_next_run_at due)
    \<and> wf_heap h'
    \<and> (\<forall>t. peek_next_at h' = Some t \<longrightarrow> now < t)"
proof -
  have base: "wf_heap h' \<and> mset due = filter_mset (\<lambda>e. st_next_run_at e \<le> now) (mset h)
    \<and> mset h' = filter_mset (\<lambda>e. \<not> st_next_run_at e \<le> now) (mset h) \<and> sorted (map st_next_run_at due)"
    using th.pop_until_correct [OF assms] .
  have "now < t" if "peek_next_at h' = Some t" for t
  proof -
    from that obtain e where "heap_peek h' = Some e" "t = st_next_run_at e"
      by (auto simp: peek_next_at_def)
    with base th.peek_least show ?thesis by (metis (no_types, lifting) mem_Collect_eq not_le set_mset_filter)
  qed
  with base show ?thesis by (simp add: not_le)
qed

text \<open>A concrete heap: three timers, two of them due.\<close>

definition sample_entry :: "string \<Rightarrow> datetime \<Rightarrow> scheduled_timer" where
  "sample_entry name t = \<lparr>st_timer_id = TimerId name, st_next_run_at = t, st_run_id = None, st_attempt = 1\<rparr>"

definition sample_heap :: timer_heap where
  "sample_heap = push (sample_entry ''c'' 10) (push (sample_entry ''a'' 8) (push (sample_entry ''b'' 9) new_heap))"

lemma wf_sample_heap: "wf_heap sample_heap"
  by (simp add: sample_heap_def th.push_inv)

theorem pop_due_correct_witness:
  "sorted (map st_next_run_at (fst (pop_due 9 sample_heap)))
   \<and> mset (fst (pop_due 9 sample_heap)) = {#sample_entry ''a'' 8, sample_entry ''b'' 9#}"
  using pop_due_correct [OF wf_sample_heap surjective_pairing, of 9]
  by (simp add: sample_heap_def sample_entry_def new_heap_def)

text \<open>The operations of the heap keep its invariant and have the documented contents:
  \<open>push\<close> adds one entry, \<open>remove_timer\<close> drops exactly the entries of one timer, and
  \<open>peek_next_at\<close> is the earliest deadline present.\<close>

theorem heap_operations_correct:
  assumes "wf_heap h"
  shows "wf_heap (push e h) \<and> mset (push e h) = add_mset e (mset h)
    \<and> wf_heap (remove_timer tid h)
    \<and> mset (remove_timer tid h) = filter_mset (\<lambda>e. st_timer_id e \<noteq> tid) (mset h)
    \<and> peek_next_at h = (if h = [] then None else Some (Min (st_next_run_at ` set h)))"
proof -
  have "Min (st_next_run_at ` set h) = st_next_run_at x" if "heap_peek h = Some x" for x
    using th.peek_least [OF assms that] by (intro Min_eqI) auto
  then have "peek_next_at h = (if h = [] then None else Some (Min (st_next_run_at ` set h)))"
    by (cases h) (auto simp: peek_next_at_def heap_peek_def)
  with assms show ?thesis by (simp add: th.push_inv)
qed

theorem heap_operations_correct_witness:
  "peek_next_at sample_heap = Some 8"
proof -
  have set: "set sample_heap = {sample_entry ''c'' 10, sample_entry ''a'' 8, sample_entry ''b'' 9}"
    by (simp add: sample_heap_def new_heap_def)
  have times: "st_next_run_at ` set sample_heap = {10, 8, 9}"
    unfolding set by (simp add: sample_entry_def)
  have "sample_heap \<noteq> []" using set by (metis insert_not_empty list.set(1))
  then have "peek_next_at sample_heap = Some (Min (st_next_run_at ` set sample_heap))"
    using heap_operations_correct [OF wf_sample_heap] by simp
  then show ?thesis unfolding times by simp
qed

end
