(* ===== verification/Kron_Log.thy ===== *)
theory Kron_Log
  imports Kron_Timer
begin

text \<open>
  log.rs: the append-only log, one JSON document per line.  The file is its bytes.  The JSON
  library is the parameter \<open>C\<close>; \<open>wf_entry C e\<close> states what the code relies on for an entry
  \<open>e\<close>: its text is one line that reads back as \<open>e\<close>, and the parser reports an unexpected end
  of input on every proper beginning of it.
\<close>

section \<open>The JSON library\<close>

text \<open>A parse error has a message and the flag \<open>is_eof()\<close>.\<close>

type_synonym json_error = "string \<times> bool"

record 'a codec =
  encode :: "'a \<Rightarrow> string + string"
  decode :: "string \<Rightarrow> json_error + 'a"

definition json_line :: "string \<Rightarrow> bool" where
  "json_line l \<longleftrightarrow> l \<noteq> [] \<and> graphic (hd l) \<and> graphic (last l) \<and> LF \<notin> set l \<and> utf8_ok l"

definition entry_text :: "'a codec \<Rightarrow> 'a \<Rightarrow> string" where
  "entry_text C e = (case encode C e of Inl _ \<Rightarrow> [] | Inr l \<Rightarrow> l)"

definition wf_entry :: "'a codec \<Rightarrow> 'a \<Rightarrow> bool" where
  "wf_entry C e \<longleftrightarrow>
     encode C e = Inr (entry_text C e) \<and> json_line (entry_text C e)
     \<and> decode C (entry_text C e) = Inr e
     \<and> (\<forall>p. strict_prefix p (entry_text C e) \<longrightarrow> p \<noteq> [] \<longrightarrow> (\<exists>msg. decode C p = Inl (msg, True)))"

section \<open>Operations\<close>

text \<open>What the operating system does with a write and the \<open>fsync\<close> after it: all bytes reach
  the file, the write fails after some of them, or the synchronisation fails.\<close>

datatype io_outcome = IoOk | WriteFails nat string | SyncFails string

definition append_log ::
  "log_entry codec \<Rightarrow> datetime \<Rightarrow> event \<Rightarrow> io_outcome \<Rightarrow> string \<Rightarrow> unit res \<times> string" where
  "append_log C now ev io file =
     (let entry = new_log_entry now ev in
      case encode C entry of
        Inl msg \<Rightarrow> (Inl (Err (LogSerde msg)), file)
      | Inr text \<Rightarrow>
          let line = text @ [LF] in
          case io of
            IoOk \<Rightarrow> (Inr (), file @ line)
          | WriteFails k msg \<Rightarrow> (Inl (Err (LogIo msg)), file @ take k line)
          | SyncFails msg \<Rightarrow> (Inl (Err (LogIo msg)), file @ line))"

fun rposition :: "('a \<Rightarrow> bool) \<Rightarrow> 'a list \<Rightarrow> nat option" where
  "rposition P [] = None"
| "rposition P (x # xs) =
     (case rposition P xs of
        Some i \<Rightarrow> Some (Suc i)
      | None \<Rightarrow> if P x then Some 0 else None)"

fun replay_loop ::
  "'a codec \<Rightarrow> string \<Rightarrow> nat option \<Rightarrow> nat \<Rightarrow> string list \<Rightarrow> 'a list res" where
  "replay_loop C path last_non_empty line_no [] = Inr []"
| "replay_loop C path last_non_empty line_no (line # rest) =
     (let trimmed = trim line in
      if trimmed = [] then replay_loop C path last_non_empty (line_no + 1) rest
      else case decode C trimmed of
             Inr entry \<Rightarrow>
               (case replay_loop C path last_non_empty (line_no + 1) rest of
                  Inl err \<Rightarrow> Inl err
                | Inr entries \<Rightarrow> Inr (entry # entries))
           | Inl (msg, is_eof) \<Rightarrow>
               if Some line_no = last_non_empty \<and> is_eof then Inr []
               else Inl (Err (CorruptLog path (line_no + 1) msg)))"

definition replay_reader :: "'a codec \<Rightarrow> string \<Rightarrow> string \<Rightarrow> 'a list res" where
  "replay_reader C path file =
     (let lines = read_lines file in
      if \<not> list_all utf8_ok lines
      then Inl (Err (LogIo ''stream did not contain valid UTF-8''))
      else let last_non_empty = rposition (\<lambda>line. trim line \<noteq> []) lines
           in replay_loop C path last_non_empty 0 lines)"

definition replay_log :: "'a codec \<Rightarrow> string \<Rightarrow> string \<Rightarrow> 'a list res" where
  "replay_log C path file = replay_reader C path file"

definition replay_from :: "'a codec \<Rightarrow> string \<Rightarrow> nat \<Rightarrow> string \<Rightarrow> 'a list res" where
  "replay_from C path offset file = replay_reader C path (drop offset file)"

definition log_len :: "string \<Rightarrow> nat" where
  "log_len file = length file"

section \<open>Lemmas on lines\<close>

lemma json_line_plain: "json_line l \<Longrightarrow> plain_line l"
  by (auto simp: json_line_def plain_line_def graphic_def)

lemma json_line_trim: "json_line l \<Longrightarrow> trim l = l"
  by (simp add: json_line_def trim_graphic)

lemma trim_prefix_graphic:
  assumes "p \<noteq> []" "graphic (hd p)"
  shows "prefix (trim p) p \<and> trim p \<noteq> []"
proof -
  have "trim p = trim_end p" using assms by (simp add: trim_def)
  moreover have "trim_end p \<noteq> []"
    using assms by (cases p) (auto simp: trim_end_Cons)
  ultimately show ?thesis by (simp add: trim_end_prefix)
qed

text \<open>A line feed separates characters, so validity can be checked line by line.\<close>

lemma utf8_follow_bounds:
  "utf8_follow b = Some need \<Longrightarrow> list_all (\<lambda>(lo, hi). 0x80 \<le> lo) need"
  by (auto simp: utf8_follow_def split: if_splits)

lemma utf8_run_LF:
  "list_all (\<lambda>(lo, hi). 0x80 \<le> lo) need \<Longrightarrow>
     utf8_run need (a @ LF # b) \<longleftrightarrow> utf8_run need a \<and> utf8_run [] b"
proof (induction need a rule: utf8_run.induct)
  case (1 need)
  then show ?case
    by (cases need) (auto simp: utf8_follow_def cont_byte_def)
next
  case (2 lo hi need c cs)
  then show ?case by auto
next
  case (3 c cs)
  then show ?case by (auto split: option.splits dest: utf8_follow_bounds)
qed

lemma utf8_ok_LF [simp]: "utf8_ok (a @ LF # b) \<longleftrightarrow> utf8_ok a \<and> utf8_ok b"
  by (simp add: utf8_ok_def utf8_run_LF)

lemma utf8_ok_Nil [simp]: "utf8_ok []"
  by (simp add: utf8_ok_def)

lemma utf8_ok_unlines: "utf8_ok (unlines ls @ s) \<longleftrightarrow> list_all utf8_ok ls \<and> utf8_ok s"
  by (induction ls) auto

lemma rposition_append:
  "rposition P (xs @ ys) =
     (case rposition P ys of Some i \<Rightarrow> Some (length xs + i) | None \<Rightarrow> rposition P xs)"
  by (induction xs) (auto split: option.splits)

lemma rposition_None: "rposition P xs = None \<longleftrightarrow> (\<forall>x \<in> set xs. \<not> P x)"
  by (induction xs) (auto split: option.splits)

section \<open>The log as a list of entries\<close>

text \<open>The file that holds the entries \<open>es\<close>.\<close>

definition log_file :: "'a codec \<Rightarrow> 'a list \<Rightarrow> string" where
  "log_file C es = unlines (map (entry_text C) es)"

lemma wf_entryD:
  assumes "wf_entry C e"
  shows "encode C e = Inr (entry_text C e)" "json_line (entry_text C e)"
    "decode C (entry_text C e) = Inr e" "trim (entry_text C e) = entry_text C e"
    "entry_text C e \<noteq> []" "plain_line (entry_text C e)" "utf8_ok (entry_text C e)"
  using assms json_line_plain json_line_trim by (auto simp: wf_entry_def json_line_def)

lemma wf_entry_prefix:
  assumes "wf_entry C e" "strict_prefix p (entry_text C e)" "p \<noteq> []"
  shows "trim p \<noteq> [] \<and> (\<exists>msg. decode C (trim p) = Inl (msg, True))"
proof -
  have "hd p = hd (entry_text C e)"
    using assms(2,3) by (auto simp: strict_prefix_def prefix_def)
  then have "graphic (hd p)" using wf_entryD(2) [OF assms(1)] by (simp add: json_line_def)
  from trim_prefix_graphic [OF assms(3) this] have t: "prefix (trim p) p" "trim p \<noteq> []" by auto
  then have "strict_prefix (trim p) (entry_text C e)"
    using assms(2) prefix_order.le_less_trans by blast
  with t assms(1) show ?thesis by (simp add: wf_entry_def)
qed

lemma replay_loop_entries:
  "list_all (wf_entry C) es \<Longrightarrow>
     replay_loop C path last_ne n (map (entry_text C) es @ rest) =
       (case replay_loop C path last_ne (n + length es) rest of
          Inl err \<Rightarrow> Inl err | Inr es' \<Rightarrow> Inr (es @ es'))"
  by (induction es arbitrary: n) (auto simp: wf_entryD Let_def split: sum.splits)

lemma read_log_file:
  "list_all (wf_entry C) es \<Longrightarrow> read_lines (log_file C es @ s) = map (entry_text C) es @ read_lines s"
  unfolding log_file_def by (rule read_unlines) (auto simp: list_all_iff wf_entryD)

lemma utf8_entries: "list_all (wf_entry C) es \<Longrightarrow> list_all utf8_ok (map (entry_text C) es)"
  by (auto simp: list_all_iff wf_entryD)

lemma replay_reader_entries:
  assumes "list_all (wf_entry C) es"
  shows "replay_reader C path (log_file C es) = Inr es"
  using read_log_file [OF assms, of "[]"] utf8_entries [OF assms] replay_loop_entries [OF assms, of path _ 0 "[]"]
  by (simp add: replay_reader_def)

lemma log_file_append [simp]: "log_file C (es @ fs) = log_file C es @ log_file C fs"
  by (simp add: log_file_def)

lemma append_log_ok:
  "wf_entry C (new_log_entry now ev) \<Longrightarrow>
     append_log C now ev IoOk (log_file C es) = (Inr (), log_file C (es @ [new_log_entry now ev]))"
  by (simp add: append_log_def Let_def wf_entryD(1) log_file_def)

text \<open>Reading back whole entries followed by a beginning of another.\<close>

lemma replay_truncated:
  assumes "list_all (wf_entry C) es" "wf_entry C e" "strict_prefix p (entry_text C e)"
    and "utf8_ok p"
  shows "replay_reader C path (log_file C es @ p) = Inr es"
proof (cases "p = []")
  case True
  with assms(1) show ?thesis by (simp add: replay_reader_entries)
next
  case False
  from assms(3) have "set p \<subseteq> set (entry_text C e)"
    by (auto simp: strict_prefix_def prefix_def)
  then have lines: "read_lines (log_file C es @ p) = map (entry_text C) es @ [p]"
    using False wf_entryD(2) [OF assms(2)] read_lines_tail [of p]
    by (auto simp: read_log_file [OF assms(1)] json_line_def)
  from wf_entry_prefix [OF assms(2,3) False] obtain msg
    where t: "trim p \<noteq> []" "decode C (trim p) = Inl (msg, True)" by blast
  then have "rposition (\<lambda>line. trim line \<noteq> []) (map (entry_text C) es @ [p]) = Some (length es)"
    by (simp add: rposition_append)
  with t show ?thesis
    using assms(4) utf8_entries [OF assms(1)] replay_loop_entries [OF assms(1), of path _ 0 "[p]"]
    by (simp add: replay_reader_def lines Let_def)
qed

text \<open>Reading back whole entries followed by another without its line feed.\<close>

lemma replay_unterminated:
  assumes "list_all (wf_entry C) es" "wf_entry C e"
  shows "replay_reader C path (log_file C es @ entry_text C e) = Inr (es @ [e])"
  using read_lines_tail [of "entry_text C e"] wf_entryD [OF assms(2)] utf8_entries [OF assms(1)]
    replay_loop_entries [OF assms(1), of path _ 0 "[entry_text C e]"]
  by (simp add: replay_reader_def read_log_file [OF assms(1)] json_line_def Let_def)

text \<open>What survives: whole entries, and a beginning of the next one; and which entries had reached
  the file.\<close>

lemma surviving_part:
  assumes "k < length (log_file C es)"
  obtains i j where "i < length es" "j \<le> length (entry_text C (es ! i))"
    "take k (log_file C es) = log_file C (take i es) @ take j (entry_text C (es ! i))"
    "\<forall>j' \<le> length es. length (log_file C (take j' es)) \<le> k \<longrightarrow> j' \<le> i"
proof -
  let ?ls = "map (entry_text C) es"
  obtain i j where "i < length ?ls" "j \<le> length (?ls ! i)"
    "take k (unlines ?ls) = unlines (take i ?ls) @ take j (?ls ! i)"
    using take_unlines [OF assms [unfolded log_file_def]] by blast
  then have ij: "i < length es" "j \<le> length (entry_text C (es ! i))"
      "take k (log_file C es) = log_file C (take i es) @ take j (entry_text C (es ! i))"
    by (simp_all add: log_file_def take_map)
  have "length (take k (log_file C es)) = length (log_file C (take i es)) + j"
    unfolding ij(3) using ij(2) by simp
  then have len: "k = length (log_file C (take i es)) + j" using assms by simp
  have "j' \<le> i" if "length (log_file C (take j' es)) \<le> k" for j'
  proof (rule ccontr)
    assume "\<not> j' \<le> i"
    then have "take j' es = take (Suc i) es @ take (j' - Suc i) (drop (Suc i) es)"
      by (metis Suc_leI le_add_diff_inverse not_le take_add)
    then have "length (log_file C (take (Suc i) es)) \<le> k" using that by simp
    then show False using ij len by (simp add: take_Suc_conv_app_nth) (simp add: log_file_def)
  qed
  then show thesis using that [OF ij] by blast
qed

text \<open>A tear inside a character of several bytes is not forgiven: the file is no longer UTF-8
  and the replay fails as a whole.\<close>

lemma torn_character_fails:
  assumes "list_all (wf_entry C) es" "LF \<notin> set p" "\<not> utf8_ok p"
  shows "replay_log C path (log_file C es @ p)
           = Inl (Err (LogIo ''stream did not contain valid UTF-8''))"
proof -
  have "p \<noteq> []" using assms(3) by auto
  then have "read_lines (log_file C es @ p) = map (entry_text C) es @ [p]"
    using assms(2) by (simp add: read_log_file [OF assms(1)] read_lines_tail)
  with assms(3) show ?thesis by (simp add: replay_log_def replay_reader_def)
qed

lemma replay_surviving:
  assumes "list_all (wf_entry C) es" "utf8_ok (take k (log_file C es))"
  shows "\<exists>i \<le> length es. replay_log C path (take k (log_file C es)) = Inr (take i es)
           \<and> (\<forall>j \<le> length es. length (log_file C (take j es)) \<le> k \<longrightarrow> j \<le> i)"
proof (cases "k < length (log_file C es)")
  case False
  with assms(1) show ?thesis
    by (intro exI [of _ "length es"]) (simp add: replay_log_def replay_reader_entries)
next
  case True
  then obtain i j where ij: "i < length es" "j \<le> length (entry_text C (es ! i))"
      "take k (log_file C es) = log_file C (take i es) @ take j (entry_text C (es ! i))"
    and late: "\<forall>j' \<le> length es. length (log_file C (take j' es)) \<le> k \<longrightarrow> j' \<le> i"
    by (rule surviving_part)
  have wf: "list_all (wf_entry C) (take i es)" "wf_entry C (es ! i)"
    using assms(1) ij(1) by (auto simp: list_all_iff dest: in_set_takeD)
  show ?thesis
  proof (cases "j = length (entry_text C (es ! i))")
    case True
    with replay_unterminated [OF wf] ij late show ?thesis
      by (intro exI [of _ "Suc i"]) (auto simp: replay_log_def take_Suc_conv_app_nth le_SucI)
  next
    case False
    then have "strict_prefix (take j (entry_text C (es ! i))) (entry_text C (es ! i))"
      using ij(2) by (metis length_take min.absorb2 prefix_order.le_less take_is_prefix)
    moreover have "utf8_ok (take j (entry_text C (es ! i)))"
      using assms(2) unfolding ij(3) by (simp add: log_file_def utf8_ok_unlines)
    ultimately show ?thesis
      using replay_truncated [OF wf] ij late by (intro exI [of _ i]) (simp add: replay_log_def)
  qed
qed

text \<open>C4: crash safety of the log.  Whatever part of the file of a sequence of entries survives a
  crash: when that part is valid UTF-8, replaying it yields a prefix of the sequence which includes
  every entry whose line had reached the file, and a torn last line is dropped; when the tear lies
  inside a character of several bytes, so that the part is not valid UTF-8, the replay fails as a
  whole and returns no entry at all.\<close>

theorem replay_after_crash:
  assumes "list_all (wf_entry C) es"
  shows "(utf8_ok (take k (log_file C es)) \<longrightarrow>
            (\<exists>i \<le> length es. replay_log C path (take k (log_file C es)) = Inr (take i es)
               \<and> (\<forall>j \<le> length es. length (log_file C (take j es)) \<le> k \<longrightarrow> j \<le> i)))
       \<and> (\<not> utf8_ok (take k (log_file C es)) \<longrightarrow>
            replay_log C path (take k (log_file C es))
              = Inl (Err (LogIo ''stream did not contain valid UTF-8'')))"
proof (intro conjI impI)
  assume torn: "\<not> utf8_ok (take k (log_file C es))"
  then have "k < length (log_file C es)"
    using utf8_entries [OF assms] utf8_ok_unlines [of "map (entry_text C) es" "[]"]
    by (cases "k < length (log_file C es)") (auto simp: log_file_def)
  then obtain i j where ij: "i < length es"
      "take k (log_file C es) = log_file C (take i es) @ take j (entry_text C (es ! i))"
    by (rule surviving_part)
  have wf: "list_all (wf_entry C) (take i es)" "wf_entry C (es ! i)"
    using assms ij(1) by (auto simp: list_all_iff dest: in_set_takeD)
  show "replay_log C path (take k (log_file C es)) = Inl (Err (LogIo ''stream did not contain valid UTF-8''))"
    unfolding ij(2)
  proof (rule torn_character_fails [OF wf(1)])
    show "LF \<notin> set (take j (entry_text C (es ! i)))"
      using wf_entryD [OF wf(2)] by (auto simp: json_line_def dest: in_set_takeD)
    show "\<not> utf8_ok (take j (entry_text C (es ! i)))"
      using torn utf8_entries [OF wf(1)] unfolding ij(2) by (auto simp: log_file_def utf8_ok_unlines)
  qed
qed (rule replay_surviving [OF assms])

text \<open>A codec given by a table of texts, for concrete logs.  The parser reports an
  unexpected end of input on the proper beginnings of the texts.\<close>

definition table_codec :: "(string \<times> 'a) list \<Rightarrow> 'a codec" where
  "table_codec t =
     \<lparr>encode = (\<lambda>e. case List.find (\<lambda>(l, x). x = e) t of
                        None \<Rightarrow> Inl ''unsupported'' | Some (l, _) \<Rightarrow> Inr l),
      decode = (\<lambda>s. case map_of t s of
                        Some e \<Rightarrow> Inr e
                      | None \<Rightarrow> Inl (''cannot parse'', list_ex (\<lambda>(l, _). strict_prefix s l) t))\<rparr>"

lemma table_codec_wf:
  assumes "List.find (\<lambda>(l, x). x = e) t = Some (l, e)" "map_of t l = Some e" "json_line l"
    and "list_all (\<lambda>(k, _). \<not> strict_prefix k l) t"
  shows "wf_entry (table_codec t) e"
proof -
  have txt_eq: "entry_text (table_codec t) e = l"
    using assms(1) by (simp add: entry_text_def table_codec_def)
  have "map_of t p = None" if "strict_prefix p l" for p
    using assms(4) that by (auto simp: map_of_eq_None_iff list_all_iff)
  moreover have "(l, e) \<in> set t" using assms(2) by (rule map_of_SomeD)
  ultimately show ?thesis
    unfolding wf_entry_def txt_eq
    using assms by (auto simp: table_codec_def list_ex_iff intro!: bexI [of _ "(l, e)"])
qed

definition entry_a :: log_entry where
  "entry_a = new_log_entry 0 (TimerCancelled (TimerId ''a'') 0)"

definition entry_b :: log_entry where
  "entry_b = new_log_entry 0 (TimerCancelled (TimerId ''b'') 0)"

definition sample_codec :: "log_entry codec" where
  "sample_codec = table_codec [(''{a}'', entry_a), (''{b}'', entry_b)]"

lemma entry_ab_neq [simp]: "entry_a \<noteq> entry_b" "entry_b \<noteq> entry_a"
  by (simp_all add: entry_a_def entry_b_def new_log_entry_def)

lemma sample_text:
  "entry_text sample_codec entry_a = ''{a}''" "entry_text sample_codec entry_b = ''{b}''"
  by (simp_all add: entry_text_def sample_codec_def table_codec_def)

lemma sample_json_line: "json_line ''{a}''" "json_line ''{b}''"
  by (simp_all add: json_line_def graphic_def utf8_ok_def utf8_follow_def)

lemma sample_no_prefix:
  "x \<in> {''{a}'', ''{b}''} \<Longrightarrow> y \<in> {''{a}'', ''{b}''} \<Longrightarrow> \<not> strict_prefix x y"
  by (auto simp: strict_prefix_def)

lemma sample_wf_a: "wf_entry sample_codec entry_a"
  unfolding sample_codec_def
  by (rule table_codec_wf [where l = "''{a}''"]) (simp_all add: sample_json_line sample_no_prefix)

lemma sample_wf_b: "wf_entry sample_codec entry_b"
  unfolding sample_codec_def
  by (rule table_codec_wf [where l = "''{b}''"]) (simp_all add: sample_json_line sample_no_prefix)

lemmas sample_wf = sample_wf_a sample_wf_b

text \<open>An entry whose text has a character of two bytes.\<close>

definition accent_codec :: "log_entry codec" where
  "accent_codec = table_codec [([CHR ''{'', CHR 0xC3, CHR 0xA9, CHR ''}''], entry_a)]"

lemma accent_text: "entry_text accent_codec entry_a = [CHR ''{'', CHR 0xC3, CHR 0xA9, CHR ''}'']"
  by (simp add: entry_text_def accent_codec_def table_codec_def)

lemma accent_wf: "wf_entry accent_codec entry_a"
  unfolding accent_codec_def
  by (rule table_codec_wf [where l = "[CHR ''{'', CHR 0xC3, CHR 0xA9, CHR ''}'']"])
     (simp_all add: json_line_def graphic_def utf8_ok_def utf8_follow_def strict_prefix_def cont_byte_def)

theorem replay_after_crash_witness:
  "(\<exists>i \<le> 2. replay_log sample_codec ''kron.aof'' (''{a}'' @ LF # ''{b'') = Inr (take i [entry_a, entry_b])
       \<and> 1 \<le> i)
   \<and> replay_log accent_codec ''kron.aof'' [CHR ''{'', CHR 0xC3]
       = Inl (Err (LogIo ''stream did not contain valid UTF-8''))"
proof
  have "take 2 (log_file accent_codec [entry_a]) = [CHR ''{'', CHR 0xC3]"
    by (simp add: log_file_def accent_text)
  moreover have "\<not> utf8_ok [CHR ''{'', CHR 0xC3]" by (simp add: utf8_ok_def utf8_follow_def)
  ultimately show "replay_log accent_codec ''kron.aof'' [CHR ''{'', CHR 0xC3]
       = Inl (Err (LogIo ''stream did not contain valid UTF-8''))"
    using replay_after_crash [of accent_codec "[entry_a]" 2 "''kron.aof''"] accent_wf by simp
next
  have content: "log_file sample_codec [entry_a, entry_b] = ''{a}'' @ LF # ''{b}'' @ [LF]"
    by (simp add: log_file_def sample_text)
  then have t: "take 6 (log_file sample_codec [entry_a, entry_b]) = ''{a}'' @ LF # ''{b''" by simp
  have "utf8_ok (''{a}'' @ LF # ''{b'')" by (simp add: utf8_ok_def utf8_follow_def)
  with replay_after_crash [of sample_codec "[entry_a, entry_b]" 6 "''kron.aof''"] sample_wf
  obtain i where "i \<le> length [entry_a, entry_b]" "replay_log sample_codec ''kron.aof'' (''{a}'' @ LF # ''{b'') = Inr (take i [entry_a, entry_b])"
    "\<forall>j \<le> length [entry_a, entry_b]. length (log_file sample_codec (take j [entry_a, entry_b])) \<le> 6 \<longrightarrow> j \<le> i"
    unfolding t by (auto simp only: list.pred_inject)
  moreover from this(3) [rule_format, of 1] have "1 \<le> i"
    by (simp add: log_file_def sample_text)
  ultimately show "\<exists>i \<le> 2. replay_log sample_codec ''kron.aof'' (''{a}'' @ LF # ''{b'') = Inr (take i [entry_a, entry_b])
       \<and> 1 \<le> i" by (intro exI [of _ i]) simp
qed

section \<open>Corruption before the end\<close>

lemma replay_loop_corrupt:
  assumes "\<And>l. l \<in> set ls \<Longrightarrow> trim l = [] \<or> (\<exists>e. decode C (trim l) = Inr e)"
    and "trim bad \<noteq> []" "decode C (trim bad) = Inl (msg, eof)"
    and "eof \<longrightarrow> last_ne \<noteq> Some (n + length ls)"
  shows "replay_loop C path last_ne n (ls @ bad # rest) = Inl (Err (CorruptLog path (n + length ls + 1) msg))"
  using assms
proof (induction ls arbitrary: n)
  case (Cons l ls)
  then have "replay_loop C path last_ne (n + 1) (ls @ bad # rest)
      = Inl (Err (CorruptLog path (n + 1 + length ls + 1) msg))" by simp
  moreover have "trim l = [] \<or> (\<exists>e. decode C (trim l) = Inr e)" using Cons.prems(1) by simp
  ultimately show ?case by (auto simp: Let_def)
qed auto

lemma replay_corrupt_line_lines:
  assumes "read_lines file = ls @ bad # rest" "list_all utf8_ok (ls @ bad # rest)"
    and "list_all (\<lambda>l. trim l = [] \<or> (\<exists>e. decode C (trim l) = Inr e)) ls"
    and "trim bad \<noteq> []" "decode C (trim bad) = Inl (msg, eof)"
    and "eof \<longrightarrow> list_ex (\<lambda>l. trim l \<noteq> []) rest"
  shows "replay_log C path file = Inl (Err (CorruptLog path (length ls + 1) msg))"
proof -
  have "rposition (\<lambda>l. trim l \<noteq> []) (ls @ bad # rest) \<noteq> Some (length ls)" if eof
    using that assms(6) rposition_None [of "\<lambda>l. trim l \<noteq> []" rest]
    by (auto simp: rposition_append list_ex_iff split: option.splits)
  then show ?thesis
    using replay_loop_corrupt [of ls C bad msg eof _ 0] assms
    by (simp add: replay_log_def replay_reader_def Let_def list_all_iff)
qed

text \<open>Corruption is never skipped silently.  A non-blank line that does not parse stops the
  replay with \<open>CorruptLog\<close> and its 1-based number, unless the parser hit the end of its input
  and no non-blank line follows.\<close>

theorem replay_corrupt_line:
  assumes "read_lines file = ls @ bad # rest" "list_all utf8_ok (ls @ bad # rest)"
    and "list_all (\<lambda>l. trim l = [] \<or> (\<exists>e. decode C (trim l) = Inr e)) ls"
    and "trim bad \<noteq> []" "decode C (trim bad) = Inl (msg, eof)"
    and "eof \<longrightarrow> list_ex (\<lambda>l. trim l \<noteq> []) rest"
  shows "replay_log C path file = Inl (Err (CorruptLog path (length ls + 1) msg))"
  using assms by (rule replay_corrupt_line_lines)

theorem replay_corrupt_line_witness:
  "replay_log sample_codec ''kron.aof'' (''{a}'' @ LF # ''?'' @ LF # ''{b}'' @ [LF])
     = Inl (Err (CorruptLog ''kron.aof'' 2 ''cannot parse''))"
proof -
  have bad: "trim ''?'' = ''?''" by (simp add: trim_graphic graphic_def)
  have good: "trim ''{a}'' = ''{a}''" by (simp add: trim_graphic graphic_def)
  have "read_lines (''{a}'' @ LF # ''?'' @ LF # ''{b}'' @ [LF]) = [''{a}''] @ ''?'' # [''{b}'']"
    by (simp add: read_lines_def strip_cr_def)
  from replay_corrupt_line [OF this, of sample_codec "''cannot parse''" False]
  show ?thesis
    by (simp add: bad good utf8_ok_def utf8_follow_def) (simp add: sample_codec_def table_codec_def)
qed

section \<open>Appending after a torn line\<close>

text \<open>Opening a log does not remove a torn last line, and the next entry continues that
  line.  If the parser rejects the joined text, the log can no longer be replayed, although the
  append has reported success and the torn log itself was readable.\<close>

theorem append_after_torn_line:
  assumes "list_all (wf_entry C) es" "wf_entry C e" "wf_entry C (new_log_entry now ev)"
    and "strict_prefix p (entry_text C e)" "p \<noteq> []" "utf8_ok p"
    and "utf8_ok (p @ entry_text C (new_log_entry now ev))"
    and "decode C (p @ entry_text C (new_log_entry now ev)) = Inl (msg, False)"
    and "append_log C now ev IoOk (log_file C es @ p) = (r, file)"
  shows "replay_log C path (log_file C es @ p) = Inr es \<and> r = Inr ()
    \<and> replay_log C path file = Inl (Err (CorruptLog path (length es + 1) msg))"
proof (intro conjI)
  let ?joined = "p @ entry_text C (new_log_entry now ev)"
  show "replay_log C path (log_file C es @ p) = Inr es"
    using assms by (simp add: replay_log_def replay_truncated)
  from assms(3,9) show "r = Inr ()" by (simp add: append_log_def Let_def wf_entryD)
  from assms(3,9) have content: "file = log_file C es @ ?joined @ [LF]"
    by (simp add: append_log_def Let_def wf_entryD)
  have p: "hd p = hd (entry_text C e)" "set p \<subseteq> set (entry_text C e)"
    using assms(4,5) by (auto simp: strict_prefix_def prefix_def)
  then have joined: "json_line ?joined"
    using assms(5,7) wf_entryD(2) [OF assms(2)] wf_entryD(2) [OF assms(3)]
    by (auto simp: json_line_def)
  then have "read_lines file = map (entry_text C) es @ ?joined # []"
    using read_lines_line [of ?joined "[]"] json_line_plain
    by (simp add: content read_log_file [OF assms(1)])
  moreover have "list_all (\<lambda>l. trim l = [] \<or> (\<exists>e. decode C (trim l) = Inr e)) (map (entry_text C) es)"
    using assms(1) by (auto simp: list_all_iff wf_entryD)
  ultimately show "replay_log C path file = Inl (Err (CorruptLog path (length es + 1) msg))"
    using replay_corrupt_line_lines [of "file" "map (entry_text C) es" ?joined "[]" C msg False path]
      json_line_trim [OF joined] utf8_entries [OF assms(1)] assms(5,7,8)
    by simp
qed

theorem append_after_torn_line_witness:
  "replay_log sample_codec ''kron.aof'' (snd (append_log sample_codec 0 (TimerCancelled (TimerId ''b'') 0)
      IoOk (''{a}'' @ LF # ''{'')))
     = Inl (Err (CorruptLog ''kron.aof'' 2 ''cannot parse''))"
proof -
  have b: "new_log_entry 0 (TimerCancelled (TimerId ''b'') 0) = entry_b" by (simp add: entry_b_def)
  have content: "log_file sample_codec [entry_a] @ ''{'' = ''{a}'' @ LF # ''{''"
    by (simp add: log_file_def sample_text)
  have dec: "decode sample_codec (''{'' @ ''{b}'') = Inl (''cannot parse'', False)"
    by (simp add: sample_codec_def table_codec_def)
  from append_after_torn_line [of sample_codec "[entry_a]" entry_a 0 "TimerCancelled (TimerId ''b'') 0"
      "''{''" "''cannot parse''" _ _ "''kron.aof''", unfolded b sample_text, OF _ _ _ _ _ _ _ dec surjective_pairing]
    sample_wf
  show ?thesis unfolding content by (simp add: utf8_ok_def utf8_follow_def)
qed

end
