(* ===== verification/Kron_State.thy ===== *)
theory Kron_State
  imports Kron_Timer
begin

text \<open>
  state.rs: the in-memory state of the engine and its transition function \<open>apply\<close>.  The hash
  maps are partial functions.  The lemmas show that an event touches its own timer only, and
  that the state after a replay is a function of each timer's own history.
\<close>

section \<open>Data\<close>

record last_run_info =
  lri_run_id :: run_id
  lri_finished_at :: datetime
  lri_duration_ms :: "u64 option"
  lri_status :: string

record engine_state =
  specs :: "timer_id \<rightharpoonup> timer_spec"
  states :: "timer_id \<rightharpoonup> timer_state"
  fn_names :: "timer_id \<rightharpoonup> string"
  last_runs :: "timer_id \<rightharpoonup> last_run_info"
  next_runs :: "timer_id \<rightharpoonup> datetime"
  retries_7d :: "timer_id \<rightharpoonup> u32"
  pending_retries :: "timer_id \<rightharpoonup> (run_id \<times> datetime \<times> u32)"

definition new_state :: engine_state where
  "new_state = \<lparr>specs = Map.empty, states = Map.empty, fn_names = Map.empty,
     last_runs = Map.empty, next_runs = Map.empty, retries_7d = Map.empty,
     pending_retries = Map.empty\<rparr>"

section \<open>Operations\<close>

definition unwrap_or :: "'a option \<Rightarrow> 'a \<Rightarrow> 'a" where
  "unwrap_or x d = (case x of None \<Rightarrow> d | Some v \<Rightarrow> v)"

lemma unwrap_or_simps [simp]: "unwrap_or None d = d" "unwrap_or (Some v) d = v"
  by (simp_all add: unwrap_or_def)

fun apply_event :: "event \<Rightarrow> engine_state \<Rightarrow> engine_state" where
  "apply_event (TimerCreated spec) s =
     s\<lparr>states := (states s)(ts_id spec \<mapsto> Orphaned), specs := (specs s)(ts_id spec \<mapsto> spec)\<rparr>"
| "apply_event (TimerUpdated spec) s =
     s\<lparr>specs := (specs s)(ts_id spec \<mapsto> spec)\<rparr>"
| "apply_event (TimerPaused tid _) s =
     s\<lparr>states := (states s)(tid \<mapsto> Paused)\<rparr>"
| "apply_event (TimerResumed tid _) s =
     (let has_fn = fn_names s tid \<noteq> None;
          next_state = (if has_fn then Scheduled else Orphaned)
      in s\<lparr>states := (states s)(tid \<mapsto> next_state)\<rparr>)"
| "apply_event (TimerCancelled tid _) s =
     s\<lparr>states := (states s)(tid \<mapsto> Cancelled)\<rparr>"
| "apply_event (RunDue tid _ _) s =
     s\<lparr>states := (states s)(tid \<mapsto> Running)\<rparr>"
| "apply_event (RunStarted tid _ _ _) s =
     s\<lparr>states := (states s)(tid \<mapsto> Running)\<rparr>"
| "apply_event (RunSkippedOverlap tid rid _ skipped_at) s =
     s\<lparr>last_runs := (last_runs s)(tid \<mapsto>
         \<lparr>lri_run_id = rid, lri_finished_at = skipped_at, lri_duration_ms = None,
          lri_status = ''SKIPPED_OVERLAP''\<rparr>)\<rparr>"
| "apply_event (RunSucceeded tid rid finished_at dur) s =
     s\<lparr>states := (states s)(tid \<mapsto> Scheduled),
       last_runs := (last_runs s)(tid \<mapsto>
         \<lparr>lri_run_id = rid, lri_finished_at = finished_at, lri_duration_ms = Some dur,
          lri_status = ''OK''\<rparr>),
       pending_retries := (pending_retries s)(tid := None)\<rparr>"
| "apply_event (RunFailed tid rid finished_at err _) s =
     s\<lparr>last_runs := (last_runs s)(tid \<mapsto>
         \<lparr>lri_run_id = rid, lri_finished_at = finished_at, lri_duration_ms = None,
          lri_status = ''FAILED: '' @ err\<rparr>)\<rparr>"
| "apply_event (RunRetrying tid rid attempt next_retry) s =
     s\<lparr>states := (states s)(tid \<mapsto> Retrying),
       pending_retries := (pending_retries s)(tid \<mapsto> (rid, next_retry, attempt)),
       retries_7d := (retries_7d s)(tid \<mapsto> unwrap_or (retries_7d s tid) 0 + 1)\<rparr>"
| "apply_event (RunDead tid rid at) s =
     s\<lparr>states := (states s)(tid \<mapsto> Dead),
       last_runs := (last_runs s)(tid \<mapsto>
         \<lparr>lri_run_id = rid, lri_finished_at = at, lri_duration_ms = None,
          lri_status = ''DEAD''\<rparr>),
       pending_retries := (pending_retries s)(tid := None)\<rparr>"

definition replay_events :: "engine_state \<Rightarrow> event list \<Rightarrow> engine_state" where
  "replay_events s es = fold apply_event es s"

definition replay :: "engine_state \<Rightarrow> log_entry list \<Rightarrow> engine_state" where
  "replay s entries = fold (\<lambda>entry s. apply_event (le_event entry) s) entries s"

definition summary :: "engine_state \<Rightarrow> timer_id \<Rightarrow> timer_summary option" where
  "summary s tid =
     (case states s tid of
        None \<Rightarrow> None
      | Some st \<Rightarrow>
          let last_run = last_runs s tid
          in Some \<lparr>sum_id = tid, sum_state = st, sum_fn_name = fn_names s tid,
                   sum_last_run_at = map_option lri_finished_at last_run,
                   sum_last_duration_ms = Option.bind last_run lri_duration_ms,
                   sum_last_status = map_option lri_status last_run,
                   sum_next_run_at = next_runs s tid,
                   sum_retries_last_7d = unwrap_or (retries_7d s tid) 0\<rparr>)"

definition register_function :: "timer_id \<Rightarrow> string \<Rightarrow> engine_state \<Rightarrow> engine_state" where
  "register_function tid name s =
     (let s1 = s\<lparr>fn_names := (fn_names s)(tid \<mapsto> name)\<rparr>;
          current = unwrap_or (states s1 tid) Orphaned
      in if current = Orphaned then s1\<lparr>states := (states s1)(tid \<mapsto> Scheduled)\<rparr> else s1)"

definition mark_function_missing :: "timer_id \<Rightarrow> engine_state \<Rightarrow> engine_state" where
  "mark_function_missing tid s =
     (let s1 = s\<lparr>fn_names := (fn_names s)(tid := None)\<rparr>;
          current = unwrap_or (states s1 tid) Orphaned
      in if current \<in> {Scheduled, Retrying, Running}
         then s1\<lparr>states := (states s1)(tid \<mapsto> Orphaned)\<rparr> else s1)"

definition prune_old_retries :: "datetime \<Rightarrow> engine_state \<Rightarrow> engine_state" where
  "prune_old_retries _ s = s"

lemma replay_eq_events: "replay s entries = replay_events s (map le_event entries)"
  by (simp add: replay_def replay_events_def fold_map comp_def)

lemma replay_events_simps [simp]:
  "replay_events s [] = s"
  "replay_events s (es @ [e]) = apply_event e (replay_events s es)"
  by (simp_all add: replay_events_def)

lemma replay_append [simp]: "replay s (xs @ ys) = replay (replay s xs) ys"
  by (simp add: replay_def)

lemma replay_Nil [simp]: "replay s [] = s"
  by (simp add: replay_def)

section \<open>What an event touches\<close>

text \<open>The slice of the state that belongs to one timer.\<close>

type_synonym timer_view =
  "timer_spec option \<times> timer_state option \<times> string option \<times> last_run_info option
   \<times> datetime option \<times> u32 option \<times> (run_id \<times> datetime \<times> u32) option"

definition view :: "engine_state \<Rightarrow> timer_id \<Rightarrow> timer_view" where
  "view s tid = (specs s tid, states s tid, fn_names s tid, last_runs s tid,
                 next_runs s tid, retries_7d s tid, pending_retries s tid)"

lemma apply_event_frame: "event_timer e \<noteq> tid \<Longrightarrow> view (apply_event e s) tid = view s tid"
  by (cases e) (auto simp: view_def Let_def)

lemma apply_event_local:
  "view s tid = view s' tid \<Longrightarrow> view (apply_event e s) tid = view (apply_event e s') tid"
  by (cases e) (auto simp: view_def Let_def)

text \<open>The state of a timer after a replay depends on that timer's own events only: the
  events of all other timers may be dropped from the log without changing it.\<close>

theorem replay_own_events:
  "view (replay_events s es) tid
     = view (replay_events s (filter (\<lambda>e. event_timer e = tid) es)) tid"
proof (induction es rule: rev_induct)
  case (snoc e es)
  then show ?case
    by (cases "event_timer e = tid") (auto simp: apply_event_frame intro: apply_event_local)
qed simp

section \<open>The state as a function of the history\<close>

text \<open>What the log of a timer says, read from the most recent event backwards.\<close>

fun pending_of :: "event list \<Rightarrow> (run_id \<times> datetime \<times> u32) option" where
  "pending_of [] = None"
| "pending_of (RunRetrying _ rid attempt at # _) = Some (rid, at, attempt)"
| "pending_of (RunSucceeded _ _ _ _ # _) = None"
| "pending_of (RunDead _ _ _ # _) = None"
| "pending_of (_ # es) = pending_of es"

fun status_of :: "event list \<Rightarrow> (run_id \<times> string) option" where
  "status_of [] = None"
| "status_of (RunSkippedOverlap _ rid _ _ # _) = Some (rid, ''SKIPPED_OVERLAP'')"
| "status_of (RunSucceeded _ rid _ _ # _) = Some (rid, ''OK'')"
| "status_of (RunFailed _ rid _ err _ # _) = Some (rid, ''FAILED: '' @ err)"
| "status_of (RunDead _ rid _ # _) = Some (rid, ''DEAD'')"
| "status_of (_ # es) = status_of es"

fun spec_of :: "event list \<Rightarrow> timer_spec option" where
  "spec_of [] = None"
| "spec_of (TimerCreated spec # _) = Some spec"
| "spec_of (TimerUpdated spec # _) = Some spec"
| "spec_of (_ # es) = spec_of es"

fun state_of :: "event list \<Rightarrow> timer_state option" where
  "state_of [] = None"
| "state_of (TimerCreated _ # _) = Some Orphaned"
| "state_of (TimerPaused _ _ # _) = Some Paused"
| "state_of (TimerResumed _ _ # _) = Some Orphaned"
| "state_of (TimerCancelled _ _ # _) = Some Cancelled"
| "state_of (RunDue _ _ _ # _) = Some Running"
| "state_of (RunStarted _ _ _ _ # _) = Some Running"
| "state_of (RunSucceeded _ _ _ _ # _) = Some Scheduled"
| "state_of (RunRetrying _ _ _ _ # _) = Some Retrying"
| "state_of (RunDead _ _ _ # _) = Some Dead"
| "state_of (_ # es) = state_of es"

definition is_retrying :: "event \<Rightarrow> bool" where
  "is_retrying e = (case e of RunRetrying _ _ _ _ \<Rightarrow> True | _ \<Rightarrow> False)"

text \<open>The abstract specification: the history of one timer, most recent event first.\<close>

definition history :: "event list \<Rightarrow> timer_id \<Rightarrow> event list" where
  "history es tid = rev (filter (\<lambda>e. event_timer e = tid) es)"

lemma history_snoc:
  "history (es @ [e]) tid = (if event_timer e = tid then e # history es tid else history es tid)"
  by (simp add: history_def)

lemma history_Nil [simp]: "history [] tid = []"
  by (simp add: history_def)

text \<open>C10: replaying a log from the empty state reconstructs, for every timer, what its own
  history says: the latest specification, the lifecycle state set by the latest lifecycle
  event, the outcome of the latest finished run, the retry that is still pending, and the
  number of retries (modulo \<open>2^32\<close>).\<close>

theorem replay_history:
  "let s = replay_events new_state es; h = history es tid in
     specs s tid = spec_of h
   \<and> states s tid = state_of h
   \<and> map_option (\<lambda>r. (lri_run_id r, lri_status r)) (last_runs s tid) = status_of h
   \<and> pending_retries s tid = pending_of h
   \<and> unwrap_or (retries_7d s tid) 0 = of_nat (length (filter is_retrying h))
   \<and> fn_names s tid = None"
  unfolding Let_def
proof (induction es rule: rev_induct)
  case Nil
  show ?case by (simp add: new_state_def)
next
  case (snoc e es)
  then show ?case
    by (cases e) (auto simp: history_snoc is_retrying_def)
qed

section \<open>Registered functions\<close>

lemma register_then_missing_fn:
  "fn_names (mark_function_missing tid (register_function tid name s)) tid = None"
  by (simp add: mark_function_missing_def Let_def)

lemma register_function_frame:
  "tid' \<noteq> tid \<Longrightarrow> view (register_function tid name s) tid' = view s tid'"
  by (simp add: register_function_def view_def Let_def)

lemma mark_function_missing_frame:
  "tid' \<noteq> tid \<Longrightarrow> view (mark_function_missing tid s) tid' = view s tid'"
  by (simp add: mark_function_missing_def view_def Let_def)

text \<open>The part of the state that the log determines: everything but the lifecycle states,
  the registered functions and the next run times, which the engine recomputes.\<close>

definition core :: "engine_state \<Rightarrow>
    (timer_id \<rightharpoonup> timer_spec) \<times> (timer_id \<rightharpoonup> last_run_info) \<times> (timer_id \<rightharpoonup> u32)
    \<times> (timer_id \<rightharpoonup> (run_id \<times> datetime \<times> u32))" where
  "core s = (specs s, last_runs s, retries_7d s, pending_retries s)"

lemma core_apply_event: "core s = core s' \<Longrightarrow> core (apply_event e s) = core (apply_event e s')"
  by (cases e) (auto simp: core_def Let_def)

lemma core_register [simp]: "core (register_function tid name s) = core s"
  by (simp add: core_def register_function_def Let_def)

lemma core_missing [simp]: "core (mark_function_missing tid s) = core s"
  by (simp add: core_def mark_function_missing_def Let_def)

lemma core_next_runs [simp]: "core (s\<lparr>next_runs := nr\<rparr>) = core s"
  by (simp add: core_def)

text \<open>No timer is shown as waiting or running without a function that could run it.\<close>

definition live_has_fn :: "engine_state \<Rightarrow> timer_id \<Rightarrow> bool" where
  "live_has_fn s tid \<longleftrightarrow>
     (states s tid \<in> {Some Scheduled, Some Retrying, Some Running} \<longrightarrow> fn_names s tid \<noteq> None)"

lemma live_has_fn_missing: "live_has_fn (mark_function_missing tid s) tid"
  by (auto simp: live_has_fn_def mark_function_missing_def Let_def unwrap_or_def split: option.splits)

lemma live_has_fn_register: "live_has_fn (register_function tid name s) tid"
  by (simp add: live_has_fn_def register_function_def Let_def)

end
