(* ===== verification/Kron_Snapshot.thy ===== *)
theory Kron_Snapshot
  imports Kron_Log Kron_State
begin

text \<open>
  snapshot.rs: snapshots of the engine state, recovery from a snapshot and the log, and
  compaction.  The data directory is a record of the three files that recovery reads; each
  rename, truncation and removal is one atomic step, so that a crash can be placed between
  any two of them.  The JSON text of a snapshot is written to a temporary file and renamed, so
  a snapshot file is either a complete snapshot or, if something else wrote it, unreadable.
\<close>

section \<open>Data\<close>

record pending_retry_snapshot =
  prs_run_id :: run_id
  prs_next_retry_at :: datetime
  prs_attempt :: u32

record last_run_info_snapshot =
  lrs_run_id :: run_id
  lrs_finished_at :: datetime
  lrs_duration_ms :: "u64 option"
  lrs_status :: string

record snapshot =
  sn_v :: u8
  sn_format_version :: u8
  sn_engine_version :: string
  sn_created_at :: datetime
  sn_last_aof_offset :: u64
  sn_specs :: "timer_id \<rightharpoonup> timer_spec"
  sn_states :: "timer_id \<rightharpoonup> timer_state"
  sn_last_runs :: "timer_id \<rightharpoonup> last_run_info_snapshot"
  sn_next_runs :: "timer_id \<rightharpoonup> datetime"
  sn_retries_7d :: "timer_id \<rightharpoonup> u32"
  sn_pending_retries :: "timer_id \<rightharpoonup> pending_retry_snapshot"

definition SNAPSHOT_VERSION :: u8 where
  "SNAPSHOT_VERSION = 1"

definition STORAGE_FORMAT_VERSION :: u8 where
  "STORAGE_FORMAT_VERSION = 1"

text \<open>\<open>CARGO_PKG_VERSION\<close> of the crate.\<close>

definition ENGINE_VERSION :: string where
  "ENGINE_VERSION = ''0.1.2''"

datatype snapshot_file = Parsed snapshot | Unreadable string

record disk =
  d_aof :: "string option"
  d_aof_old :: "string option"
  d_snapshot :: "snapshot_file option"

section \<open>Operations\<close>

definition from_state :: "datetime \<Rightarrow> engine_state \<Rightarrow> u64 \<Rightarrow> snapshot" where
  "from_state now s last_aof_offset =
     \<lparr>sn_v = SNAPSHOT_VERSION,
      sn_format_version = STORAGE_FORMAT_VERSION,
      sn_engine_version = ENGINE_VERSION,
      sn_created_at = now,
      sn_last_aof_offset = last_aof_offset,
      sn_specs = specs s,
      sn_states = states s,
      sn_last_runs = (\<lambda>tid. map_option (\<lambda>run.
         \<lparr>lrs_run_id = lri_run_id run, lrs_finished_at = lri_finished_at run,
          lrs_duration_ms = lri_duration_ms run, lrs_status = lri_status run\<rparr>) (last_runs s tid)),
      sn_next_runs = next_runs s,
      sn_retries_7d = retries_7d s,
      sn_pending_retries = (\<lambda>tid. map_option (\<lambda>(rid, next_retry, attempt).
         \<lparr>prs_run_id = rid, prs_next_retry_at = next_retry, prs_attempt = attempt\<rparr>)
           (pending_retries s tid))\<rparr>"

definition into_state :: "snapshot \<Rightarrow> engine_state res" where
  "into_state sn =
     (if sn_v sn \<noteq> SNAPSHOT_VERSION
      then Inl (Err (InvalidSnapshot (''unsupported snapshot version '' @ show_nat (unat (sn_v sn)))))
      else if sn_format_version sn \<noteq> STORAGE_FORMAT_VERSION
      then Inl (Err (InvalidSnapshot
             (''unsupported storage format version '' @ show_nat (unat (sn_format_version sn)))))
      else Inr
        \<lparr>specs = sn_specs sn,
         states = sn_states sn,
         fn_names = Map.empty,
         last_runs = (\<lambda>tid. map_option (\<lambda>run.
           \<lparr>lri_run_id = lrs_run_id run, lri_finished_at = lrs_finished_at run,
            lri_duration_ms = lrs_duration_ms run, lri_status = lrs_status run\<rparr>) (sn_last_runs sn tid)),
         next_runs = sn_next_runs sn,
         retries_7d = sn_retries_7d sn,
         pending_retries = (\<lambda>tid. map_option (\<lambda>retry.
           (prs_run_id retry, prs_next_retry_at retry, prs_attempt retry)) (sn_pending_retries sn tid))\<rparr>)"

definition snapshot_path :: "string \<Rightarrow> string" where
  "snapshot_path data_dir = data_dir @ ''/kron.snapshot''"

definition aof_path :: "string \<Rightarrow> string" where
  "aof_path data_dir = data_dir @ ''/kron.aof''"

definition old_aof_path :: "string \<Rightarrow> string" where
  "old_aof_path data_dir = data_dir @ ''/kron.aof.old''"

text \<open>\<open>AppendOnlyLog::open\<close> creates a missing file and keeps an existing one as it is.\<close>

definition open_log :: "disk \<Rightarrow> disk \<times> string" where
  "open_log D = (case d_aof D of None \<Rightarrow> (D\<lparr>d_aof := Some []\<rparr>, []) | Some f \<Rightarrow> (D, f))"

definition metadata_len :: "string option \<Rightarrow> nat" where
  "metadata_len f = (case f of None \<Rightarrow> 0 | Some bytes \<Rightarrow> length bytes)"

definition load_state :: "log_entry codec \<Rightarrow> string \<Rightarrow> disk \<Rightarrow> engine_state res \<times> disk" where
  "load_state C data_dir D =
     (case d_snapshot D of
        Some sf \<Rightarrow>
          (case sf of
             Unreadable msg \<Rightarrow>
               (Inl (Err (InvalidSnapshot (''cannot read '' @ snapshot_path data_dir @ '': '' @ msg))), D)
           | Parsed sn \<Rightarrow>
               let offset = unat (sn_last_aof_offset sn) in
               case into_state sn of
                 Inl e \<Rightarrow> (Inl e, D)
               | Inr s \<Rightarrow>
                   if metadata_len (d_aof D) < offset
                   then (case d_aof_old D of
                           None \<Rightarrow>
                             (Inl (Err (InvalidSnapshot (''snapshot points to AOF offset ''
                                @ show_nat offset @ '', but '' @ aof_path data_dir
                                @ '' is shorter and '' @ old_aof_path data_dir @ '' is missing''))), D)
                         | Some old \<Rightarrow>
                             (case replay_from C (old_aof_path data_dir) offset old of
                                Inl e \<Rightarrow> (Inl e, D)
                              | Inr entries \<Rightarrow>
                                  let (D1, f) = open_log D in
                                  case replay_log C (aof_path data_dir) f of
                                    Inl e \<Rightarrow> (Inl e, D1)
                                  | Inr new_entries \<Rightarrow> (Inr (replay s (entries @ new_entries)), D1)))
                   else let (D1, f) = open_log D in
                        case replay_from C (aof_path data_dir) offset f of
                          Inl e \<Rightarrow> (Inl e, D1)
                        | Inr entries \<Rightarrow> (Inr (replay s entries), D1))
      | None \<Rightarrow>
          let (D1, f) = open_log D in
          case replay_log C (aof_path data_dir) f of
            Inl e \<Rightarrow> (Inl e, D1)
          | Inr entries \<Rightarrow> (Inr (replay new_state entries), D1))"

definition write_snapshot_atomic :: "datetime \<Rightarrow> engine_state \<Rightarrow> u64 \<Rightarrow> disk \<Rightarrow> disk" where
  "write_snapshot_atomic now s offset D =
     D\<lparr>d_snapshot := Some (Parsed (from_state now s offset))\<rparr>"

text \<open>The disk steps of a compaction, in order.  A failing call or a crash ends the compaction
  after some of them.\<close>

definition compact_steps :: "datetime \<Rightarrow> engine_state \<Rightarrow> disk \<Rightarrow> (disk \<Rightarrow> disk) list" where
  "compact_steps now s D =
     (let offset = of_nat (metadata_len (d_aof D)) in
      [write_snapshot_atomic now s offset]
      @ (if d_aof D \<noteq> None
         then [\<lambda>D. D\<lparr>d_aof_old := None\<rparr>, \<lambda>D. D\<lparr>d_aof_old := d_aof D, d_aof := None\<rparr>]
         else [])
      @ [\<lambda>D. D\<lparr>d_aof := Some []\<rparr>, write_snapshot_atomic now s 0])"

definition compact_until :: "nat \<Rightarrow> datetime \<Rightarrow> engine_state \<Rightarrow> disk \<Rightarrow> disk" where
  "compact_until n now s D = fold (\<lambda>f. f) (take n (compact_steps now s D)) D"

definition compact :: "datetime \<Rightarrow> engine_state \<Rightarrow> disk \<Rightarrow> disk" where
  "compact now s D = fold (\<lambda>f. f) (compact_steps now s D) D"

definition compact_read_only ::
  "log_entry codec \<Rightarrow> string \<Rightarrow> datetime \<Rightarrow> disk \<Rightarrow> unit res \<times> disk" where
  "compact_read_only C data_dir now D =
     (case load_state C data_dir D of
        (Inl e, D1) \<Rightarrow> (Inl e, D1)
      | (Inr s, D1) \<Rightarrow> (Inr (), compact now s D1))"

definition try_compaction_lock :: "string \<Rightarrow> bool \<Rightarrow> unit res" where
  "try_compaction_lock data_dir locked_by_other =
     (if locked_by_other then Inl (Err (DataDirLocked (data_dir @ ''/kron.lock''))) else Inr ())"

section \<open>Snapshots round trip\<close>

text \<open>What a snapshot keeps: everything but the registered functions.\<close>

definition forget_fns :: "engine_state \<Rightarrow> engine_state" where
  "forget_fns s = s\<lparr>fn_names := Map.empty\<rparr>"

lemma core_forget_fns [simp]: "core (forget_fns s) = core s"
  by (simp add: forget_fns_def core_def)

lemma into_from_state: "into_state (from_state now s offset) = Inr (forget_fns s)"
proof -
  have "(\<lambda>x. \<lparr>lri_run_id = lri_run_id x, lri_finished_at = lri_finished_at x,
      lri_duration_ms = lri_duration_ms x, lri_status = lri_status x\<rparr>) = (\<lambda>x. x)"
    by (rule ext) simp
  then show ?thesis
    by (cases s) (simp add: into_state_def from_state_def forget_fns_def option.map_comp comp_def
        case_prod_unfold option.map_ident)
qed

section \<open>Recovery\<close>

lemma replay_from_boundary:
  "list_all (wf_entry C) (es @ fs) \<Longrightarrow> k = length (log_file C es) \<Longrightarrow>
     replay_from C path k (log_file C (es @ fs)) = Inr fs"
  by (simp add: replay_from_def replay_reader_entries)

lemma replay_reader_Nil [simp]: "replay_reader C path [] = Inr []"
  using replay_reader_entries [of C "[]" path] by (simp add: log_file_def)

lemma load_from_snapshot:
  assumes "d_snapshot D = Some (Parsed (from_state now s offset))"
    and "d_aof D = Some (log_file C (es @ fs))" "list_all (wf_entry C) (es @ fs)"
    and "unat offset = length (log_file C es)"
  shows "fst (load_state C dir D) = Inr (replay (forget_fns s) fs)"
proof -
  have "sn_last_aof_offset (from_state now s offset) = offset" by (simp add: from_state_def)
  then show ?thesis
    using assms replay_from_boundary [OF assms(3,4)]
    by (simp add: load_state_def into_from_state open_log_def metadata_len_def Let_def)
qed

lemma load_at_offset:
  assumes "d_snapshot D = Some (Parsed (from_state now s offset))"
    and "unat offset = metadata_len (d_aof D)"
  shows "fst (load_state C dir D) = Inr (forget_fns s)"
proof -
  have "sn_last_aof_offset (from_state now s offset) = offset" by (simp add: from_state_def)
  then show ?thesis
    using assms
    by (auto simp: load_state_def into_from_state open_log_def metadata_len_def replay_from_def Let_def
        split: option.splits)
qed

lemma load_rotated:
  assumes "d_snapshot D = Some (Parsed (from_state now s offset))"
    and "metadata_len (d_aof D) = 0" "d_aof_old D = Some old" "unat offset = length old"
  shows "fst (load_state C dir D) = Inr (forget_fns s)"
proof -
  have "sn_last_aof_offset (from_state now s offset) = offset" by (simp add: from_state_def)
  then show ?thesis
    using assms
    by (auto simp: load_state_def into_from_state open_log_def metadata_len_def replay_from_def Let_def
        replay_log_def split: option.splits)
qed

lemma metadata_offset:
  "metadata_len f < 2 ^ 64 \<Longrightarrow> unat (of_nat (metadata_len f) :: u64) = metadata_len f"
  by (simp only: unat_of_nat) simp

lemma core_replay_cong: "core s = core s' \<Longrightarrow> core (replay s es) = core (replay s' es)"
proof (induction es arbitrary: s s')
  case (Cons e es)
  from Cons.IH [OF core_apply_event [OF Cons.prems]] show ?case by (simp add: replay_def)
qed simp

text \<open>A snapshot of a state reads back as that state without its registered functions, and
  recovery from a snapshot and a log whose recorded offset lies between two entries replays
  exactly the entries after the offset.\<close>

theorem snapshot_recovery:
  assumes "list_all (wf_entry C) (es @ fs)" "unat offset = length (log_file C es)"
    and "d_snapshot D = Some (Parsed (from_state now s offset))"
    and "d_aof D = Some (log_file C (es @ fs))"
  shows "into_state (from_state now s offset) = Inr (forget_fns s)
    \<and> fst (load_state C data_dir D) = Inr (replay (forget_fns s) fs)
    \<and> core (replay (forget_fns s) fs) = core (replay s fs)"
  using load_from_snapshot [OF assms(3,4,1,2)]
  by (simp add: into_from_state core_replay_cong [of "forget_fns s" s])

theorem snapshot_recovery_witness:
  "fst (load_state sample_codec ''data''
     \<lparr>d_aof = Some (log_file sample_codec ([entry_a] @ [entry_b])), d_aof_old = None,
      d_snapshot = Some (Parsed (from_state 0 new_state 4))\<rparr>)
   = Inr (replay (forget_fns new_state) [entry_b])"
proof -
  have "length (log_file sample_codec [entry_a]) = 4" by (simp add: log_file_def sample_text)
  then show ?thesis
    using snapshot_recovery [of sample_codec "[entry_a]" "[entry_b]" 4
        "\<lparr>d_aof = Some (log_file sample_codec ([entry_a] @ [entry_b])), d_aof_old = None,
          d_snapshot = Some (Parsed (from_state 0 new_state 4))\<rparr>" 0 new_state "''data''"] sample_wf
    by simp
qed

section \<open>Compaction\<close>

text \<open>The disk after each step.\<close>

lemmas compact_unfold = compact_until_def compact_steps_def write_snapshot_atomic_def metadata_len_def
  Let_def eval_nat_numeral

lemma compact_until_Some:
  assumes "d_aof D = Some f"
    and "S = Some (Parsed (from_state now s (of_nat (length f))))"
  shows "compact_until (Suc 0) now s D = D\<lparr>d_snapshot := S\<rparr>"
    and "compact_until 2 now s D = D\<lparr>d_snapshot := S, d_aof_old := None\<rparr>"
    and "compact_until 3 now s D = D\<lparr>d_snapshot := S, d_aof_old := Some f, d_aof := None\<rparr>"
    and "compact_until 4 now s D = D\<lparr>d_snapshot := S, d_aof_old := Some f, d_aof := Some []\<rparr>"
    and "5 \<le> n \<Longrightarrow> compact_until n now s D
           = D\<lparr>d_snapshot := Some (Parsed (from_state now s 0)), d_aof_old := Some f, d_aof := Some []\<rparr>"
  using assms by (simp_all add: compact_unfold)

lemma compact_until_None:
  assumes "d_aof D = None"
    and "S = Some (Parsed (from_state now s 0))"
  shows "compact_until (Suc 0) now s D = D\<lparr>d_snapshot := S\<rparr>"
    and "2 \<le> n \<Longrightarrow> compact_until n now s D = D\<lparr>d_snapshot := S, d_aof := Some []\<rparr>"
proof -
  from assms show "compact_until (Suc 0) now s D = D\<lparr>d_snapshot := S\<rparr>"
    by (simp add: compact_unfold)
  assume "2 \<le> n"
  then consider "n = 2" | "3 \<le> n" by linarith
  then show "compact_until n now s D = D\<lparr>d_snapshot := S, d_aof := Some []\<rparr>"
    using assms by cases (simp_all add: compact_unfold)
qed

lemma compact_until_safe:
  assumes "metadata_len (d_aof D) < 2 ^ 64" "0 < n"
  shows "fst (load_state C data_dir (compact_until n now s D)) = Inr (forget_fns s)"
proof (cases "d_aof D")
  case None
  note steps = compact_until_None [OF None refl]
  from assms(2) consider "n = Suc 0" | "2 \<le> n" by linarith
  then show ?thesis
    by cases (simp_all add: steps load_at_offset [where offset = 0 and now = now] None metadata_len_def)
next
  case (Some f)
  note steps = compact_until_Some [OF Some refl]
  have len: "unat (of_nat (length f) :: u64) = length f"
    using metadata_offset [OF assms(1)] by (simp add: Some metadata_len_def)
  from assms(2) consider (a) "n = Suc 0" | (b) "n = 2" | (c) "n = 3" | (d) "n = 4" | (e) "5 \<le> n" by linarith
  then show ?thesis
    using load_at_offset [where offset = "of_nat (length f)" and now = now]
      load_at_offset [where offset = 0 and now = now]
      load_rotated [where offset = "of_nat (length f)" and now = now and old = f]
    by cases (simp_all add: steps Some len metadata_len_def)
qed

text \<open>C5: compaction is crash safe.  If it is interrupted after any number of its steps, or
  completes, recovery from the disk it leaves gives back the compacted state (from the first
  step on; before it, the disk is untouched).\<close>

theorem compact_crash_safe:
  assumes "metadata_len (d_aof D) < 2 ^ 64"
  shows "compact_until 0 now s D = D
    \<and> (0 < n \<longrightarrow> fst (load_state C data_dir (compact_until n now s D)) = Inr (forget_fns s))
    \<and> fst (load_state C data_dir (compact now s D)) = Inr (forget_fns s)"
proof -
  have "compact now s D = compact_until (length (compact_steps now s D)) now s D"
    by (simp add: compact_def compact_until_def)
  moreover have "0 < length (compact_steps now s D)" by (simp add: compact_steps_def Let_def)
  moreover have "compact_until 0 now s D = D" by (simp add: compact_until_def)
  ultimately show ?thesis using compact_until_safe [OF assms] by simp
qed

theorem compact_crash_safe_witness:
  "fst (load_state sample_codec ''data''
     (compact_until 3 0 new_state \<lparr>d_aof = Some ''{a}'', d_aof_old = None, d_snapshot = None\<rparr>))
   = Inr (forget_fns new_state)"
  using compact_crash_safe [of "\<lparr>d_aof = Some ''{a}'', d_aof_old = None, d_snapshot = None\<rparr>"
      0 new_state 3 sample_codec "''data''"]
  by (simp add: metadata_len_def)

text \<open>The window between the rotation of the log and the final snapshot.  If compaction is
  interrupted there (after its fourth step) and the engine then logs enough new entries, the
  offset of the interim snapshot, which refers to the rotated log, is applied to the new log:
  the entries below that offset are lost at the next recovery.\<close>

theorem interrupted_compaction_loses_entries:
  assumes "d_aof D = Some old" "length old < 2 ^ 64"
    and "list_all (wf_entry C) (es @ fs)" "length (log_file C es) = length old"
    and "D1 = (compact_until 4 now s D)\<lparr>d_aof := Some (log_file C (es @ fs))\<rparr>"
  shows "fst (load_state C data_dir D1) = Inr (replay (forget_fns s) fs)"
proof (rule load_from_snapshot)
  show "d_snapshot D1 = Some (Parsed (from_state now s (of_nat (length old))))"
    using assms(5) by (simp add: compact_until_Some(4) [OF assms(1) refl])
  show "d_aof D1 = Some (log_file C (es @ fs))" using assms(5) by simp
  show "unat (of_nat (length old) :: u64) = length (log_file C es)"
    using metadata_offset [of "Some old"] assms(2,4) by (simp add: metadata_len_def)
qed (rule assms(3))

theorem interrupted_compaction_loses_entries_witness:
  "fst (load_state sample_codec ''data''
     ((compact_until 4 0 new_state \<lparr>d_aof = Some (log_file sample_codec [entry_b]), d_aof_old = None, d_snapshot = None\<rparr>)
        \<lparr>d_aof := Some (log_file sample_codec ([entry_a] @ []))\<rparr>))
   = Inr (replay (forget_fns new_state) [])"
  using sample_wf
  by (intro interrupted_compaction_loses_entries
      [where old = "log_file sample_codec [entry_b]", OF _ _ _ _ refl])
    (simp_all add: log_file_def sample_text)

end
