(* ===== verification/Kron_Engine.thy ===== *)
theory Kron_Engine
  imports Kron_Heap Kron_Snapshot
begin

text \<open>
  engine.rs and clock.rs: the embedded engine.  \<open>inner\<close> is the state behind the mutex; every
  definition of the section on operations is one critical section of the code (the code between
  taking and releasing the lock), with the clock readings, the new run identifiers, the outcomes
  of the log writes and the results of the callbacks as arguments.  A panic inside a critical
  section poisons the mutex.  The operations return what the code returns and the new state.
\<close>

section \<open>State\<close>

text \<open>The file the open log handle refers to: the log itself; when a compaction has failed
  after it renamed the log, the renamed file; and when another compaction has removed that one,
  a file that has no name any more.\<close>

datatype log_handle = OnAof | OnAofOld | Unlinked

record inner =
  i_state :: engine_state
  i_heap :: timer_heap
  i_disk :: disk
  i_handle :: log_handle
  i_registry :: "timer_id \<rightharpoonup> string"
  i_started :: bool
  i_stopped :: bool
  i_shutting_down :: bool
  i_active_runs :: nat

type_synonym 'a result = "'a res \<times> inner"

text \<open>What follows a fallible call: one continuation for its error, one for its value.\<close>

definition on_result ::
  "'a result \<Rightarrow> (fault \<Rightarrow> inner \<Rightarrow> 'b result) \<Rightarrow> ('a \<Rightarrow> inner \<Rightarrow> 'b result) \<Rightarrow> 'b result" where
  "on_result r on_err on_ok = (case r of (Inl e, inn) \<Rightarrow> on_err e inn | (Inr v, inn) \<Rightarrow> on_ok v inn)"

section \<open>clock.rs\<close>

text \<open>Milliseconds to sleep.  \<open>num_milliseconds\<close> truncates towards zero.\<close>

definition sleep_duration_until :: "datetime option \<Rightarrow> datetime \<Rightarrow> u64" where
  "sleep_duration_until next_at now =
     (case next_at of
        None \<Rightarrow> 100
      | Some t \<Rightarrow>
          let delta = (if now \<le> t then (t - now) div 1000000 else - ((now - t) div 1000000)) in
          if delta \<le> 0 then 0 else of_int delta)"

section \<open>Operations\<close>

text \<open>The log file behind the handle, and an append to it.\<close>

definition log_bytes :: "inner \<Rightarrow> string" where
  "log_bytes inn = (case i_handle inn of
                      OnAof \<Rightarrow> unwrap_or (d_aof (i_disk inn)) []
                    | OnAofOld \<Rightarrow> unwrap_or (d_aof_old (i_disk inn)) []
                    | Unlinked \<Rightarrow> [])"

definition set_log_bytes :: "string \<Rightarrow> inner \<Rightarrow> inner" where
  "set_log_bytes f inn = (case i_handle inn of
                            OnAof \<Rightarrow> inn\<lparr>i_disk := (i_disk inn)\<lparr>d_aof := Some f\<rparr>\<rparr>
                          | OnAofOld \<Rightarrow> inn\<lparr>i_disk := (i_disk inn)\<lparr>d_aof_old := Some f\<rparr>\<rparr>
                          | Unlinked \<Rightarrow> inn)"

definition engine_append :: "log_entry codec \<Rightarrow> datetime \<Rightarrow> event \<Rightarrow> io_outcome \<Rightarrow> inner \<Rightarrow> unit result" where
  "engine_append C now ev io inn =
     (case append_log C now ev io (log_bytes inn) of (r, f) \<Rightarrow> (r, set_log_bytes f inn))"

definition apply_to_inner :: "event \<Rightarrow> inner \<Rightarrow> inner" where
  "apply_to_inner ev inn = inn\<lparr>i_state := apply_event ev (i_state inn)\<rparr>"

definition open_engine ::
  "log_entry codec \<Rightarrow> string \<Rightarrow> bool \<Rightarrow> disk \<Rightarrow> inner res \<times> disk" where
  "open_engine C data_dir locked_by_other D =
     (if locked_by_other then (Inl (Err (DataDirLocked (data_dir @ ''/kron.lock''))), D)
      else
        let D1 = fst (open_log D) in
        case load_state C data_dir D1 of
          (Inl e, D2) \<Rightarrow> (Inl e, D2)
        | (Inr s, D2) \<Rightarrow>
            let s1 = s\<lparr>next_runs := Map.empty\<rparr>;
                s2 = s1\<lparr>states := (\<lambda>tid. if specs s1 tid \<noteq> None then Some Orphaned else states s1 tid)\<rparr>
            in (Inr \<lparr>i_state = s2, i_heap = new_heap, i_disk = D2, i_handle = OnAof,
                     i_registry = Map.empty, i_started = False, i_stopped = False,
                     i_shutting_down = False, i_active_runs = 0\<rparr>, D2))"

definition next_entry :: "timer_id \<Rightarrow> datetime \<Rightarrow> scheduled_timer" where
  "next_entry tid t = \<lparr>st_timer_id = tid, st_next_run_at = t, st_run_id = None, st_attempt = 1\<rparr>"

definition push_next :: "timer_id \<Rightarrow> datetime \<Rightarrow> inner \<Rightarrow> inner" where
  "push_next tid t inn =
     inn\<lparr>i_state := (i_state inn)\<lparr>next_runs := (next_runs (i_state inn))(tid \<mapsto> t)\<rparr>,
         i_heap := push (next_entry tid t) (i_heap inn)\<rparr>"

definition remove_next :: "timer_id \<Rightarrow> inner \<Rightarrow> inner" where
  "remove_next tid inn =
     inn\<lparr>i_state := (i_state inn)\<lparr>next_runs := (next_runs (i_state inn))(tid := None)\<rparr>\<rparr>"

definition unqueue :: "timer_id \<Rightarrow> inner \<Rightarrow> inner" where
  "unqueue tid inn = remove_next tid (inn\<lparr>i_heap := remove_timer tid (i_heap inn)\<rparr>)"

text \<open>The specification that a registration asks for.\<close>

record registration =
  reg_id :: string
  reg_schedule :: schedule
  reg_fn_name :: string
  reg_retry :: "retry_policy option"
  reg_timezone :: "string option"
  reg_overlap :: "overlap_policy option"

definition registered_spec :: "datetime \<Rightarrow> registration \<Rightarrow> inner \<Rightarrow> timer_spec" where
  "registered_spec now reg inn =
     (let tid = TimerId (reg_id reg); known = specs (i_state inn) tid in
      \<lparr>ts_id = tid, ts_schedule = reg_schedule reg,
       ts_retry = unwrap_or (reg_retry reg) default_retry,
       ts_timezone = unwrap_or (reg_timezone reg) ''UTC'',
       ts_created_at = unwrap_or (map_option ts_created_at known) now,
       ts_overlap = unwrap_or (case reg_overlap reg of
                                 Some p \<Rightarrow> Some p
                               | None \<Rightarrow> map_option ts_overlap known) default_overlap\<rparr>)"

text \<open>The first half of \<open>schedule_with_overlap\<close>: the log and the specification.\<close>

definition register_spec ::
  "log_entry codec \<Rightarrow> datetime \<Rightarrow> registration \<Rightarrow> io_outcome \<Rightarrow> inner \<Rightarrow> unit result" where
  "register_spec C now reg io inn =
     (let tid = TimerId (reg_id reg); spec = registered_spec now reg inn in
      if specs (i_state inn) tid = None
      then on_result (engine_append C now (TimerCreated spec) io inn)
             (\<lambda>e inn1. (Inl e, inn1))
             (\<lambda>_ inn1. (Inr (), apply_to_inner (TimerCreated spec) inn1))
      else if specs (i_state inn) tid \<noteq> Some spec
      then on_result (engine_append C now (TimerUpdated spec) io inn)
             (\<lambda>e inn1. (Inl e, inn1))
             (\<lambda>_ inn1. (Inr (), unqueue tid (apply_to_inner (TimerUpdated spec) inn1)))
      else (Inr (), inn))"

text \<open>The second half: bind the function and queue the next run unless one is recorded.\<close>

definition bind_function :: "libs \<Rightarrow> datetime \<Rightarrow> registration \<Rightarrow> inner \<Rightarrow> unit result" where
  "bind_function L now reg inn =
     (let tid = TimerId (reg_id reg);
          inn1 = inn\<lparr>i_registry := (i_registry inn)(tid \<mapsto> reg_fn_name reg),
                     i_state := register_function tid (reg_fn_name reg) (i_state inn)\<rparr>
      in if next_runs (i_state inn1) tid = None
         then (case specs (i_state inn1) tid of
                 None \<Rightarrow> (Inl (Panic ''no entry found for key''), inn1)
               | Some spec \<Rightarrow>
                   (case next_run_after L (ts_schedule spec) now (ts_timezone spec) of
                      Inr (Some t) \<Rightarrow> (Inr (), push_next tid t inn1)
                    | Inl (Panic msg) \<Rightarrow> (Inl (Panic msg), inn1)
                    | _ \<Rightarrow> (Inr (), inn1)))
         else (Inr (), inn1))"

text \<open>One reading \<open>now\<close> stands for the readings of the clock within one call, all in one critical section.\<close>

definition schedule_with_overlap ::
  "libs \<Rightarrow> log_entry codec \<Rightarrow> datetime \<Rightarrow> registration \<Rightarrow> io_outcome \<Rightarrow> inner \<Rightarrow> unit result" where
  "schedule_with_overlap L C now reg io inn =
     (if i_shutting_down inn \<or> i_stopped inn then (Inl (Err AlreadyStopped), inn)
      else on_result (register_spec C now reg io inn)
             (\<lambda>e inn1. (Inl e, inn1))
             (\<lambda>_ inn1. bind_function L now reg inn1))"

definition start :: "inner \<Rightarrow> unit result" where
  "start inn =
     (if i_stopped inn then (Inl (Err AlreadyStopped), inn)
      else if i_started inn then (Inl (Err AlreadyStarted), inn)
      else (Inr (), inn\<lparr>i_started := True\<rparr>))"

text \<open>The top of the event loop: \<open>None\<close> when the loop ends, else the due entries.\<close>

definition loop_tick :: "datetime \<Rightarrow> inner \<Rightarrow> (scheduled_timer list \<times> datetime option) option \<times> inner" where
  "loop_tick now inn =
     (if i_shutting_down inn then (None, inn)
      else case pop_due now (i_heap inn) of
             (due, h) \<Rightarrow> (Some (due, peek_next_at h), inn\<lparr>i_heap := h\<rparr>))"

text \<open>Before spawning the task of one due entry; \<open>False\<close> leaves the loop over the entries.\<close>

definition spawn_guard :: "inner \<Rightarrow> bool \<times> inner" where
  "spawn_guard inn =
     (if i_shutting_down inn then (False, inn)
      else (True, inn\<lparr>i_active_runs := i_active_runs inn + 1\<rparr>))"

definition finish_run :: "inner \<Rightarrow> inner" where
  "finish_run inn = inn\<lparr>i_active_runs := i_active_runs inn - 1\<rparr>"

definition append_apply_or_stop ::
  "log_entry codec \<Rightarrow> datetime \<Rightarrow> event \<Rightarrow> io_outcome \<Rightarrow> inner \<Rightarrow> unit result" where
  "append_apply_or_stop C now ev io inn =
     on_result (engine_append C now ev io inn)
       (\<lambda>e inn1. (Inl e, inn1\<lparr>i_shutting_down := True, i_stopped := True\<rparr>))
       (\<lambda>_ inn1. (Inr (), apply_to_inner ev inn1))"

definition reschedule_from :: "libs \<Rightarrow> timer_spec \<Rightarrow> datetime \<Rightarrow> inner \<Rightarrow> unit result" where
  "reschedule_from L spec from inn =
     (if i_shutting_down inn \<or> i_stopped inn then (Inr (), inn)
      else case next_run_after L (ts_schedule spec) from (ts_timezone spec) of
             Inr (Some t) \<Rightarrow> (Inr (), push_next (ts_id spec) t inn)
           | Inl (Panic msg) \<Rightarrow> (Inl (Panic msg), inn)
           | _ \<Rightarrow> (Inr (), remove_next (ts_id spec) inn))"

definition reschedule :: "libs \<Rightarrow> timer_spec \<Rightarrow> datetime \<Rightarrow> inner \<Rightarrow> unit result" where
  "reschedule L spec now inn = reschedule_from L spec now inn"

text \<open>Leave a critical section: the run is over unless the section panicked.\<close>

definition finishing :: "unit result \<Rightarrow> unit result" where
  "finishing r =
     on_result r
       (\<lambda>e inn. case e of Panic msg \<Rightarrow> (Inl (Panic msg), inn) | Err _ \<Rightarrow> (Inr (), finish_run inn))
       (\<lambda>_ inn. (Inr (), finish_run inn))"

text \<open>A run whose function is being called.\<close>

record task =
  t_run_id :: run_id
  t_spec :: timer_spec
  t_started_at :: datetime
  t_has_fn :: bool
  t_entry :: scheduled_timer

text \<open>The first critical section of \<open>run_timer\<close>: \<open>Inr (Some task)\<close> when the function is to be
  called, \<open>Inr None\<close> when the task is over.  \<open>ulid\<close> is the fresh identifier that an entry
  without one gets.\<close>

definition run_begin ::
  "libs \<Rightarrow> log_entry codec \<Rightarrow> datetime \<Rightarrow> string \<Rightarrow> io_outcome \<Rightarrow> io_outcome \<Rightarrow> scheduled_timer
     \<Rightarrow> inner \<Rightarrow> task option result" where
  "run_begin L C now ulid io1 io2 scheduled inn0 =
     (let tid = st_timer_id scheduled;
          rid = unwrap_or (st_run_id scheduled) (new_run_id ulid);
          inn = remove_next tid inn0
      in case specs (i_state inn) tid of
           None \<Rightarrow> (Inr None, finish_run inn)
         | Some spec \<Rightarrow>
             if ts_overlap spec = Skip \<and> states (i_state inn) tid = Some Running
             then on_result (append_apply_or_stop C now
                               (RunSkippedOverlap tid rid (st_next_run_at scheduled) now) io1 inn)
                    (\<lambda>_ inn1. (Inr None, finish_run inn1))
                    (\<lambda>_ inn1. on_result (finishing (reschedule_from L spec (st_next_run_at scheduled) inn1))
                       (\<lambda>e inn2. (Inl e, inn2))
                       (\<lambda>_ inn2. (Inr None, inn2)))
             else on_result (append_apply_or_stop C now (RunDue tid rid (st_next_run_at scheduled)) io1 inn)
                    (\<lambda>_ inn1. (Inr None, finish_run inn1))
                    (\<lambda>_ inn1. on_result (append_apply_or_stop C now
                                          (RunStarted tid rid now (st_attempt scheduled)) io2 inn1)
                       (\<lambda>_ inn2. (Inr None, finish_run inn2))
                       (\<lambda>_ inn2.
                          let task = \<lparr>t_run_id = rid, t_spec = spec, t_started_at = now,
                                      t_has_fn = (i_registry inn2 tid \<noteq> None), t_entry = scheduled\<rparr>
                          in if ts_overlap spec \<in> {Skip, Allow}
                             then on_result (reschedule_from L spec (st_next_run_at scheduled) inn2)
                                    (\<lambda>e inn3. (Inl e, inn3))
                                    (\<lambda>_ inn3. (Inr (Some task), inn3))
                             else (Inr (Some task), inn2))))"

definition retry_entry :: "timer_id \<Rightarrow> run_id \<Rightarrow> datetime \<Rightarrow> u32 \<Rightarrow> scheduled_timer" where
  "retry_entry tid rid t attempt =
     \<lparr>st_timer_id = tid, st_next_run_at = t, st_run_id = Some rid, st_attempt = attempt\<rparr>"

text \<open>The branch of the second critical section for a failed run.\<close>

definition run_failed ::
  "libs \<Rightarrow> log_entry codec \<Rightarrow> datetime \<Rightarrow> string \<Rightarrow> io_outcome \<Rightarrow> io_outcome \<Rightarrow> task \<Rightarrow> inner \<Rightarrow> unit result" where
  "run_failed L C now err io1 io2 t inn =
     (let spec = t_spec t; tid = ts_id spec; rid = t_run_id t;
          attempt = unwrap_or (map_option (snd \<circ> snd) (pending_retries (i_state inn) tid)) 1
      in on_result (append_apply_or_stop C now (RunFailed tid rid now err attempt) io1 inn)
           (\<lambda>e inn1. (Inl e, inn1))
           (\<lambda>_ inn1.
             case next_retry_at L (ts_retry spec) now attempt of
               Inl e \<Rightarrow> (Inl e, inn1)
             | Inr (Some retry_at) \<Rightarrow>
                 let inn2 = (if ts_overlap spec \<noteq> Delay then unqueue tid inn1 else inn1) in
                 on_result (append_apply_or_stop C now (RunRetrying tid rid (attempt + 1) retry_at) io2 inn2)
                   (\<lambda>e inn3. (Inl e, inn3))
                   (\<lambda>_ inn3.
                      if \<not> i_shutting_down inn3 \<and> \<not> i_stopped inn3
                      then (Inr (), inn3\<lparr>i_heap := push (retry_entry tid rid retry_at (attempt + 1)) (i_heap inn3)\<rparr>)
                      else (Inr (), inn3))
             | Inr None \<Rightarrow>
                 on_result (append_apply_or_stop C now (RunDead tid rid now) io2 inn1)
                   (\<lambda>e inn2. (Inl e, inn2))
                   (\<lambda>_ inn2.
                      if ts_overlap spec = Delay \<and> \<not> is_one_shot (ts_schedule spec)
                      then reschedule L spec now inn2
                      else (Inr (), inn2))))"

text \<open>The second critical section of \<open>run_timer\<close>, after the function has returned.  \<open>outcome\<close>
  is what the function gave (a panic of the function counts as an error message).\<close>

definition run_end ::
  "libs \<Rightarrow> log_entry codec \<Rightarrow> datetime \<Rightarrow> string + unit \<Rightarrow> io_outcome \<Rightarrow> io_outcome \<Rightarrow> task \<Rightarrow> inner \<Rightarrow> unit result" where
  "run_end L C now outcome io1 io2 t inn =
     (let spec = t_spec t; tid = ts_id spec; rid = t_run_id t;
          duration = millis_between (t_started_at t) now;
          result = (if t_has_fn t then outcome else Inl ''function not registered (orphaned)'')
      in finishing
        (case result of
           Inr _ \<Rightarrow>
             on_result (append_apply_or_stop C now (RunSucceeded tid rid now duration) io1 inn)
               (\<lambda>e inn1. (Inl e, inn1))
               (\<lambda>_ inn1. if ts_overlap spec = Delay then reschedule L spec now inn1 else (Inr (), inn1))
         | Inl err \<Rightarrow>
             if \<not> t_has_fn t
             then let inn1 = (if ts_overlap spec \<noteq> Delay then unqueue tid inn else inn)
                  in (Inr (), inn1\<lparr>i_state := mark_function_missing tid (i_state inn1)\<rparr>)
             else run_failed L C now err io1 io2 t inn))"

text \<open>\<open>shutdown\<close>: the request, and the end of the wait.  The timeout is reported as an error
  without a change of state.\<close>

datatype shutdown_reply = ShutdownDone | ShutdownWaits

definition shutdown_request :: "inner \<Rightarrow> shutdown_reply \<times> inner" where
  "shutdown_request inn =
     (if i_stopped inn then (ShutdownDone, inn)
      else if \<not> i_started inn then (ShutdownDone, inn\<lparr>i_stopped := True\<rparr>)
      else (ShutdownWaits, inn\<lparr>i_shutting_down := True\<rparr>))"

definition shutdown_wait :: "u64 \<Rightarrow> inner \<Rightarrow> unit result" where
  "shutdown_wait timeout_ms inn =
     (if i_active_runs inn = 0 then (Inr (), inn\<lparr>i_stopped := True\<rparr>)
      else (Inl (Err (ShutdownTimeout timeout_ms)), inn))"

text \<open>\<open>compact\<close>: \<open>fail_after = None\<close> when every disk operation succeeds, else the number of
  disk steps after which one fails.  The handle is replaced at the very end only; until then it
  follows the file it was opened on.\<close>

definition handle_after :: "nat \<Rightarrow> inner \<Rightarrow> log_handle" where
  "handle_after n inn =
     (if d_aof (i_disk inn) = None then i_handle inn
      else case i_handle inn of
             OnAof \<Rightarrow> if 3 \<le> n then OnAofOld else OnAof
           | OnAofOld \<Rightarrow> if 2 \<le> n then Unlinked else OnAofOld
           | Unlinked \<Rightarrow> Unlinked)"

definition engine_compact :: "datetime \<Rightarrow> (nat \<times> string) option \<Rightarrow> inner \<Rightarrow> unit result" where
  "engine_compact now fail_after inn =
     (case fail_after of
        None \<Rightarrow> (Inr (), inn\<lparr>i_disk := compact now (i_state inn) (i_disk inn), i_handle := OnAof\<rparr>)
      | Some (n, msg) \<Rightarrow>
          (Inl (Err (LogIo msg)),
           inn\<lparr>i_disk := compact_until n now (i_state inn) (i_disk inn), i_handle := handle_after n inn\<rparr>))"

definition status :: "string \<Rightarrow> inner \<Rightarrow> timer_summary option" where
  "status name inn = summary (i_state inn) (TimerId name)"

text \<open>\<open>list\<close>: the summaries of the timers, in the iteration order \<open>keys\<close> of the hash map.\<close>

definition list_timers :: "timer_id list \<Rightarrow> inner \<Rightarrow> timer_summary list" where
  "list_timers keys inn = List.map_filter (summary (i_state inn)) keys"

section \<open>What a critical section may do\<close>

text \<open>
  The critical sections that belong to one timer are built from a few primitive changes.  A
  relation between states that is reflexive and transitive and that contains these changes
  contains every critical section.  \<open>ok\<close> restricts the outcomes of the log writes.
\<close>

locale section_rel =
  fixes C :: "log_entry codec" and ok :: "io_outcome \<Rightarrow> bool" and tid :: timer_id
    and R :: "inner \<Rightarrow> inner \<Rightarrow> bool"
  assumes refl: "R i i"
    and trans: "R i j \<Longrightarrow> R j k \<Longrightarrow> R i k"
    and logged: "ok io \<Longrightarrow> event_timer ev = tid \<Longrightarrow> engine_append C now ev io i = (Inr u, j)
                   \<Longrightarrow> R i (apply_to_inner ev j)"
    and not_logged: "ok io \<Longrightarrow> engine_append C now ev io i = (Inl e, j) \<Longrightarrow> R i j"
    and stops: "R i (i\<lparr>i_shutting_down := True, i_stopped := True\<rparr>)"
    and pushes: "st_timer_id s = tid \<Longrightarrow> R i (i\<lparr>i_heap := push s (i_heap i)\<rparr>)"
    and sets_next: "R i (i\<lparr>i_state := (i_state i)\<lparr>next_runs := (next_runs (i_state i))(tid := t)\<rparr>\<rparr>)"
    and removes: "R i (i\<lparr>i_heap := remove_timer tid (i_heap i)\<rparr>)"
    and finishes: "R i (finish_run i)"
    and misses: "R i (i\<lparr>i_state := mark_function_missing tid (i_state i)\<rparr>)"
    and binds: "R i (i\<lparr>i_registry := (i_registry i)(tid \<mapsto> n),
                       i_state := register_function tid n (i_state i)\<rparr>)"
begin

lemma push_next_rel: "R i (push_next tid t i)"
proof -
  have "push_next tid t i = (i\<lparr>i_state := (i_state i)\<lparr>next_runs := (next_runs (i_state i))(tid := Some t)\<rparr>\<rparr>)
          \<lparr>i_heap := push (next_entry tid t) (i_heap i)\<rparr>"
    by (simp add: push_next_def)
  then show ?thesis
    using trans [OF sets_next pushes, of "next_entry tid t"] by (simp add: next_entry_def)
qed

lemma remove_next_rel: "R i (remove_next tid i)"
  unfolding remove_next_def by (rule sets_next)

lemma unqueue_rel: "R i (unqueue tid i)"
  unfolding unqueue_def by (rule trans [OF removes remove_next_rel])

lemma on_result_rel:
  assumes "R i (snd r)"
    and "\<And>e j. r = (Inl e, j) \<Longrightarrow> R i j \<Longrightarrow> R i (snd (f e j))"
    and "\<And>v j. r = (Inr v, j) \<Longrightarrow> R i j \<Longrightarrow> R i (snd (g v j))"
  shows "R i (snd (on_result r f g))"
  using assms by (cases r; cases "fst r") (auto simp: on_result_def)

lemma append_apply_or_stop_rel:
  assumes "ok io" "event_timer ev = tid"
  shows "R i (snd (append_apply_or_stop C now ev io i))"
  using trans [OF not_logged [OF assms(1)] stops] logged [OF assms]
  by (auto simp: append_apply_or_stop_def on_result_def split: prod.split sum.split)

lemma reschedule_from_rel:
  assumes "ts_id spec = tid"
  shows "R i (snd (reschedule_from L spec t i))"
  using push_next_rel remove_next_rel refl assms
  by (auto simp: reschedule_from_def split: sum.splits option.splits fault.splits)

lemma finishing_rel: "R i (snd p) \<Longrightarrow> R i (snd (finishing p))"
  unfolding finishing_def
  by (rule on_result_rel) (auto split: fault.splits intro: trans finishes)

lemma run_begin_rel:
  assumes io: "ok io1" "ok io2" and tid: "st_timer_id s = tid"
    and spec: "\<And>spec. specs (i_state i) tid = Some spec \<Longrightarrow> ts_id spec = tid"
  shows "R i (snd (run_begin L C now ulid io1 io2 s i))"
proof -
  have app: "R i (snd (append_apply_or_stop C now ev io j))"
    if "R i j" "ok io" "event_timer ev = tid" for ev io j
    using trans that append_apply_or_stop_rel by blast
  have fin: "R i (finish_run j)" if "R i j" for j using trans that finishes by blast
  have res: "R i (snd (reschedule_from L spec t j))" if "R i j" "ts_id spec = tid" for spec t j
    using trans that reschedule_from_rel by blast
  have sp: "ts_id spec = tid" if "specs (i_state (remove_next tid i)) tid = Some spec" for spec
    using spec that by (simp add: remove_next_def)
  show ?thesis
    unfolding run_begin_def tid Let_def
    by (auto split: option.split intro!: on_result_rel app res finishing_rel fin remove_next_rel io sp)
qed

lemma run_failed_rel:
  assumes io: "ok io1" "ok io2" and tid: "ts_id (t_spec t) = tid"
  shows "R i (snd (run_failed L C now err io1 io2 t i))"
proof -
  have app: "R i (snd (append_apply_or_stop C now ev io j))"
    if "R i j" "ok io" "event_timer ev = tid" for ev io j
    using trans that append_apply_or_stop_rel by blast
  have res: "R i (snd (reschedule_from L (t_spec t) t' j))" if "R i j" for t' j
    using trans that reschedule_from_rel [OF tid] by blast
  have unq: "R i (unqueue tid j)" if "R i j" for j using trans that unqueue_rel by blast
  have psh: "R i (j\<lparr>i_heap := push (retry_entry tid rid t' a) (i_heap j)\<rparr>)" if "R i j" for j rid t' a
    using trans [OF that pushes] by (simp add: retry_entry_def)
  show ?thesis
    unfolding run_failed_def tid Let_def reschedule_def
    by (auto split: option.split sum.split intro!: on_result_rel app res unq psh io intro: refl)
qed

lemma run_end_rel:
  assumes io: "ok io1" "ok io2" and tid: "ts_id (t_spec t) = tid"
  shows "R i (snd (run_end L C now outcome io1 io2 t i))"
proof -
  have app: "R i (snd (append_apply_or_stop C now ev io i))"
    if "ok io" "event_timer ev = tid" for ev io
    using that append_apply_or_stop_rel by blast
  have res: "R i (snd (reschedule_from L (t_spec t) t' j))" if "R i j" for t' j
    using trans that reschedule_from_rel [OF tid] by blast
  have mis: "R i (j\<lparr>i_state := mark_function_missing tid (i_state j)\<rparr>)" if "R i j" for j
    using trans that misses by blast
  show ?thesis
    unfolding run_end_def tid Let_def reschedule_def
    by (auto split: sum.split intro!: finishing_rel on_result_rel app res mis unqueue_rel
        run_failed_rel io tid intro: refl)
qed

lemma schedule_with_overlap_rel:
  assumes io: "ok io" and tid: "TimerId (reg_id reg) = tid"
  shows "R i (snd (schedule_with_overlap L C now reg io i))"
proof -
  have reg: "R i (snd (register_spec C now reg io i))"
  proof -
    have ev: "event_timer (TimerCreated (registered_spec now reg i)) = tid"
      "event_timer (TimerUpdated (registered_spec now reg i)) = tid"
      using tid by (simp_all add: registered_spec_def Let_def)
    show ?thesis
      using logged [OF io ev(1)] logged [OF io ev(2)] not_logged [OF io] trans [OF _ unqueue_rel] refl
      by (auto simp: register_spec_def on_result_def tid Let_def split: prod.split sum.split)
  qed
  have bind: "R i (snd (bind_function L now reg j))" if "R i j" for j
  proof -
    let ?k = "j\<lparr>i_registry := (i_registry j)(tid \<mapsto> reg_fn_name reg),
                i_state := register_function tid (reg_fn_name reg) (i_state j)\<rparr>"
    have "R i ?k" using trans [OF that binds] .
    moreover from this have "R i (push_next tid t ?k)" for t using trans push_next_rel by blast
    ultimately show ?thesis
      by (auto simp: bind_function_def tid Let_def split: option.split sum.split fault.split)
  qed
  show ?thesis
    unfolding schedule_with_overlap_def
    by (auto intro!: on_result_rel reg bind intro: refl)
qed

end

section \<open>Instances\<close>

text \<open>An append changes the disk only.\<close>

lemma engine_append_disk: "engine_append C now ev io i = (r, j) \<Longrightarrow> \<exists>D. j = i\<lparr>i_disk := D\<rparr>"
proof -
  assume "engine_append C now ev io i = (r, j)"
  then have "j = set_log_bytes (snd (append_log C now ev io (log_bytes i))) i"
    by (auto simp: engine_append_def split: prod.splits)
  then show ?thesis
    by (cases "i_handle i") (auto simp: set_log_bytes_def intro: exI [of _ "i_disk i"])
qed

lemma engine_append_simps:
  assumes "engine_append C now ev io i = (r, j)"
  shows "i_state j = i_state i" "i_heap j = i_heap i" "i_registry j = i_registry i"
    "i_handle j = i_handle i" "i_started j = i_started i" "i_stopped j = i_stopped i"
    "i_shutting_down j = i_shutting_down i" "i_active_runs j = i_active_runs i"
  using engine_append_disk [OF assms] by auto

text \<open>The entries of one timer in the queue.\<close>

definition queued :: "timer_id \<Rightarrow> inner \<Rightarrow> scheduled_timer multiset" where
  "queued tid i = filter_mset (\<lambda>e. st_timer_id e = tid) (mset (i_heap i))"

text \<open>A section of one timer leaves everything of every other timer as it is.\<close>

definition touch :: "timer_id \<Rightarrow> inner \<Rightarrow> inner \<Rightarrow> bool" where
  "touch tid i j \<longleftrightarrow> (\<forall>tid'. tid' \<noteq> tid \<longrightarrow>
     view (i_state j) tid' = view (i_state i) tid' \<and> queued tid' j = queued tid' i
     \<and> i_registry j tid' = i_registry i tid')"

lemma filter_filter_other:
  "tid' \<noteq> tid \<Longrightarrow> filter_mset (\<lambda>e. st_timer_id e = tid') (filter_mset (\<lambda>e. st_timer_id e \<noteq> tid) M)
     = filter_mset (\<lambda>e. st_timer_id e = tid') M"
  by (auto simp: filter_filter_mset intro: filter_mset_cong)

interpretation own: section_rel C "\<lambda>_. True" tid "touch tid"
  for C :: "log_entry codec" and tid :: timer_id
proof
  fix i j k :: inner and io ev now and u :: unit and e s t n
  show "touch tid i i" by (simp add: touch_def)
  show "touch tid i j \<Longrightarrow> touch tid j k \<Longrightarrow> touch tid i k" by (simp add: touch_def)
  show "event_timer ev = tid \<Longrightarrow> engine_append C now ev io i = (Inr u, j) \<Longrightarrow> touch tid i (apply_to_inner ev j)"
    by (auto simp: touch_def apply_to_inner_def queued_def engine_append_simps apply_event_frame)
  show "engine_append C now ev io i = (Inl e, j) \<Longrightarrow> touch tid i j"
    by (auto simp: touch_def queued_def engine_append_simps)
  show "touch tid i (i\<lparr>i_shutting_down := True, i_stopped := True\<rparr>)"
    by (simp add: touch_def queued_def)
  show "st_timer_id s = tid \<Longrightarrow> touch tid i (i\<lparr>i_heap := push s (i_heap i)\<rparr>)"
    by (auto simp: touch_def queued_def)
  show "touch tid i (i\<lparr>i_state := (i_state i)\<lparr>next_runs := (next_runs (i_state i))(tid := t)\<rparr>\<rparr>)"
    by (simp add: touch_def queued_def view_def)
  show "touch tid i (i\<lparr>i_heap := remove_timer tid (i_heap i)\<rparr>)"
    by (simp add: touch_def queued_def filter_filter_other)
  show "touch tid i (finish_run i)" by (simp add: touch_def queued_def finish_run_def)
  show "touch tid i (i\<lparr>i_state := mark_function_missing tid (i_state i)\<rparr>)"
    by (simp add: touch_def queued_def mark_function_missing_frame)
  show "touch tid i (i\<lparr>i_registry := (i_registry i)(tid \<mapsto> n), i_state := register_function tid n (i_state i)\<rparr>)"
    by (simp add: touch_def queued_def register_function_frame)
qed

text \<open>The invariant of the state behind the mutex: the queue is a heap, and the map of the
  specifications is keyed by their identifiers.\<close>

definition wf_specs :: "engine_state \<Rightarrow> bool" where
  "wf_specs s \<longleftrightarrow> (\<forall>tid spec. specs s tid = Some spec \<longrightarrow> ts_id spec = tid)"

definition wf_inner :: "inner \<Rightarrow> bool" where
  "wf_inner i \<longleftrightarrow> wf_heap (i_heap i) \<and> wf_specs (i_state i)"

lemma wf_specs_apply: "wf_specs s \<Longrightarrow> wf_specs (apply_event e s)"
  by (cases e) (auto simp: wf_specs_def Let_def)

lemma wf_specs_simps [simp]:
  "wf_specs (register_function tid n s) = wf_specs s"
  "wf_specs (mark_function_missing tid s) = wf_specs s"
  "wf_specs (s\<lparr>next_runs := nr\<rparr>) = wf_specs s"
  "wf_specs (s\<lparr>states := st\<rparr>) = wf_specs s"
  by (simp_all add: wf_specs_def register_function_def mark_function_missing_def Let_def)

lemma wf_specs_replay: "wf_specs s \<Longrightarrow> wf_specs (replay s es)"
  by (induction es arbitrary: s) (auto simp: replay_def wf_specs_apply)

interpretation keep: section_rel C "\<lambda>_. True" tid "\<lambda>i j. wf_inner i \<longrightarrow> wf_inner j"
  for C :: "log_entry codec" and tid :: timer_id
proof
  fix i j k :: inner and io ev now and u :: unit and e s t n
  show "wf_inner i \<longrightarrow> wf_inner i" by simp
  show "wf_inner i \<longrightarrow> wf_inner j \<Longrightarrow> wf_inner j \<longrightarrow> wf_inner k \<Longrightarrow> wf_inner i \<longrightarrow> wf_inner k" by simp
  show "engine_append C now ev io i = (Inr u, j) \<Longrightarrow> wf_inner i \<longrightarrow> wf_inner (apply_to_inner ev j)"
    by (auto simp: wf_inner_def apply_to_inner_def engine_append_simps wf_specs_apply)
  show "engine_append C now ev io i = (Inl e, j) \<Longrightarrow> wf_inner i \<longrightarrow> wf_inner j"
    by (auto simp: wf_inner_def engine_append_simps)
  show "wf_inner i \<longrightarrow> wf_inner (i\<lparr>i_shutting_down := True, i_stopped := True\<rparr>)"
    by (simp add: wf_inner_def)
  show "wf_inner i \<longrightarrow> wf_inner (i\<lparr>i_heap := push s (i_heap i)\<rparr>)"
    by (simp add: wf_inner_def th.push_inv)
  show "wf_inner i \<longrightarrow> wf_inner (i\<lparr>i_state := (i_state i)\<lparr>next_runs := (next_runs (i_state i))(tid := t)\<rparr>\<rparr>)"
    by (simp add: wf_inner_def)
  show "wf_inner i \<longrightarrow> wf_inner (i\<lparr>i_heap := remove_timer tid (i_heap i)\<rparr>)"
    by (simp add: wf_inner_def)
  show "wf_inner i \<longrightarrow> wf_inner (finish_run i)"
    by (simp add: wf_inner_def finish_run_def)
  show "wf_inner i \<longrightarrow> wf_inner (i\<lparr>i_state := mark_function_missing tid (i_state i)\<rparr>)"
    by (simp add: wf_inner_def)
  show "wf_inner i \<longrightarrow> wf_inner (i\<lparr>i_registry := (i_registry i)(tid \<mapsto> n), i_state := register_function tid n (i_state i)\<rparr>)"
    by (simp add: wf_inner_def)
qed

section \<open>The clock\<close>

text \<open>The event loop never oversleeps: it wakes up no later than the next deadline, at most
  one millisecond before it, and not later than 100 milliseconds when nothing is queued.  (For
  deadlines that are less than \<open>2^64\<close> milliseconds away.)\<close>

theorem sleep_duration_bounds:
  assumes "now < t" "t - now < 2 ^ 64 * 1000000"
  shows "now + int (unat (sleep_duration_until (Some t) now)) * 1000000 \<le> t
    \<and> t - now < (int (unat (sleep_duration_until (Some t) now)) + 1) * 1000000
    \<and> sleep_duration_until None now = 100
    \<and> sleep_duration_until (Some now) t = 0"
proof -
  let ?d = "(t - now) div 1000000"
  have "?d * 1000000 + (t - now) mod 1000000 = t - now" by (rule div_mult_mod_eq)
  moreover have "0 \<le> (t - now) mod 1000000" "(t - now) mod 1000000 < 1000000" by simp_all
  moreover have "(?d + 1) * 1000000 = ?d * 1000000 + 1000000" by (simp add: distrib_right)
  moreover have "0 \<le> ?d" using assms(1) by (simp add: pos_imp_zdiv_nonneg_iff)
  ultimately have d: "0 \<le> ?d" "?d * 1000000 \<le> t - now" "t - now < (?d + 1) * 1000000"
    by linarith+
  have d': "?d < 2 ^ 64" using d(2) assms(2) by linarith
  have "int (unat (of_int ?d :: u64)) = ?d"
    using d(1) d' by (simp add: unsigned_of_int take_bit_int_eq_self)
  then have "int (unat (sleep_duration_until (Some t) now)) = ?d"
    using assms(1) d(1) by (simp add: sleep_duration_until_def Let_def)
  moreover have "sleep_duration_until None now = 100" by (simp add: sleep_duration_until_def)
  moreover have "sleep_duration_until (Some now) t = 0"
    using assms(1) d(1) by (simp add: sleep_duration_until_def Let_def)
  moreover have "now + ?d * 1000000 \<le> t" using d(2) by linarith
  ultimately show ?thesis using d(3) by (simp only: simp_thms)
qed

theorem sleep_duration_bounds_witness:
  "5 + int (unat (sleep_duration_until (Some 3000000) 5)) * 1000000 \<le> 3000000
   \<and> (3000000::int) - 5 < (int (unat (sleep_duration_until (Some 3000000) 5)) + 1) * 1000000"
  using sleep_duration_bounds [of 5 3000000] by simp

end
