(* ===== verification/Kron_Engine_System.thy ===== *)
theory Kron_Engine_System
  imports Kron_Engine
begin

text \<open>
  The running engine: the state behind the mutex together with the tasks around it.  The event
  loop of \<open>start\<close> holds the due entries it has popped and not yet spawned; each spawned task
  first waits for its first critical section and then, while its function runs, for its second.
  An action is one critical section; any order of enabled actions is a possible execution.
\<close>

section \<open>The transition system\<close>

record engine =
  e_inner :: inner
  e_loop :: bool
  e_due :: "scheduled_timer list"
  e_spawned :: "scheduled_timer list"
  e_running :: "task list"
  e_poisoned :: bool

datatype action =
    ASchedule datetime registration io_outcome
  | AStart
  | ATick datetime
  | ASpawn
  | ABegin nat datetime string io_outcome io_outcome
  | AEnd nat datetime "string + unit" io_outcome io_outcome
  | AShutdown
  | AShutdownWait u64
  | ACompact datetime "(nat \<times> string) option"

definition new_engine :: "inner \<Rightarrow> engine" where
  "new_engine inn = \<lparr>e_inner = inn, e_loop = False, e_due = [], e_spawned = [], e_running = [],
                     e_poisoned = False\<rparr>"

definition panicked :: "'a res \<Rightarrow> bool" where
  "panicked r = (case r of Inl (Panic _) \<Rightarrow> True | _ \<Rightarrow> False)"

definition remove_nth :: "nat \<Rightarrow> 'a list \<Rightarrow> 'a list" where
  "remove_nth n xs = take n xs @ drop (Suc n) xs"

text \<open>\<open>None\<close>: the action is not enabled.  Nothing is enabled once the mutex is poisoned, since
  every \<open>lock().unwrap()\<close> then panics.\<close>

fun perform :: "libs \<Rightarrow> log_entry codec \<Rightarrow> action \<Rightarrow> engine \<Rightarrow> engine option" where
  "perform L C (ASchedule now reg io) e =
     (if e_poisoned e then None
      else case schedule_with_overlap L C now reg io (e_inner e) of
             (r, inn) \<Rightarrow> Some (e\<lparr>e_inner := inn, e_poisoned := panicked r\<rparr>))"
| "perform L C AStart e =
     (if e_poisoned e then None
      else case start (e_inner e) of
             (Inl _, inn) \<Rightarrow> Some (e\<lparr>e_inner := inn\<rparr>)
           | (Inr _, inn) \<Rightarrow> Some (e\<lparr>e_inner := inn, e_loop := True\<rparr>))"
| "perform L C (ATick now) e =
     (if e_poisoned e \<or> \<not> e_loop e \<or> e_due e \<noteq> [] then None
      else case loop_tick now (e_inner e) of
             (None, inn) \<Rightarrow> Some (e\<lparr>e_inner := inn, e_loop := False\<rparr>)
           | (Some (due, _), inn) \<Rightarrow> Some (e\<lparr>e_inner := inn, e_due := due\<rparr>))"
| "perform L C ASpawn e =
     (if e_poisoned e then None
      else case e_due e of
             [] \<Rightarrow> None
           | s # rest \<Rightarrow>
               (case spawn_guard (e_inner e) of
                  (False, inn) \<Rightarrow> Some (e\<lparr>e_inner := inn, e_due := []\<rparr>)
                | (True, inn) \<Rightarrow> Some (e\<lparr>e_inner := inn, e_due := rest, e_spawned := e_spawned e @ [s]\<rparr>)))"
| "perform L C (ABegin n now ulid io1 io2) e =
     (if e_poisoned e \<or> length (e_spawned e) \<le> n then None
      else case run_begin L C now ulid io1 io2 (e_spawned e ! n) (e_inner e) of
             (r, inn) \<Rightarrow>
               Some (e\<lparr>e_inner := inn, e_spawned := remove_nth n (e_spawned e),
                       e_running := e_running e @ (case r of Inr (Some t) \<Rightarrow> [t] | _ \<Rightarrow> []),
                       e_poisoned := panicked r\<rparr>))"
| "perform L C (AEnd n now outcome io1 io2) e =
     (if e_poisoned e \<or> length (e_running e) \<le> n then None
      else case run_end L C now outcome io1 io2 (e_running e ! n) (e_inner e) of
             (r, inn) \<Rightarrow>
               Some (e\<lparr>e_inner := inn, e_running := remove_nth n (e_running e),
                       e_poisoned := panicked r\<rparr>))"
| "perform L C AShutdown e =
     (if e_poisoned e then None
      else case shutdown_request (e_inner e) of (_, inn) \<Rightarrow> Some (e\<lparr>e_inner := inn\<rparr>))"
| "perform L C (AShutdownWait timeout_ms) e =
     (if e_poisoned e \<or> \<not> i_shutting_down (e_inner e) then None
      else case shutdown_wait timeout_ms (e_inner e) of (_, inn) \<Rightarrow> Some (e\<lparr>e_inner := inn\<rparr>))"
| "perform L C (ACompact now fail_after) e =
     (if e_poisoned e then None
      else case engine_compact now fail_after (e_inner e) of (_, inn) \<Rightarrow> Some (e\<lparr>e_inner := inn\<rparr>))"

text \<open>Executions whose actions satisfy \<open>P\<close>.\<close>

inductive reach :: "libs \<Rightarrow> log_entry codec \<Rightarrow> (action \<Rightarrow> bool) \<Rightarrow> engine \<Rightarrow> engine \<Rightarrow> bool"
  for L C P e0 where
  init: "reach L C P e0 e0"
| step: "reach L C P e0 e \<Longrightarrow> P a \<Longrightarrow> perform L C a e = Some e' \<Longrightarrow> reach L C P e0 e'"

fun perform_all :: "libs \<Rightarrow> log_entry codec \<Rightarrow> action list \<Rightarrow> engine \<Rightarrow> engine option" where
  "perform_all L C [] e = Some e"
| "perform_all L C (a # as) e = Option.bind (perform L C a e) (perform_all L C as)"

lemma perform_all_reach:
  "perform_all L C as e = Some e' \<Longrightarrow> list_all P as \<Longrightarrow> reach L C P e0 e \<Longrightarrow> reach L C P e0 e'"
proof (induction "as" arbitrary: e)
  case (Cons a "as")
  then obtain e1 where e1: "perform L C a e = Some e1" "perform_all L C as e1 = Some e'"
    by (cases "perform L C a e") auto
  with Cons.prems have "reach L C P e0 e1" by (auto intro: reach.step)
  with Cons.IH e1 Cons.prems(2) show ?case by simp
qed simp

section \<open>The invariants of the state behind the mutex\<close>

lemma compact_keeps [simp]:
  "i_state (snd (engine_compact now f i)) = i_state i" "i_heap (snd (engine_compact now f i)) = i_heap i"
  "i_active_runs (snd (engine_compact now f i)) = i_active_runs i"
  "i_registry (snd (engine_compact now f i)) = i_registry i"
  by (auto simp: engine_compact_def split: option.splits)

lemma shutdown_keeps [simp]:
  "i_state (snd (shutdown_request i)) = i_state i" "i_heap (snd (shutdown_request i)) = i_heap i"
  "i_active_runs (snd (shutdown_request i)) = i_active_runs i"
  "i_state (snd (shutdown_wait m i)) = i_state i" "i_heap (snd (shutdown_wait m i)) = i_heap i"
  "i_active_runs (snd (shutdown_wait m i)) = i_active_runs i"
  by (auto simp: shutdown_request_def shutdown_wait_def)

lemma start_keeps [simp]:
  "i_state (snd (start i)) = i_state i" "i_heap (snd (start i)) = i_heap i"
  "i_active_runs (snd (start i)) = i_active_runs i"
  by (auto simp: start_def)

lemma tick_keeps [simp]:
  "i_state (snd (loop_tick now i)) = i_state i" "i_active_runs (snd (loop_tick now i)) = i_active_runs i"
  by (auto simp: loop_tick_def split: prod.splits)

lemma spawn_keeps [simp]:
  "i_state (snd (spawn_guard i)) = i_state i" "i_heap (snd (spawn_guard i)) = i_heap i"
  by (auto simp: spawn_guard_def)

text \<open>Every action that is enabled, with the state it starts from.\<close>

lemma perform_not_poisoned: "perform L C a e = Some e' \<Longrightarrow> \<not> e_poisoned e"
  by (cases a) (auto split: if_splits)

lemma perform_beginE:
  assumes "perform L C (ABegin n now ulid io1 io2) e = Some e'"
  obtains r j where "run_begin L C now ulid io1 io2 (e_spawned e ! n) (e_inner e) = (r, j)" "n < length (e_spawned e)"
    "e' = e\<lparr>e_inner := j, e_spawned := remove_nth n (e_spawned e),
       e_running := e_running e @ (case r of Inr (Some t) \<Rightarrow> [t] | _ \<Rightarrow> []), e_poisoned := panicked r\<rparr>"
  using assms by (auto split: if_splits prod.splits)

lemma perform_endE:
  assumes "perform L C (AEnd n now outcome io1 io2) e = Some e'"
  obtains r j where "run_end L C now outcome io1 io2 (e_running e ! n) (e_inner e) = (r, j)" "n < length (e_running e)"
    "e' = e\<lparr>e_inner := j, e_running := remove_nth n (e_running e), e_poisoned := panicked r\<rparr>"
  using assms by (auto split: if_splits prod.splits)

lemma wf_inner_perform:
  assumes "wf_inner (e_inner e)" "perform L C a e = Some e'"
  shows "wf_inner (e_inner e')"
proof -
  have wf: "wf_inner (e_inner e)" and sp: "\<And>tid spec. specs (i_state (e_inner e)) tid = Some spec \<Longrightarrow> ts_id spec = tid"
    using assms(1) by (auto simp: wf_inner_def wf_specs_def)
  show ?thesis
  proof (cases a)
    case (ASchedule now reg io)
    with assms(2) keep.schedule_with_overlap_rel [where io = io and reg = reg and i = "e_inner e"
        and L = L and C = C and now = now, OF _ refl] wf
    show ?thesis by (auto split: if_splits prod.splits)
  next
    case AStart
    with assms(2) start_keeps [of "e_inner e"] wf show ?thesis
      by (auto simp: wf_inner_def simp del: start_keeps split: if_splits prod.splits sum.splits)
  next
    case (ATick now)
    with assms(2) wf th.pop_until_correct [of "i_heap (e_inner e)" now] show ?thesis
      by (auto simp: wf_inner_def loop_tick_def split: if_splits prod.splits option.splits)
  next
    case ASpawn
    with assms(2) wf show ?thesis
      by (auto simp: wf_inner_def spawn_guard_def split: if_splits list.splits prod.splits bool.splits)
  next
    case (ABegin n now ulid io1 io2)
    with assms(2) keep.run_begin_rel [where ?io1.0 = io1 and ?io2.0 = io2 and s = "e_spawned e ! n"
        and i = "e_inner e" and L = L and C = C and now = now and ulid = ulid, OF _ _ refl] wf sp
    show ?thesis by (auto split: if_splits prod.splits)
  next
    case (AEnd n now outcome io1 io2)
    with assms(2) keep.run_end_rel [where ?io1.0 = io1 and ?io2.0 = io2 and t = "e_running e ! n"
        and i = "e_inner e" and L = L and C = C and now = now and outcome = outcome, OF _ _ refl] wf
    show ?thesis by (auto split: if_splits prod.splits)
  next
    case AShutdown
    with assms(2) shutdown_keeps(1,2) [of "e_inner e"] wf show ?thesis
      by (auto simp: wf_inner_def simp del: shutdown_keeps split: if_splits prod.splits)
  next
    case (AShutdownWait m)
    with assms(2) shutdown_keeps(4,5) [of m "e_inner e"] wf show ?thesis
      by (auto simp: wf_inner_def simp del: shutdown_keeps split: if_splits prod.splits)
  next
    case (ACompact now f)
    with assms(2) compact_keeps(1,2) [of now f "e_inner e"] wf show ?thesis
      by (auto simp: wf_inner_def simp del: compact_keeps split: if_splits prod.splits)
  qed
qed

lemma wf_inner_reach: "reach L C P e0 e \<Longrightarrow> wf_inner (e_inner e0) \<Longrightarrow> wf_inner (e_inner e)"
  by (induction rule: reach.induct) (auto intro: wf_inner_perform)

section \<open>Accounting of the runs\<close>

lemma on_result_split:
  "P (on_result r f g) \<longleftrightarrow>
     (\<forall>e i. r = (Inl e, i) \<longrightarrow> P (f e i)) \<and> (\<forall>v i. r = (Inr v, i) \<longrightarrow> P (g v i))"
  by (auto simp: on_result_def split: prod.splits sum.splits)

lemma prim_active [simp]:
  "i_active_runs (apply_to_inner ev i) = i_active_runs i"
  "i_active_runs (push_next tid t i) = i_active_runs i"
  "i_active_runs (remove_next tid i) = i_active_runs i"
  "i_active_runs (unqueue tid i) = i_active_runs i"
  by (simp_all add: apply_to_inner_def push_next_def remove_next_def unqueue_def)

lemma append_apply_active:
  "append_apply_or_stop C now ev io i = (r, j) \<Longrightarrow> i_active_runs j = i_active_runs i"
  by (auto simp: append_apply_or_stop_def on_result_def engine_append_simps split: prod.splits sum.splits)

lemma reschedule_active:
  "reschedule_from L spec t i = (r, j) \<Longrightarrow> i_active_runs j = i_active_runs i \<and> (panicked r \<or> r = Inr ())"
  by (auto simp: reschedule_from_def panicked_def split: if_splits sum.splits option.splits fault.splits)

lemma finishing_active:
  "finishing (r, i) = (r', j) \<Longrightarrow>
     (panicked r \<and> panicked r') \<or> (\<not> panicked r \<and> r' = Inr () \<and> i_active_runs j = i_active_runs i - 1)"
  by (auto simp: finishing_def on_result_def panicked_def finish_run_def split: sum.splits fault.splits)

lemma run_begin_active:
  assumes "run_begin L C now ulid io1 io2 s i = (r, j)"
  shows "panicked r \<or> (\<exists>t. r = Inr (Some t) \<and> i_active_runs j = i_active_runs i)
         \<or> (r = Inr None \<and> i_active_runs j = i_active_runs i - 1)"
proof -
  have fr: "finishing (reschedule_from L spec t i') = (r', k) \<Longrightarrow>
      panicked r' \<or> (r' = Inr () \<and> i_active_runs k = i_active_runs i' - 1)" for spec t i' r' k
    using reschedule_active [of L spec t i'] finishing_active
    by (cases "reschedule_from L spec t i'") fastforce
  have "case run_begin L C now ulid io1 io2 s i of (r, j) \<Rightarrow>
      panicked r \<or> (\<exists>t. r = Inr (Some t) \<and> i_active_runs j = i_active_runs i)
         \<or> (r = Inr None \<and> i_active_runs j = i_active_runs i - 1)"
    unfolding run_begin_def Let_def
    by (auto split: option.split if_split simp: on_result_split panicked_def finish_run_def
        dest!: append_apply_active reschedule_active fr)
  with assms show ?thesis by simp
qed

lemma run_failed_active:
  assumes "run_failed L C now err io1 io2 t i = (r, j)"
  shows "i_active_runs j = i_active_runs i"
proof -
  have "case run_failed L C now err io1 io2 t i of (r, j) \<Rightarrow> i_active_runs j = i_active_runs i"
    unfolding run_failed_def Let_def reschedule_def
    by (auto split: option.split sum.split if_split simp: on_result_split
        dest!: append_apply_active reschedule_active)
  with assms show ?thesis by simp
qed

lemma run_end_active:
  assumes "run_end L C now outcome io1 io2 t i = (r, j)"
  shows "panicked r \<or> i_active_runs j = i_active_runs i - 1"
proof -
  have key: "panicked r' \<or> i_active_runs k = i_active_runs i - 1"
    if "finishing p = (r', k)" "i_active_runs (snd p) = i_active_runs i" for p r' k
    using finishing_active [of "fst p" "snd p"] that by auto
  have "i_active_runs (snd (on_result (append_apply_or_stop C now ev io1 i) (\<lambda>e inn1. (Inl e, inn1))
      (\<lambda>_ inn1. if b then reschedule_from L (t_spec t) now inn1 else (Inr (), inn1)))) = i_active_runs i" for ev b
    using reschedule_active [OF surjective_pairing, of L "t_spec t" now]
    by (auto split: on_result_split dest!: append_apply_active)
  moreover have "i_active_runs (snd (run_failed L C now err io1 io2 t i)) = i_active_runs i" for err
    using run_failed_active by (metis prod.collapse)
  ultimately show ?thesis
    using assms unfolding run_end_def Let_def reschedule_def
    by (intro key) (auto split: sum.splits)
qed

lemma schedule_active:
  "schedule_with_overlap L C now reg io i = (r, j) \<Longrightarrow> i_active_runs j = i_active_runs i"
proof -
  have reg: "register_spec C now reg io i' = (r', k) \<Longrightarrow> i_active_runs k = i_active_runs i'" for i' r' k
    by (auto simp: register_spec_def Let_def on_result_def engine_append_simps
        split: if_splits prod.splits sum.splits)
  have bind: "bind_function L now reg i' = (r', k) \<Longrightarrow> i_active_runs k = i_active_runs i'" for i' r' k
    by (auto simp: bind_function_def Let_def split: if_splits option.splits sum.splits fault.splits)
  show "schedule_with_overlap L C now reg io i = (r, j) \<Longrightarrow> i_active_runs j = i_active_runs i"
    by (auto simp: schedule_with_overlap_def on_result_def split: if_splits prod.splits sum.splits
        dest!: reg bind)
qed

definition accounted :: "engine \<Rightarrow> bool" where
  "accounted e \<longleftrightarrow> e_poisoned e \<or> i_active_runs (e_inner e) = length (e_spawned e) + length (e_running e)"

lemma length_remove_nth: "n < length xs \<Longrightarrow> length (remove_nth n xs) = length xs - 1"
  by (simp add: remove_nth_def)

lemma accounted_perform:
  assumes "accounted e" "perform L C a e = Some e'"
  shows "accounted e'"
proof -
  have acc: "i_active_runs (e_inner e) = length (e_spawned e) + length (e_running e)"
    using assms perform_not_poisoned by (auto simp: accounted_def)
  show ?thesis
  proof (cases a)
    case (ASchedule now reg io)
    with assms(2) acc schedule_active show ?thesis
      by (auto simp: accounted_def split: if_splits prod.splits)
  next
    case AStart
    with assms(2) acc start_keeps(3) [of "e_inner e"] show ?thesis
      by (auto simp: accounted_def simp del: start_keeps split: if_splits prod.splits sum.splits)
  next
    case (ATick now)
    with assms(2) acc tick_keeps(2) [of now "e_inner e"] show ?thesis
      by (auto simp: accounted_def simp del: tick_keeps split: if_splits prod.splits option.splits)
  next
    case ASpawn
    with assms(2) acc show ?thesis
      by (auto simp: accounted_def spawn_guard_def split: if_splits list.splits)
  next
    case (ABegin n now ulid io1 io2)
    with assms(2) acc run_begin_active [of L C now ulid io1 io2 "e_spawned e ! n" "e_inner e"] show ?thesis
      by (auto simp: accounted_def length_remove_nth not_le split: if_splits prod.splits)
  next
    case (AEnd n now outcome io1 io2)
    with assms(2) acc run_end_active [of L C now outcome io1 io2 "e_running e ! n" "e_inner e"] show ?thesis
      by (auto simp: accounted_def length_remove_nth not_le split: if_splits prod.splits)
  next
    case AShutdown
    with assms(2) acc shutdown_keeps(3) [of "e_inner e"] show ?thesis
      by (auto simp: accounted_def simp del: shutdown_keeps split: if_splits prod.splits)
  next
    case (AShutdownWait m)
    with assms(2) acc shutdown_keeps(6) [of m "e_inner e"] show ?thesis
      by (auto simp: accounted_def simp del: shutdown_keeps split: if_splits prod.splits)
  next
    case (ACompact now f)
    with assms(2) acc compact_keeps(3) [of now f "e_inner e"] show ?thesis
      by (auto simp: accounted_def simp del: compact_keeps split: if_splits prod.splits)
  qed
qed

lemma open_engine_simps:
  assumes "open_engine C dir locked D = (Inr inn, D')"
  shows "i_heap inn = new_heap" "i_active_runs inn = 0" "i_handle inn = OnAof" "i_disk inn = D'"
    "\<not> i_started inn" "\<not> i_stopped inn" "\<not> i_shutting_down inn" "i_registry inn = Map.empty"
  using assms by (auto simp: open_engine_def Let_def split: if_splits prod.splits sum.splits)

text \<open>The three flags of the engine.  An append that succeeds leaves them alone.\<close>

definition flags :: "inner \<Rightarrow> bool \<times> bool \<times> bool" where
  "flags i = (i_started i, i_stopped i, i_shutting_down i)"

lemma append_flags:
  assumes "\<And>x. \<not> isl (encode C x)"
  shows "flags (snd (engine_append C now ev io i)) = flags i"
    "fst (append_apply_or_stop C now ev IoOk i) = Inr ()"
    "flags (snd (append_apply_or_stop C now ev IoOk i)) = flags i"
  using assms [of "new_log_entry now ev"]
  by (auto simp: flags_def append_apply_or_stop_def on_result_def engine_append_def append_log_def Let_def
      set_log_bytes_def apply_to_inner_def isl_def split: sum.splits prod.splits log_handle.splits)

lemma flags_simps [simp]:
  "flags (push_next tid t i) = flags i" "flags (remove_next tid i) = flags i"
  "flags (finish_run i) = flags i" "flags (i\<lparr>i_heap := h\<rparr>) = flags i" "flags (i\<lparr>i_state := s\<rparr>) = flags i"
  "flags (i\<lparr>i_registry := g\<rparr>) = flags i" "flags (unqueue tid i) = flags i" "flags (apply_to_inner ev i) = flags i"
  "flags (snd (reschedule_from L spec t i)) = flags i" "flags (i\<lparr>i_active_runs := k\<rparr>) = flags i"
  by (auto simp: flags_def push_next_def remove_next_def finish_run_def unqueue_def reschedule_from_def apply_to_inner_def
      split: sum.splits option.splits fault.splits)

lemma finishing_flags [simp]: "flags (snd (finishing p)) = flags (snd p)"
  by (cases p) (auto simp: finishing_def on_result_def split: sum.splits fault.splits)

lemma on_result_flags:
  assumes "flags (snd p) = k" "\<And>f j. flags j = k \<Longrightarrow> flags (snd (err f j)) = k"
    and "\<And>v j. flags j = k \<Longrightarrow> flags (snd (ok v j)) = k"
  shows "flags (snd (on_result p err ok)) = k"
  using assms by (cases p) (auto simp: on_result_def split: sum.splits)

lemma append_result_flags:
  assumes "\<And>x. \<not> isl (encode C x)" "flags i = k"
    and "\<And>v j. flags j = k \<Longrightarrow> flags (snd (ok v j)) = k"
  shows "flags (snd (on_result (append_apply_or_stop C now ev IoOk i) err ok)) = k"
  using append_flags(2,3) [OF assms(1), of now ev i] assms(2,3)
  by (cases "append_apply_or_stop C now ev IoOk i") (auto simp: on_result_def)

lemma run_begin_flags:
  assumes "\<And>x. \<not> isl (encode C x)"
  shows "flags (snd (run_begin L C now ulid IoOk IoOk s i)) = flags i"
  unfolding run_begin_def Let_def
  by (auto split: option.split intro!: append_result_flags [OF assms] on_result_flags)

lemma run_end_flags:
  assumes "\<And>x. \<not> isl (encode C x)"
  shows "flags (snd (run_end L C now outcome IoOk IoOk t i)) = flags i"
proof -
  have f: "flags (snd (run_failed L C now err IoOk IoOk t i)) = flags i" for err
    unfolding run_failed_def Let_def reschedule_def
    by (auto split: option.split sum.split intro!: append_result_flags [OF assms])
  show ?thesis
    unfolding run_end_def Let_def reschedule_def
    by (auto split: sum.split simp: f intro!: append_result_flags [OF assms])
qed

lemma schedule_flags: "(\<And>x. \<not> isl (encode C x)) \<Longrightarrow> flags (snd (schedule_with_overlap L C now reg io i)) = flags i"
  unfolding schedule_with_overlap_def register_spec_def bind_function_def Let_def
  by (auto split: option.split sum.split fault.split simp: append_flags intro!: on_result_flags)

lemma compact_flags: "flags (snd (engine_compact now f i)) = flags i"
  by (auto simp: flags_def engine_compact_def split: option.splits)

text \<open>Executions in which every write to the log succeeds.\<close>

fun log_succeeds :: "action \<Rightarrow> bool" where
  "log_succeeds (ASchedule _ _ io) \<longleftrightarrow> io = IoOk"
| "log_succeeds (ABegin _ _ _ io1 io2) \<longleftrightarrow> io1 = IoOk \<and> io2 = IoOk"
| "log_succeeds (AEnd _ _ _ io1 io2) \<longleftrightarrow> io1 = IoOk \<and> io2 = IoOk"
| "log_succeeds _ \<longleftrightarrow> True"

text \<open>No task before the engine has started, and none once it has stopped.\<close>

definition at_rest :: "engine \<Rightarrow> bool" where
  "at_rest e \<longleftrightarrow>
     (\<not> i_started (e_inner e) \<longrightarrow> \<not> e_loop e \<and> e_due e = [])
     \<and> (i_stopped (e_inner e) \<longrightarrow> i_started (e_inner e) \<longrightarrow> i_shutting_down (e_inner e))
     \<and> (i_stopped (e_inner e) \<or> \<not> i_started (e_inner e) \<longrightarrow> e_spawned e = [] \<and> e_running e = [])"

lemma at_rest_flags:
  assumes "at_rest e" "flags (e_inner e') = flags (e_inner e)" "e_loop e' \<longrightarrow> e_loop e" "e_due e = [] \<longrightarrow> e_due e' = []"
    and "e_spawned e \<noteq> [] \<or> e_running e \<noteq> [] \<or> e_spawned e' = [] \<and> e_running e' = []"
  shows "at_rest e'"
  using assms by (auto simp: at_rest_def flags_def)

lemma at_rest_perform:
  assumes "\<And>x. \<not> isl (encode C x)" "at_rest e" "accounted e" "log_succeeds a" "perform L C a e = Some e'"
  shows "at_rest e'"
proof (cases a)
  case (ASchedule now reg io)
  with assms(2,5) schedule_flags [OF assms(1), of L now reg io "e_inner e"] show ?thesis
    by (auto intro!: at_rest_flags [OF assms(2)] split: if_splits prod.splits)
next
  case AStart
  with assms(2,5) show ?thesis by (auto simp: at_rest_def start_def split: if_splits prod.splits sum.splits)
next
  case (ATick now)
  with assms(2,5) show ?thesis
    by (auto simp: at_rest_def loop_tick_def split: if_splits prod.splits option.splits)
next
  case ASpawn
  with assms(2,5) show ?thesis
    by (auto simp: at_rest_def spawn_guard_def split: if_splits prod.splits list.splits bool.splits)
next
  case (ABegin n now ulid io1 io2)
  then have ok: "io1 = IoOk" "io2 = IoOk" using assms(4) by simp_all
  from ABegin assms(2,5) run_begin_flags [OF assms(1), of L now ulid "e_spawned e ! n" "e_inner e"] show ?thesis
    unfolding ok by (auto intro!: at_rest_flags [OF assms(2)] split: if_splits prod.splits)
next
  case (AEnd n now outcome io1 io2)
  then have ok: "io1 = IoOk" "io2 = IoOk" using assms(4) by simp_all
  from AEnd assms(2,5) run_end_flags [OF assms(1), of L now outcome "e_running e ! n" "e_inner e"] show ?thesis
    unfolding ok by (auto intro!: at_rest_flags [OF assms(2)] split: if_splits prod.splits)
next
  case AShutdown
  with assms(2,5) show ?thesis
    by (auto simp: at_rest_def shutdown_request_def split: if_splits prod.splits)
next
  case (AShutdownWait m)
  with assms(2,3,5) show ?thesis
    by (auto simp: at_rest_def accounted_def shutdown_wait_def split: if_splits prod.splits)
next
  case (ACompact now f)
  with assms(2,5) compact_flags [of now f "e_inner e"] show ?thesis
    by (auto intro!: at_rest_flags [OF assms(2)] split: if_splits prod.splits)
qed

lemma reach_accounted:
  assumes "open_engine C dir locked D = (Inr inn, D')" "reach L C P (new_engine inn) e"
  shows "accounted e"
proof -
  have "accounted (new_engine inn)"
    using open_engine_simps [OF assms(1)] by (simp add: accounted_def new_engine_def)
  with assms(2) show ?thesis
    by (induction rule: reach.induct) (auto intro: accounted_perform)
qed

lemma reach_at_rest:
  assumes "\<And>x. \<not> isl (encode C x)" "open_engine C dir locked D = (Inr inn, D')"
    and "reach L C log_succeeds (new_engine inn) e"
  shows "at_rest e"
  using assms(3)
proof induction
  case init
  show ?case using open_engine_simps [OF assms(2)] by (simp add: at_rest_def new_engine_def)
next
  case (step e a e')
  with assms(1) reach_accounted [OF assms(2) step.hyps(1)] show ?case by (blast intro: at_rest_perform)
qed

lemma reach_mono: "reach L C P e0 e \<Longrightarrow> (\<And>a. P a \<Longrightarrow> Q a) \<Longrightarrow> reach L C Q e0 e"
  by (induction rule: reach.induct) (auto intro: reach.intros)

text \<open>C9: the engine counts its runs exactly, and \<open>shutdown\<close> goes by that count.  In every
  execution of an opened engine, as long as the mutex is not poisoned, the counter of active runs is
  the number of tasks that were spawned and have not finished, whatever the interleaving and whatever
  log writes fail; so the wait of \<open>shutdown\<close> succeeds exactly when no task is left.
  \<open>shutdown\<close> answers at once, without that wait, when the engine is not started or is stopped already:
  in an execution whose log writes all succeed no task is left then either.  (A write that fails stops
  the engine at once; see \<open>shutdown_abandons_runs\<close> below.)\<close>

theorem active_runs_exact:
  assumes "open_engine C dir locked D = (Inr inn, D')"
    and "reach L C P (new_engine inn) e" "\<not> e_poisoned e"
  shows "i_active_runs (e_inner e) = length (e_spawned e) + length (e_running e)
    \<and> (fst (shutdown_wait timeout_ms (e_inner e)) = Inr () \<longleftrightarrow> e_spawned e = [] \<and> e_running e = [])
    \<and> ((\<forall>x. \<not> isl (encode C x)) \<longrightarrow> (\<forall>a. P a \<longrightarrow> log_succeeds a)
         \<longrightarrow> fst (shutdown_request (e_inner e)) = ShutdownDone \<longrightarrow> e_spawned e = [] \<and> e_running e = [])"
proof (intro conjI impI)
  have "accounted e" by (rule reach_accounted [OF assms(1,2)])
  with assms(3) show "i_active_runs (e_inner e) = length (e_spawned e) + length (e_running e)"
    "fst (shutdown_wait timeout_ms (e_inner e)) = Inr () \<longleftrightarrow> e_spawned e = [] \<and> e_running e = []"
    by (auto simp: accounted_def shutdown_wait_def)
  assume sound: "\<forall>x. \<not> isl (encode C x)" "\<forall>a. P a \<longrightarrow> log_succeeds a"
    and answer: "fst (shutdown_request (e_inner e)) = ShutdownDone"
  have "at_rest e"
    using sound reach_mono [OF assms(2), of log_succeeds] by (intro reach_at_rest [OF _ assms(1)]) auto
  with answer show "e_spawned e = []" "e_running e = []"
    by (auto simp: at_rest_def shutdown_request_def split: if_splits)
qed

section \<open>A concrete engine\<close>

text \<open>An engine opened on an empty directory, for the executions evaluated below.  Its codec
  writes the same text for every entry.\<close>

definition plain_codec :: "log_entry codec" where
  "plain_codec = \<lparr>encode = (\<lambda>_. Inr ''{}''), decode = (\<lambda>_. Inl (''unreadable'', False))\<rparr>"

definition empty_disk :: disk where
  "empty_disk = \<lparr>d_aof = None, d_aof_old = None, d_snapshot = None\<rparr>"

definition fresh_inner :: inner where
  "fresh_inner = \<lparr>i_state = new_state, i_heap = new_heap, i_disk = empty_disk\<lparr>d_aof := Some []\<rparr>,
     i_handle = OnAof, i_registry = Map.empty, i_started = False, i_stopped = False,
     i_shutting_down = False, i_active_runs = 0\<rparr>"

lemma open_fresh:
  "open_engine C ''data'' False empty_disk = (Inr fresh_inner, empty_disk\<lparr>d_aof := Some []\<rparr>)"
  by (simp add: open_engine_def open_log_def empty_disk_def load_state_def replay_log_def
      fresh_inner_def new_state_def Let_def)

lemma wf_fresh: "wf_inner fresh_inner"
  by (simp add: wf_inner_def fresh_inner_def wf_specs_def new_state_def)

definition minutely :: "overlap_policy \<Rightarrow> registration" where
  "minutely p = \<lparr>reg_id = ''t'', reg_schedule = Every 60, reg_fn_name = ''f'', reg_retry = None,
     reg_timezone = None, reg_overlap = Some p\<rparr>"

definition secs :: "int \<Rightarrow> datetime" where
  "secs n = n * nanos_per_sec"

text \<open>A timer is registered, becomes due, and its run starts.\<close>

definition first_run :: "overlap_policy \<Rightarrow> action list" where
  "first_run p = [AStart, ASchedule 0 (minutely p) IoOk, ATick (secs 60), ASpawn,
                  ABegin 0 (secs 60) ''a'' IoOk IoOk]"

definition after_trace :: "action list \<Rightarrow> engine" where
  "after_trace as = (case perform_all minute_libs plain_codec as (new_engine fresh_inner) of
                       Some e \<Rightarrow> e | None \<Rightarrow> new_engine fresh_inner)"

lemma after_trace_reach:
  assumes "perform_all minute_libs plain_codec as (new_engine fresh_inner) \<noteq> None" "list_all P as"
  shows "reach minute_libs plain_codec P (new_engine fresh_inner) (after_trace as)"
  using assms perform_all_reach [OF _ assms(2) reach.init] by (auto simp: after_trace_def)

lemma plain_codec_total: "\<not> isl (encode plain_codec x)"
  by (simp add: plain_codec_def)

theorem active_runs_exact_witness:
  "i_active_runs (e_inner (after_trace (first_run Delay))) = 1
   \<and> fst (shutdown_wait 5 (e_inner (after_trace (first_run Delay)))) \<noteq> Inr ()
   \<and> fst (shutdown_request (e_inner (after_trace (first_run Delay)))) = ShutdownWaits"
proof -
  let ?e = "after_trace (first_run Delay)"
  have run: "perform_all minute_libs plain_codec (first_run Delay) (new_engine fresh_inner) \<noteq> None"
    "\<not> e_poisoned ?e" "length (e_spawned ?e) = 0" "length (e_running ?e) = 1"
    "list_all log_succeeds (first_run Delay)"
    by code_simp+
  have "reach minute_libs plain_codec log_succeeds (new_engine fresh_inner) ?e"
    by (rule after_trace_reach [OF run(1,5)])
  from active_runs_exact [OF open_fresh this run(2), of 5] run plain_codec_total show ?thesis
    by (cases "fst (shutdown_request (e_inner ?e))") auto
qed

text \<open>When a write fails the engine counts as stopped at once.  Here two runs execute, the record of
  the end of the first one is not written, and a \<open>shutdown\<close> answers without a wait while the second
  run still executes.\<close>

definition two_runs :: "action list" where
  "two_runs = [AStart, ASchedule 0 (minutely Delay) IoOk, ASchedule 0 ((minutely Delay)\<lparr>reg_id := ''u''\<rparr>) IoOk,
     ATick (secs 60), ASpawn, ASpawn, ABegin 0 (secs 60) ''a'' IoOk IoOk, ABegin 0 (secs 60) ''b'' IoOk IoOk]"

lemma shutdown_abandons_runs:
  "let e = after_trace (two_runs @ [AEnd 0 (secs 61) (Inr ()) (SyncFails ''no space left'') IoOk])
   in length (e_running e) = 1 \<and> \<not> e_poisoned e \<and> fst (shutdown_request (e_inner e)) = ShutdownDone"
  by code_simp

section \<open>One timer among the others\<close>

text \<open>The runs of a timer that are executing, and its entries that wait anywhere: in the queue,
  among the popped entries, or in a spawned task that has not begun.\<close>

definition busy :: "timer_id \<Rightarrow> engine \<Rightarrow> task list" where
  "busy tid e = filter (\<lambda>t. ts_id (t_spec t) = tid) (e_running e)"

definition pending :: "timer_id \<Rightarrow> engine \<Rightarrow> scheduled_timer multiset" where
  "pending tid e = queued tid (e_inner e)
     + filter_mset (\<lambda>s. st_timer_id s = tid) (mset (e_due e) + mset (e_spawned e))"

text \<open>The actions that execute a critical section of the timer.\<close>

fun about :: "timer_id \<Rightarrow> engine \<Rightarrow> action \<Rightarrow> bool" where
  "about tid e (ASchedule _ reg _) \<longleftrightarrow> TimerId (reg_id reg) = tid"
| "about tid e (ABegin n _ _ _ _) \<longleftrightarrow> n < length (e_spawned e) \<and> st_timer_id (e_spawned e ! n) = tid"
| "about tid e (AEnd n _ _ _ _) \<longleftrightarrow> n < length (e_running e) \<and> ts_id (t_spec (e_running e ! n)) = tid"
| "about tid e _ \<longleftrightarrow> False"

lemma mset_remove_nth:
  assumes "n < length xs"
  shows "mset xs = add_mset (xs ! n) (mset (remove_nth n xs))"
  using arg_cong [OF id_take_nth_drop [OF assms], of mset] by (simp add: remove_nth_def)

lemma filter_remove_nth:
  assumes "n < length xs"
  shows "filter P xs = filter P (take n xs) @ (if P (xs ! n) then [xs ! n] else []) @ filter P (drop (Suc n) xs)"
  using arg_cong [OF id_take_nth_drop [OF assms], of "filter P"] by simp

lemma busy_remove_nth:
  "n < length xs \<Longrightarrow> \<not> P (xs ! n) \<Longrightarrow> filter P (remove_nth n xs) = filter P xs"
  "n < length xs \<Longrightarrow> P (xs ! n) \<Longrightarrow> length (filter P xs) = Suc (length (filter P (remove_nth n xs)))"
  using filter_remove_nth [of n xs P] by (simp_all add: remove_nth_def)

lemma append_apply_ok:
  "append_apply_or_stop C now ev io i = (Inr u, j) \<Longrightarrow>
     i_state j = apply_event ev (i_state i) \<and> i_heap j = i_heap i \<and> i_registry j = i_registry i
     \<and> i_stopped j = i_stopped i \<and> i_shutting_down j = i_shutting_down i"
  by (auto simp: append_apply_or_stop_def on_result_def apply_to_inner_def engine_append_simps
      split: prod.splits sum.splits)

lemma append_apply_fails:
  "append_apply_or_stop C now ev io i = (Inl f, j) \<Longrightarrow>
     i_state j = i_state i \<and> i_heap j = i_heap i \<and> i_registry j = i_registry i
     \<and> i_stopped j \<and> i_shutting_down j"
  by (auto simp: append_apply_or_stop_def on_result_def apply_to_inner_def engine_append_simps
      split: prod.splits sum.splits)

lemma reschedule_post:
  "reschedule_from L spec t i = (r, j) \<Longrightarrow>
     specs (i_state j) = specs (i_state i) \<and> states (i_state j) = states (i_state i)
     \<and> size (queued tid j) \<le> size (queued tid i) + 1"
  by (auto simp: reschedule_from_def push_next_def remove_next_def queued_def
      split: if_splits sum.splits option.splits fault.splits)

lemma finishing_post:
  "finishing p = (r, j) \<Longrightarrow> i_state j = i_state (snd p) \<and> i_heap j = i_heap (snd p)"
  by (auto simp: finishing_def on_result_def finish_run_def split: prod.splits sum.splits fault.splits)

lemma finishing_reschedule_post:
  "finishing (reschedule_from L spec t i) = (r, j) \<Longrightarrow>
     specs (i_state j) = specs (i_state i) \<and> states (i_state j) = states (i_state i)
     \<and> size (queued tid j) \<le> size (queued tid i) + 1"
  using finishing_post [of "reschedule_from L spec t i" r j]
    reschedule_post [OF surjective_pairing, of L spec t i tid]
  by (simp add: queued_def)

lemmas section_posts = append_apply_ok append_apply_fails reschedule_post finishing_reschedule_post

lemma remove_next_simps [simp]:
  "specs (i_state (remove_next tid i)) = specs (i_state i)"
  "states (i_state (remove_next tid i)) = states (i_state i)"
  "pending_retries (i_state (remove_next tid i)) = pending_retries (i_state i)"
  "i_heap (remove_next tid i) = i_heap i"
  by (simp_all add: remove_next_def)

lemma finish_run_simps [simp]:
  "i_state (finish_run i) = i_state i" "i_heap (finish_run i) = i_heap i"
  by (simp_all add: finish_run_def)

definition begin_post :: "scheduled_timer \<Rightarrow> inner \<Rightarrow> task option res \<Rightarrow> inner \<Rightarrow> bool" where
  "begin_post s i r j \<longleftrightarrow>
     (let tid = st_timer_id s in
      specs (i_state j) = specs (i_state i)
      \<and> (states (i_state j) tid = states (i_state i) tid \<or> states (i_state j) tid = Some Running)
      \<and> (\<forall>spec. specs (i_state i) tid = Some spec \<longrightarrow> ts_overlap spec = Delay \<longrightarrow> i_heap j = i_heap i)
      \<and> (\<forall>t. r = Inr (Some t) \<longrightarrow>
            specs (i_state i) tid = Some (t_spec t) \<and> t_entry t = s
            \<and> \<not> (ts_overlap (t_spec t) = Skip \<and> states (i_state i) tid = Some Running)
            \<and> states (i_state j) tid = Some Running))"

lemma run_begin_post: "run_begin L C now ulid io1 io2 s i = (r, j) \<Longrightarrow> begin_post s i r j"
proof -
  have "case run_begin L C now ulid io1 io2 s i of (r, j) \<Rightarrow> begin_post s i r j"
    unfolding run_begin_def Let_def begin_post_def
    by (auto split: option.split if_split simp: on_result_split dest!: section_posts)
  then show "run_begin L C now ulid io1 io2 s i = (r, j) \<Longrightarrow> begin_post s i r j" by simp
qed

lemma run_failed_post:
  assumes "run_failed L C now err io1 io2 t i = (r, j)"
  shows "specs (i_state j) = specs (i_state i)
    \<and> (ts_overlap (t_spec t) = Delay \<longrightarrow> size (queued tid j) \<le> size (queued tid i) + 1)"
proof -
  have "case run_failed L C now err io1 io2 t i of (r, j) \<Rightarrow> specs (i_state j) = specs (i_state i)
    \<and> (ts_overlap (t_spec t) = Delay \<longrightarrow> size (queued tid j) \<le> size (queued tid i) + 1)"
    unfolding run_failed_def Let_def reschedule_def
    by (auto split: option.split sum.split if_split simp: on_result_split queued_def unqueue_def
        dest!: append_apply_ok append_apply_fails reschedule_post [where tid = tid])
  with assms show ?thesis by simp
qed

definition end_post :: "timer_id \<Rightarrow> task \<Rightarrow> inner \<Rightarrow> inner \<Rightarrow> bool" where
  "end_post tid t i j \<longleftrightarrow>
     specs (i_state j) = specs (i_state i)
     \<and> (ts_overlap (t_spec t) = Delay \<longrightarrow> size (queued tid j) \<le> size (queued tid i) + 1)"

lemma specs_missing [simp]: "specs (mark_function_missing tid s) = specs s"
  by (simp add: mark_function_missing_def Let_def)

lemma run_end_post:
  assumes "run_end L C now outcome io1 io2 t i = (r, j)"
  shows "end_post tid t i j"
proof -
  have fin: "end_post tid t i j" if "finishing p = (r, j)" "end_post tid t i (snd p)" for p
    using finishing_post [OF that(1)] that(2) by (simp add: end_post_def queued_def)
  have ok: "end_post tid t i (snd (on_result (append_apply_or_stop C now (RunSucceeded a b c d) io1 i) (\<lambda>e inn1. (Inl e, inn1))
      (\<lambda>_ inn1. if f then reschedule_from L (t_spec t) now inn1 else (Inr (), inn1))))" for a b c d f
  proof -
    have resch: "end_post tid t i (snd (reschedule_from L (t_spec t) now k))"
      if "specs (i_state k) = specs (i_state i)" "i_heap k = i_heap i" for k
      using reschedule_post [OF surjective_pairing, of L "t_spec t" now k tid] that
      by (simp add: end_post_def queued_def)
    obtain r' k where app: "append_apply_or_stop C now (RunSucceeded a b c d) io1 i = (r', k)" by force
    show ?thesis
    proof (cases r')
      case (Inl x)
      with app append_apply_fails [of C now _ io1 i x k] show ?thesis
        by (simp add: on_result_def end_post_def queued_def)
    next
      case (Inr x)
      with app append_apply_ok [of C now _ io1 i x k]
      have k: "specs (i_state k) = specs (i_state i)" "i_heap k = i_heap i" by auto
      then have "end_post tid t i k" by (simp add: end_post_def queued_def)
      with app Inr resch [OF k] show ?thesis by (simp add: on_result_def)
    qed
  qed
  have err: "end_post tid t i (snd (run_failed L C now e io1 io2 t i))" for e
    using run_failed_post [OF surjective_pairing, of L C now e io1 io2 t i tid] by (simp add: end_post_def)
  have miss: "end_post tid t i (snd (let inn1 = if ts_overlap (t_spec t) \<noteq> Delay then unqueue (ts_id (t_spec t)) i else i
      in (Inr (), inn1\<lparr>i_state := mark_function_missing (ts_id (t_spec t)) (i_state inn1)\<rparr>)))"
    by (auto simp: end_post_def queued_def Let_def unqueue_def)
  show ?thesis
    using assms ok err miss unfolding run_end_def Let_def reschedule_def
    by (intro fin) (auto split: sum.splits)
qed

text \<open>A registration of a timer either leaves the timer as it is or installs the requested
  specification, and never turns a running timer into another state.\<close>

lemma schedule_post:
  assumes "schedule_with_overlap L C now reg io i = (r, j)" "tid = TimerId (reg_id reg)"
  shows "(i_state j = i_state i \<and> i_heap j = i_heap i)
     \<or> (specs (i_state j) tid = Some (registered_spec now reg i)
        \<and> (specs (i_state i) tid \<noteq> None \<longrightarrow> states (i_state i) tid = Some Running
            \<longrightarrow> states (i_state j) tid = Some Running))"
proof -
  have reg: "(\<exists>e. r' = Inl e \<and> i_state k = i_state i \<and> i_heap k = i_heap i)
     \<or> (r' = Inr () \<and> specs (i_state k) tid = Some (registered_spec now reg i)
        \<and> (specs (i_state i) tid \<noteq> None \<longrightarrow> states (i_state k) = states (i_state i)))"
    if "register_spec C now reg io i = (r', k)" for r' k
  proof -
    have "ts_id (registered_spec now reg i) = tid" using assms(2) by (simp add: registered_spec_def Let_def)
    with that assms(2) show ?thesis
      by (auto simp: register_spec_def Let_def on_result_def apply_to_inner_def unqueue_def
          engine_append_simps split: if_splits prod.splits sum.splits)
  qed
  have bind: "specs (i_state k') = specs (i_state k)
      \<and> (states (i_state k) tid = Some Running \<longrightarrow> states (i_state k') tid = Some Running)"
    if "bind_function L now reg k = (r', k')" for k r' k'
    using that assms(2)
    by (auto simp: bind_function_def Let_def push_next_def register_function_def
        split: if_splits option.splits sum.splits fault.splits)
  show ?thesis
    using assms(1) reg bind
    by (fastforce simp: schedule_with_overlap_def on_result_def split: if_splits prod.splits sum.splits)
qed

text \<open>An action that is not about a timer leaves its state and its runs alone; its waiting
  entries can only move forward, or be dropped when the engine shuts down.\<close>

lemma pop_due_partition:
  assumes "wf_heap h" "pop_due now h = (due, h')"
  shows "mset h = mset h' + mset due"
  using th.pop_until_correct [OF assms] multiset_partition [of "mset h" "\<lambda>x. st_next_run_at x \<le> now"]
  by (simp add: union_commute)

lemma wf_inner_specs: "wf_inner i \<Longrightarrow> specs (i_state i) tid = Some spec \<Longrightarrow> ts_id spec = tid"
  by (auto simp: wf_inner_def wf_specs_def)

lemma perform_other_begin:
  assumes "wf_inner (e_inner e)" "perform L C (ABegin n now ulid io1 io2) e = Some e'"
    and "\<not> about tid e (ABegin n now ulid io1 io2)"
  shows "view (i_state (e_inner e')) tid = view (i_state (e_inner e)) tid
    \<and> busy tid e' = busy tid e \<and> pending tid e' \<subseteq># pending tid e"
  using assms(2)
proof (rule perform_beginE)
  let ?s = "e_spawned e ! n"
  note sp = wf_inner_specs [OF assms(1)]
  fix r j assume run: "run_begin L C now ulid io1 io2 ?s (e_inner e) = (r, j)" and n: "n < length (e_spawned e)"
    and e': "e' = e\<lparr>e_inner := j, e_spawned := remove_nth n (e_spawned e),
               e_running := e_running e @ (case r of Inr (Some t) \<Rightarrow> [t] | _ \<Rightarrow> []), e_poisoned := panicked r\<rparr>"
  have other: "st_timer_id ?s \<noteq> tid" using assms(3) n by simp
  have "touch (st_timer_id ?s) (e_inner e) j"
    using own.run_begin_rel [where s = ?s and i = "e_inner e" and L = L and C = C and now = now
        and ulid = ulid and ?io1.0 = io1 and ?io2.0 = io2, OF _ _ refl] sp run by simp
  moreover have "ts_id (t_spec t) \<noteq> tid" if "r = Inr (Some t)" for t
    using run_begin_post [OF run] sp other that by (auto simp: begin_post_def Let_def)
  moreover have "mset (e_spawned e) = add_mset ?s (mset (remove_nth n (e_spawned e)))"
    using n by (rule mset_remove_nth)
  ultimately show ?thesis using other
    by (auto simp: e' touch_def busy_def pending_def split: sum.splits option.splits)
qed

lemma perform_other_end:
  assumes "perform L C (AEnd n now outcome io1 io2) e = Some e'" "\<not> about tid e (AEnd n now outcome io1 io2)"
  shows "view (i_state (e_inner e')) tid = view (i_state (e_inner e)) tid
    \<and> busy tid e' = busy tid e \<and> pending tid e' \<subseteq># pending tid e"
  using assms(1)
proof (rule perform_endE)
  let ?t = "e_running e ! n"
  fix r j assume run: "run_end L C now outcome io1 io2 ?t (e_inner e) = (r, j)" and n: "n < length (e_running e)"
    and e': "e' = e\<lparr>e_inner := j, e_running := remove_nth n (e_running e), e_poisoned := panicked r\<rparr>"
  have other: "ts_id (t_spec ?t) \<noteq> tid" using assms(2) n by simp
  have "touch (ts_id (t_spec ?t)) (e_inner e) j"
    using own.run_end_rel [where t = ?t and i = "e_inner e" and L = L and C = C and now = now
        and outcome = outcome and ?io1.0 = io1 and ?io2.0 = io2, OF _ _ refl] run by simp
  with other show ?thesis
    using busy_remove_nth(1) [OF n, of "\<lambda>t. ts_id (t_spec t) = tid"]
    by (auto simp: e' touch_def busy_def pending_def)
qed

lemma perform_other:
  assumes "wf_inner (e_inner e)" "perform L C a e = Some e'" "\<not> about tid e a"
  shows "view (i_state (e_inner e')) tid = view (i_state (e_inner e)) tid
    \<and> busy tid e' = busy tid e \<and> pending tid e' \<subseteq># pending tid e"
proof (cases a)
  case (ASchedule now reg io)
  with assms(2,3) own.schedule_with_overlap_rel [where io = io and reg = reg and i = "e_inner e"
      and L = L and C = C and now = now, OF _ refl]
  show ?thesis by (auto simp: touch_def busy_def pending_def split: if_splits prod.splits)
next
  case AStart
  with assms(2) start_keeps [of "e_inner e"] show ?thesis
    by (auto simp: busy_def pending_def queued_def simp del: start_keeps
        split: if_splits prod.splits sum.splits)
next
  case (ATick now)
  obtain due h where pop: "pop_due now (i_heap (e_inner e)) = (due, h)" by force
  have "mset (i_heap (e_inner e)) = mset h + mset due"
    using assms(1) by (intro pop_due_partition [OF _ pop]) (simp add: wf_inner_def)
  with ATick assms(2) pop show ?thesis
    by (auto simp: loop_tick_def busy_def pending_def queued_def split: if_splits)
next
  case ASpawn
  with assms(2) show ?thesis
    by (auto simp: spawn_guard_def busy_def pending_def queued_def split: if_splits list.splits)
next
  case (ABegin n now ulid io1 io2)
  with perform_other_begin assms show ?thesis by blast
next
  case (AEnd n now outcome io1 io2)
  with perform_other_end assms show ?thesis by blast
next
  case AShutdown
  with assms(2) shutdown_keeps(1,2) [of "e_inner e"] show ?thesis
    by (auto simp: busy_def pending_def queued_def simp del: shutdown_keeps split: if_splits prod.splits)
next
  case (AShutdownWait m)
  with assms(2) shutdown_keeps(4,5) [of m "e_inner e"] show ?thesis
    by (auto simp: busy_def pending_def queued_def simp del: shutdown_keeps split: if_splits prod.splits)
next
  case (ACompact now f)
  with assms(2) compact_keeps [of now f "e_inner e"] show ?thesis
    by (auto simp: busy_def pending_def queued_def simp del: compact_keeps split: if_splits prod.splits)
qed

section \<open>Overlap policies\<close>

lemma view_eqD:
  "view s tid = view s' tid \<Longrightarrow> specs s tid = specs s' tid \<and> states s tid = states s' tid"
  by (simp add: view_def)

text \<open>The policy \<open>skip\<close>: while a run of the timer executes, its state is \<open>Running\<close>, and a timer
  with anything waiting or executing has a specification with that policy.\<close>

definition skip_inv :: "timer_id \<Rightarrow> engine \<Rightarrow> bool" where
  "skip_inv tid e \<longleftrightarrow>
     length (busy tid e) \<le> 1
     \<and> (busy tid e \<noteq> [] \<longrightarrow> states (i_state (e_inner e)) tid = Some Running)
     \<and> (busy tid e = [] \<and> pending tid e = {#}
        \<or> (\<exists>spec. specs (i_state (e_inner e)) tid = Some spec \<and> ts_overlap spec = Skip))"

definition skip_only :: "timer_id \<Rightarrow> action \<Rightarrow> bool" where
  "skip_only tid a \<longleftrightarrow>
     (case a of ASchedule _ reg _ \<Rightarrow> TimerId (reg_id reg) = tid \<longrightarrow> reg_overlap reg = Some Skip | _ \<Rightarrow> True)"

lemma skip_inv_schedule:
  assumes "skip_inv tid e" "skip_only tid (ASchedule now reg io)" "tid = TimerId (reg_id reg)"
    and "perform L C (ASchedule now reg io) e = Some e'"
  shows "skip_inv tid e'"
proof -
  obtain r j where sch: "schedule_with_overlap L C now reg io (e_inner e) = (r, j)"
    and e': "e' = e\<lparr>e_inner := j, e_poisoned := panicked r\<rparr>"
    using assms(4) by (auto split: if_splits prod.splits)
  have "ts_overlap (registered_spec now reg (e_inner e)) = Skip"
    using assms(2,3) by (simp add: skip_only_def registered_spec_def Let_def)
  with schedule_post [OF sch assms(3)] assms(1) show ?thesis
    by (auto simp: e' skip_inv_def busy_def pending_def queued_def)
qed

lemma skip_inv_begin:
  assumes "skip_inv tid e" "st_timer_id (e_spawned e ! n) = tid" "perform L C (ABegin n now ulid io1 io2) e = Some e'"
  shows "skip_inv tid e'"
  using assms(3)
proof (rule perform_beginE)
  let ?s = "e_spawned e ! n"
  fix r j assume run: "run_begin L C now ulid io1 io2 ?s (e_inner e) = (r, j)" and n: "n < length (e_spawned e)"
    and e': "e' = e\<lparr>e_inner := j, e_spawned := remove_nth n (e_spawned e),
               e_running := e_running e @ (case r of Inr (Some t) \<Rightarrow> [t] | _ \<Rightarrow> []), e_poisoned := panicked r\<rparr>"
  have "pending tid e \<noteq> {#}"
    using assms(2) n by (auto simp: pending_def filter_mset_eq_conv dest: nth_mem)
  with assms(1) obtain spec where spec: "specs (i_state (e_inner e)) tid = Some spec" "ts_overlap spec = Skip"
    by (auto simp: skip_inv_def)
  from run_begin_post [OF run] have post: "begin_post ?s (e_inner e) r j" by simp
  show ?thesis
  proof (cases "\<exists>t. r = Inr (Some t)")
    case True
    then obtain t where t: "r = Inr (Some t)" by blast
    with post spec assms(2) have "states (i_state (e_inner e)) tid \<noteq> Some Running" "states (i_state j) tid = Some Running"
      "specs (i_state j) = specs (i_state (e_inner e))"
      by (auto simp: begin_post_def Let_def)
    with assms(1) spec t show ?thesis by (auto simp: e' skip_inv_def busy_def)
  next
    case False
    then have "e_running e' = e_running e" by (auto simp: e' split: sum.splits option.splits)
    with post spec assms(1,2) show ?thesis
      by (auto simp: skip_inv_def busy_def begin_post_def Let_def e')
  qed
qed

text \<open>The end of a run takes it from the runs of its timer.\<close>

lemma busy_end:
  assumes "n < length (e_running e)" "ts_id (t_spec (e_running e ! n)) = tid"
    and "e_running e' = remove_nth n (e_running e)"
  shows "length (busy tid e) = Suc (length (busy tid e'))" "set (busy tid e') \<subseteq> set (busy tid e)"
    "e_running e ! n \<in> set (busy tid e)"
  using busy_remove_nth(2) [OF assms(1), of "\<lambda>t. ts_id (t_spec t) = tid"] assms
  by (auto simp: busy_def remove_nth_def dest: in_set_takeD in_set_dropD)

lemma skip_inv_end:
  assumes "skip_inv tid e" "ts_id (t_spec (e_running e ! n)) = tid" "perform L C (AEnd n now outcome io1 io2) e = Some e'"
  shows "skip_inv tid e'"
  using assms(3)
proof (rule perform_endE)
  fix r j assume run: "run_end L C now outcome io1 io2 (e_running e ! n) (e_inner e) = (r, j)" and n: "n < length (e_running e)"
    and e': "e' = e\<lparr>e_inner := j, e_running := remove_nth n (e_running e), e_poisoned := panicked r\<rparr>"
  have "length (busy tid e) = Suc (length (busy tid e'))" using busy_end(1) [OF n assms(2)] e' by simp
  moreover have "specs (i_state j) = specs (i_state (e_inner e))"
    using run_end_post [OF run] by (simp add: end_post_def)
  ultimately show ?thesis using assms(1) by (auto simp: skip_inv_def e')
qed

lemma skip_inv_perform:
  assumes "wf_inner (e_inner e)" "skip_inv tid e" "skip_only tid a" "perform L C a e = Some e'"
  shows "skip_inv tid e'"
proof (cases "about tid e a")
  case False
  from perform_other [OF assms(1,4) this] assms(2) show ?thesis
    by (auto simp: skip_inv_def dest!: view_eqD)
next
  case True
  then show ?thesis
  proof (cases a)
    case (ASchedule now reg io)
    show ?thesis by (rule skip_inv_schedule [OF assms(2)]) (use True assms(3,4) ASchedule in \<open>auto simp del: perform.simps\<close>)
  next
    case (ABegin n now ulid io1 io2)
    show ?thesis by (rule skip_inv_begin [OF assms(2)]) (use True assms(4) ABegin in \<open>auto simp del: perform.simps\<close>)
  next
    case (AEnd n now outcome io1 io2)
    show ?thesis by (rule skip_inv_end [OF assms(2)]) (use True assms(4) AEnd in \<open>auto simp del: perform.simps\<close>)
  qed auto
qed

text \<open>C2: the policy \<open>skip\<close> is exclusive.  In every execution of an opened engine in which each
  registration of a timer asks for \<open>skip\<close>, at most one run of that timer executes at any time,
  whatever the interleaving of the tasks, the failures of the log and the other timers do.\<close>

theorem skip_exclusive:
  assumes "open_engine C dir locked D = (Inr inn, D')" "wf_specs (i_state inn)"
    and "reach L C (skip_only tid) (new_engine inn) e"
  shows "length (busy tid e) \<le> 1"
proof -
  have wf: "wf_inner (e_inner (new_engine inn))"
    using open_engine_simps(1) [OF assms(1)] assms(2) by (simp add: wf_inner_def new_engine_def)
  have "skip_inv tid (new_engine inn)"
    using open_engine_simps(1) [OF assms(1)]
    by (simp add: skip_inv_def busy_def pending_def queued_def new_engine_def new_heap_def)
  with assms(3) have "skip_inv tid e"
    by (induction rule: reach.induct) (auto intro: skip_inv_perform wf_inner_reach [OF _ wf])
  then show ?thesis by (simp add: skip_inv_def)
qed

text \<open>A second run becomes due while the first one executes.\<close>

definition second_due :: "overlap_policy \<Rightarrow> action list" where
  "second_due p = first_run p @ [ATick (secs 120), ASpawn, ABegin 0 (secs 120) ''b'' IoOk IoOk]"

lemma wf_specs_fresh: "wf_specs (i_state fresh_inner)"
  using wf_fresh by (simp add: wf_inner_def)

theorem skip_exclusive_witness:
  "length (busy (TimerId ''t'') (after_trace (second_due Skip))) \<le> 1
   \<and> length (busy (TimerId ''t'') (after_trace (second_due Allow))) = 2"
proof
  have "perform_all minute_libs plain_codec (second_due Skip) (new_engine fresh_inner) \<noteq> None"
    "list_all (skip_only (TimerId ''t'')) (second_due Skip)"
    by code_simp+
  then have "reach minute_libs plain_codec (skip_only (TimerId ''t'')) (new_engine fresh_inner) (after_trace (second_due Skip))"
    by (rule after_trace_reach)
  then show "length (busy (TimerId ''t'') (after_trace (second_due Skip))) \<le> 1"
    by (rule skip_exclusive [OF open_fresh wf_specs_fresh])
  show "length (busy (TimerId ''t'') (after_trace (second_due Allow))) = 2" by code_simp
qed

text \<open>The policy \<open>delay\<close>: everything that waits or executes for the timer is one thing.\<close>

definition delay_inv :: "timer_id \<Rightarrow> engine \<Rightarrow> bool" where
  "delay_inv tid e \<longleftrightarrow>
     size (pending tid e) + length (busy tid e) \<le> 1
     \<and> (\<forall>t \<in> set (busy tid e). ts_overlap (t_spec t) = Delay)
     \<and> (busy tid e = [] \<and> pending tid e = {#}
        \<or> (\<exists>spec. specs (i_state (e_inner e)) tid = Some spec \<and> ts_overlap spec = Delay))"

definition not_registering :: "timer_id \<Rightarrow> action \<Rightarrow> bool" where
  "not_registering tid a \<longleftrightarrow> (case a of ASchedule _ reg _ \<Rightarrow> TimerId (reg_id reg) \<noteq> tid | _ \<Rightarrow> True)"

lemma delay_inv_begin:
  assumes "delay_inv tid e" "st_timer_id (e_spawned e ! n) = tid" "perform L C (ABegin n now ulid io1 io2) e = Some e'"
  shows "delay_inv tid e'"
  using assms(3)
proof (rule perform_beginE)
  let ?s = "e_spawned e ! n"
  fix r j assume run: "run_begin L C now ulid io1 io2 ?s (e_inner e) = (r, j)" and n: "n < length (e_spawned e)"
    and e': "e' = e\<lparr>e_inner := j, e_spawned := remove_nth n (e_spawned e),
               e_running := e_running e @ (case r of Inr (Some t) \<Rightarrow> [t] | _ \<Rightarrow> []), e_poisoned := panicked r\<rparr>"
  note spawned = mset_remove_nth [OF n]
  with assms(2) have pend: "pending tid e \<noteq> {#}" by (simp add: pending_def)
  with assms(1) obtain spec where spec: "specs (i_state (e_inner e)) tid = Some spec" "ts_overlap spec = Delay"
    by (auto simp: delay_inv_def)
  from run_begin_post [OF run] assms(2) spec have post: "i_heap j = i_heap (e_inner e)"
    "specs (i_state j) = specs (i_state (e_inner e))" "\<And>t. r = Inr (Some t) \<Longrightarrow> t_spec t = spec"
    by (auto simp: begin_post_def Let_def)
  have "pending tid e = add_mset ?s (pending tid e')"
    using assms(2) by (simp add: pending_def queued_def e' post(1) spawned)
  moreover have "length (busy tid e') \<le> length (busy tid e) + 1"
    by (auto simp: busy_def e' split: sum.splits option.splits)
  moreover have "ts_overlap (t_spec t) = Delay" if "t \<in> set (busy tid e')" for t
    using that post(3) spec assms(1)
    by (auto simp: busy_def e' delay_inv_def split: sum.splits option.splits)
  ultimately show ?thesis using assms(1) spec post(2) by (auto simp: delay_inv_def e')
qed

lemma delay_inv_end:
  assumes "delay_inv tid e" "ts_id (t_spec (e_running e ! n)) = tid" "perform L C (AEnd n now outcome io1 io2) e = Some e'"
  shows "delay_inv tid e'"
  using assms(3)
proof (rule perform_endE)
  let ?t = "e_running e ! n"
  fix r j assume run: "run_end L C now outcome io1 io2 ?t (e_inner e) = (r, j)" and n: "n < length (e_running e)"
    and e': "e' = e\<lparr>e_inner := j, e_running := remove_nth n (e_running e), e_poisoned := panicked r\<rparr>"
  have "e_running e' = remove_nth n (e_running e)" by (simp add: e')
  note busy = busy_end [OF n assms(2) this]
  have "ts_overlap (t_spec ?t) = Delay" using assms(1) busy(3) by (auto simp: delay_inv_def)
  then have "size (pending tid e') \<le> size (pending tid e) + 1" "specs (i_state j) = specs (i_state (e_inner e))"
    using run_end_post [OF run, of tid] by (auto simp: end_post_def pending_def e')
  with busy show ?thesis using assms(1) by (auto simp: delay_inv_def e')
qed

lemma delay_inv_perform:
  assumes "wf_inner (e_inner e)" "delay_inv tid e" "not_registering tid a" "perform L C a e = Some e'"
  shows "delay_inv tid e'"
proof (cases "about tid e a")
  case False
  from perform_other [OF assms(1,4) this]
  have same: "view (i_state (e_inner e')) tid = view (i_state (e_inner e)) tid" "busy tid e' = busy tid e"
    "pending tid e' \<subseteq># pending tid e" by auto
  moreover have "size (pending tid e') \<le> size (pending tid e)" using same(3) by (rule size_mset_mono)
  ultimately show ?thesis using assms(2)
    by (auto simp: delay_inv_def dest!: view_eqD)
next
  case True
  then show ?thesis
  proof (cases a)
    case (ASchedule now reg io)
    with True assms(3) show ?thesis by (simp add: not_registering_def)
  next
    case (ABegin n now ulid io1 io2)
    show ?thesis by (rule delay_inv_begin [OF assms(2)]) (use True assms(4) ABegin in \<open>auto simp del: perform.simps\<close>)
  next
    case (AEnd n now outcome io1 io2)
    show ?thesis by (rule delay_inv_end [OF assms(2)]) (use True assms(4) AEnd in \<open>auto simp del: perform.simps\<close>)
  qed auto
qed

lemma delay_inv_reach:
  assumes "reach L C (not_registering tid) e0 e" "wf_inner (e_inner e0)" "delay_inv tid e0"
  shows "delay_inv tid e"
  using assms(1,3)
  by (induction rule: reach.induct) (auto intro: delay_inv_perform wf_inner_reach [OF _ assms(2)])

definition idle :: "timer_id \<Rightarrow> engine \<Rightarrow> bool" where
  "idle tid e \<longleftrightarrow> busy tid e = [] \<and> pending tid e = {#}"

lemma idle_perform:
  assumes "wf_inner (e_inner e)" "idle tid e" "not_registering tid a" "perform L C a e = Some e'"
  shows "idle tid e'"
proof -
  have "\<not> about tid e a"
  proof
    assume about: "about tid e a"
    then show False
    proof (cases a)
      case (ABegin n now ulid io1 io2)
      with about assms(2) mset_remove_nth [of n "e_spawned e"] show False by (auto simp: idle_def pending_def)
    next
      case (AEnd n now outcome io1 io2)
      with about assms(2) show False by (auto simp: idle_def busy_def filter_empty_conv)
    qed (use assms(3) in \<open>auto simp: not_registering_def\<close>)
  qed
  from perform_other [OF assms(1,4) this] assms(2) show ?thesis by (simp add: idle_def)
qed

lemma schedule_queued:
  assumes "schedule_with_overlap L C now reg io i = (r, j)"
  shows "size (queued tid j) \<le> size (queued tid i) + 1"
proof -
  have "size (queued tid k) \<le> size (queued tid i)" if "register_spec C now reg io i = (r', k)" for r' k
    using that by (auto simp: register_spec_def Let_def on_result_def apply_to_inner_def unqueue_def
        queued_def engine_append_simps size_filter_mset_lesseq filter_filter_mset
        intro!: size_mset_mono multiset_filter_mono split: if_splits prod.splits sum.splits)
  moreover have "size (queued tid k') \<le> size (queued tid k) + 1" if "bind_function L now reg k = (r', k')" for k r' k'
    using that by (auto simp: bind_function_def Let_def push_next_def queued_def
        split: if_splits option.splits sum.splits fault.splits)
  ultimately show ?thesis
    using assms by (fastforce simp: schedule_with_overlap_def on_result_def queued_def
        split: if_splits prod.splits sum.splits)
qed

text \<open>C3: the policy \<open>delay\<close> is sequential.  In every execution in which a timer is registered
  once, with \<open>delay\<close>, there is at any time at most one thing outstanding for it: one entry waiting
  for its time or for its task, or one executing run.  So its runs and its retries follow each
  other and never overlap.\<close>

theorem delay_sequential:
  assumes "open_engine C dir locked D = (Inr inn, D')" "wf_specs (i_state inn)"
    and "reach L C (not_registering tid) (new_engine inn) e1"
    and "perform L C (ASchedule now reg io) e1 = Some e2" "TimerId (reg_id reg) = tid"
    and "reg_overlap reg = Some Delay"
    and "reach L C (not_registering tid) e2 e"
  shows "size (pending tid e) + length (busy tid e) \<le> 1"
proof -
  have wf: "wf_inner (e_inner (new_engine inn))"
    using open_engine_simps(1) [OF assms(1)] assms(2) by (simp add: wf_inner_def new_engine_def)
  have "idle tid (new_engine inn)"
    using open_engine_simps(1) [OF assms(1)]
    by (simp add: idle_def busy_def pending_def queued_def new_engine_def new_heap_def)
  with assms(3) have idle: "idle tid e1"
    by (induction rule: reach.induct) (auto intro: idle_perform wf_inner_reach [OF _ wf])
  from assms(4) obtain r j where sch: "schedule_with_overlap L C now reg io (e_inner e1) = (r, j)"
    and e2: "e2 = e1\<lparr>e_inner := j, e_poisoned := panicked r\<rparr>"
    by (auto split: if_splits prod.splits)
  have "ts_overlap (registered_spec now reg (e_inner e1)) = Delay"
    using assms(6) by (simp add: registered_spec_def Let_def)
  moreover from idle have none: "queued tid (e_inner e1) = {#}" "busy tid e2 = []" "pending tid e2 = queued tid j"
    by (simp_all only: idle_def pending_def union_eq_empty) (simp_all add: busy_def e2)
  moreover have "size (queued tid j) \<le> 1" using schedule_queued [OF sch, of tid] none(1) by simp
  moreover have "i_heap j = i_heap (e_inner e1) \<Longrightarrow> queued tid j = {#}" using none(1) by (simp only: queued_def)
  ultimately have "delay_inv tid e2"
    using schedule_post [OF sch assms(5) [symmetric]] unfolding delay_inv_def by (auto simp: e2)
  moreover have "wf_inner (e_inner e2)"
    using wf_inner_perform [OF wf_inner_reach [OF assms(3) wf] assms(4)] .
  ultimately have "delay_inv tid e" using delay_inv_reach [OF assms(7)] by blast
  then show ?thesis by (simp add: delay_inv_def)
qed

theorem delay_sequential_witness:
  "size (pending (TimerId ''t'') (after_trace (first_run Delay)))
   + length (busy (TimerId ''t'') (after_trace (first_run Delay))) \<le> 1"
proof -
  let ?P = "not_registering (TimerId ''t'')"
  let ?init = "new_engine fresh_inner"
  let ?rest = "[ATick (secs 60), ASpawn, ABegin 0 (secs 60) ''a'' IoOk IoOk]"
  have split: "first_run Delay = [AStart] @ ASchedule 0 (minutely Delay) IoOk # ?rest"
    by (simp add: first_run_def)
  have r1: "reach minute_libs plain_codec ?P ?init (after_trace [AStart])"
    by (rule after_trace_reach) code_simp+
  obtain e1 e2 e where e: "perform_all minute_libs plain_codec [AStart] ?init = Some e1"
    "perform minute_libs plain_codec (ASchedule 0 (minutely Delay) IoOk) e1 = Some e2"
    "perform_all minute_libs plain_codec ?rest e2 = Some e"
    "perform_all minute_libs plain_codec (first_run Delay) ?init = Some e"
  proof -
    have "perform_all minute_libs plain_codec (first_run Delay) ?init \<noteq> None" by code_simp
    then show thesis using that unfolding split by (auto simp: bind_eq_Some_conv simp del: perform.simps)
  qed
  from e(1) r1 have r1': "reach minute_libs plain_codec ?P ?init e1" by (simp add: after_trace_def)
  have "list_all ?P ?rest" by code_simp
  from perform_all_reach [OF e(3) this reach.init] have r2: "reach minute_libs plain_codec ?P e2 e" .
  have "after_trace (first_run Delay) = e" using e(4) by (simp add: after_trace_def)
  with delay_sequential [OF open_fresh wf_specs_fresh r1' e(2) _ _ r2] show ?thesis
    by (simp add: minutely_def)
qed

definition register_again :: "action list" where
  "register_again = first_run Delay @ [ASchedule (secs 61) (minutely Delay) IoOk, ATick (secs 121), ASpawn,
                                       ABegin 0 (secs 121) ''b'' IoOk IoOk]"

text \<open>A second registration of the same timer with the same specification, made while a run
  executes, queues another run: two runs of a timer with the policy \<open>delay\<close> then execute at the
  same time.\<close>

theorem delay_overlaps_after_registration:
  "map_option (\<lambda>e. map (\<lambda>t. (ts_id (t_spec t), ts_overlap (t_spec t), t_run_id t)) (e_running e))
     (perform_all minute_libs plain_codec register_again (new_engine fresh_inner))
   = Some [(TimerId ''t'', Delay, RunId ''run_a''), (TimerId ''t'', Delay, RunId ''run_b'')]"
  by code_simp

section \<open>The decision after a failed run\<close>

definition encodes_all :: "log_entry codec \<Rightarrow> bool" where
  "encodes_all C \<longleftrightarrow> (\<forall>e. \<exists>l. encode C e = Inr l)"

lemma append_apply_total:
  assumes "encodes_all C"
  shows "\<exists>j. append_apply_or_stop C now ev IoOk i = (Inr (), j)"
proof -
  obtain l where "encode C (new_log_entry now ev) = Inr l" using assms by (auto simp: encodes_all_def)
  then show ?thesis
    by (simp add: append_apply_or_stop_def engine_append_def append_log_def on_result_def Let_def)
qed

lemma run_failed_decision:
  assumes "encodes_all C" "\<not> i_shutting_down i" "\<not> i_stopped i"
    and "tid = ts_id (t_spec t)"
    and "a = unwrap_or (map_option (snd \<circ> snd) (pending_retries (i_state i) tid)) 1"
    and "run_failed L C now err IoOk IoOk t i = (r, j)" "\<not> panicked r"
  shows "if a < max_attempts (ts_retry (t_spec t))
     then \<exists>retry_at. next_retry_at L (ts_retry (t_spec t)) now a = Inr (Some retry_at)
          \<and> pending_retries (i_state j) tid = Some (t_run_id t, retry_at, a + 1)
          \<and> states (i_state j) tid = Some Retrying
          \<and> retry_entry tid (t_run_id t) retry_at (a + 1) \<in> set (i_heap j)
     else pending_retries (i_state j) tid = None \<and> states (i_state j) tid = Some Dead"
proof -
  obtain i1 where a1: "append_apply_or_stop C now (RunFailed tid (t_run_id t) now err a) IoOk i = (Inr (), i1)"
    using append_apply_total [OF assms(1)] by blast
  note i1 = append_apply_ok [OF a1]
  show ?thesis
  proof (cases "a < max_attempts (ts_retry (t_spec t))")
    case True
    obtain res where res: "next_retry_at L (ts_retry (t_spec t)) now a = res" by blast
    have "res \<noteq> Inr None" using True res next_retry_at_None [of L "ts_retry (t_spec t)" now a] by auto
    moreover have "\<exists>m. f = Panic m" if "res = Inl f" for f
      using res that by (auto simp: next_retry_at_def plus_seconds_def split: if_splits sum.splits option.splits)
    ultimately obtain retry_at where ra: "res = Inr (Some retry_at)"
      using assms(6,7) assms(4,5) a1 res
      by (cases res) (auto simp: run_failed_def Let_def on_result_def panicked_def)
    let ?i2 = "if ts_overlap (t_spec t) \<noteq> Delay then unqueue tid i1 else i1"
    obtain i3 where a3: "append_apply_or_stop C now (RunRetrying tid (t_run_id t) (a + 1) retry_at) IoOk ?i2 = (Inr (), i3)"
      using append_apply_total [OF assms(1)] by blast
    note i3 = append_apply_ok [OF a3]
    have "\<not> i_shutting_down i3 \<and> \<not> i_stopped i3"
      using i1 i3 assms(2,3) by (simp add: unqueue_def remove_next_def)
    then have "j = i3\<lparr>i_heap := push (retry_entry tid (t_run_id t) retry_at (a + 1)) (i_heap i3)\<rparr>"
      using assms(4,5,6) a1 a3 res ra by (auto simp: run_failed_def Let_def on_result_def split: if_splits)
    then show ?thesis using True res ra i3 by simp
  next
    case False
    then have none: "next_retry_at L (ts_retry (t_spec t)) now a = Inr None" by (simp add: not_less)
    obtain i2 where a2: "append_apply_or_stop C now (RunDead tid (t_run_id t) now) IoOk i1 = (Inr (), i2)"
      using append_apply_total [OF assms(1)] by blast
    note i2 = append_apply_ok [OF a2]
    have j: "j = i2 \<or> (\<exists>r'. reschedule_from L (t_spec t) now i2 = (r', j))"
      using assms(4,5,6) a1 a2 none
      by (auto simp: run_failed_def Let_def on_result_def reschedule_def
          simp del: next_retry_at_None split: if_splits)
    have "pending_retries (i_state j) = pending_retries (i_state i2) \<and> states (i_state j) = states (i_state i2)"
      using j by (auto simp: reschedule_from_def push_next_def remove_next_def
          split: if_splits sum.splits option.splits fault.splits)
    with False i2 show ?thesis by simp
  qed
qed

text \<open>C8: a failed run is retried or declared dead exactly as its policy says.  With \<open>a\<close> the
  attempt that failed, if \<open>a\<close> is below the limit the retry keeps the run identifier, is queued
  for the documented delay after the failure with attempt \<open>a + 1\<close>, which never exceeds the limit,
  and the timer is \<open>Retrying\<close>; otherwise the timer is \<open>Dead\<close> and no retry is pending.\<close>

theorem failed_run_decision:
  assumes "encodes_all C" "chrono_exact L" "\<not> i_shutting_down i" "\<not> i_stopped i" "t_has_fn t"
    and "tid = ts_id (t_spec t)" "policy = ts_retry (t_spec t)"
    and "a = unwrap_or (map_option (snd \<circ> snd) (pending_retries (i_state i) tid)) 1" "0 < unat a"
    and "documented_delay (backoff policy) (unat a) < 2 ^ 63"
    and "run_end L C now (Inl err) IoOk IoOk t i = (Inr (), j)"
  shows "if unat a < unat (max_attempts policy)
     then (let retry_at = now + int (documented_delay (backoff policy) (unat a)) * nanos_per_sec in
           pending_retries (i_state j) tid = Some (t_run_id t, retry_at, a + 1)
           \<and> retry_entry tid (t_run_id t) retry_at (a + 1) \<in> set (i_heap j)
           \<and> states (i_state j) tid = Some Retrying
           \<and> unat (a + 1) = unat a + 1 \<and> unat (a + 1) \<le> unat (max_attempts policy))
     else pending_retries (i_state j) tid = None \<and> states (i_state j) tid = Some Dead"
proof -
  obtain r k where f: "run_failed L C now err IoOk IoOk t i = (r, k)" by force
  with assms(5,11) have fin: "finishing (r, k) = (Inr (), j)" by (simp add: run_end_def Let_def)
  then have "\<not> panicked r" using finishing_active [of r k] by (auto simp: panicked_def)
  note dec = run_failed_decision [OF assms(1,3,4,6,8) f this]
  from finishing_post [OF fin] have j: "i_state j = i_state k" "i_heap j = i_heap k" by simp_all
  show ?thesis
  proof (cases "unat a < unat (max_attempts policy)")
    case True
    then have lt: "a < max_attempts (ts_retry (t_spec t))" using assms(7) by (simp add: word_less_nat_alt)
    with dec obtain retry_at where nr: "next_retry_at L policy now a = Inr (Some retry_at)"
      and d: "pending_retries (i_state k) tid = Some (t_run_id t, retry_at, a + 1)"
        "states (i_state k) tid = Some Retrying" "retry_entry tid (t_run_id t) retry_at (a + 1) \<in> set (i_heap k)"
      using assms(7) by auto
    from next_retry_at_SomeD [OF nr] have "plus_seconds L now (delay_seconds (backoff policy) a) = Inr retry_at" by simp
    with plus_seconds_exact [OF assms(2) _ this] assms(9,10)
    have "retry_at = now + int (documented_delay (backoff policy) (unat a)) * nanos_per_sec"
      by (simp add: delay_documented)
    moreover have "unat (a + 1) = unat a + 1"
      using True unsigned_less [where 'a = nat, of "max_attempts policy"] by (simp add: unat_word_ariths)
    ultimately show ?thesis using True d j by (simp add: Let_def)
  next
    case False
    then have "\<not> a < max_attempts (ts_retry (t_spec t))" using assms(7) by (simp add: word_less_nat_alt)
    with dec False j show ?thesis by simp
  qed
qed

lemma plain_encodes_all: "encodes_all plain_codec"
  by (simp add: encodes_all_def plain_codec_def)

definition flaky_run :: engine where
  "flaky_run = after_trace [AStart,
     ASchedule 0 ((minutely Delay)\<lparr>reg_retry := Some \<lparr>max_attempts = 3, backoff = Fixed 30\<rparr>\<rparr>) IoOk,
     ATick (secs 60), ASpawn, ABegin 0 (secs 60) ''a'' IoOk IoOk]"

definition failed_first :: "unit result" where
  "failed_first = run_end minute_libs plain_codec (secs 61) (Inl ''boom'') IoOk IoOk
                    (hd (e_running flaky_run)) (e_inner flaky_run)"

theorem failed_run_decision_witness:
  "pending_retries (i_state (snd failed_first)) (TimerId ''t'') = Some (RunId ''run_a'', secs 91, 2)
   \<and> retry_entry (TimerId ''t'') (RunId ''run_a'') (secs 91) 2 \<in> set (i_heap (snd failed_first))"
proof -
  let ?t = "hd (e_running flaky_run)" and ?i = "e_inner flaky_run"
  have flags: "\<not> i_shutting_down ?i" "\<not> i_stopped ?i" "t_has_fn ?t" by code_simp+
  have task: "ts_id (t_spec ?t) = TimerId ''t''" "t_run_id ?t = RunId ''run_a''"
    "max_attempts (ts_retry (t_spec ?t)) = 3" "backoff (ts_retry (t_spec ?t)) = Fixed 30"
    "pending_retries (i_state ?i) (TimerId ''t'') = None"
    by code_simp+
  have "fst failed_first = Inr ()" by code_simp
  then have run: "run_end minute_libs plain_codec (secs 61) (Inl ''boom'') IoOk IoOk ?t ?i = (Inr (), snd failed_first)"
    by (metis failed_first_def prod.collapse)
  from failed_run_decision [OF plain_encodes_all minute_libs_exact flags refl refl _ _ _ run, of 1] task
  show ?thesis by (simp add: secs_def nanos_per_sec_def Let_def)
qed

section \<open>The engine stays well formed\<close>

text \<open>A snapshot whose specifications are keyed by their identifiers.\<close>

definition keyed_disk :: "disk \<Rightarrow> bool" where
  "keyed_disk D \<longleftrightarrow> (\<forall>sn tid spec. d_snapshot D = Some (Parsed sn) \<longrightarrow> sn_specs sn tid = Some spec \<longrightarrow> ts_id spec = tid)"

lemma into_state_keyed: "into_state sn = Inr s \<Longrightarrow> specs s = sn_specs sn"
  by (auto simp: into_state_def Let_def split: if_splits)

lemma load_keyed:
  assumes "load_state C dir D = (Inr s, D')" "keyed_disk D"
  shows "wf_specs s"
proof (cases "d_snapshot D")
  case None
  have "wf_specs new_state" by (simp add: wf_specs_def new_state_def)
  with None assms(1) show ?thesis
    by (auto simp: load_state_def Let_def wf_specs_replay split: prod.splits sum.splits)
next
  case (Some sf)
  then obtain sn s0 where sn: "sf = Parsed sn" "into_state sn = Inr s0"
    using assms(1) by (cases sf; cases "into_state (case sf of Parsed sn \<Rightarrow> sn | _ \<Rightarrow> undefined)") (auto simp: load_state_def Let_def)
  have "wf_specs s0" using into_state_keyed [OF sn(2)] assms(2) Some sn(1) by (auto simp: wf_specs_def keyed_disk_def)
  then show ?thesis
    using assms(1) Some sn by (auto simp: load_state_def Let_def wf_specs_replay split: if_splits option.splits prod.splits sum.splits)
qed

lemma keyed_open [simp]: "keyed_disk (fst (open_log D)) = keyed_disk D"
  by (simp add: keyed_disk_def open_log_def split: option.split)

text \<open>C36: the engine stays well formed.  On a directory whose snapshot, if there is one, keys every
  specification by its identifier, the opened engine and every state that it reaches keep the
  queue a heap on the time of the next run, so that its first entry is the earliest, and key every
  specification by its identifier; and every snapshot of such a state is one of this kind again.\<close>

theorem engine_well_formed:
  assumes "open_engine C dir locked D = (Inr inn, D')" "keyed_disk D"
    and "reach L C P (new_engine inn) e"
  shows "wf_heap (i_heap (e_inner e)) \<and> wf_specs (i_state (e_inner e))
    \<and> keyed_disk \<lparr>d_aof = a, d_aof_old = b, d_snapshot = Some (Parsed (from_state now (i_state (e_inner e)) offset))\<rparr>"
proof -
  have "wf_specs (i_state inn)"
    using assms(1) load_keyed [of C dir "fst (open_log D)"] assms(2)
    by (auto simp: open_engine_def Let_def split: if_splits prod.splits sum.splits)
  then have "wf_inner (e_inner (new_engine inn))"
    using open_engine_simps(1) [OF assms(1)] by (simp add: wf_inner_def new_engine_def)
  from wf_inner_reach [OF assms(3) this] show ?thesis
    by (auto simp: wf_inner_def keyed_disk_def from_state_def wf_specs_def)
qed

theorem engine_well_formed_witness:
  "wf_heap (i_heap (e_inner (after_trace (first_run Delay)))) \<and> wf_specs (i_state (e_inner (after_trace (first_run Delay))))"
proof -
  have "perform_all minute_libs plain_codec (first_run Delay) (new_engine fresh_inner) \<noteq> None" by code_simp
  then have "reach minute_libs plain_codec (\<lambda>_. True) (new_engine fresh_inner) (after_trace (first_run Delay))"
    by (rule after_trace_reach) (simp add: list_all_iff)
  moreover have "keyed_disk empty_disk" by (simp add: keyed_disk_def empty_disk_def)
  ultimately show ?thesis using engine_well_formed [OF open_fresh] by blast
qed

end
