(* ===== verification/Kron_Number_Codec.thy ===== *)
theory Kron_Number_Codec
  imports Kron_Log "HOL-Library.Countable"
begin

text \<open>
  A concrete JSON library for the witnesses of the development.  The documents of a countable
  type are numbered; the text of a document is \<open>{\<close>, its number in decimal, and \<open>}\<close>.  It meets,
  for every document, what the code relies on: one line that reads back, and an unexpected end
  of input on every proper beginning.
\<close>

definition number_text :: "nat \<Rightarrow> string" where
  "number_text n = CHR ''{'' # show_nat n @ [CHR ''}'']"

definition number_codec :: "'a::countable codec" where
  "number_codec =
     \<lparr>encode = (\<lambda>e. Inr (number_text (to_nat e))),
      decode = (\<lambda>s. if s \<noteq> [] \<and> last s = CHR ''}''
                    then (case digits_val 0 (butlast (tl s)) of
                            None \<Rightarrow> Inl (''expected a number'', False)
                          | Some n \<Rightarrow> Inr (from_nat n))
                    else Inl (''unexpected end of input'', True))\<rparr>"

lemma number_text_chars: "c \<in> set (show_nat n) \<Longrightarrow> graphic c \<and> c \<noteq> CHR ''}''"
proof -
  assume "c \<in> set (show_nat n)"
  then obtain d where d: "d < 10" "c = digit_char d" using show_nat_digits by blast
  then have "(of_char c :: nat) = 48 + d" using of_char_digit by simp
  with d show ?thesis by auto
qed

lemma number_text_line: "json_line (number_text n)"
proof -
  have "graphic c" if "c \<in> set (number_text n)" for c
    using that number_text_chars by (auto simp: number_text_def graphic_def)
  then have "ascii (number_text n)" "LF \<notin> set (number_text n)"
    by (auto simp: ascii_def graphic_def dest: order.strict_trans1) force+
  then show ?thesis
    by (simp add: json_line_def utf8_ascii) (simp add: number_text_def graphic_def)
qed

lemma wf_number: "wf_entry number_codec (e :: 'a::countable)"
proof -
  let ?l = "number_text (to_nat e)"
  have line: "entry_text number_codec e = ?l" by (simp add: entry_text_def number_codec_def)
  have "decode number_codec ?l = Inr e"
    by (simp add: number_codec_def number_text_def digits_val_show butlast_append)
  moreover have "(decode number_codec p :: json_error + 'a) = Inl (''unexpected end of input'', True)"
    if "strict_prefix p ?l" "p \<noteq> []" for p
  proof -
    from that have "set p \<subseteq> set (CHR ''{'' # show_nat (to_nat e))"
      by (auto simp: number_text_def strict_prefix_def prefix_Cons prefix_append prefix_snoc
          dest!: set_mono_prefix)
    then have "last p \<noteq> CHR ''}''" using number_text_chars that(2) last_in_set [of p] by fastforce
    then show ?thesis by (simp add: number_codec_def)
  qed
  ultimately show ?thesis
    unfolding wf_entry_def line using number_text_line by (auto simp: number_codec_def)
qed

section \<open>The entries of the log are countable\<close>

instance backoff_strategy :: countable by countable_datatype

instance retry_policy_ext :: (countable) countable
  by (rule countable_classI [of "\<lambda>r. to_nat (max_attempts r, backoff r, retry_policy.more r)"]) simp

instance schedule :: countable by countable_datatype
instance timer_id :: countable by countable_datatype
instance run_id :: countable by countable_datatype
instance overlap_policy :: countable by countable_datatype

instance timer_spec_ext :: (countable) countable
  by (rule countable_classI [of "\<lambda>s. to_nat (ts_id s, ts_schedule s, ts_retry s, ts_timezone s,
        ts_created_at s, ts_overlap s, timer_spec.more s)"]) simp

instance event :: countable by countable_datatype

instance log_entry_ext :: (countable) countable
  by (rule countable_classI [of "\<lambda>l. to_nat (le_v l, le_ts l, le_event l, log_entry.more l)"]) simp

end
