(* ===== verification/Kron_Recovery.thy ===== *)
theory Kron_Recovery
  imports Kron_Engine_System Kron_Number_Codec
begin

text \<open>
  Durability of the embedded engine: at every point of an execution without I/O failures, the
  data directory recovers to the state the engine has in memory (but for what the engine
  recomputes: lifecycle states, registered functions and next run times).
\<close>

section \<open>What a disk recovers to\<close>

definition codec_ok :: "log_entry codec \<Rightarrow> bool" where
  "codec_ok C \<longleftrightarrow> (\<forall>e. wf_entry C e)"

definition disk_holds :: "log_entry codec \<Rightarrow> disk \<Rightarrow> engine_state \<Rightarrow> bool" where
  "disk_holds C D s \<longleftrightarrow> (\<exists>es fs base.
     unwrap_or (d_aof D) [] = log_file C (es @ fs) \<and> list_all (wf_entry C) (es @ fs)
     \<and> (case d_snapshot D of
          None \<Rightarrow> es = [] \<and> base = new_state
        | Some (Parsed sn) \<Rightarrow> into_state sn = Inr base \<and> unat (sn_last_aof_offset sn) = length (log_file C es)
        | Some (Unreadable _) \<Rightarrow> False)
     \<and> s = replay base fs)"

lemma open_log_bytes: "snd (open_log D) = unwrap_or (d_aof D) []"
  by (simp add: open_log_def split: option.splits)

lemma disk_holds_load: "disk_holds C D s \<Longrightarrow> fst (load_state C dir D) = Inr s"
proof -
  assume "disk_holds C D s"
  then obtain es fs base where h: "unwrap_or (d_aof D) [] = log_file C (es @ fs)"
    "list_all (wf_entry C) (es @ fs)" "s = replay base fs"
    and snap: "case d_snapshot D of
          None \<Rightarrow> es = [] \<and> base = new_state
        | Some (Parsed sn) \<Rightarrow> into_state sn = Inr base \<and> unat (sn_last_aof_offset sn) = length (log_file C es)
        | Some (Unreadable _) \<Rightarrow> False"
    by (auto simp: disk_holds_def)
  obtain D1 f where opn: "open_log D = (D1, f)" by force
  then have f: "f = log_file C (es @ fs)" using open_log_bytes [of D] h(1) by simp
  show ?thesis
  proof (cases "d_snapshot D")
    case None
    with snap h f opn show ?thesis by (simp add: load_state_def replay_log_def replay_reader_entries)
  next
    case (Some sf)
    then obtain sn where sf: "sf = Parsed sn" using snap by (cases sf) auto
    with Some snap have sn: "into_state sn = Inr base" "unat (sn_last_aof_offset sn) = length (log_file C es)" by auto
    have "metadata_len (d_aof D) = length f"
      using f h(1) by (cases "d_aof D") (auto simp: metadata_len_def)
    then have "\<not> metadata_len (d_aof D) < unat (sn_last_aof_offset sn)" using f sn(2) by simp
    with Some sf sn opn f h replay_from_boundary [OF h(2), of "length (log_file C es)"] show ?thesis
      by (simp add: load_state_def Let_def)
  qed
qed

definition recoverable :: "log_entry codec \<Rightarrow> inner \<Rightarrow> bool" where
  "recoverable C i \<longleftrightarrow> i_handle i = OnAof \<and> d_aof (i_disk i) \<noteq> None
     \<and> (\<exists>s. disk_holds C (i_disk i) s \<and> core s = core (i_state i))"

lemma recoverable_cong:
  "i_disk j = i_disk i \<Longrightarrow> i_handle j = i_handle i \<Longrightarrow> core (i_state j) = core (i_state i)
     \<Longrightarrow> recoverable C i \<Longrightarrow> recoverable C j"
  by (simp add: recoverable_def)

lemma disk_holds_append:
  assumes "disk_holds C D s" "d_aof D = Some f" "wf_entry C e"
  shows "disk_holds C (D\<lparr>d_aof := Some (f @ entry_text C e @ [LF])\<rparr>) (apply_event (le_event e) s)"
proof -
  from assms(1,2) obtain es fs base where h: "f = log_file C (es @ fs)"
    "list_all (wf_entry C) (es @ fs)" "s = replay base fs"
    and snap: "case d_snapshot D of
          None \<Rightarrow> es = [] \<and> base = new_state
        | Some (Parsed sn) \<Rightarrow> into_state sn = Inr base \<and> unat (sn_last_aof_offset sn) = length (log_file C es)
        | Some (Unreadable _) \<Rightarrow> False"
    by (auto simp: disk_holds_def)
  have "f @ entry_text C e @ [LF] = log_file C (es @ (fs @ [e]))"
    by (simp add: h(1) log_file_def)
  moreover have "apply_event (le_event e) s = replay base (fs @ [e])" by (simp add: h(3) replay_def)
  ultimately show ?thesis
    unfolding disk_holds_def using h(2) snap assms(3)
    by (intro exI [of _ es] exI [of _ "fs @ [e]"] exI [of _ base]) simp
qed

lemma engine_append_clean:
  assumes "codec_ok C" "recoverable C i"
  shows "\<exists>j. engine_append C now ev IoOk i = (Inr (), j) \<and> recoverable C (apply_to_inner ev j)"
proof -
  let ?e = "new_log_entry now ev"
  from assms(2) obtain f s where i: "i_handle i = OnAof" "d_aof (i_disk i) = Some f"
    "disk_holds C (i_disk i) s" "core s = core (i_state i)" by (auto simp: recoverable_def)
  have wf: "wf_entry C ?e" using assms(1) by (simp add: codec_ok_def)
  let ?j = "i\<lparr>i_disk := (i_disk i)\<lparr>d_aof := Some (f @ entry_text C ?e @ [LF])\<rparr>\<rparr>"
  have "engine_append C now ev IoOk i = (Inr (), ?j)"
    using i(1,2) wf_entryD(1) [OF wf]
    by (simp add: engine_append_def append_log_def log_bytes_def set_log_bytes_def Let_def)
  moreover have "recoverable C (apply_to_inner ev ?j)"
    using disk_holds_append [OF i(3,2) wf] i(1) core_apply_event [OF i(4), of ev]
    by (auto simp: recoverable_def apply_to_inner_def)
  ultimately show ?thesis by blast
qed

interpretation rec: section_rel C "\<lambda>io. io = IoOk" tid
    "\<lambda>i j. codec_ok C \<longrightarrow> recoverable C i \<longrightarrow> recoverable C j"
  for C :: "log_entry codec" and tid :: timer_id
proof
  fix i j k :: inner and io ev now and u :: unit and e s t n
  show "codec_ok C \<longrightarrow> recoverable C i \<longrightarrow> recoverable C i" by simp
  show "codec_ok C \<longrightarrow> recoverable C i \<longrightarrow> recoverable C j \<Longrightarrow> codec_ok C \<longrightarrow> recoverable C j \<longrightarrow> recoverable C k
      \<Longrightarrow> codec_ok C \<longrightarrow> recoverable C i \<longrightarrow> recoverable C k" by simp
  show "io = IoOk \<Longrightarrow> event_timer ev = tid \<Longrightarrow> engine_append C now ev io i = (Inr u, j) \<Longrightarrow>
      codec_ok C \<longrightarrow> recoverable C i \<longrightarrow> recoverable C (apply_to_inner ev j)"
    using engine_append_clean [of C i now ev] by auto
  show "io = IoOk \<Longrightarrow> engine_append C now ev io i = (Inl e, j) \<Longrightarrow>
      codec_ok C \<longrightarrow> recoverable C i \<longrightarrow> recoverable C j"
    using engine_append_clean [of C i now ev] by auto
qed (auto intro: recoverable_cong simp: finish_run_def)

section \<open>Executions without I/O failures\<close>

fun clean :: "action \<Rightarrow> bool" where
  "clean (ASchedule _ _ io) \<longleftrightarrow> io = IoOk"
| "clean (ABegin _ _ _ io1 io2) \<longleftrightarrow> io1 = IoOk \<and> io2 = IoOk"
| "clean (AEnd _ _ _ io1 io2) \<longleftrightarrow> io1 = IoOk \<and> io2 = IoOk"
| "clean (ACompact _ fail_after) \<longleftrightarrow> fail_after = None"
| "clean _ \<longleftrightarrow> True"

lemma compact_Some:
  assumes "d_aof D = Some f"
  shows "compact now s D = D\<lparr>d_snapshot := Some (Parsed (from_state now s 0)), d_aof_old := Some f, d_aof := Some []\<rparr>"
  using assms by (simp add: compact_def compact_steps_def write_snapshot_atomic_def Let_def)

lemma recoverable_compact:
  assumes "recoverable C i"
  shows "recoverable C (snd (engine_compact now None i))"
proof -
  from assms obtain f where "d_aof (i_disk i) = Some f" by (auto simp: recoverable_def)
  note comp = compact_Some [OF this]
  have off: "sn_last_aof_offset (from_state now (i_state i) 0) = 0" by (simp add: from_state_def)
  have "disk_holds C (compact now (i_state i) (i_disk i)) (forget_fns (i_state i))"
    unfolding disk_holds_def comp
    by (intro exI [of _ "[]"] exI [of _ "forget_fns (i_state i)"])
      (simp add: into_from_state off log_file_def)
  then show ?thesis by (auto simp: recoverable_def engine_compact_def comp)
qed

lemma recoverable_perform:
  assumes "codec_ok C" "wf_inner (e_inner e)" "recoverable C (e_inner e)" "clean a" "perform L C a e = Some e'"
  shows "recoverable C (e_inner e')"
proof -
  have sp: "\<And>tid spec. specs (i_state (e_inner e)) tid = Some spec \<Longrightarrow> ts_id spec = tid"
    using assms(2) by (auto simp: wf_inner_def wf_specs_def)
  show ?thesis
  proof (cases a)
    case (ASchedule now reg io)
    with assms rec.schedule_with_overlap_rel [where io = io and reg = reg and i = "e_inner e"
        and L = L and C = C and now = now, OF _ refl]
    show ?thesis by (auto split: if_splits prod.splits)
  next
    case (ABegin n now ulid io1 io2)
    with assms rec.run_begin_rel [where ?io1.0 = io1 and ?io2.0 = io2 and s = "e_spawned e ! n"
        and i = "e_inner e" and L = L and C = C and now = now and ulid = ulid, OF _ _ refl] sp
    show ?thesis by (auto split: if_splits prod.splits)
  next
    case (AEnd n now outcome io1 io2)
    with assms rec.run_end_rel [where ?io1.0 = io1 and ?io2.0 = io2 and t = "e_running e ! n"
        and i = "e_inner e" and L = L and C = C and now = now and outcome = outcome, OF _ _ refl]
    show ?thesis by (auto split: if_splits prod.splits)
  next
    case (ACompact now f)
    with assms recoverable_compact [of C "e_inner e" now] show ?thesis
      by (auto split: if_splits prod.splits)
  qed (use assms in \<open>auto simp: start_def loop_tick_def spawn_guard_def shutdown_request_def shutdown_wait_def
        intro: recoverable_cong split: if_splits prod.splits sum.splits option.splits list.splits bool.splits\<close>)
qed

lemma load_state_disk: "d_aof D \<noteq> None \<Longrightarrow> snd (load_state C dir D) = D"
  by (auto simp: load_state_def open_log_def Let_def split: option.splits snapshot_file.splits sum.splits)

lemma open_log_aof: "d_aof (fst (open_log D)) \<noteq> None"
  by (simp add: open_log_def split: option.splits)

lemma disk_holds_open_log: "disk_holds C (fst (open_log D)) s = disk_holds C D s"
  by (auto simp: disk_holds_def open_log_def split: option.splits)

lemma open_engine_holds:
  assumes "disk_holds C D s"
  shows "\<exists>inn. open_engine C dir False D = (Inr inn, fst (open_log D))
    \<and> recoverable C inn \<and> core (i_state inn) = core s \<and> next_runs (i_state inn) = Map.empty
    \<and> i_heap inn = new_heap \<and> (\<forall>tid. specs s tid \<noteq> None \<longrightarrow> states (i_state inn) tid = Some Orphaned)
    \<and> (wf_specs s \<longrightarrow> wf_specs (i_state inn))"
proof -
  let ?D = "fst (open_log D)"
  have h: "disk_holds C ?D s" using assms by (simp add: disk_holds_open_log)
  have load: "load_state C dir ?D = (Inr s, ?D)"
    using disk_holds_load [OF h, of dir] load_state_disk [OF open_log_aof, of C dir D] by (metis prod.collapse)
  show ?thesis
    using h open_log_aof [of D] by (simp add: open_engine_def load Let_def recoverable_def core_def) auto
qed

text \<open>C1: durability.  In every execution without I/O failures of an engine opened on a directory
  that its log and snapshot describe, compactions included, the engine may be killed after any
  action: opening the directory again succeeds and gives back the timers, last runs, retry
  counters and pending retries that the engine had in memory.  Every known timer is orphaned, no
  next run is recorded and nothing is queued until the functions are registered again.\<close>

theorem crash_recovery:
  assumes "codec_ok C" "disk_holds C D s0" "wf_specs s0"
    and "open_engine C dir False D = (Inr inn, D')"
    and "reach L C clean (new_engine inn) e"
  shows "\<exists>inn2 D2. open_engine C dir False (i_disk (e_inner e)) = (Inr inn2, D2)
    \<and> core (i_state inn2) = core (i_state (e_inner e))
    \<and> (\<forall>tid. specs (i_state inn2) tid \<noteq> None \<longrightarrow> states (i_state inn2) tid = Some Orphaned)
    \<and> next_runs (i_state inn2) = Map.empty \<and> i_heap inn2 = new_heap"
proof -
  from open_engine_holds [OF assms(2), of dir] assms(3,4)
  have start: "recoverable C inn" "wf_inner inn" by (auto simp: wf_inner_def)
  have "recoverable C (e_inner e) \<and> wf_inner (e_inner e)"
    using assms(5)
  proof (induction rule: reach.induct)
    case init
    with start show ?case by (simp add: new_engine_def)
  next
    case (step e a e')
    then show ?case using recoverable_perform [OF assms(1)] wf_inner_perform by blast
  qed
  then obtain s where "disk_holds C (i_disk (e_inner e)) s" "core s = core (i_state (e_inner e))"
    by (auto simp: recoverable_def)
  with open_engine_holds [of C "i_disk (e_inner e)" s dir] show ?thesis
    by (auto simp: core_def)
qed

section \<open>A codec for all entries\<close>

lemma number_codec_ok: "codec_ok number_codec"
  by (simp add: codec_ok_def wf_number)

lemma empty_disk_holds: "disk_holds C empty_disk new_state"
  unfolding disk_holds_def
  by (intro exI [of _ "[]"] exI [of _ new_state]) (simp add: empty_disk_def log_file_def)

theorem crash_recovery_witness:
  "\<exists>e inn2 D2.
     perform minute_libs number_codec (ASchedule 0 (minutely Delay) IoOk) (new_engine fresh_inner) = Some e
   \<and> open_engine number_codec ''data'' False (i_disk (e_inner e)) = (Inr inn2, D2)
   \<and> core (i_state inn2) = core (i_state (e_inner e))"
proof -
  obtain e where e: "perform minute_libs number_codec (ASchedule 0 (minutely Delay) IoOk) (new_engine fresh_inner) = Some e"
    by (cases "schedule_with_overlap minute_libs number_codec 0 (minutely Delay) IoOk fresh_inner")
      (simp add: new_engine_def)
  have "clean (ASchedule 0 (minutely Delay) IoOk)" by simp
  from reach.step [where P = clean, OF reach.init this e]
  have r: "reach minute_libs number_codec clean (new_engine fresh_inner) e" .
  have "wf_specs new_state" by (simp add: wf_specs_def new_state_def)
  from crash_recovery [OF number_codec_ok empty_disk_holds this open_fresh r] e show ?thesis by blast
qed

end
