(* ===== verification/Kron_Audit.thy ===== *)
theory Kron_Audit
  imports Kron_Number_Codec
begin

text \<open>
  audit.rs: the audit log, a hash chain of records, one JSON document per line.  SHA-256 and the
  text of the hashed JSON object are the parameter \<open>A\<close>.  The main theorem shows what the chain is
  for: two verified audit logs that end in the same hash have the same hashed contents.
\<close>

section \<open>Data\<close>

record audit_record =
  ar_seq :: u64
  ar_ts :: datetime
  ar_node_id :: string
  ar_action :: string
  ar_outcome :: string
  ar_status :: u16
  ar_actor :: string
  ar_role :: string
  ar_tenant_id :: "string option"
  ar_reason :: "string option"
  ar_prev_hash :: string
  ar_hash :: string

record audit_state =
  as_seq :: u64
  as_hash :: string

text \<open>The members of the hashed JSON object, in the order of the source.\<close>

type_synonym hashed_fields =
  "string \<times> u64 \<times> string \<times> string \<times> string \<times> string \<times> string option \<times> string \<times> string
   \<times> u16 \<times> string option"

record hashing =
  canonical_json :: "hashed_fields \<Rightarrow> string"
  sha256_hex :: "string \<Rightarrow> string"

section \<open>Operations\<close>

definition hashed_fields_of :: "libs \<Rightarrow> audit_record \<Rightarrow> hashed_fields" where
  "hashed_fields_of L r =
     (ar_prev_hash r, ar_seq r, rfc3339 L (ar_ts r), ar_node_id r, ar_actor r, ar_role r,
      ar_tenant_id r, ar_action r, ar_outcome r, ar_status r, ar_reason r)"

definition compute_hash :: "libs \<Rightarrow> hashing \<Rightarrow> audit_record \<Rightarrow> string" where
  "compute_hash L A r = sha256_hex A (canonical_json A (hashed_fields_of L r))"

fun verify_loop ::
  "libs \<Rightarrow> hashing \<Rightarrow> audit_record codec \<Rightarrow> nat option \<Rightarrow> nat \<Rightarrow> string \<Rightarrow> u64 \<Rightarrow> u64 \<Rightarrow> string list
     \<Rightarrow> string + u64" where
  "verify_loop L A C last_non_empty line_no expected_prev expected_seq records [] = Inr records"
| "verify_loop L A C last_non_empty line_no expected_prev expected_seq records (line # rest) =
     (if trim line = []
      then verify_loop L A C last_non_empty (line_no + 1) expected_prev expected_seq records rest
      else case decode C line of
             Inl (msg, is_eof) \<Rightarrow>
               if Some line_no = last_non_empty \<and> is_eof then Inr records
               else Inl (''TAMPERED: line='' @ show_nat (line_no + 1) @ '' invalid json: '' @ msg)
           | Inr r \<Rightarrow>
               if ar_seq r \<noteq> expected_seq
               then Inl (''TAMPERED: record seq='' @ show_nat (unat (ar_seq r))
                          @ '' sequence mismatch, expected '' @ show_nat (unat expected_seq))
               else if ar_prev_hash r \<noteq> expected_prev
               then Inl (''TAMPERED: record seq='' @ show_nat (unat (ar_seq r)) @ '' prev_hash mismatch'')
               else if ar_hash r \<noteq> compute_hash L A r
               then Inl (''TAMPERED: record seq='' @ show_nat (unat (ar_seq r)) @ '' hash mismatch'')
               else verify_loop L A C last_non_empty (line_no + 1) (ar_hash r) (expected_seq + 1)
                      (records + 1) rest)"

definition verify :: "libs \<Rightarrow> hashing \<Rightarrow> audit_record codec \<Rightarrow> string option \<Rightarrow> string + u64" where
  "verify L A C audit =
     (case audit of
        None \<Rightarrow> Inr 0
      | Some bytes \<Rightarrow>
          let lines = read_lines bytes in
          if \<not> list_all utf8_ok lines then Inl ''stream did not contain valid UTF-8''
          else verify_loop L A C (rposition (\<lambda>line. trim line \<noteq> []) lines) 0 [] 1 0 lines)"

fun last_state_loop ::
  "audit_record codec \<Rightarrow> nat option \<Rightarrow> nat \<Rightarrow> audit_state \<Rightarrow> string list \<Rightarrow> audit_state res" where
  "last_state_loop C last_non_empty line_no st [] = Inr st"
| "last_state_loop C last_non_empty line_no st (line # rest) =
     (if trim line = [] then last_state_loop C last_non_empty (line_no + 1) st rest
      else case decode C line of
             Inl (msg, is_eof) \<Rightarrow>
               if Some line_no = last_non_empty \<and> is_eof then Inr st else Inl (Err (LogSerde msg))
           | Inr r \<Rightarrow>
               last_state_loop C last_non_empty (line_no + 1) \<lparr>as_seq = ar_seq r, as_hash = ar_hash r\<rparr> rest)"

definition read_last_state_unverified :: "audit_record codec \<Rightarrow> string option \<Rightarrow> audit_state res" where
  "read_last_state_unverified C audit =
     (case audit of
        None \<Rightarrow> Inr \<lparr>as_seq = 0, as_hash = []\<rparr>
      | Some bytes \<Rightarrow>
          let lines = read_lines bytes in
          if \<not> list_all utf8_ok lines then Inl (Err (LogIo ''stream did not contain valid UTF-8''))
          else last_state_loop C (rposition (\<lambda>line. trim line \<noteq> []) lines) 0
                 \<lparr>as_seq = 0, as_hash = []\<rparr> lines)"

definition read_last_state ::
  "libs \<Rightarrow> hashing \<Rightarrow> audit_record codec \<Rightarrow> string option \<Rightarrow> audit_state res" where
  "read_last_state L A C audit =
     (case audit of
        None \<Rightarrow> Inr \<lparr>as_seq = 0, as_hash = []\<rparr>
      | Some _ \<Rightarrow>
          (case verify L A C audit of
             Inl msg \<Rightarrow> Inl (Err (IpcUnavailable msg))
           | Inr _ \<Rightarrow> read_last_state_unverified C audit))"

section \<open>The chain\<close>

text \<open>A chain of records from a previous hash and an expected sequence number.\<close>

fun chain :: "libs \<Rightarrow> hashing \<Rightarrow> string \<Rightarrow> u64 \<Rightarrow> audit_record list \<Rightarrow> bool" where
  "chain L A prev seq [] \<longleftrightarrow> True"
| "chain L A prev seq (r # rs) \<longleftrightarrow>
     ar_seq r = seq \<and> ar_prev_hash r = prev \<and> ar_hash r = compute_hash L A r
     \<and> chain L A (ar_hash r) (seq + 1) rs"

lemma chain_append:
  "chain L A prev seq (rs @ rs') \<longleftrightarrow>
     chain L A prev seq rs
     \<and> chain L A (if rs = [] then prev else ar_hash (last rs)) (seq + of_nat (length rs)) rs'"
  by (induction rs arbitrary: prev seq) (auto simp: algebra_simps)

lemma verify_loop_records:
  assumes "list_all (wf_entry C) rs"
  shows "verify_loop L A C le n prev seq k (map (entry_text C) rs) = Inr m \<longleftrightarrow>
     chain L A prev seq rs \<and> m = k + of_nat (length rs)"
  using assms
proof (induction rs arbitrary: n prev seq k)
  case (Cons r rs)
  then have "trim (entry_text C r) \<noteq> []" "decode C (entry_text C r) = Inr r" by (simp_all add: wf_entryD)
  with Cons show ?case by (auto simp: algebra_simps)
qed auto

lemma last_state_records:
  assumes "list_all (wf_entry C) rs"
  shows "last_state_loop C le n st (map (entry_text C) rs) =
     Inr (if rs = [] then st else \<lparr>as_seq = ar_seq (last rs), as_hash = ar_hash (last rs)\<rparr>)"
  using assms
proof (induction rs arbitrary: n st)
  case (Cons r rs)
  then have "trim (entry_text C r) \<noteq> []" "decode C (entry_text C r) = Inr r" by (simp_all add: wf_entryD)
  with Cons show ?case by simp
qed simp

lemma read_audit_file:
  "list_all (wf_entry C) rs \<Longrightarrow> read_lines (log_file C rs) = map (entry_text C) rs"
  using read_log_file [of C rs "[]"] by simp

lemma verify_file:
  assumes "list_all (wf_entry C) rs"
  shows "verify L A C (Some (log_file C rs)) = Inr m \<longleftrightarrow> chain L A [] 1 rs \<and> m = of_nat (length rs)"
  using verify_loop_records [OF assms, of L A _ 0 "[]" 1 0] utf8_entries [OF assms]
  by (simp add: verify_def read_audit_file [OF assms] Let_def)

text \<open>The state from which the next record is chained.\<close>

definition last_audit_state :: "audit_record list \<Rightarrow> audit_state" where
  "last_audit_state rs =
     (if rs = [] then \<lparr>as_seq = 0, as_hash = []\<rparr>
      else \<lparr>as_seq = of_nat (length rs), as_hash = ar_hash (last rs)\<rparr>)"

lemma read_last_state_chain:
  assumes "list_all (wf_entry C) rs" "chain L A [] 1 rs"
  shows "read_last_state L A C (Some (log_file C rs)) = Inr (last_audit_state rs)"
proof -
  have "ar_seq (last rs) = of_nat (length rs)" if "rs \<noteq> []"
  proof -
    from that obtain r' rs' where rs: "rs = rs' @ [r']" by (cases rs rule: rev_cases) auto
    with assms(2) show ?thesis by (simp add: chain_append)
  qed
  moreover have "verify L A C (Some (log_file C rs)) = Inr (of_nat (length rs))"
    using assms(2) by (simp add: verify_file [OF assms(1)])
  ultimately show ?thesis
    using last_state_records [OF assms(1)] utf8_entries [OF assms(1)]
    by (simp add: read_last_state_def read_last_state_unverified_def read_audit_file [OF assms(1)]
        Let_def last_audit_state_def)
qed

text \<open>C12: verification accepts exactly the chains.  An audit file of records verifies if and only
  if the records are numbered from 1, each names the hash of its predecessor and carries the hash
  of its own fields; the count it reports is the number of records, and the state from which the
  next record is chained is that of the last one.\<close>

theorem verify_iff_chain:
  assumes "list_all (wf_entry C) rs"
  shows "((\<exists>m. verify L A C (Some (log_file C rs)) = Inr m) \<longleftrightarrow> chain L A [] 1 rs)
    \<and> (chain L A [] 1 rs \<longrightarrow>
         verify L A C (Some (log_file C rs)) = Inr (of_nat (length rs))
         \<and> read_last_state L A C (Some (log_file C rs)) = Inr (last_audit_state rs))"
  using verify_file [OF assms] read_last_state_chain [OF assms] by auto

text \<open>Tamper evidence.  If the hash of the canonical text determines the hashed fields (no
  collisions), two audit logs of the same length that both verify and end in the same hash agree
  in every hashed field of every record: no record can be altered, removed, inserted or reordered
  without changing the last hash.\<close>

theorem verified_logs_agree:
  assumes "inj (\<lambda>x. sha256_hex A (canonical_json A x))"
    and "list_all (wf_entry C) rs" "list_all (wf_entry C) rs'"
    and "verify L A C (Some (log_file C rs)) = Inr m" "verify L A C (Some (log_file C rs')) = Inr m'"
    and "length rs = length rs'" "rs \<noteq> []" "ar_hash (last rs) = ar_hash (last rs')"
  shows "map (hashed_fields_of L) rs = map (hashed_fields_of L) rs' \<and> map ar_hash rs = map ar_hash rs'"
proof -
  have c: "chain L A [] 1 rs" "chain L A [] 1 rs'"
    using assms(4,5) by (simp_all add: verify_file [OF assms(2)] verify_file [OF assms(3)])
  have "map (hashed_fields_of L) xs = map (hashed_fields_of L) ys \<and> map ar_hash xs = map ar_hash ys"
    if "length xs = length ys" "xs \<noteq> []" "ar_hash (last xs) = ar_hash (last ys)"
      "chain L A [] 1 xs" "chain L A [] 1 ys" for xs ys
    using that
  proof (induction xs arbitrary: ys rule: rev_induct)
    case (snoc x xs zs)
    then obtain y ys where zs: "zs = ys @ [y]" by (cases zs rule: rev_cases) auto
    note prems = snoc.prems [unfolded zs]
    from prems have h: "ar_hash x = compute_hash L A x" "ar_hash y = compute_hash L A y"
      and chains: "chain L A [] 1 xs" "chain L A [] 1 ys"
      by (simp_all add: chain_append)
    have "compute_hash L A x = compute_hash L A y"
      using prems(3) h(1)[symmetric] h(2)[symmetric] by simp
    then have same: "hashed_fields_of L x = hashed_fields_of L y"
      unfolding compute_hash_def by (rule injD [OF assms(1)])
    show ?case
    proof (cases "xs = []")
      case True
      with prems same zs show ?thesis by simp
    next
      case False
      then have "ys \<noteq> []" using prems(1) by auto
      with False prems(4,5) same have "ar_hash (last xs) = ar_hash (last ys)"
        by (simp add: chain_append hashed_fields_of_def)
      with snoc.IH [of ys] False chains same prems zs show ?thesis by simp
    qed
  qed simp
  from this [OF assms(6,7,8) c] show ?thesis .
qed

section \<open>A concrete audit log\<close>

text \<open>A hash without collisions: the number of the hashed fields, in decimal.\<close>

definition numbering :: hashing where
  "numbering = \<lparr>canonical_json = (\<lambda>x. show_nat (to_nat x)), sha256_hex = (\<lambda>s. s)\<rparr>"

lemma numbering_inj: "inj (\<lambda>x. sha256_hex numbering (canonical_json numbering x))"
proof (rule injI)
  fix x y :: hashed_fields
  assume "sha256_hex numbering (canonical_json numbering x) = sha256_hex numbering (canonical_json numbering y)"
  then have "show_nat (to_nat x) = show_nat (to_nat y)" by (simp add: numbering_def)
  then have "to_nat x = to_nat y" by (metis digits_val_show option.inject)
  then show "x = y" by simp
qed

definition sample_record :: audit_record where
  "sample_record =
     (let r = \<lparr>ar_seq = 1, ar_ts = 0, ar_node_id = ''n1'', ar_action = ''worker.poll'', ar_outcome = ''ok'',
               ar_status = 200, ar_actor = ''worker'', ar_role = ''worker'', ar_tenant_id = None,
               ar_reason = None, ar_prev_hash = [], ar_hash = []\<rparr>
      in r\<lparr>ar_hash := compute_hash minute_libs numbering r\<rparr>)"

text \<open>The same record at an instant that the concrete library prints in the same way.\<close>

definition sample_record2 :: audit_record where
  "sample_record2 = sample_record\<lparr>ar_ts := 5\<rparr>"

definition sample_audit_codec :: "audit_record codec" where
  "sample_audit_codec = table_codec [(''{a}'', sample_record), (''{b}'', sample_record2)]"

lemma sample_records_differ: "sample_record \<noteq> sample_record2" "sample_record2 \<noteq> sample_record"
  by (auto simp: sample_record2_def sample_record_def Let_def)

lemma sample_audit_wf:
  "list_all (wf_entry sample_audit_codec) [sample_record]" "list_all (wf_entry sample_audit_codec) [sample_record2]"
proof -
  have "wf_entry sample_audit_codec sample_record"
    unfolding sample_audit_codec_def
    by (rule table_codec_wf [where l = "''{a}''"]) (simp_all add: sample_json_line sample_no_prefix)
  then show "list_all (wf_entry sample_audit_codec) [sample_record]" by simp
  have "wf_entry sample_audit_codec sample_record2"
    unfolding sample_audit_codec_def
    by (rule table_codec_wf [where l = "''{b}''"])
      (simp_all add: sample_json_line sample_no_prefix sample_records_differ)
  then show "list_all (wf_entry sample_audit_codec) [sample_record2]" by simp
qed

lemma sample_hash: "ar_hash sample_record = compute_hash minute_libs numbering sample_record"
  "compute_hash minute_libs numbering sample_record2 = compute_hash minute_libs numbering sample_record"
  by (simp_all add: sample_record_def sample_record2_def compute_hash_def hashed_fields_of_def Let_def minute_libs_def)

lemma sample_chain: "chain minute_libs numbering [] 1 [sample_record]" "chain minute_libs numbering [] 1 [sample_record2]"
  using sample_hash by (simp_all add: sample_record2_def) (simp_all add: sample_record_def Let_def)

theorem verify_iff_chain_witness:
  "verify minute_libs numbering sample_audit_codec (Some (log_file sample_audit_codec [sample_record])) = Inr 1"
  using verify_iff_chain [of sample_audit_codec "[sample_record]" minute_libs numbering] sample_audit_wf sample_chain
  by simp

theorem verified_logs_agree_witness:
  "sample_record \<noteq> sample_record2
   \<and> map (hashed_fields_of minute_libs) [sample_record] = map (hashed_fields_of minute_libs) [sample_record2]"
proof -
  have ok: "verify minute_libs numbering sample_audit_codec (Some (log_file sample_audit_codec [sample_record])) = Inr 1"
    "verify minute_libs numbering sample_audit_codec (Some (log_file sample_audit_codec [sample_record2])) = Inr 1"
    using verify_file sample_audit_wf sample_chain by fastforce+
  have "ar_hash sample_record2 = ar_hash sample_record" by (simp add: sample_record2_def)
  with verified_logs_agree [OF numbering_inj sample_audit_wf ok] sample_records_differ show ?thesis by simp
qed

text \<open>Audit records are countable, so the numbering codec serialises them all.\<close>

instance audit_record_ext :: (countable) countable
  by (rule countable_classI [of "\<lambda>r. to_nat (ar_seq r, ar_ts r, ar_node_id r, ar_action r, ar_outcome r,
        ar_status r, ar_actor r, ar_role r, ar_tenant_id r, ar_reason r, ar_prev_hash r, ar_hash r,
        audit_record.more r)"]) simp

end
