(* ===== verification/Kron_Ipc.thy ===== *)
theory Kron_Ipc
  imports Kron_Engine
begin

unbundle bit_operations_syntax

text \<open>
  ipc.rs: the local control channel of an embedded engine.  A request is one line of at most one
  mebibyte; it must carry the token of the data directory.  An answer is the value that the code
  serialises.  The start of the server, its thread and the client are in Kron_Ipc_Channel.
\<close>

section \<open>Data\<close>

datatype ipc_request =
    Auth string ipc_request
  | Status string
  | ListTimers
  | History string "nat option"
  | Shutdown
  | Compact
  | Doctor
  | RuntimeStatus

datatype ipc_data =
    StatusData "timer_summary option"
  | ListData "timer_summary list"
  | HistoryData "log_entry list"
  | ShutdownRequested
  | Compacted
  | RuntimeData string string string nat

datatype ipc_response = OkResponse ipc_data | ErrorResponse string

definition MAX_IPC_LINE_BYTES :: nat where
  "MAX_IPC_LINE_BYTES = 1024 * 1024"

section \<open>Operations\<close>

definition secure_eq :: "u8 list \<Rightarrow> u8 list \<Rightarrow> bool" where
  "secure_eq left right =
     (if length left \<noteq> length right then False
      else fold (\<lambda>(a, b) diff. diff OR (a XOR b)) (zip left right) 0 = 0)"

text \<open>\<open>read_line\<close> on the first \<open>MAX_IPC_LINE_BYTES + 1\<close> bytes of the stream.\<close>

definition read_limited_line :: "string \<Rightarrow> string res" where
  "read_limited_line input =
     (let limited = take (MAX_IPC_LINE_BYTES + 1) input;
          line = takeWhile (\<lambda>c. c \<noteq> LF) limited @ (if LF \<in> set limited then [LF] else [])
      in if \<not> utf8_ok line then Inl (Err (LogIo ''stream did not contain valid UTF-8''))
         else if MAX_IPC_LINE_BYTES < length line \<or> \<not> (line \<noteq> [] \<and> last line = LF)
         then Inl (Err (IpcUnavailable ''IPC request exceeded maximum line size''))
         else Inr line)"

definition socket_path :: "string \<Rightarrow> string" where
  "socket_path data_dir = data_dir @ ''/kron.sock''"

definition history_entries :: "string \<Rightarrow> nat option \<Rightarrow> log_entry list \<Rightarrow> log_entry list" where
  "history_entries name limit entries =
     (let matching = filter (\<lambda>entry. event_timer (le_event entry) = TimerId name) entries
      in case limit of
           Some n \<Rightarrow> drop (length matching - n) matching
         | None \<Rightarrow> matching)"

definition ipc_history :: "log_entry codec \<Rightarrow> string \<Rightarrow> string \<Rightarrow> nat option \<Rightarrow> disk \<Rightarrow> log_entry list res \<times> disk" where
  "ipc_history C data_dir name limit D =
     (let (D1, f) = open_log D in
      case replay_log C (aof_path data_dir) f of
        Inl e \<Rightarrow> (Inl e, D1)
      | Inr entries \<Rightarrow> (Inr (history_entries name limit entries), D1))"

text \<open>The message of an error, as its \<open>Display\<close> gives it.\<close>

definition error_message :: "(kron_error \<Rightarrow> string) \<Rightarrow> fault \<Rightarrow> string" where
  "error_message show_error f = (case f of Err e \<Rightarrow> show_error e | Panic msg \<Rightarrow> msg)"

text \<open>The result carries the answer, the state of the engine, and whether a thread that shuts the
  engine down was spawned.  \<open>keys\<close> is the iteration order of the timers, \<open>fail_after\<close> the outcome
  of the disk operations of a compaction.\<close>

definition handle_request ::
  "log_entry codec \<Rightarrow> string \<Rightarrow> timer_id list \<Rightarrow> datetime \<Rightarrow> (nat \<times> string) option \<Rightarrow> ipc_request \<Rightarrow> inner
     \<Rightarrow> ipc_data res \<times> inner \<times> bool" where
  "handle_request C data_dir keys now fail_after req inn =
     (case req of
        Auth _ _ \<Rightarrow> (Inl (Err (IpcUnavailable ''nested auth request is invalid'')), inn, False)
      | Status name \<Rightarrow> (Inr (StatusData (status name inn)), inn, False)
      | ListTimers \<Rightarrow> (Inr (ListData (list_timers keys inn)), inn, False)
      | History name limit \<Rightarrow>
          (case ipc_history C data_dir name limit (i_disk inn) of
             (Inl e, D) \<Rightarrow> (Inl e, inn\<lparr>i_disk := D\<rparr>, False)
           | (Inr entries, D) \<Rightarrow> (Inr (HistoryData entries), inn\<lparr>i_disk := D\<rparr>, False))
      | Shutdown \<Rightarrow> (Inr ShutdownRequested, inn, True)
      | Compact \<Rightarrow>
          (case engine_compact now fail_after inn of
             (Inl e, inn1) \<Rightarrow> (Inl e, inn1, False)
           | (Inr _, inn1) \<Rightarrow> (Inr Compacted, inn1, False))
      | Doctor \<Rightarrow>
          (Inr (RuntimeData data_dir (data_dir @ ''/kron.lock'') (socket_path data_dir)
                  (length (list_timers keys inn))), inn, False)
      | RuntimeStatus \<Rightarrow>
          (Inr (RuntimeData data_dir (data_dir @ ''/kron.lock'') (socket_path data_dir)
                  (length (list_timers keys inn))), inn, False))"

text \<open>\<open>handle_stream\<close>: the answer written to the stream, \<open>Inl\<close> when the connection is dropped
  without one.  \<open>J\<close> parses a request.\<close>

definition handle_stream ::
  "(string \<Rightarrow> json_error + ipc_request) \<Rightarrow> (kron_error \<Rightarrow> string) \<Rightarrow> log_entry codec \<Rightarrow> string
     \<Rightarrow> timer_id list \<Rightarrow> datetime \<Rightarrow> (nat \<times> string) option \<Rightarrow> string \<Rightarrow> string \<Rightarrow> inner
     \<Rightarrow> ipc_response res \<times> inner \<times> bool" where
  "handle_stream J show_error C data_dir keys now fail_after input expected_token inn =
     (case read_limited_line input of
        Inl e \<Rightarrow> (Inl e, inn, False)
      | Inr line \<Rightarrow>
          (case J line of
             Inl (msg, _) \<Rightarrow> (Inl (Err (LogSerde msg)), inn, False)
           | Inr (Auth token req) \<Rightarrow>
               if secure_eq (as_bytes token) (as_bytes expected_token)
               then (case handle_request C data_dir keys now fail_after req inn of
                       (Inr data, inn1, stop) \<Rightarrow> (Inr (OkResponse data), inn1, stop)
                     | (Inl f, inn1, stop) \<Rightarrow> (Inr (ErrorResponse (error_message show_error f)), inn1, stop))
               else (Inr (ErrorResponse ''invalid IPC token''), inn, False)
           | Inr _ \<Rightarrow> (Inr (ErrorResponse ''missing IPC token''), inn, False)))"

text \<open>The token file.  \<open>random_hex\<close> is the text of 32 random bytes, or the error of the system's
  generator.\<close>

definition hex_byte :: "u8 \<Rightarrow> string" where
  "hex_byte b = [hex_digit (unat b div 16), hex_digit (unat b mod 16)]"

definition generate_secret_token :: "string + u8 list \<Rightarrow> string res" where
  "generate_secret_token random =
     (case random of
        Inl err \<Rightarrow> Inl (Err (IpcUnavailable (''failed to generate token: '' @ err)))
      | Inr bytes \<Rightarrow> Inr (concat (map hex_byte bytes)))"

definition read_token :: "string option \<Rightarrow> string res" where
  "read_token token_file =
     (case token_file of
        None \<Rightarrow> Inl (Err (LogIo ''No such file or directory''))
      | Some bytes \<Rightarrow>
          if \<not> utf8_ok bytes then Inl (Err (LogIo ''stream did not contain valid UTF-8''))
          else Inr (trim bytes))"

definition read_or_create_token :: "string + u8 list \<Rightarrow> string option \<Rightarrow> string res \<times> string option" where
  "read_or_create_token random token_file =
     (if token_file \<noteq> None then (read_token token_file, token_file)
      else case generate_secret_token random of
             Inl e \<Rightarrow> (Inl e, token_file)
           | Inr token \<Rightarrow> (Inr token, Some (token @ [LF])))"

definition is_loopback_host :: "string \<Rightarrow> bool" where
  "is_loopback_host host \<longleftrightarrow> host \<in> {''127.0.0.1'', ''localhost'', ''::1''}"

text \<open>The guard of \<open>start_tcp_server\<close>: the address it binds, from the environment variables
  \<open>KRON_IPC_HOST\<close>, \<open>KRON_UNSAFE_ALLOW_REMOTE_IPC\<close> and \<open>KRON_IPC_PORT\<close>.\<close>

definition tcp_bind_address :: "string option \<Rightarrow> string option \<Rightarrow> string option \<Rightarrow> (string \<times> u16) res" where
  "tcp_bind_address host_var unsafe_var port_var =
     (let host = unwrap_or host_var ''127.0.0.1'' in
      if \<not> is_loopback_host host \<and> unsafe_var \<noteq> Some ''1''
      then Inl (Err (IpcUnavailable (''refusing to bind IPC to non-loopback host '' @ host
             @ ''; set KRON_UNSAFE_ALLOW_REMOTE_IPC=1 only if you understand the risk'')))
      else Inr (host, unwrap_or (map_option of_nat (Option.bind port_var (parse_unsigned 16))) 0))"

section \<open>Comparison of secrets\<close>

lemma or_zero_iff: "(a :: 'a::len word) OR b = 0 \<longleftrightarrow> a = 0 \<and> b = 0"
  by (auto simp: bit_eq_iff bit_or_iff)

lemma xor_zero_iff: "(a :: 'a::len word) XOR b = 0 \<longleftrightarrow> a = b"
  by (auto simp: bit_eq_iff bit_xor_iff)

lemma fold_diff_zero:
  "fold (\<lambda>(a, b) diff. diff OR (a XOR b)) ps (d :: u8) = 0 \<longleftrightarrow> d = 0 \<and> (\<forall>(a, b) \<in> set ps. a = b)"
  by (induction ps arbitrary: d) (auto simp: or_zero_iff xor_zero_iff)

lemma secure_eq_iff: "secure_eq left right \<longleftrightarrow> left = right"
  by (auto simp: secure_eq_def fold_diff_zero list_eq_iff_nth_eq set_zip)

text \<open>The constant-time comparison of secrets is equality: it accepts a token exactly when it
  is the expected one.\<close>

theorem secure_eq_correct:
  "secure_eq left right = (left = right)
   \<and> secure_eq (as_bytes token) (as_bytes expected) = (token = expected)"
  by (simp add: secure_eq_iff as_bytes_inj)

text \<open>C13: nothing happens on the control channel without the token.  Whatever bytes arrive, the
  state of the engine changes and a shutdown is started only if the first line is a well-formed
  request that carries exactly the expected token; any other request is answered with an error or
  dropped.\<close>

theorem ipc_requires_token:
  assumes "handle_stream J show_error C data_dir keys now fail_after input expected inn = (r, inn', stop)"
    and "inn' \<noteq> inn \<or> stop \<or> (\<exists>data. r = Inr (OkResponse data))"
  shows "\<exists>line req. read_limited_line input = Inr line \<and> J line = Inr (Auth expected req)
    \<and> length line \<le> MAX_IPC_LINE_BYTES \<and> (\<forall>t q. req \<noteq> Auth t q)"
proof -
  from assms obtain line where line: "read_limited_line input = Inr line"
    by (cases "read_limited_line input") (auto simp: handle_stream_def)
  then have len: "length line \<le> MAX_IPC_LINE_BYTES"
    by (auto simp: read_limited_line_def Let_def split: if_splits)
  from assms line obtain token req where auth: "J line = Inr (Auth token req)"
    "secure_eq (as_bytes token) (as_bytes expected)"
    by (cases "J line") (auto simp: handle_stream_def split: prod.splits ipc_request.splits if_splits)
  moreover have "\<forall>t q. req \<noteq> Auth t q"
    using assms line auth by (auto simp: handle_stream_def handle_request_def)
  ultimately show ?thesis using line len by (auto simp: secure_eq_iff as_bytes_inj)
qed

theorem ipc_requires_token_witness:
  "\<exists>line req. read_limited_line (''x'' @ [LF]) = Inr line \<and> (Inr (Auth ''s'' Shutdown) :: json_error + _) = Inr (Auth ''s'' req)
     \<and> length line \<le> MAX_IPC_LINE_BYTES \<and> (\<forall>t q. req \<noteq> Auth t q)"
proof -
  have "read_limited_line (''x'' @ [LF]) = Inr (''x'' @ [LF])"
    by (simp add: read_limited_line_def MAX_IPC_LINE_BYTES_def Let_def utf8_ok_def utf8_follow_def)
  then have "handle_stream (\<lambda>_. Inr (Auth ''s'' Shutdown)) (\<lambda>_. []) C ''d'' [] 0 None (''x'' @ [LF]) ''s'' inn
      = (Inr (OkResponse ShutdownRequested), inn, True)" for C inn
    by (simp add: handle_stream_def secure_eq_iff handle_request_def)
  from ipc_requires_token [OF this] show ?thesis by simp
qed

section \<open>History and tokens\<close>

text \<open>The history of a timer is what its name and limit ask for: entries of that timer only,
  in log order, the most recent ones, and as many as the limit allows.\<close>

theorem history_entries_correct:
  "let h = history_entries name (Some n) entries; all_of = filter (\<lambda>x. event_timer (le_event x) = TimerId name) entries in
     suffix h all_of \<and> length h = min n (length all_of) \<and> history_entries name None entries = all_of"
  by (auto simp: history_entries_def Let_def suffix_drop)

lemma hex_digit_graphic: "d < 16 \<Longrightarrow> graphic (hex_digit d)"
  by (simp add: hex_digit_def graphic_def)

lemma hex_byte_graphic: "c \<in> set (hex_byte b) \<Longrightarrow> graphic c"
proof -
  have "unat b < 256" using unsigned_less [where 'a = nat, of b] by simp
  then have "unat b div 16 < 16" by simp
  then show "c \<in> set (hex_byte b) \<Longrightarrow> graphic c" by (auto simp: hex_byte_def hex_digit_graphic)
qed

lemma token_graphic: "c \<in> set (concat (map hex_byte bs)) \<Longrightarrow> graphic c"
  using hex_byte_graphic by auto

lemma ascii_hex: "c \<in> set (concat (map hex_byte bs)) \<Longrightarrow> (of_char c :: nat) < 128"
proof -
  have "(of_char (hex_digit d) :: nat) < 128" if "d < 16" for d
    using that by (simp add: hex_digit_def)
  moreover have "unat b div 16 < 16" for b :: u8
    using unsigned_less [where 'a = nat, of b] by simp
  ultimately show "c \<in> set (concat (map hex_byte bs)) \<Longrightarrow> (of_char c :: nat) < 128"
    by (auto simp: hex_byte_def)
qed

text \<open>A created token is stable: the file written for it reads back as the same token, so
  every later start and every client use it; it has two hexadecimal digits for each random byte.\<close>

theorem token_roundtrip:
  assumes "bs \<noteq> []" "read_or_create_token (Inr bs) None = (r, f)"
  shows "\<exists>token. r = Inr token \<and> length token = 2 * length bs
    \<and> read_token f = Inr token \<and> read_or_create_token random f = (Inr token, f)"
proof -
  let ?t = "concat (map hex_byte bs)"
  have r: "r = Inr ?t" "f = Some (?t @ [LF])"
    using assms(2) by (auto simp: read_or_create_token_def generate_secret_token_def)
  have ne: "?t \<noteq> []" using assms(1) by (cases bs) (auto simp: hex_byte_def)
  then have "graphic (hd ?t)" "graphic (last ?t)" using token_graphic hd_in_set last_in_set by blast+
  then have "trim (?t @ [LF]) = ?t" by (rule trim_LF [OF ne])
  moreover have "ascii (?t @ [LF])"
  proof -
    have "(of_char c :: nat) < 128" if "c \<in> set ?t" for c
      using ascii_hex [OF that] .
    then show ?thesis by (auto simp: ascii_def)
  qed
  then have "utf8_ok (?t @ [LF])" by (rule utf8_ascii)
  moreover have "length ?t = 2 * length bs" by (induction bs) (auto simp: hex_byte_def)
  ultimately show ?thesis using r by (simp add: read_or_create_token_def read_token_def)
qed

theorem token_roundtrip_witness:
  "\<exists>token. fst (read_or_create_token (Inr [0, 255]) None) = Inr token \<and> length token = 4
     \<and> read_token (snd (read_or_create_token (Inr [0, 255]) None)) = Inr token"
  using token_roundtrip [OF _ surjective_pairing, of "[0, 255]" "Inl []"] by auto

end
