(* ===== verification/Kron_Btree_Map.thy ===== *)
theory Kron_Btree_Map
  imports Kron_Prelude "HOL-Library.Char_ord" "HOL-Library.List_Lexorder"
begin

text \<open>
  \<open>std::collections::BTreeMap\<close> as the cluster code uses it: a list of bindings in strictly
  ascending order of the keys.  Strings are ordered byte by byte, as Rust's \<open>str\<close> is.  The
  interface is the locale \<open>ordered_map\<close>; what its clients need beyond the laws of the single
  operations (rebuilding a map from its bindings, maps with the same bindings are equal) is
  proved there once and interpreted on the lists.
\<close>

section \<open>Operations\<close>

type_synonym ('k, 'v) btree_map = "('k \<times> 'v) list"

definition bt_get :: "('k, 'v) btree_map \<Rightarrow> 'k \<Rightarrow> 'v option" where
  "bt_get m k = map_of m k"

fun bt_insert :: "'k::linorder \<Rightarrow> 'v \<Rightarrow> ('k, 'v) btree_map \<Rightarrow> ('k, 'v) btree_map" where
  "bt_insert k v [] = [(k, v)]"
| "bt_insert k v ((k', v') # m) =
     (if k < k' then (k, v) # (k', v') # m
      else if k = k' then (k, v) # m
      else (k', v') # bt_insert k v m)"

definition bt_retain :: "('k \<Rightarrow> bool) \<Rightarrow> ('k, 'v) btree_map \<Rightarrow> ('k, 'v) btree_map" where
  "bt_retain P m = filter (\<lambda>(k, _). P k) m"

definition bt_remove :: "'k \<Rightarrow> ('k, 'v) btree_map \<Rightarrow> ('k, 'v) btree_map" where
  "bt_remove k m = bt_retain (\<lambda>k'. k' \<noteq> k) m"

text \<open>An update through \<open>get_mut\<close>: nothing happens to an absent key.\<close>

definition bt_modify :: "'k \<Rightarrow> ('v \<Rightarrow> 'v) \<Rightarrow> ('k, 'v) btree_map \<Rightarrow> ('k, 'v) btree_map" where
  "bt_modify k f m = map (\<lambda>(k', v). (k', if k' = k then f v else v)) m"

definition bt_values :: "('k, 'v) btree_map \<Rightarrow> 'v list" where
  "bt_values m = map snd m"

definition bt_sorted :: "('k::linorder, 'v) btree_map \<Rightarrow> bool" where
  "bt_sorted m \<longleftrightarrow> sorted_wrt (<) (map fst m)"

section \<open>Laws of the single operations\<close>

lemma bt_get_Nil [simp]: "bt_get [] k = None"
  by (simp add: bt_get_def)

lemma bt_get_insert [simp]:
  "bt_get (bt_insert k v m) k' = (if k' = k then Some v else bt_get m k')"
  by (induction k v m rule: bt_insert.induct) (auto simp: bt_get_def)

lemma bt_get_retain: "bt_get (bt_retain P m) k = (if P k then bt_get m k else None)"
  by (induction m) (auto simp: bt_get_def bt_retain_def)

lemma bt_get_remove [simp]:
  "bt_get (bt_remove k m) k' = (if k' = k then None else bt_get m k')"
  by (simp add: bt_remove_def bt_get_retain)

lemma bt_get_modify [simp]:
  "bt_get (bt_modify k f m) k' =
     (if k' = k then map_option f (bt_get m k) else bt_get m k')"
  by (induction m) (auto simp: bt_get_def bt_modify_def)

lemma fst_bt_modify [simp]: "map fst (bt_modify k f m) = map fst m"
  by (induction m) (auto simp: bt_modify_def)

lemma bt_modify_absent: "bt_get m k = None \<Longrightarrow> bt_modify k f m = m"
  by (induction m) (auto simp: bt_get_def bt_modify_def split: if_splits)

lemma fst_set_bt_insert: "fst ` set (bt_insert k v m) = insert k (fst ` set m)"
  by (induction k v m rule: bt_insert.induct) auto

lemma set_bt_insert: "set (bt_insert k v m) \<subseteq> insert (k, v) (set m)"
  by (induction k v m rule: bt_insert.induct) auto

lemma bt_sorted_Nil [simp]: "bt_sorted []"
  by (simp add: bt_sorted_def)

lemma bt_sorted_Cons:
  "bt_sorted ((k, v) # m) \<longleftrightarrow> (\<forall>k' \<in> fst ` set m. k < k') \<and> bt_sorted m"
  by (auto simp: bt_sorted_def)

lemma bt_sorted_insert [simp]: "bt_sorted m \<Longrightarrow> bt_sorted (bt_insert k v m)"
proof (induction k v m rule: bt_insert.induct)
  case (2 k v k' v' m)
  then show ?case
    by (auto simp: bt_sorted_Cons fst_set_bt_insert)
qed (simp add: bt_sorted_def)

lemma sorted_wrt_map_filter: "sorted_wrt R (map f xs) \<Longrightarrow> sorted_wrt R (map f (filter P xs))"
  by (induction xs) auto

lemma bt_sorted_retain [simp]: "bt_sorted m \<Longrightarrow> bt_sorted (bt_retain P m)"
  by (simp add: bt_sorted_def bt_retain_def sorted_wrt_map_filter)

lemma bt_sorted_remove [simp]: "bt_sorted m \<Longrightarrow> bt_sorted (bt_remove k m)"
  by (simp add: bt_remove_def)

lemma bt_sorted_modify [simp]: "bt_sorted (bt_modify k f m) \<longleftrightarrow> bt_sorted m"
  by (simp add: bt_sorted_def)

lemma bt_sorted_distinct: "bt_sorted m \<Longrightarrow> distinct (map fst m)"
  by (simp add: bt_sorted_def strict_sorted_iff)

lemma bt_get_in: "bt_sorted m \<Longrightarrow> bt_get m k = Some v \<longleftrightarrow> (k, v) \<in> set m"
  by (simp add: bt_get_def bt_sorted_distinct)

lemma bt_get_SomeD: "bt_get m k = Some v \<Longrightarrow> (k, v) \<in> set m"
  by (simp add: bt_get_def map_of_SomeD)

lemma bt_values_in: "bt_sorted m \<Longrightarrow> v \<in> set (bt_values m) \<longleftrightarrow> (\<exists>k. bt_get m k = Some v)"
  by (force simp: bt_get_in bt_values_def)

section \<open>The interface\<close>

locale ordered_map =
  fixes empty :: "'m"
    and lookup :: "'m \<Rightarrow> 'k::linorder \<Rightarrow> 'v option"
    and update :: "'k \<Rightarrow> 'v \<Rightarrow> 'm \<Rightarrow> 'm"
    and bindings :: "'m \<Rightarrow> ('k \<times> 'v) list"
    and invar :: "'m \<Rightarrow> bool"
  assumes invar_empty: "invar empty"
    and invar_update: "invar m \<Longrightarrow> invar (update k v m)"
    and lookup_empty: "lookup empty k = None"
    and lookup_update: "invar m \<Longrightarrow> lookup (update k v m) k' = (if k' = k then Some v else lookup m k')"
    and bindings_sorted: "invar m \<Longrightarrow> sorted_wrt (<) (map fst (bindings m))"
    and bindings_lookup: "invar m \<Longrightarrow> lookup m = map_of (bindings m)"
begin

lemma invar_insert_all: "invar m \<Longrightarrow> invar (fold (\<lambda>(k, v). update k v) xs m)"
  by (induction xs arbitrary: m) (auto simp: invar_update)

lemma lookup_insert_all:
  "invar m \<Longrightarrow> lookup (fold (\<lambda>(k, v). update k v) xs m) k = (case map_of (rev xs) k of None \<Rightarrow> lookup m k | v \<Rightarrow> v)"
proof (induction xs arbitrary: m)
  case (Cons x xs)
  obtain a b where x: "x = (a, b)" by (cases x)
  have "lookup (fold (\<lambda>(k, v). update k v) xs (update a b m)) k = (case map_of (rev xs) k of None \<Rightarrow> lookup (update a b m) k | v \<Rightarrow> v)"
    by (intro Cons.IH invar_update Cons.prems)
  then show ?case
    by (auto simp: x lookup_update Cons.prems map_add_def split: option.split)
qed simp

text \<open>Maps that answer every lookup alike have the same bindings in the same order.\<close>

lemma sorted_map_unique:
  assumes "sorted_wrt (<) (map fst xs)" "sorted_wrt (<) (map fst ys)" "map_of xs = map_of ys"
  shows "xs = (ys :: ('k \<times> 'v) list)"
proof -
  have d: "distinct (map fst xs)" "distinct (map fst ys)"
    using assms(1,2) by (simp_all add: strict_sorted_iff)
  have "set xs = set ys"
    using assms(3) d map_of_eq_Some_iff by (metis subrelI subset_antisym)
  moreover have "sorted (map fst xs)" "sorted (map fst ys)"
    using assms(1,2) by (simp_all add: strict_sorted_iff)
  ultimately show ?thesis
    using d by (intro map_sorted_distinct_set_unique [where f = fst])
      (auto simp: distinct_map)
qed

lemma bindings_unique:
  "invar m \<Longrightarrow> invar m' \<Longrightarrow> lookup m = lookup m' \<Longrightarrow> bindings m = bindings m'"
  by (intro sorted_map_unique bindings_sorted) (auto simp flip: bindings_lookup)

text \<open>Inserting the bindings of a map one after the other into the empty map rebuilds it.\<close>

lemma rebuild:
  assumes "invar m"
  shows "bindings (fold (\<lambda>(k, v). update k v) (bindings m) empty) = bindings m"
proof (rule bindings_unique)
  have "distinct (map fst (bindings m))"
    using bindings_sorted [OF assms] by (simp add: strict_sorted_iff)
  then have "map_of (rev (bindings m)) = map_of (bindings m)"
    by (intro map_of_inject_set [THEN iffD2]) (simp_all flip: rev_map)
  then show "lookup (fold (\<lambda>(k, v). update k v) (bindings m) empty) = lookup m"
    by (intro ext) (auto simp: lookup_insert_all invar_empty lookup_empty bindings_lookup [OF assms] assms
        split: option.split)
qed (simp_all add: assms invar_insert_all invar_empty)

end

interpretation bt: ordered_map "[]" bt_get bt_insert "\<lambda>m. m" bt_sorted
  proof unfold_locales
  show "sorted_wrt (<) (map fst m)" if "bt_sorted m" for m :: "('a \<times> 'b) list"
    using that by (simp add: bt_sorted_def)
  show "bt_get m = map_of m" for m :: "('a \<times> 'b) list"
    by (simp add: bt_get_def fun_eq_iff)
qed simp_all

text \<open>The last binding of a map is the one with the greatest key.\<close>

lemma last_bt_sorted:
  assumes "bt_sorted m" "m \<noteq> []" "(k, v) \<in> set m"
  shows "k \<le> fst (last m)"
  using assms
proof (induction m)
  case (Cons x m)
  then show ?case
    by (cases x) (auto simp: bt_sorted_Cons dest: last_in_set intro: less_imp_le)
qed simp

end
