(* ===== verification/Kron_Cluster_Types.thy ===== *)
theory Kron_Cluster_Types
  imports Kron_Timer Kron_Btree_Map
begin

text \<open>
  The data that the cluster exchanges (cluster.rs, openraft_adapter.rs): nodes, targets,
  distributed timers, requests of clients and workers, runs handed to workers, and the
  commands of the replicated log.  JSON values have the constructors of \<open>serde_json::Value\<close>;
  identifiers and entries of the replicated log are the public types of the raft library.
\<close>

section \<open>JSON values\<close>

datatype json_number = PosInt u64 | NegInt int | Float string

datatype json =
    Null
  | Bool bool
  | Number json_number
  | String string
  | Array "json list"
  | Object "(string \<times> json) list"

fun json_get :: "json \<Rightarrow> string \<Rightarrow> json option" where
  "json_get (Object kvs) k = map_of kvs k"
| "json_get _ k = None"

fun as_str :: "json \<Rightarrow> string option" where
  "as_str (String s) = Some s"
| "as_str _ = None"

text \<open>\<open>value.get(k).and_then(|v| v.as_str())\<close>\<close>

definition str_field :: "json \<Rightarrow> string \<Rightarrow> string option" where
  "str_field v k = Option.bind (json_get v k) as_str"

text \<open>The \<open>json!\<close> form of an \<open>Option<String>\<close> and of an unsigned number.\<close>

definition opt_string :: "string option \<Rightarrow> json" where
  "opt_string x = (case x of None \<Rightarrow> Null | Some s \<Rightarrow> String s)"

definition json_u64 :: "u64 \<Rightarrow> json" where
  "json_u64 n = Number (PosInt n)"

section \<open>Nodes and timers\<close>

record node_info =
  ni_node_id :: string
  ni_http_addr :: string
  ni_raft_addr :: string

record cluster_config =
  cc_node_id :: string
  cc_http_addr :: string
  cc_raft_addr :: string
  cc_leader_id :: string
  cc_peers :: "node_info list"

record join_request =
  jr_node_id :: string
  jr_http_addr :: string
  jr_raft_addr :: string

record leave_request =
  lr_node_id :: string

datatype timer_target =
    EmbeddedFn string
  | WorkerTask string json
  | HttpTarget string

record distributed_timer_spec =
  ds_id :: timer_id
  ds_tenant_id :: "string option"
  ds_schedule :: schedule
  ds_retry :: retry_policy
  ds_timezone :: string
  ds_target :: timer_target
  ds_created_at :: datetime

record distributed_summary =
  dsum_id :: string
  dsum_tenant_id :: "string option"
  dsum_state :: timer_state
  dsum_target :: timer_target
  dsum_next_run_at :: "datetime option"
  dsum_last_status :: "string option"
  dsum_fencing_token :: u64

section \<open>Requests and runs\<close>

record create_timer_request =
  cr_name :: string
  cr_tenant_id :: "string option"
  cr_cron :: "string option"
  cr_every :: "string option"
  cr_after :: "string option"
  cr_at :: "string option"
  cr_timezone :: "string option"
  cr_max_attempts :: "u32 option"
  cr_task :: string
  cr_payload :: "json option"

record worker_register_request =
  wreg_worker_id :: string
  wreg_tenant_id :: "string option"
  wreg_tasks :: "string list"
  wreg_lease_seconds :: "u64 option"

record worker_poll_request =
  wp_worker_id :: string
  wp_tenant_id :: "string option"
  wp_tasks :: "string list"

record run_complete_request =
  rc_worker_id :: string
  rc_fencing_token :: u64

record run_fail_request =
  rf_worker_id :: string
  rf_fencing_token :: u64
  rf_error :: string

record worker_run =
  wr_timer :: string
  wr_tenant_id :: "string option"
  wr_run_id :: string
  wr_task :: string
  wr_payload :: json
  wr_attempt :: u32
  wr_fencing_token :: u64
  wr_idempotency_key :: string

section \<open>Commands of the replicated log\<close>

text \<open>The arguments stand in the order of the fields of the source.\<close>

datatype raft_command =
    CreateTimer distributed_timer_spec "datetime option"
  | UpdateTimer distributed_timer_spec "datetime option"
  | CancelTimer timer_id
  | PauseTimer timer_id
  | ResumeTimer timer_id "datetime option"
  | ClaimRun timer_id run_id string u64 u32 datetime
  | CompleteRun run_id string u64 datetime
  | FailRun run_id string u64 string datetime
  | ExpireRunLease run_id "worker_run option" datetime
  | HeartbeatWorker string datetime
  | RegisterWorker string "string list" datetime
  | UnregisterWorker string
  | AddNode node_info
  | RemoveNode string

record kron_raft_request =
  krq_command :: raft_command

record kron_raft_response =
  krs_applied :: bool

section \<open>Public types of the raft library\<close>

text \<open>\<open>LogId\<close> (with the committed leader id: term and node), \<open>Membership\<close> (configurations and
  the nodes with their addresses), \<open>StoredMembership\<close>, \<open>Vote\<close>, \<open>Entry\<close>.\<close>

record log_id =
  lid_term :: u64
  lid_node :: u64
  lid_index :: u64

record membership =
  mem_configs :: "u64 list list"
  mem_nodes :: "(u64 \<times> string) list"

record stored_membership =
  sm_log_id :: "log_id option"
  sm_membership :: membership

record vote =
  vote_term :: u64
  vote_node :: u64
  vote_committed :: bool

datatype entry_payload = Blank | Normal kron_raft_request | MembershipChange membership

record kron_entry =
  ent_log_id :: log_id
  ent_payload :: entry_payload

end
