(* ===== verification/Kron_Auth.thy ===== *)
theory Kron_Auth
  imports Kron_Audit Kron_Ipc Kron_Cluster_Types
begin

text \<open>
  The gate in front of every HTTP handler of openraft_adapter/runtime.rs: roles, the token file,
  bearer tokens, the audit record of every request and the wrapper \<open>authed\<close> that puts them
  together.  SHA-256, the JSON parser and the HTTP library are parameters.  Shown: who is
  authenticated and as what, that a handler runs only for a role that may call it, that every
  answered request is in the audit log, and that the audit log stays verifiable as long as its
  writes succeed.
\<close>

section \<open>Roles and tokens\<close>

datatype auth_role = Reader | Worker | Operator | Admin | RaftRole

definition allows :: "auth_role \<Rightarrow> auth_role \<Rightarrow> bool" where
  "allows self required \<longleftrightarrow>
     self = Admin \<or> self = required \<or> (self, required) = (Operator, Reader)"

fun role_str :: "auth_role \<Rightarrow> string" where
  "role_str Reader = ''reader''"
| "role_str Worker = ''worker''"
| "role_str Operator = ''operator''"
| "role_str Admin = ''admin''"
| "role_str RaftRole = ''raft''"

record auth_context =
  ac_actor :: string
  ac_role :: auth_role
  ac_tenant_id :: "string option"

record token_entry =
  te_name :: string
  te_token :: string
  te_token_sha256 :: "string option"
  te_role :: auth_role
  te_tenant_id :: "string option"
  te_not_before :: "datetime option"
  te_expires_at :: "datetime option"

definition is_ascii_hexdigit :: "char \<Rightarrow> bool" where
  "is_ascii_hexdigit c \<longleftrightarrow>
     (let n = of_char c :: nat in (48 \<le> n \<and> n \<le> 57) \<or> (65 \<le> n \<and> n \<le> 70) \<or> (97 \<le> n \<and> n \<le> 102))"

definition is_sha256_hex :: "string \<Rightarrow> bool" where
  "is_sha256_hex s \<longleftrightarrow> length s = 64 \<and> list_all is_ascii_hexdigit s"

definition quoted :: "string \<Rightarrow> string" where
  "quoted s = [CHR 0x27] @ s @ [CHR 0x27]"

fun validate_tokens :: "token_entry list \<Rightarrow> string + unit" where
  "validate_tokens [] = Inr ()"
| "validate_tokens (entry # rest) =
     (let has_plaintext = te_token entry \<noteq> [];
          has_hash = (case te_token_sha256 entry of None \<Rightarrow> False | Some h \<Rightarrow> h \<noteq> [])
      in if has_plaintext = has_hash
         then Inl (''token entry '' @ quoted (te_name entry)
                   @ '' must set exactly one of token or token_sha256'')
         else case te_token_sha256 entry of
                None \<Rightarrow> validate_tokens rest
              | Some h \<Rightarrow>
                  if \<not> is_sha256_hex h
                  then Inl (''token entry '' @ quoted (te_name entry)
                            @ '' has invalid token_sha256; expected 64 hex characters'')
                  else validate_tokens rest)"

definition token_entry_matches ::
  "(u8 list \<Rightarrow> string) \<Rightarrow> token_entry \<Rightarrow> string \<Rightarrow> datetime \<Rightarrow> bool" where
  "token_entry_matches sha entry bearer now =
     (if (case te_not_before entry of None \<Rightarrow> False | Some t \<Rightarrow> now < t) then False
      else if (case te_expires_at entry of None \<Rightarrow> False | Some t \<Rightarrow> t \<le> now) then False
      else if te_token entry \<noteq> [] \<and> secure_eq (as_bytes (te_token entry)) (as_bytes bearer) then True
      else case te_token_sha256 entry of
             Some expected_hash \<Rightarrow> secure_eq (as_bytes expected_hash) (as_bytes (sha (as_bytes bearer)))
           | None \<Rightarrow> False)"

text \<open>\<open>HeaderValue::to_str\<close> accepts visible ASCII characters and tabs.\<close>

definition header_to_str :: "string \<Rightarrow> string option" where
  "header_to_str v =
     (if list_all (\<lambda>c. (32 \<le> (of_char c :: nat) \<and> (of_char c :: nat) \<le> 126) \<or> c = CHR 0x09) v
      then Some v else None)"

definition strip_prefix :: "string \<Rightarrow> string \<Rightarrow> string option" where
  "strip_prefix p s = (if take (length p) s = p then Some (drop (length p) s) else None)"

text \<open>
  What \<open>authenticate\<close> reads: the header, the token file (absent, unreadable, or its content), the
  token of the cluster, the clock, and the libraries it calls.
\<close>

record auth_env =
  ae_sha :: "u8 list \<Rightarrow> string"
  ae_parse_tokens :: "string \<Rightarrow> string + token_entry list"
  ae_header :: "string option"
  ae_tokens_file :: "(string + string) option"
  ae_cluster_token :: string
  ae_now :: datetime

definition bearer_of :: "string option \<Rightarrow> string option" where
  "bearer_of header =
     Option.bind (Option.bind header header_to_str) (strip_prefix ''Bearer '')"

definition context_of :: "token_entry \<Rightarrow> auth_context" where
  "context_of entry =
     \<lparr>ac_actor = te_name entry, ac_role = te_role entry, ac_tenant_id = te_tenant_id entry\<rparr>"

definition authenticate :: "auth_env \<Rightarrow> string + auth_context" where
  "authenticate E =
     (case bearer_of (ae_header E) of
        None \<Rightarrow> Inl ''missing bearer token''
      | Some bearer \<Rightarrow>
          (case ae_tokens_file E of
             Some (Inl err) \<Rightarrow> Inl (''unable to read token file: '' @ err)
           | Some (Inr content) \<Rightarrow>
               (case ae_parse_tokens E content of
                  Inl err \<Rightarrow> Inl (''invalid token file: '' @ err)
                | Inr tokens \<Rightarrow>
                    (case validate_tokens tokens of
                       Inl err \<Rightarrow> Inl err
                     | Inr _ \<Rightarrow>
                         (case List.find (\<lambda>entry. token_entry_matches (ae_sha E) entry bearer (ae_now E)) tokens of
                            None \<Rightarrow> Inl ''unknown token''
                          | Some entry \<Rightarrow> Inr (context_of entry))))
           | None \<Rightarrow>
               if secure_eq (as_bytes (ae_cluster_token E)) (as_bytes bearer)
               then Inr \<lparr>ac_actor = ''legacy-admin-token'', ac_role = Admin, ac_tenant_id = None\<rparr>
               else Inl ''unknown token''))"

definition tenant_matches :: "string option \<Rightarrow> string option \<Rightarrow> bool" where
  "tenant_matches request_tenant resource_tenant \<longleftrightarrow>
     (case request_tenant of
        None \<Rightarrow> True
      | Some t \<Rightarrow> t = ''*'' \<or> resource_tenant = Some t)"

section \<open>The audit record of a request\<close>

record audit_log =
  al_state :: audit_state
  al_file :: "string option"

record audit_env =
  au_libs :: libs
  au_hashing :: hashing
  au_codec :: "audit_record codec"
  au_node_name :: string
  au_now :: datetime
  au_io :: io_outcome

definition audit_entry ::
  "audit_env \<Rightarrow> auth_context option \<Rightarrow> string \<Rightarrow> string \<Rightarrow> u16 \<Rightarrow> string option \<Rightarrow> audit_state \<Rightarrow> audit_record" where
  "audit_entry U auth action outcome code reason st =
     (let r = \<lparr>ar_seq = as_seq st + 1, ar_ts = au_now U, ar_node_id = au_node_name U,
               ar_action = action, ar_outcome = outcome, ar_status = code,
               ar_actor = (case auth of None \<Rightarrow> ''anonymous'' | Some ctx \<Rightarrow> ac_actor ctx),
               ar_role = (case auth of None \<Rightarrow> ''none'' | Some ctx \<Rightarrow> role_str (ac_role ctx)),
               ar_tenant_id = Option.bind auth ac_tenant_id, ar_reason = reason,
               ar_prev_hash = as_hash st, ar_hash = []\<rparr>
      in r\<lparr>ar_hash := compute_hash (au_libs U) (au_hashing U) r\<rparr>)"

definition audit ::
  "audit_env \<Rightarrow> auth_context option \<Rightarrow> string \<Rightarrow> string \<Rightarrow> u16 \<Rightarrow> string option \<Rightarrow> audit_log
   \<Rightarrow> unit res \<times> audit_log" where
  "audit U auth action outcome code reason al =
     (let file = unwrap_or (al_file al) [];
          r = audit_entry U auth action outcome code reason (al_state al)
      in case encode (au_codec U) r of
           Inl msg \<Rightarrow> (Inl (Err (LogSerde msg)), al\<lparr>al_file := Some file\<rparr>)
         | Inr encoded \<Rightarrow>
             let line = encoded @ [LF] in
             case au_io U of
               IoOk \<Rightarrow> (Inr (), \<lparr>al_state = \<lparr>as_seq = ar_seq r, as_hash = ar_hash r\<rparr>,
                                al_file = Some (file @ line)\<rparr>)
             | WriteFails k msg \<Rightarrow> (Inl (Err (LogIo msg)), al\<lparr>al_file := Some (file @ take k line)\<rparr>)
             | SyncFails msg \<Rightarrow> (Inl (Err (LogIo msg)), al\<lparr>al_file := Some (file @ line)\<rparr>))"

section \<open>The wrapper of the handlers\<close>

record http_response =
  hr_status :: u16
  hr_body :: json

record error_text =
  et_show :: "kron_error \<Rightarrow> string"
  et_parse :: "string \<Rightarrow> string + json"

definition audit_error :: "error_text \<Rightarrow> fault \<Rightarrow> http_response" where
  "audit_error T err = \<lparr>hr_status = 500,
     hr_body = Object [(''error'', String ''audit_write_failed''),
       (''message'', String (case err of Err e \<Rightarrow> et_show T e | Panic msg \<Rightarrow> msg))]\<rparr>"

definition error_value :: "error_text \<Rightarrow> kron_error \<Rightarrow> json" where
  "error_value T err =
     (let shown = et_show T err;
          from_brace = dropWhile (\<lambda>c. c \<noteq> CHR ''{'') shown
      in if from_brace = [] then Object [(''error'', String shown)]
         else case et_parse T from_brace of
                Inr v \<Rightarrow> v
              | Inl _ \<Rightarrow> Object [(''error'', String shown)])"

definition error_status :: "json \<Rightarrow> u16" where
  "error_status v = (if str_field v ''error'' = Some ''not_leader'' then 409 else 400)"

definition audited ::
  "error_text \<Rightarrow> unit res \<times> audit_log \<Rightarrow> http_response \<Rightarrow> 's \<Rightarrow> http_response res \<times> 's \<times> audit_log" where
  "audited T outcome response s =
     (case outcome of
        (Inl err, al) \<Rightarrow> (Inr (audit_error T err), s, al)
      | (Inr _, al) \<Rightarrow> (Inr response, s, al))"

text \<open>A panic of the handler ends the request without an answer and without a record.\<close>

definition authed ::
  "error_text \<Rightarrow> auth_env \<Rightarrow> audit_env \<Rightarrow> auth_role \<Rightarrow> string \<Rightarrow> (auth_context \<Rightarrow> 's \<Rightarrow> json res \<times> 's)
   \<Rightarrow> 's \<times> audit_log \<Rightarrow> http_response res \<times> 's \<times> audit_log" where
  "authed T E U required_role action f sal =
     (case sal of (s, al) \<Rightarrow>
      case authenticate E of
        Inl reason \<Rightarrow>
          audited T (audit U None action ''unauthorized'' 401 (Some reason) al)
            \<lparr>hr_status = 401, hr_body = Object [(''error'', String ''unauthorized'')]\<rparr> s
      | Inr auth \<Rightarrow>
          if \<not> allows (ac_role auth) required_role
          then audited T (audit U (Some auth) action ''forbidden'' 403 (Some (role_str required_role)) al)
                 \<lparr>hr_status = 403, hr_body = Object [(''error'', String ''forbidden''),
                    (''required_role'', String (role_str required_role))]\<rparr> s
          else case f auth s of
                 (Inr v, s1) \<Rightarrow>
                   audited T (audit U (Some auth) action ''ok'' 200 None al)
                     \<lparr>hr_status = 200, hr_body = v\<rparr> s1
               | (Inl (Err err), s1) \<Rightarrow>
                   let v = error_value T err; code = error_status v
                   in audited T (audit U (Some auth) action ''error'' code (str_field v ''error'') al)
                        \<lparr>hr_status = code, hr_body = v\<rparr> s1
               | (Inl (Panic msg), s1) \<Rightarrow> (Inl (Panic msg), s1, al))"

section \<open>Who is authenticated\<close>

lemma validate_tokensD:
  "validate_tokens tokens = Inr () \<Longrightarrow> entry \<in> set tokens \<Longrightarrow>
     (te_token entry \<noteq> [] \<and> te_token_sha256 entry = None)
     \<or> (te_token entry = [] \<and> (\<exists>h. te_token_sha256 entry = Some h \<and> is_sha256_hex h))"
  by (induction tokens) (auto simp: Let_def is_sha256_hex_def split: if_splits option.splits)

lemma token_entry_matchesD:
  "token_entry_matches sha entry bearer now \<Longrightarrow>
     (\<forall>t. te_not_before entry = Some t \<longrightarrow> t \<le> now) \<and> (\<forall>t. te_expires_at entry = Some t \<longrightarrow> now < t)
     \<and> (te_token entry = bearer \<and> bearer \<noteq> [] \<or> te_token_sha256 entry = Some (sha (as_bytes bearer)))"
  by (auto simp: token_entry_matches_def secure_eq_iff as_bytes_inj split: if_splits option.splits)

lemma bearer_ofD: "bearer_of header = Some bearer \<Longrightarrow> header = Some (''Bearer '' @ bearer)"
  by (auto simp: bearer_of_def header_to_str_def strip_prefix_def bind_eq_Some_conv
      split: if_splits) (metis append_take_drop_id length_Cons list.size(3) append_Cons append_Nil)

text \<open>C19: authentication is sound.  A request is authenticated only with a bearer token in its
  header.  If the directory has a token file, the file is valid and the actor, role and tenant
  are those of an entry of it whose validity window contains the present, and whose plain
  token is the bearer token or whose hash is the SHA-256 of it; such an entry carries exactly
  one of the two.  Without a token file the bearer token is the token of the cluster, and the
  role is administrator.\<close>

theorem authenticate_sound:
  assumes "authenticate E = Inr auth"
  shows "\<exists>bearer. ae_header E = Some (''Bearer '' @ bearer)
    \<and> (case ae_tokens_file E of
         None \<Rightarrow> bearer = ae_cluster_token E \<and> ac_role auth = Admin \<and> ac_tenant_id auth = None
       | Some file \<Rightarrow> \<exists>content tokens entry. file = Inr content \<and> ae_parse_tokens E content = Inr tokens
           \<and> validate_tokens tokens = Inr () \<and> entry \<in> set tokens \<and> auth = context_of entry
           \<and> (\<forall>t. te_not_before entry = Some t \<longrightarrow> t \<le> ae_now E)
           \<and> (\<forall>t. te_expires_at entry = Some t \<longrightarrow> ae_now E < t)
           \<and> (te_token entry = bearer \<and> bearer \<noteq> [] \<and> te_token_sha256 entry = None
              \<or> te_token entry = [] \<and> te_token_sha256 entry = Some (ae_sha E (as_bytes bearer))))"
proof -
  obtain bearer where b: "bearer_of (ae_header E) = Some bearer"
    using assms by (cases "bearer_of (ae_header E)") (auto simp: authenticate_def)
  show ?thesis
  proof (cases "ae_tokens_file E")
    case None
    then show ?thesis
      using assms b bearer_ofD [OF b]
      by (auto simp: authenticate_def secure_eq_iff as_bytes_inj split: if_splits)
  next
    case (Some f0)
    then obtain content tokens entry where f: "f0 = Inr content" "ae_parse_tokens E content = Inr tokens"
      "validate_tokens tokens = Inr ()" "auth = context_of entry"
      "List.find (\<lambda>entry. token_entry_matches (ae_sha E) entry bearer (ae_now E)) tokens = Some entry"
      using assms b by (auto simp: authenticate_def split: sum.splits option.splits)
    then have "entry \<in> set tokens" "token_entry_matches (ae_sha E) entry bearer (ae_now E)"
      by (auto simp: find_Some_iff)
    then show ?thesis
      using f Some bearer_ofD [OF b] validate_tokensD [OF f(3)] token_entry_matchesD by fastforce
  qed
qed

section \<open>What the gate lets through\<close>

lemma authed_runs:
  assumes "authed T E U required_role action f (s, al) = (r, s', al')"
    and "s' \<noteq> s \<or> (\<exists>response. r = Inr response \<and> hr_status response = 200)"
  shows "\<exists>auth. authenticate E = Inr auth \<and> allows (ac_role auth) required_role \<and> s' = snd (f auth s)"
  using assms
  by (auto simp: authed_def audited_def audit_error_def error_status_def Let_def case_prod_beta
      split: sum.splits if_splits fault.splits prod.splits)

text \<open>The gate in front of the handlers.  The state of the cluster changes and a request is
  answered with success only if the caller was authenticated with a role that may perform the
  action, and then the change is the one the handler made.\<close>

theorem authed_gate:
  assumes "authed T E U required_role action f (s, al) = (r, s', al')"
    and "s' \<noteq> s \<or> (\<exists>response. r = Inr response \<and> hr_status response = 200)"
  shows "\<exists>auth. authenticate E = Inr auth \<and> allows (ac_role auth) required_role \<and> s' = snd (f auth s)"
  by (rule authed_runs [OF assms])

lemma audit_ok:
  "audit U auth action outcome code reason al = (Inr (), al') \<Longrightarrow>
     \<exists>line. encode (au_codec U) (audit_entry U auth action outcome code reason (al_state al)) = Inr line
       \<and> al_file al' = Some (unwrap_or (al_file al) [] @ line @ [LF])"
  by (auto simp: audit_def Let_def split: sum.splits io_outcome.splits)

lemma audit_entry_fields [simp]:
  "ar_action (audit_entry U auth action outcome code reason st) = action"
  "ar_status (audit_entry U auth action outcome code reason st) = code"
  "ar_seq (audit_entry U auth action outcome code reason st) = as_seq st + 1"
  "ar_prev_hash (audit_entry U auth action outcome code reason st) = as_hash st"
  by (simp_all add: audit_entry_def Let_def)

lemma audited_recorded:
  assumes "audited T (audit U auth action outcome (hr_status response) reason al) response s = (Inr resp, s', al')"
    and "hr_status resp \<noteq> 500"
  shows "\<exists>entry line. encode (au_codec U) entry = Inr line
    \<and> al_file al' = Some (unwrap_or (al_file al) [] @ line @ [LF])
    \<and> ar_action entry = action \<and> ar_status entry = hr_status resp \<and> ar_seq entry = as_seq (al_state al) + 1"
proof -
  obtain al1 where al1: "audit U auth action outcome (hr_status response) reason al = (Inr (), al1)"
    "resp = response" "al' = al1"
    using assms by (auto simp: audited_def audit_error_def split: prod.splits sum.splits)
  from audit_ok [OF al1(1)] al1(2,3) show ?thesis
    by (metis audit_entry_fields(1,2,3))
qed

text \<open>Every answered request is in the audit log.  Whatever the outcome (success, error,
  missing or wrong token, forbidden role), a request that gets an answer other than the server
  error for a failed audit write has added exactly one line to the audit log: the text of a
  record with its action, the status of the answer and the next sequence number.\<close>

theorem authed_audited:
  assumes "authed T E U required_role action f (s, al) = (Inr response, s', al')"
    and "hr_status response \<noteq> 500"
  shows "\<exists>entry line. encode (au_codec U) entry = Inr line
    \<and> al_file al' = Some (unwrap_or (al_file al) [] @ line @ [LF])
    \<and> ar_action entry = action \<and> ar_status entry = hr_status response
    \<and> ar_seq entry = as_seq (al_state al) + 1"
proof -
  obtain auth outcome reason answer s1 where
    "audited T (audit U auth action outcome (hr_status answer) reason al) answer s1 = (Inr response, s', al')"
    using assms(1)
    by (auto simp: authed_def Let_def split: sum.splits if_splits fault.splits prod.splits)
       (metis http_response.select_convs(1))+
  from audited_recorded [OF this assms(2)] show ?thesis .
qed

section \<open>The audit log stays a chain\<close>

text \<open>An audit log in memory and on disk that holds the records \<open>rs\<close>.\<close>

definition audit_holds :: "audit_env \<Rightarrow> audit_log \<Rightarrow> audit_record list \<Rightarrow> bool" where
  "audit_holds U al rs \<longleftrightarrow> list_all (wf_entry (au_codec U)) rs
     \<and> chain (au_libs U) (au_hashing U) [] 1 rs
     \<and> al_state al = last_audit_state rs \<and> unwrap_or (al_file al) [] = log_file (au_codec U) rs"

lemma compute_hash_own [simp]: "compute_hash L A (r\<lparr>ar_hash := h\<rparr>) = compute_hash L A r"
  by (simp add: compute_hash_def hashed_fields_of_def)

lemma audit_entry_hash:
  "ar_hash (audit_entry U auth action outcome code reason st)
     = compute_hash (au_libs U) (au_hashing U) (audit_entry U auth action outcome code reason st)"
  by (simp add: audit_entry_def Let_def compute_hash_def hashed_fields_of_def)

lemma audit_entry_chained:
  assumes "chain (au_libs U) (au_hashing U) [] 1 rs"
  shows "chain (au_libs U) (au_hashing U) [] 1
    (rs @ [audit_entry U auth action outcome code reason (last_audit_state rs)])"
  using assms by (simp add: chain_append last_audit_state_def audit_entry_hash)

lemma unwrap_or_Some [simp]: "unwrap_or (Some x) d = x"
  by (simp add: unwrap_or_def)

text \<open>The audit log stays verifiable.  If the log in memory and on disk is a chain of records
  that the next start would accept, then a successful audit write makes it a chain with one more
  record: verification accepts the file and counts one more, and a restart would continue from
  exactly the state that is in memory.\<close>

theorem audit_chain_extended:
  assumes "audit_holds U al rs" "au_io U = IoOk"
    and "wf_entry (au_codec U) (audit_entry U auth action outcome code reason (al_state al))"
  shows "\<exists>al'. audit U auth action outcome code reason al = (Inr (), al')
    \<and> verify (au_libs U) (au_hashing U) (au_codec U) (al_file al') = Inr (of_nat (length rs) + 1)
    \<and> read_last_state (au_libs U) (au_hashing U) (au_codec U) (al_file al') = Inr (al_state al')
    \<and> audit_holds U al' (rs @ [audit_entry U auth action outcome code reason (al_state al)])"
proof -
  let ?r = "audit_entry U auth action outcome code reason (al_state al)"
  let ?al = "\<lparr>al_state = \<lparr>as_seq = ar_seq ?r, as_hash = ar_hash ?r\<rparr>,
    al_file = Some (log_file (au_codec U) (rs @ [?r]))\<rparr>"
  have wf: "list_all (wf_entry (au_codec U)) (rs @ [?r])"
    and ch: "chain (au_libs U) (au_hashing U) [] 1 (rs @ [?r])"
    and st: "al_state al = last_audit_state rs"
    using assms(1,3) audit_entry_chained by (simp_all add: audit_holds_def)
  have run: "audit U auth action outcome code reason al = (Inr (), ?al)"
    using assms wf_entryD(1) [OF assms(3)] by (simp add: audit_def audit_holds_def log_file_def Let_def)
  have "al_state ?al = last_audit_state (rs @ [?r])"
    by (simp add: last_audit_state_def) (simp add: st last_audit_state_def)
  with wf ch have holds: "audit_holds U ?al (rs @ [?r])"
    by (simp add: audit_holds_def del: log_file_append)
  have "verify (au_libs U) (au_hashing U) (au_codec U) (Some (log_file (au_codec U) (rs @ [?r])))
      = Inr (of_nat (length rs) + 1)"
    using verify_file [OF wf] ch by (simp add: add.commute)
  moreover have "read_last_state (au_libs U) (au_hashing U) (au_codec U)
      (Some (log_file (au_codec U) (rs @ [?r]))) = Inr (al_state ?al)"
    using read_last_state_chain [OF wf ch] holds by (simp add: audit_holds_def)
  ultimately show ?thesis using run holds by (metis audit_log.select_convs(2))
qed

text \<open>A failed synchronisation spoils the audit log.  If the write of a record reached the
  file but its synchronisation failed, the state in memory is not advanced; the next successful
  record then repeats the sequence number, verification reports tampering, and the node can no
  longer be started on this directory.\<close>

theorem failed_sync_spoils_audit:
  assumes "audit_holds U al rs" "\<forall>r. wf_entry (au_codec U) r"
    and "audit (U\<lparr>au_io := SyncFails msg\<rparr>) auth action outcome code reason al = (r1, al1)"
    and "audit (U\<lparr>au_io := IoOk\<rparr>) auth' action' outcome' code' reason' al1 = (r2, al2)"
  shows "r1 = Inl (Err (LogIo msg)) \<and> r2 = Inr ()
    \<and> (\<exists>err. verify (au_libs U) (au_hashing U) (au_codec U) (al_file al2) = Inl err)
    \<and> (\<exists>err. read_last_state (au_libs U) (au_hashing U) (au_codec U) (al_file al2) = Inl (Err (IpcUnavailable err)))"
proof -
  let ?a = "audit_entry (U\<lparr>au_io := SyncFails msg\<rparr>) auth action outcome code reason (al_state al)"
  let ?b = "audit_entry (U\<lparr>au_io := IoOk\<rparr>) auth' action' outcome' code' reason' (al_state al)"
  let ?rs = "rs @ [?a] @ [?b]"
  have enc: "encode (au_codec U) r = Inr (entry_text (au_codec U) r)" for r
    by (rule wf_entryD(1)) (simp add: assms(2))
  have "audit (U\<lparr>au_io := SyncFails msg\<rparr>) auth action outcome code reason al = (Inl (Err (LogIo msg)),
      al\<lparr>al_file := Some (unwrap_or (al_file al) [] @ entry_text (au_codec U) ?a @ [LF])\<rparr>)"
    by (simp add: audit_def Let_def enc)
  then have r1: "r1 = Inl (Err (LogIo msg))"
    and al1: "al1 = al\<lparr>al_file := Some (log_file (au_codec U) (rs @ [?a]))\<rparr>"
    using assms(1,3) by (simp_all add: audit_holds_def) (simp_all add: log_file_def)
  have "audit (U\<lparr>au_io := IoOk\<rparr>) auth' action' outcome' code' reason' al1 = (Inr (),
      \<lparr>al_state = \<lparr>as_seq = ar_seq ?b, as_hash = ar_hash ?b\<rparr>,
       al_file = Some (log_file (au_codec U) (rs @ [?a]) @ entry_text (au_codec U) ?b @ [LF])\<rparr>)"
    by (simp add: audit_def Let_def enc al1)
  then have al2: "r2 = Inr ()" "al_file al2 = Some (log_file (au_codec U) ?rs)"
    using assms(4) by auto (simp add: log_file_def)
  have wf: "list_all (wf_entry (au_codec U)) ?rs"
    using assms(2) by (auto simp: list_all_iff)
  have "\<not> chain (au_libs U) (au_hashing U) [] 1 ?rs"
    by (auto simp: chain_append)
  then obtain err where "verify (au_libs U) (au_hashing U) (au_codec U) (al_file al2) = Inl err"
    using verify_file [OF wf, of "au_libs U" "au_hashing U"] al2(2)
    by (cases "verify (au_libs U) (au_hashing U) (au_codec U) (al_file al2)") auto
  then show ?thesis using r1 al2 by (auto simp: read_last_state_def)
qed

section \<open>Witnesses\<close>

definition sample_auth_env :: auth_env where
  "sample_auth_env = \<lparr>ae_sha = (\<lambda>_. []), ae_parse_tokens = (\<lambda>_. Inr []), ae_header = Some ''Bearer secret'',
     ae_tokens_file = None, ae_cluster_token = ''secret'', ae_now = 0\<rparr>"

definition sample_audit_env :: audit_env where
  "sample_audit_env = \<lparr>au_libs = minute_libs, au_hashing = numbering, au_codec = number_codec,
     au_node_name = ''n1'', au_now = 0, au_io = IoOk\<rparr>"

definition sample_error_text :: error_text where
  "sample_error_text = \<lparr>et_show = (\<lambda>_. ''failed''), et_parse = (\<lambda>_. Inl ''no json'')\<rparr>"

definition empty_audit :: audit_log where
  "empty_audit = \<lparr>al_state = \<lparr>as_seq = 0, as_hash = []\<rparr>, al_file = None\<rparr>"

lemma sample_authenticated:
  "authenticate sample_auth_env = Inr \<lparr>ac_actor = ''legacy-admin-token'', ac_role = Admin, ac_tenant_id = None\<rparr>"
  by (simp add: authenticate_def sample_auth_env_def bearer_of_def header_to_str_def strip_prefix_def
      secure_eq_iff)

theorem authenticate_sound_witness:
  "\<exists>auth bearer. authenticate sample_auth_env = Inr auth
    \<and> ae_header sample_auth_env = Some (''Bearer '' @ bearer) \<and> bearer = ''secret'' \<and> ac_role auth = Admin"
  using authenticate_sound [OF sample_authenticated] sample_authenticated
  by (auto simp: sample_auth_env_def)

text \<open>A handler that counts its calls.\<close>

definition counting :: "auth_context \<Rightarrow> nat \<Rightarrow> json res \<times> nat" where
  "counting _ n = (Inr Null, n + 1)"

lemma number_encode: "encode number_codec r = Inr (entry_text number_codec r)"
  using wf_entryD(1) [OF wf_number] .

lemma sample_counting:
  "\<exists>al'. authed sample_error_text sample_auth_env sample_audit_env Reader ''timer.list'' counting (0, empty_audit)
     = (Inr \<lparr>hr_status = 200, hr_body = Null\<rparr>, 1, al')"
  by (simp add: authed_def sample_authenticated allows_def counting_def audited_def audit_def
      sample_audit_env_def number_encode Let_def)

theorem authed_gate_witness:
  "\<exists>auth. authenticate sample_auth_env = Inr auth \<and> allows (ac_role auth) Reader \<and> 1 = snd (counting auth 0)"
proof -
  obtain al' where "authed sample_error_text sample_auth_env sample_audit_env Reader ''timer.list'' counting (0, empty_audit)
     = (Inr \<lparr>hr_status = 200, hr_body = Null\<rparr>, 1, al')" using sample_counting by blast
  from authed_gate [OF this] show ?thesis by simp
qed

theorem authed_audited_witness:
  "\<exists>al' (entry :: audit_record) line.
     authed sample_error_text sample_auth_env sample_audit_env Reader ''timer.list'' counting (0, empty_audit)
       = (Inr \<lparr>hr_status = 200, hr_body = Null\<rparr>, 1, al')
     \<and> encode number_codec entry = Inr line \<and> al_file al' = Some (line @ [LF])
     \<and> ar_action entry = ''timer.list'' \<and> ar_status entry = 200 \<and> ar_seq entry = 1"
proof -
  obtain al' where run: "authed sample_error_text sample_auth_env sample_audit_env Reader ''timer.list'' counting (0, empty_audit)
     = (Inr \<lparr>hr_status = 200, hr_body = Null\<rparr>, 1, al')" using sample_counting by blast
  from authed_audited [OF run] run show ?thesis
    by (auto simp: empty_audit_def sample_audit_env_def unwrap_or_def)
qed

lemma empty_audit_holds: "audit_holds sample_audit_env empty_audit []"
  by (simp add: audit_holds_def empty_audit_def last_audit_state_def log_file_def unwrap_or_def)

theorem audit_chain_extended_witness:
  "\<exists>al'. audit sample_audit_env None ''timer.list'' ''unauthorized'' 401 None empty_audit = (Inr (), al')
    \<and> verify minute_libs numbering number_codec (al_file al') = Inr 1"
  using audit_chain_extended [OF empty_audit_holds, of None "''timer.list''" "''unauthorized''" 401 None]
  by (auto simp: sample_audit_env_def wf_number)

theorem failed_sync_spoils_audit_witness:
  "\<exists>r1 al1 r2 al2 err.
     audit (sample_audit_env\<lparr>au_io := SyncFails ''disk full''\<rparr>) None ''a'' ''ok'' 200 None empty_audit = (r1, al1)
     \<and> audit (sample_audit_env\<lparr>au_io := IoOk\<rparr>) None ''b'' ''ok'' 200 None al1 = (r2, al2)
     \<and> verify minute_libs numbering number_codec (al_file al2) = Inl err"
proof -
  obtain r1 al1 where a: "audit (sample_audit_env\<lparr>au_io := SyncFails ''disk full''\<rparr>) None ''a'' ''ok'' 200 None empty_audit = (r1, al1)"
    by (metis prod.exhaust)
  obtain r2 al2 where b: "audit (sample_audit_env\<lparr>au_io := IoOk\<rparr>) None ''b'' ''ok'' 200 None al1 = (r2, al2)"
    by (metis prod.exhaust)
  have "\<forall>r. wf_entry (au_codec sample_audit_env) r" by (simp add: sample_audit_env_def wf_number)
  from failed_sync_spoils_audit [OF empty_audit_holds this a b] a b show ?thesis
    by (auto simp: sample_audit_env_def)
qed

end
