(* ===== verification/Kron_Raft_State.thy ===== *)
theory Kron_Raft_State
  imports Kron_Cluster_Types
begin

text \<open>
  The replicated state machine of openraft_adapter/file_store.rs: the state that every node of
  the cluster computes from the committed commands, one definition per command, the loop that
  applies a batch of entries, and the view that the runtime reads.  Shown: at most one run of
  a timer is active, outcomes count only from the worker and fencing token of the claim, the
  history of a timer is a sequence of matching claims and outcomes, and a command touches only
  the timer it is about.
\<close>

section \<open>State\<close>

record persisted_timer =
  pt_spec :: distributed_timer_spec
  pt_state :: timer_state
  pt_fencing_token :: u64

record persisted_active_run =
  pa_timer_id :: timer_id
  pa_run_id :: run_id
  pa_worker_id :: string
  pa_fencing_token :: u64
  pa_attempt :: u32
  pa_lease_deadline :: datetime

record persisted_worker =
  pw_tasks :: "string list"
  pw_lease_until :: datetime

record state_machine =
  psm_last_applied_log_id :: "log_id option"
  psm_last_membership :: stored_membership
  psm_timers :: "(string, persisted_timer) btree_map"
  psm_next_runs :: "(string, datetime) btree_map"
  psm_pending :: "worker_run list"
  psm_active_runs :: "(string, persisted_active_run) btree_map"
  psm_workers :: "(string, persisted_worker) btree_map"
  psm_nodes :: "(string, node_info) btree_map"
  psm_history :: "json list"

definition default_state_machine :: state_machine where
  "default_state_machine = \<lparr>
     psm_last_applied_log_id = None,
     psm_last_membership =
       \<lparr>sm_log_id = None, sm_membership = \<lparr>mem_configs = [], mem_nodes = []\<rparr>\<rparr>,
     psm_timers = [],
     psm_next_runs = [],
     psm_pending = [],
     psm_active_runs = [],
     psm_workers = [],
     psm_nodes = [],
     psm_history = []\<rparr>"

section \<open>Helpers of the commands\<close>

definition timer_tenant :: "state_machine \<Rightarrow> string \<Rightarrow> string option" where
  "timer_tenant st tid =
     Option.bind (bt_get (psm_timers st) tid) (\<lambda>timer. ds_tenant_id (pt_spec timer))"

definition set_state :: "timer_id \<Rightarrow> timer_state \<Rightarrow> state_machine \<Rightarrow> state_machine" where
  "set_state tid ts st =
     st\<lparr>psm_timers := bt_modify (timer_id_str tid) (\<lambda>timer. timer\<lparr>pt_state := ts\<rparr>) (psm_timers st)\<rparr>"

definition set_next_run :: "string \<Rightarrow> datetime option \<Rightarrow> state_machine \<Rightarrow> state_machine" where
  "set_next_run tid next_run st =
     st\<lparr>psm_next_runs := (case next_run of
                            Some t \<Rightarrow> bt_insert tid t (psm_next_runs st)
                          | None \<Rightarrow> bt_remove tid (psm_next_runs st))\<rparr>"

definition push_history :: "json \<Rightarrow> state_machine \<Rightarrow> state_machine" where
  "push_history entry st = st\<lparr>psm_history := psm_history st @ [entry]\<rparr>"

text \<open>The next run after a completed one; a panic of the date arithmetic ends the node.\<close>

definition reschedule_timer ::
  "libs \<Rightarrow> timer_id \<Rightarrow> datetime \<Rightarrow> state_machine \<Rightarrow> state_machine res" where
  "reschedule_timer L tid after st =
     (case bt_get (psm_timers st) (timer_id_str tid) of
        None \<Rightarrow> Inr st
      | Some timer \<Rightarrow>
          if is_one_shot (ds_schedule (pt_spec timer))
          then Inr (set_next_run (timer_id_str tid) None st)
          else case next_run_after L (ds_schedule (pt_spec timer)) after
                      (ds_timezone (pt_spec timer)) of
                 Inr next_run \<Rightarrow> Inr (set_next_run (timer_id_str tid) next_run st)
               | Inl (Err _) \<Rightarrow> Inr (set_next_run (timer_id_str tid) None st)
               | Inl (Panic msg) \<Rightarrow> Inl (Panic msg))"

section \<open>Commands\<close>

definition apply_create_timer ::
  "distributed_timer_spec \<Rightarrow> datetime option \<Rightarrow> state_machine \<Rightarrow> state_machine" where
  "apply_create_timer spec next_run_at st =
     (let tid = timer_id_str (ds_id spec);
          st1 = st\<lparr>psm_timers := bt_insert tid
                     \<lparr>pt_spec = spec, pt_state = Scheduled, pt_fencing_token = 0\<rparr> (psm_timers st)\<rparr>;
          st2 = set_next_run tid next_run_at st1
      in push_history (Object [(''type'', String ''TIMER_CREATED''), (''timer'', String tid),
           (''tenant_id'', opt_string (timer_tenant st2 tid))]) st2)"

definition apply_cancel_timer :: "timer_id \<Rightarrow> state_machine \<Rightarrow> state_machine" where
  "apply_cancel_timer tid st = set_next_run (timer_id_str tid) None (set_state tid Cancelled st)"

definition apply_pause_timer :: "timer_id \<Rightarrow> state_machine \<Rightarrow> state_machine" where
  "apply_pause_timer tid st = set_next_run (timer_id_str tid) None (set_state tid Paused st)"

definition apply_resume_timer ::
  "timer_id \<Rightarrow> datetime option \<Rightarrow> state_machine \<Rightarrow> state_machine" where
  "apply_resume_timer tid next_run_at st =
     set_next_run (timer_id_str tid) next_run_at (set_state tid Scheduled st)"

text \<open>\<open>position\<close> followed by \<open>remove\<close>: the first element with the property goes.\<close>

fun remove_first :: "('a \<Rightarrow> bool) \<Rightarrow> 'a list \<Rightarrow> 'a list" where
  "remove_first P [] = []"
| "remove_first P (x # xs) = (if P x then xs else x # remove_first P xs)"

definition run_entry ::
  "string \<Rightarrow> string \<Rightarrow> string option \<Rightarrow> string \<Rightarrow> string \<Rightarrow> (string \<times> json) list \<Rightarrow> u64 \<Rightarrow> json" where
  "run_entry typ tid tenant rid worker extra token =
     Object ([(''type'', String typ), (''timer'', String tid), (''tenant_id'', opt_string tenant),
              (''run_id'', String rid), (''worker_id'', String worker)]
             @ extra @ [(''fencing_token'', json_u64 token)])"

definition apply_claim_run ::
  "timer_id \<Rightarrow> run_id \<Rightarrow> string \<Rightarrow> u64 \<Rightarrow> u32 \<Rightarrow> datetime \<Rightarrow> state_machine \<Rightarrow> state_machine" where
  "apply_claim_run tid rid worker token attempt deadline st =
     (if list_ex (\<lambda>r. pa_timer_id r = tid) (bt_values (psm_active_runs st)) then st
      else
        let st1 = st\<lparr>psm_timers := bt_modify (timer_id_str tid)
                       (\<lambda>timer. timer\<lparr>pt_state := Running, pt_fencing_token := token\<rparr>) (psm_timers st)\<rparr>;
            st2 = st1\<lparr>psm_pending := remove_first (\<lambda>r. wr_run_id r = run_id_str rid) (psm_pending st1)\<rparr>;
            st3 = st2\<lparr>psm_active_runs := bt_insert (run_id_str rid)
                       \<lparr>pa_timer_id = tid, pa_run_id = rid, pa_worker_id = worker,
                        pa_fencing_token = token, pa_attempt = attempt,
                        pa_lease_deadline = deadline\<rparr> (psm_active_runs st2)\<rparr>
        in push_history (run_entry ''RUN_CLAIMED'' (timer_id_str tid)
             (timer_tenant st3 (timer_id_str tid)) (run_id_str rid) worker [] token) st3)"

text \<open>The guard of both outcomes: the run is active, and worker and token are those of its
  claim.\<close>

definition owned_run :: "run_id \<Rightarrow> string \<Rightarrow> u64 \<Rightarrow> state_machine \<Rightarrow> persisted_active_run option" where
  "owned_run rid worker token st =
     (case bt_get (psm_active_runs st) (run_id_str rid) of
        None \<Rightarrow> None
      | Some active \<Rightarrow>
          if pa_worker_id active = worker \<and> pa_fencing_token active = token
          then Some active else None)"

definition drop_active :: "run_id \<Rightarrow> state_machine \<Rightarrow> state_machine" where
  "drop_active rid st =
     st\<lparr>psm_active_runs := bt_remove (run_id_str rid) (psm_active_runs st)\<rparr>"

definition apply_complete_run ::
  "libs \<Rightarrow> run_id \<Rightarrow> string \<Rightarrow> u64 \<Rightarrow> datetime \<Rightarrow> state_machine \<Rightarrow> state_machine res" where
  "apply_complete_run L rid worker token completed_at st =
     (case owned_run rid worker token st of
        None \<Rightarrow> Inr st
      | Some active \<Rightarrow>
          let tid = pa_timer_id active;
              st1 = set_state tid Scheduled (drop_active rid st)
          in case reschedule_timer L tid completed_at st1 of
               Inl err \<Rightarrow> Inl err
             | Inr st2 \<Rightarrow>
                 Inr (push_history (run_entry ''RUN_SUCCEEDED'' (timer_id_str tid)
                   (timer_tenant st2 (timer_id_str tid)) (run_id_str rid) worker []
                   (pa_fencing_token active)) st2))"

definition apply_fail_run ::
  "run_id \<Rightarrow> string \<Rightarrow> u64 \<Rightarrow> string \<Rightarrow> state_machine \<Rightarrow> state_machine" where
  "apply_fail_run rid worker token err st =
     (case owned_run rid worker token st of
        None \<Rightarrow> st
      | Some active \<Rightarrow>
          let tid = pa_timer_id active;
              st1 = set_state tid Dead (drop_active rid st)
          in push_history (run_entry ''RUN_FAILED'' (timer_id_str tid)
               (timer_tenant st1 (timer_id_str tid)) (run_id_str rid) worker
               [(''error'', String err)] (pa_fencing_token active)) st1)"

definition apply_expire_run_lease ::
  "run_id \<Rightarrow> worker_run option \<Rightarrow> state_machine \<Rightarrow> state_machine" where
  "apply_expire_run_lease rid replacement st =
     (case bt_get (psm_active_runs st) (run_id_str rid) of
        None \<Rightarrow> st
      | Some active \<Rightarrow>
          let st1 = drop_active rid st;
              st2 = push_history (run_entry ''RUN_LEASE_EXPIRED'' (timer_id_str (pa_timer_id active))
                      (timer_tenant st1 (timer_id_str (pa_timer_id active)))
                      (run_id_str (pa_run_id active)) (pa_worker_id active) []
                      (pa_fencing_token active)) st1
          in case replacement of
               Some r \<Rightarrow>
                 st2\<lparr>psm_timers := bt_modify (wr_timer r)
                        (\<lambda>timer. timer\<lparr>pt_state := Retrying, pt_fencing_token := wr_fencing_token r\<rparr>)
                        (psm_timers st2),
                     psm_pending := psm_pending st2 @ [r]\<rparr>
             | None \<Rightarrow> set_state (pa_timer_id active) Dead st2)"

definition apply_heartbeat_worker :: "string \<Rightarrow> datetime \<Rightarrow> state_machine \<Rightarrow> state_machine" where
  "apply_heartbeat_worker worker lease_until st =
     st\<lparr>psm_workers := bt_modify worker (\<lambda>w. w\<lparr>pw_lease_until := lease_until\<rparr>) (psm_workers st)\<rparr>"

definition apply_register_worker ::
  "string \<Rightarrow> string list \<Rightarrow> datetime \<Rightarrow> state_machine \<Rightarrow> state_machine" where
  "apply_register_worker worker tasks lease_until st =
     push_history (Object [(''type'', String ''WORKER_REGISTERED''), (''worker_id'', String worker)])
       (st\<lparr>psm_workers := bt_insert worker \<lparr>pw_tasks = tasks, pw_lease_until = lease_until\<rparr>
                            (psm_workers st)\<rparr>)"

fun apply_kron_command :: "libs \<Rightarrow> raft_command \<Rightarrow> state_machine \<Rightarrow> state_machine res" where
  "apply_kron_command L (CreateTimer spec next_run_at) st = Inr (apply_create_timer spec next_run_at st)"
| "apply_kron_command L (UpdateTimer spec next_run_at) st = Inr (apply_create_timer spec next_run_at st)"
| "apply_kron_command L (CancelTimer tid) st = Inr (apply_cancel_timer tid st)"
| "apply_kron_command L (PauseTimer tid) st = Inr (apply_pause_timer tid st)"
| "apply_kron_command L (ResumeTimer tid next_run_at) st = Inr (apply_resume_timer tid next_run_at st)"
| "apply_kron_command L (ClaimRun tid rid worker token attempt deadline) st =
     Inr (apply_claim_run tid rid worker token attempt deadline st)"
| "apply_kron_command L (CompleteRun rid worker token completed_at) st =
     apply_complete_run L rid worker token completed_at st"
| "apply_kron_command L (FailRun rid worker token err failed_at) st =
     Inr (apply_fail_run rid worker token err st)"
| "apply_kron_command L (ExpireRunLease rid replacement expired_at) st =
     Inr (apply_expire_run_lease rid replacement st)"
| "apply_kron_command L (HeartbeatWorker worker lease_until) st =
     Inr (apply_heartbeat_worker worker lease_until st)"
| "apply_kron_command L (RegisterWorker worker tasks lease_until) st =
     Inr (apply_register_worker worker tasks lease_until st)"
| "apply_kron_command L (UnregisterWorker worker) st =
     Inr (st\<lparr>psm_workers := bt_remove worker (psm_workers st)\<rparr>)"
| "apply_kron_command L (AddNode node) st =
     Inr (st\<lparr>psm_nodes := bt_insert (ni_node_id node) node (psm_nodes st)\<rparr>)"
| "apply_kron_command L (RemoveNode node) st =
     Inr (st\<lparr>psm_nodes := bt_remove node (psm_nodes st)\<rparr>)"

section \<open>Batches of entries\<close>

definition apply_entry :: "libs \<Rightarrow> kron_entry \<Rightarrow> state_machine \<Rightarrow> state_machine res" where
  "apply_entry L entry st =
     (let st1 = st\<lparr>psm_last_applied_log_id := Some (ent_log_id entry)\<rparr> in
      case ent_payload entry of
        Blank \<Rightarrow> Inr st1
      | Normal request \<Rightarrow> apply_kron_command L (krq_command request) st1
      | MembershipChange m \<Rightarrow>
          Inr (st1\<lparr>psm_last_membership :=
                 \<lparr>sm_log_id = Some (ent_log_id entry), sm_membership = m\<rparr>\<rparr>))"

fun apply_entries :: "libs \<Rightarrow> kron_entry list \<Rightarrow> state_machine \<Rightarrow> state_machine res" where
  "apply_entries L [] st = Inr st"
| "apply_entries L (entry # entries) st =
     (case apply_entry L entry st of
        Inl err \<Rightarrow> Inl err
      | Inr st1 \<Rightarrow> apply_entries L entries st1)"

section \<open>The view of the runtime\<close>

record raft_app_state =
  app_specs :: "(string, distributed_timer_spec) btree_map"
  app_timers :: "(string, distributed_summary) btree_map"
  app_history :: "json list"
  app_pending :: "worker_run list"
  app_active_runs :: "(string, persisted_active_run) btree_map"
  app_nodes :: "(string, node_info) btree_map"

definition last_status_of :: "string \<Rightarrow> json list \<Rightarrow> string option" where
  "last_status_of tid hist =
     Option.bind (List.find (\<lambda>entry. str_field entry ''timer'' = Some tid) (rev hist))
       (\<lambda>entry. str_field entry ''type'')"

definition app_state :: "state_machine \<Rightarrow> raft_app_state" where
  "app_state st = \<lparr>
     app_specs = map (\<lambda>(tid, timer). (tid, pt_spec timer)) (psm_timers st),
     app_timers = map (\<lambda>(tid, timer). (tid, \<lparr>
         dsum_id = tid,
         dsum_tenant_id = ds_tenant_id (pt_spec timer),
         dsum_state = pt_state timer,
         dsum_target = ds_target (pt_spec timer),
         dsum_next_run_at = bt_get (psm_next_runs st) tid,
         dsum_last_status = last_status_of tid (psm_history st),
         dsum_fencing_token = pt_fencing_token timer\<rparr>)) (psm_timers st),
     app_history = psm_history st,
     app_pending = psm_pending st,
     app_active_runs = psm_active_runs st,
     app_nodes = psm_nodes st\<rparr>"

section \<open>Runs and their history\<close>

text \<open>What the helpers and commands do to the active runs and to the history.\<close>

lemma helper_runs [simp]:
  "psm_active_runs (set_state tid ts st) = psm_active_runs st"
  "psm_active_runs (set_next_run k n st) = psm_active_runs st"
  "psm_active_runs (push_history e st) = psm_active_runs st"
  "psm_active_runs (drop_active rid st) = bt_remove (run_id_str rid) (psm_active_runs st)"
  "psm_history (set_state tid ts st) = psm_history st"
  "psm_history (set_next_run k n st) = psm_history st"
  "psm_history (push_history e st) = psm_history st @ [e]"
  "psm_history (drop_active rid st) = psm_history st"
  "psm_timers (push_history e st) = psm_timers st"
  "psm_timers (drop_active rid st) = psm_timers st"
  "psm_timers (set_next_run k n st) = psm_timers st"
  "psm_next_runs (push_history e st) = psm_next_runs st"
  "psm_next_runs (drop_active rid st) = psm_next_runs st"
  "psm_next_runs (set_state tid ts st) = psm_next_runs st"
  by (simp_all add: set_state_def set_next_run_def push_history_def drop_active_def)

lemma reschedule_runs:
  "reschedule_timer L tid after st = Inr st' \<Longrightarrow>
     psm_active_runs st' = psm_active_runs st \<and> psm_history st' = psm_history st"
  by (auto simp: reschedule_timer_def split: option.splits if_splits sum.splits fault.splits)

text \<open>The entries of the history that report runs, and their fields.\<close>

definition run_types :: "string list" where
  "run_types = [''RUN_CLAIMED'', ''RUN_SUCCEEDED'', ''RUN_FAILED'', ''RUN_LEASE_EXPIRED'']"

definition run_report :: "json \<Rightarrow> bool" where
  "run_report e \<longleftrightarrow> (case str_field e ''type'' of None \<Rightarrow> False | Some ty \<Rightarrow> ty \<in> set run_types)"

definition is_claim :: "json \<Rightarrow> bool" where
  "is_claim e \<longleftrightarrow> str_field e ''type'' = Some ''RUN_CLAIMED''"

lemma run_entry_fields [simp]:
  "str_field (run_entry ty tid tenant rid worker extra token) ''type'' = Some ty"
  "str_field (run_entry ty tid tenant rid worker extra token) ''timer'' = Some tid"
  "json_get (run_entry ty tid tenant rid worker extra token) ''run_id'' = Some (String rid)"
  "json_get (run_entry ty tid tenant rid worker extra token) ''worker_id'' = Some (String worker)"
  by (simp_all add: run_entry_def str_field_def)

lemma run_entry_token [simp]:
  "map_of extra ''fencing_token'' = None \<Longrightarrow>
     json_get (run_entry ty tid tenant rid worker extra token) ''fencing_token'' = Some (json_u64 token)"
  by (simp add: run_entry_def map_add_def)

text \<open>
  The abstract contract of the run table.  A command either leaves runs alone, or claims a
  run of a timer that has none, or ends a run that is active; each change is reported by
  one entry with the run, worker and token concerned.  \<open>D\<close> holds the runs that may be
  claimed, each with its timer.
\<close>

type_synonym run_table = "(string, persisted_active_run) btree_map"

inductive run_effect ::
  "(string \<times> timer_id) set \<Rightarrow> run_table \<times> json list \<Rightarrow> run_table \<times> json list \<Rightarrow> bool"
  for D :: "(string \<times> timer_id) set" where
  quiet: "list_all (\<lambda>e. \<not> run_report e) es \<Longrightarrow> run_effect D (a, h) (a, h @ es)"
| claim: "\<not> list_ex (\<lambda>x. pa_timer_id x = pa_timer_id r) (bt_values a) \<Longrightarrow>
    e = run_entry ''RUN_CLAIMED'' (timer_id_str (pa_timer_id r)) tenant (run_id_str (pa_run_id r))
          (pa_worker_id r) [] (pa_fencing_token r) \<Longrightarrow>
    (run_id_str (pa_run_id r), pa_timer_id r) \<in> D \<Longrightarrow>
    run_effect D (a, h) (bt_insert (run_id_str (pa_run_id r)) r a, h @ [e])"
| outcome: "bt_get a k = Some r \<Longrightarrow>
    ty \<in> set (tl run_types) \<Longrightarrow> map_of extra ''fencing_token'' = None \<Longrightarrow>
    rid = k \<or> rid = run_id_str (pa_run_id r) \<Longrightarrow>
    e = run_entry ty (timer_id_str (pa_timer_id r)) tenant rid (pa_worker_id r) extra
          (pa_fencing_token r) \<Longrightarrow>
    run_effect D (a, h) (bt_remove k a, h @ [e])"

inductive_cases run_effectE: "run_effect D (a, h) (a', h')"

abbreviation runs_of :: "state_machine \<Rightarrow> run_table \<times> json list" where
  "runs_of st \<equiv> (psm_active_runs st, psm_history st)"

lemma run_effect_refl: "run_effect D (a, h) (a, h)"
  using run_effect.quiet [of "[]" D a h] by simp

lemma quiet_entry: "\<not> run_report e \<Longrightarrow> run_effect D (a, h) (a, h @ [e])"
  by (rule run_effect.quiet) simp

lemma create_effect: "run_effect D (runs_of st) (runs_of (apply_create_timer spec next_run st))"
  by (simp add: apply_create_timer_def Let_def run_report_def str_field_def run_types_def quiet_entry)

lemma register_effect:
  "run_effect D (runs_of st) (runs_of (apply_register_worker worker tasks lease st))"
  by (simp add: apply_register_worker_def run_report_def str_field_def run_types_def quiet_entry)

lemma claim_effect:
  "(run_id_str rid, tid) \<in> D \<Longrightarrow>
   run_effect D (runs_of st) (runs_of (apply_claim_run tid rid worker token attempt deadline st))"
proof (cases "list_ex (\<lambda>r. pa_timer_id r = tid) (bt_values (psm_active_runs st))")
  case True
  then show ?thesis by (simp add: apply_claim_run_def run_effect_refl)
next
  case False
  assume D: "(run_id_str rid, tid) \<in> D"
  let ?r = "\<lparr>pa_timer_id = tid, pa_run_id = rid, pa_worker_id = worker, pa_fencing_token = token,
              pa_attempt = attempt, pa_lease_deadline = deadline\<rparr>"
  from False show ?thesis
    using D run_effect.claim [of ?r "psm_active_runs st"]
    by (simp add: apply_claim_run_def Let_def)
qed

lemma owned_runD:
  "owned_run rid worker token st = Some r \<Longrightarrow>
     bt_get (psm_active_runs st) (run_id_str rid) = Some r
     \<and> pa_worker_id r = worker \<and> pa_fencing_token r = token"
  by (auto simp: owned_run_def split: option.splits if_splits)

lemma complete_effect:
  assumes "apply_complete_run L rid worker token now st = Inr st'"
  shows "run_effect D (runs_of st) (runs_of st')"
proof (cases "owned_run rid worker token st")
  case None
  with assms show ?thesis by (simp add: apply_complete_run_def run_effect_refl)
next
  case (Some r)
  with assms obtain st2 where st2:
    "reschedule_timer L (pa_timer_id r) now (set_state (pa_timer_id r) Scheduled (drop_active rid st)) = Inr st2"
    and st': "st' = push_history (run_entry ''RUN_SUCCEEDED'' (timer_id_str (pa_timer_id r))
      (timer_tenant st2 (timer_id_str (pa_timer_id r))) (run_id_str rid) worker [] (pa_fencing_token r)) st2"
    by (auto simp: apply_complete_run_def Let_def split: sum.splits)
  show ?thesis
    using run_effect.outcome [OF owned_runD [OF Some, THEN conjunct1], of "''RUN_SUCCEEDED''" "[]" "run_id_str rid"]
      owned_runD [OF Some] reschedule_runs [OF st2]
    by (simp add: st' run_types_def)
qed

lemma fail_effect: "run_effect D (runs_of st) (runs_of (apply_fail_run rid worker token err st))"
proof (cases "owned_run rid worker token st")
  case None
  then show ?thesis by (simp add: apply_fail_run_def run_effect_refl)
next
  case (Some r)
  then show ?thesis
    using run_effect.outcome [OF owned_runD [OF Some, THEN conjunct1], of "''RUN_FAILED''"
        "[(''error'', String err)]" "run_id_str rid"] owned_runD [OF Some]
    by (simp add: apply_fail_run_def Let_def run_types_def)
qed

lemma expire_effect:
  "run_effect D (runs_of st) (runs_of (apply_expire_run_lease rid replacement st))"
proof (cases "bt_get (psm_active_runs st) (run_id_str rid)")
  case None
  then show ?thesis by (simp add: apply_expire_run_lease_def run_effect_refl)
next
  case (Some r)
  then show ?thesis
    using run_effect.outcome [OF Some, of "''RUN_LEASE_EXPIRED''" "[]" "run_id_str (pa_run_id r)"]
    by (simp add: apply_expire_run_lease_def Let_def run_types_def split: option.split)
qed

text \<open>Every command implements the contract.\<close>

fun claims_of :: "raft_command \<Rightarrow> (string \<times> timer_id) set" where
  "claims_of (ClaimRun tid rid _ _ _ _) = {(run_id_str rid, tid)}"
| "claims_of _ = {}"

lemma command_effect:
  assumes "apply_kron_command L c st = Inr st'" "claims_of c \<subseteq> D"
  shows "run_effect D (runs_of st) (runs_of st')"
proof (cases c)
  case (CompleteRun rid worker token now)
  then show ?thesis using assms complete_effect by simp
qed (use assms create_effect register_effect claim_effect fail_effect expire_effect run_effect_refl in
      \<open>simp_all add: apply_cancel_timer_def apply_pause_timer_def apply_resume_timer_def
        apply_heartbeat_worker_def, auto\<close>)

section \<open>Invariants of the run table\<close>

text \<open>A property of the run table and the history that every effect keeps holds after any
  batch of entries.\<close>

definition entry_claims :: "kron_entry \<Rightarrow> (string \<times> timer_id) set" where
  "entry_claims entry =
     (case ent_payload entry of Normal request \<Rightarrow> claims_of (krq_command request) | _ \<Rightarrow> {})"

locale run_invariant =
  fixes D :: "(string \<times> timer_id) set"
    and J :: "run_table \<times> json list \<Rightarrow> bool"
  assumes initial: "J ([], [])"
    and keep: "run_effect D x y \<Longrightarrow> J x \<Longrightarrow> J y"
begin

lemma keep_entry:
  assumes "apply_entry L entry st = Inr st'" "entry_claims entry \<subseteq> D" "J (runs_of st)"
  shows "J (runs_of st')"
proof (cases "ent_payload entry")
  case (Normal request)
  then have "run_effect D (runs_of st) (runs_of st')"
    using assms(1,2) command_effect [of L "krq_command request" "st\<lparr>psm_last_applied_log_id := Some (ent_log_id entry)\<rparr>"]
    by (simp add: apply_entry_def entry_claims_def)
  then show ?thesis using assms(3) by (rule keep)
qed (use assms in \<open>auto simp: apply_entry_def Let_def\<close>)

lemma keep_entries:
  "apply_entries L es st = Inr st' \<Longrightarrow> (\<Union>e\<in>set es. entry_claims e) \<subseteq> D \<Longrightarrow> J (runs_of st)
     \<Longrightarrow> J (runs_of st')"
  by (induction es arbitrary: st) (auto split: sum.splits dest: keep_entry)

lemma from_default:
  "apply_entries L es default_state_machine = Inr st' \<Longrightarrow> (\<Union>e\<in>set es. entry_claims e) \<subseteq> D
     \<Longrightarrow> J (runs_of st')"
  by (erule keep_entries) (simp_all add: default_state_machine_def initial)

end

text \<open>Every active run stands under its own identifier, and no two are of one timer.\<close>

definition one_run :: "run_table \<Rightarrow> bool" where
  "one_run a \<longleftrightarrow> bt_sorted a
     \<and> (\<forall>k r. bt_get a k = Some r \<longrightarrow> run_id_str (pa_run_id r) = k)
     \<and> (\<forall>k k' r r'. bt_get a k = Some r \<longrightarrow> bt_get a k' = Some r'
          \<longrightarrow> pa_timer_id r = pa_timer_id r' \<longrightarrow> k = k')"

lemma no_run_of_timer:
  "bt_sorted a \<Longrightarrow> list_ex (\<lambda>x. pa_timer_id x = tid) (bt_values a) \<longleftrightarrow>
     (\<exists>k r. bt_get a k = Some r \<and> pa_timer_id r = tid)"
  by (simp add: list_ex_iff Bex_def bt_values_in) blast

lemma one_run_keep: "run_effect D x y \<Longrightarrow> one_run (fst x) \<Longrightarrow> one_run (fst y)"
proof (induction rule: run_effect.induct)
  case (claim r a e tenant h)
  then have "bt_sorted a" by (simp add: one_run_def)
  with claim(1) have "\<forall>k x. bt_get a k = Some x \<longrightarrow> pa_timer_id x \<noteq> pa_timer_id r"
    by (simp add: no_run_of_timer)
  with claim(4) show ?case unfolding one_run_def by (auto, blast+)
next
  case (outcome a k r ty extra rid e tenant h)
  then show ?case by (auto simp: one_run_def)
qed simp

interpretation one: run_invariant UNIV "\<lambda>x. one_run (fst x)"
  by unfold_locales (auto simp: one_run_def dest: one_run_keep)

text \<open>
  The reports about the runs of a timer, read in order: a claim opens a run, and only an
  outcome with the same run, worker and token closes it.  \<open>brackets\<close> is the claim that is
  still open, or nothing when the reports do not match up.
\<close>

definition timer_reports :: "string \<Rightarrow> json list \<Rightarrow> json list" where
  "timer_reports t h = filter (\<lambda>e. run_report e \<and> str_field e ''timer'' = Some t) h"

definition same_run :: "json \<Rightarrow> json \<Rightarrow> bool" where
  "same_run c e \<longleftrightarrow> json_get c ''run_id'' = json_get e ''run_id''
     \<and> json_get c ''worker_id'' = json_get e ''worker_id''
     \<and> json_get c ''fencing_token'' = json_get e ''fencing_token''"

fun bracket :: "json option option \<Rightarrow> json \<Rightarrow> json option option" where
  "bracket None e = None"
| "bracket (Some None) e = (if is_claim e then Some (Some e) else None)"
| "bracket (Some (Some c)) e = (if \<not> is_claim e \<and> same_run c e then Some None else None)"

definition brackets :: "json list \<Rightarrow> json option option" where
  "brackets h = foldl bracket (Some None) h"

definition claim_of :: "json \<Rightarrow> persisted_active_run \<Rightarrow> bool" where
  "claim_of c r \<longleftrightarrow> json_get c ''run_id'' = Some (String (run_id_str (pa_run_id r)))
     \<and> json_get c ''worker_id'' = Some (String (pa_worker_id r))
     \<and> json_get c ''fencing_token'' = Some (json_u64 (pa_fencing_token r))"

definition open_ok :: "run_table \<Rightarrow> string \<Rightarrow> json option option \<Rightarrow> bool" where
  "open_ok a t b \<longleftrightarrow>
     (case b of
        None \<Rightarrow> False
      | Some None \<Rightarrow> \<forall>k r. bt_get a k = Some r \<longrightarrow> timer_id_str (pa_timer_id r) \<noteq> t
      | Some (Some c) \<Rightarrow>
          \<exists>k r. bt_get a k = Some r \<and> timer_id_str (pa_timer_id r) = t \<and> claim_of c r)"

definition claims_open :: "(string \<times> timer_id) set \<Rightarrow> run_table \<times> json list \<Rightarrow> bool" where
  "claims_open D x \<longleftrightarrow> one_run (fst x)
     \<and> (\<forall>k r. bt_get (fst x) k = Some r \<longrightarrow> (k, pa_timer_id r) \<in> D)
     \<and> (\<forall>t. open_ok (fst x) t (brackets (timer_reports t (snd x))))"

lemma timer_reports_append:
  "timer_reports t (h @ es) = timer_reports t h @ timer_reports t es"
  by (simp add: timer_reports_def)

lemma timer_reports_quiet: "list_all (\<lambda>e. \<not> run_report e) es \<Longrightarrow> timer_reports t es = []"
  by (auto simp: timer_reports_def list_all_iff)

lemma timer_reports_run:
  "ty \<in> set run_types \<Longrightarrow>
     timer_reports t [run_entry ty tid tenant rid worker extra token] =
       (if tid = t then [run_entry ty tid tenant rid worker extra token] else [])"
  by (auto simp: timer_reports_def run_report_def)

lemma timer_id_str_eq: "timer_id_str t = timer_id_str t' \<longleftrightarrow> t = t'"
  by (cases t; cases t') simp

lemma open_claim_step:
  assumes "claims_open D (a, h)" "bt_get a k = None" "run_id_str (pa_run_id r) = k"
    and "\<forall>k x. bt_get a k = Some x \<longrightarrow> pa_timer_id x \<noteq> pa_timer_id r"
    and "e = run_entry ''RUN_CLAIMED'' (timer_id_str (pa_timer_id r)) tenant k
          (pa_worker_id r) [] (pa_fencing_token r)"
  shows "open_ok (bt_insert k r a) t (brackets (timer_reports t (h @ [e])))"
proof -
  have old: "open_ok a t (brackets (timer_reports t h))"
    using assms(1) by (simp add: claims_open_def)
  show ?thesis
  proof (cases "timer_id_str (pa_timer_id r) = t")
    case True
    then have "brackets (timer_reports t h) = Some None"
      using old assms(4) by (fastforce simp: open_ok_def timer_id_str_eq split: option.splits)
    then show ?thesis
      using True assms(3)
      by (auto simp: assms(5) timer_reports_append timer_reports_run run_types_def brackets_def
          is_claim_def open_ok_def claim_of_def)
  next
    case False
    then show ?thesis
      using old assms(2)
      by (auto simp: assms(5) timer_reports_append timer_reports_run run_types_def open_ok_def
          split: option.splits) (metis option.distinct(1))
  qed
qed

lemma open_outcome_step:
  assumes "claims_open D (a, h)" "bt_get a k = Some r" "ty \<in> set (tl run_types)"
    and "map_of extra ''fencing_token'' = None"
    and "e = run_entry ty (timer_id_str (pa_timer_id r)) tenant k (pa_worker_id r) extra
          (pa_fencing_token r)"
  shows "open_ok (bt_remove k a) t (brackets (timer_reports t (h @ [e])))"
proof -
  have old: "open_ok a t (brackets (timer_reports t h))" and one: "one_run a"
    using assms(1) by (simp_all add: claims_open_def)
  have ty: "ty \<in> set run_types" "ty \<noteq> ''RUN_CLAIMED''"
    using assms(3) by (auto simp: run_types_def)
  have same: "k' = k" if "bt_get a k' = Some x" "pa_timer_id x = pa_timer_id r" for k' x
    using that one assms(2) by (auto simp: one_run_def)
  show ?thesis
  proof (cases "timer_id_str (pa_timer_id r) = t")
    case True
    then obtain c where c: "brackets (timer_reports t h) = Some (Some c)" "claim_of c r"
      using old assms(2) same by (fastforce simp: open_ok_def timer_id_str_eq split: option.splits)
    have "run_id_str (pa_run_id r) = k" using one assms(2) by (simp add: one_run_def)
    then have "brackets (timer_reports t (h @ [e])) = Some None"
      using True c ty assms(4)
      by (simp add: assms(5) timer_reports_append timer_reports_run brackets_def is_claim_def
          same_run_def claim_of_def)
    then show ?thesis
      using True same by (auto simp: open_ok_def timer_id_str_eq)
  next
    case False
    then show ?thesis
      using old ty assms(2)
      by (auto simp: assms(5) timer_reports_append timer_reports_run open_ok_def
          split: option.splits) (metis option.inject)
  qed
qed

lemma claims_open_keep:
  assumes "single_valued D"
  shows "run_effect D x y \<Longrightarrow> claims_open D x \<Longrightarrow> claims_open D y"
proof (induction rule: run_effect.induct)
  case (quiet es a h)
  then show ?case by (simp add: claims_open_def timer_reports_append timer_reports_quiet)
next
  case (claim r a e tenant h)
  let ?k = "run_id_str (pa_run_id r)"
  have one: "one_run a" and own: "\<forall>k r. bt_get a k = Some r \<longrightarrow> (k, pa_timer_id r) \<in> D"
    using claim(4) by (simp_all add: claims_open_def)
  have other: "\<forall>k x. bt_get a k = Some x \<longrightarrow> pa_timer_id x \<noteq> pa_timer_id r"
    using claim(1) one by (simp add: no_run_of_timer one_run_def)
  then have "bt_get a ?k = None"
    using own claim(3) single_valuedD [OF assms] by (metis not_Some_eq)
  moreover have "one_run (bt_insert ?k r a)"
    using one_run_keep [OF run_effect.claim [OF claim(1,2,3), of h]] one by simp
  ultimately show ?case
    using open_claim_step [OF claim(4) _ refl other claim(2)] own claim(3)
    by (auto simp: claims_open_def)
next
  case (outcome a k r ty extra rid e tenant h)
  have one: "one_run a" and own: "\<forall>k r. bt_get a k = Some r \<longrightarrow> (k, pa_timer_id r) \<in> D"
    using outcome(6) by (simp_all add: claims_open_def)
  then have "rid = k" using outcome(1,4) by (auto simp: one_run_def)
  moreover have "one_run (bt_remove k a)"
    using one by (auto simp: one_run_def)
  ultimately show ?case
    using open_outcome_step [OF outcome(6,1,2,3), of e tenant] outcome(5) own
    by (auto simp: claims_open_def)
qed

lemma claims_invariant:
  assumes "single_valued D"
  shows "run_invariant D (claims_open D)"
proof
  show "claims_open D ([], [])"
    by (simp add: claims_open_def one_run_def open_ok_def timer_reports_def brackets_def)
  show "run_effect D x y \<Longrightarrow> claims_open D x \<Longrightarrow> claims_open D y" for x y
    by (rule claims_open_keep [OF assms])
qed

section \<open>Properties of runs\<close>

text \<open>C14: at most one active run per timer.  Whatever entries the cluster commits, and in
  whatever order claims, outcomes and expirations arrive, every active run stands under its
  own identifier and no two active runs belong to the same timer.\<close>

theorem one_active_run_per_timer:
  assumes "apply_entries L es default_state_machine = Inr st"
  shows "(\<forall>k r. bt_get (psm_active_runs st) k = Some r \<longrightarrow> run_id_str (pa_run_id r) = k)
    \<and> (\<forall>k k' r r'. bt_get (psm_active_runs st) k = Some r \<longrightarrow> bt_get (psm_active_runs st) k' = Some r'
         \<longrightarrow> pa_timer_id r = pa_timer_id r' \<longrightarrow> k = k')"
  using one.from_default [OF assms] by (auto simp: one_run_def)

text \<open>C15: outcomes match claims.  If no run identifier is claimed for two timers, then in the
  history of every timer claims and outcomes alternate, each outcome names the run, worker and
  fencing token of the claim just before it, and a claim is open exactly when a run of the
  timer is active, with the same run, worker and token.\<close>

theorem outcomes_match_claims:
  assumes "apply_entries L es default_state_machine = Inr st"
    and "single_valued (\<Union>e\<in>set es. entry_claims e)"
  shows "open_ok (psm_active_runs st) t (brackets (timer_reports t (psm_history st)))"
  using run_invariant.from_default [OF claims_invariant [OF assms(2)] assms(1)]
  by (simp add: claims_open_def)

text \<open>C16: only the owner ends a run, and only once.  A reported success or failure that
  changes anything comes from the worker and the fencing token under which the run is active;
  it removes exactly that run from the table, and reporting it again changes nothing.\<close>

theorem outcome_requires_ownership:
  assumes "c = CompleteRun rid worker token now \<or> c = FailRun rid worker token err now"
    and "apply_kron_command L c st = Inr st'" "st' \<noteq> st"
  shows "(\<exists>r. bt_get (psm_active_runs st) (run_id_str rid) = Some r \<and> pa_worker_id r = worker
            \<and> pa_fencing_token r = token)
    \<and> psm_active_runs st' = bt_remove (run_id_str rid) (psm_active_runs st)
    \<and> apply_kron_command L c st' = Inr st'"
proof -
  obtain r where r: "owned_run rid worker token st = Some r"
    using assms by (cases "owned_run rid worker token st") (auto simp: apply_complete_run_def apply_fail_run_def)
  have removed: "psm_active_runs st' = bt_remove (run_id_str rid) (psm_active_runs st)"
    using assms(1,2) r
    by (auto simp: apply_complete_run_def apply_fail_run_def Let_def split: sum.splits dest!: reschedule_runs)
  then have "owned_run rid worker token st' = None" by (simp add: owned_run_def)
  then have "apply_kron_command L c st' = Inr st'"
    using assms(1) by (auto simp: apply_complete_run_def apply_fail_run_def)
  with removed owned_runD [OF r] show ?thesis by auto
qed

section \<open>Commands touch the timer they are about\<close>

fun touched :: "raft_command \<Rightarrow> state_machine \<Rightarrow> string set" where
  "touched (CreateTimer spec _) st = {timer_id_str (ds_id spec)}"
| "touched (UpdateTimer spec _) st = {timer_id_str (ds_id spec)}"
| "touched (CancelTimer tid) st = {timer_id_str tid}"
| "touched (PauseTimer tid) st = {timer_id_str tid}"
| "touched (ResumeTimer tid _) st = {timer_id_str tid}"
| "touched (ClaimRun tid _ _ _ _ _) st = {timer_id_str tid}"
| "touched (CompleteRun rid _ _ _) st =
     (\<lambda>r. timer_id_str (pa_timer_id r)) ` set_option (bt_get (psm_active_runs st) (run_id_str rid))"
| "touched (FailRun rid _ _ _ _) st =
     (\<lambda>r. timer_id_str (pa_timer_id r)) ` set_option (bt_get (psm_active_runs st) (run_id_str rid))"
| "touched (ExpireRunLease rid replacement _) st =
     (\<lambda>r. timer_id_str (pa_timer_id r)) ` set_option (bt_get (psm_active_runs st) (run_id_str rid))
     \<union> wr_timer ` set_option replacement"
| "touched _ st = {}"

definition timer_view_of :: "state_machine \<Rightarrow> string \<Rightarrow> persisted_timer option \<times> datetime option" where
  "timer_view_of st t = (bt_get (psm_timers st) t, bt_get (psm_next_runs st) t)"

lemma timer_view_helpers [simp]:
  "t \<noteq> timer_id_str tid \<Longrightarrow> timer_view_of (set_state tid ts st) t = timer_view_of st t"
  "t \<noteq> k \<Longrightarrow> timer_view_of (set_next_run k n st) t = timer_view_of st t"
  "timer_view_of (push_history e st) t = timer_view_of st t"
  "timer_view_of (drop_active rid st) t = timer_view_of st t"
  by (auto simp: timer_view_of_def set_state_def set_next_run_def push_history_def drop_active_def
      split: option.split)

lemma reschedule_view:
  "reschedule_timer L tid now st = Inr st' \<Longrightarrow> t \<noteq> timer_id_str tid \<Longrightarrow>
     timer_view_of st' t = timer_view_of st t"
  by (auto simp: reschedule_timer_def split: option.splits if_splits sum.splits fault.splits)

lemma other_commands_view:
  "t \<noteq> timer_id_str (ds_id spec) \<Longrightarrow>
     timer_view_of (apply_create_timer spec n st) t = timer_view_of st t"
  "t \<noteq> timer_id_str tid \<Longrightarrow> timer_view_of (apply_cancel_timer tid st) t = timer_view_of st t"
  "t \<noteq> timer_id_str tid \<Longrightarrow> timer_view_of (apply_pause_timer tid st) t = timer_view_of st t"
  "t \<noteq> timer_id_str tid \<Longrightarrow> timer_view_of (apply_resume_timer tid n st) t = timer_view_of st t"
  "t \<noteq> timer_id_str tid \<Longrightarrow>
     timer_view_of (apply_claim_run tid rid worker token attempt deadline st) t = timer_view_of st t"
  "timer_view_of (apply_heartbeat_worker worker lease st) t = timer_view_of st t"
  "timer_view_of (apply_register_worker worker tasks lease st) t = timer_view_of st t"
  "timer_view_of (st\<lparr>psm_workers := w\<rparr>) t = timer_view_of st t"
  "timer_view_of (st\<lparr>psm_nodes := nodes\<rparr>) t = timer_view_of st t"
  by (simp_all add: apply_create_timer_def apply_cancel_timer_def apply_pause_timer_def
      apply_resume_timer_def apply_claim_run_def apply_heartbeat_worker_def
      apply_register_worker_def Let_def, simp_all add: timer_view_of_def)

lemma expire_view:
  "t \<notin> touched (ExpireRunLease rid replacement now) st \<Longrightarrow>
     timer_view_of (apply_expire_run_lease rid replacement st) t = timer_view_of st t"
  by (cases replacement)
     (auto simp: apply_expire_run_lease_def Let_def split: option.split, auto simp: timer_view_of_def)

lemma command_view:
  assumes "apply_kron_command L c st = Inr st'" "t \<notin> touched c st"
  shows "timer_view_of st' t = timer_view_of st t"
proof (cases c)
  case (CompleteRun rid worker token now)
  with assms show ?thesis
    by (auto simp: apply_complete_run_def Let_def split: option.splits sum.splits
        dest!: owned_runD dest: reschedule_view)
next
  case (FailRun rid worker token err now)
  with assms show ?thesis
    by (auto simp: apply_fail_run_def Let_def split: option.splits dest!: owned_runD)
qed (use assms in \<open>auto simp: other_commands_view expire_view\<close>)

text \<open>A command touches only the timer it is about.  The specification, lifecycle state,
  fencing token and next run of every other timer are the same before and after.\<close>

theorem command_frame:
  assumes "apply_kron_command L c st = Inr st'" "t \<notin> touched c st"
  shows "bt_get (psm_timers st') t = bt_get (psm_timers st) t
    \<and> bt_get (psm_next_runs st') t = bt_get (psm_next_runs st) t"
  using command_view [OF assms] by (simp add: timer_view_of_def)

section \<open>Witnesses\<close>

definition sample_dspec :: distributed_timer_spec where
  "sample_dspec = \<lparr>ds_id = TimerId ''digest'', ds_tenant_id = Some ''acme'', ds_schedule = Every 60,
     ds_retry = no_retry, ds_timezone = ''UTC'', ds_target = WorkerTask ''mail'' Null,
     ds_created_at = 0\<rparr>"

definition sample_entry :: "u64 \<Rightarrow> raft_command \<Rightarrow> kron_entry" where
  "sample_entry n c = \<lparr>ent_log_id = \<lparr>lid_term = 1, lid_node = 1, lid_index = n\<rparr>,
     ent_payload = Normal \<lparr>krq_command = c\<rparr>\<rparr>"

text \<open>A timer is created; two workers claim it, the second in vain.\<close>

definition sample_claims :: "kron_entry list" where
  "sample_claims =
     [sample_entry 1 (CreateTimer sample_dspec (Some 60000000000)),
      sample_entry 2 (ClaimRun (TimerId ''digest'') (RunId ''r1'') ''w1'' 1 1 90000000000),
      sample_entry 3 (ClaimRun (TimerId ''digest'') (RunId ''r2'') ''w2'' 1 1 90000000000)]"

definition sample_machine :: state_machine where
  "sample_machine =
     (case apply_entries minute_libs sample_claims default_state_machine of
        Inr st \<Rightarrow> st | Inl _ \<Rightarrow> default_state_machine)"

lemmas sample_defs = sample_machine_def sample_claims_def sample_entry_def sample_dspec_def

lemma sample_applied:
  "apply_entries minute_libs sample_claims default_state_machine = Inr sample_machine"
  by (simp add: sample_defs apply_entry_def apply_create_timer_def apply_claim_run_def Let_def
      default_state_machine_def push_history_def set_next_run_def bt_values_def)

lemma sample_machine_active:
  "psm_active_runs sample_machine = [(''r1'', \<lparr>pa_timer_id = TimerId ''digest'',
     pa_run_id = RunId ''r1'', pa_worker_id = ''w1'', pa_fencing_token = 1, pa_attempt = 1,
     pa_lease_deadline = 90000000000\<rparr>)]"
  by (simp add: sample_defs apply_entry_def apply_create_timer_def apply_claim_run_def Let_def
      default_state_machine_def push_history_def set_next_run_def bt_values_def)

theorem one_active_run_per_timer_witness:
  "apply_entries minute_libs sample_claims default_state_machine = Inr sample_machine
    \<and> map fst (psm_active_runs sample_machine) = [''r1'']
    \<and> run_id_str (pa_run_id (snd (hd (psm_active_runs sample_machine)))) = ''r1''"
proof -
  obtain r where r: "psm_active_runs sample_machine = [(''r1'', r)]"
    by (simp add: sample_machine_active)
  then have "bt_get (psm_active_runs sample_machine) ''r1'' = Some r" by (simp add: bt_get_def)
  then have "run_id_str (pa_run_id r) = ''r1''"
    using one_active_run_per_timer [OF sample_applied] by blast
  with r sample_applied show ?thesis by simp
qed

lemma sample_claims_single: "single_valued (\<Union>e\<in>set sample_claims. entry_claims e)"
  by (simp add: sample_claims_def sample_entry_def entry_claims_def single_valued_def)

theorem outcomes_match_claims_witness:
  "single_valued (\<Union>e\<in>set sample_claims. entry_claims e)
    \<and> open_ok (psm_active_runs sample_machine) ''digest''
        (brackets (timer_reports ''digest'' (psm_history sample_machine)))"
  using outcomes_match_claims [OF sample_applied sample_claims_single] sample_claims_single by blast

theorem outcome_requires_ownership_witness:
  "\<exists>st'. apply_kron_command minute_libs (FailRun (RunId ''r1'') ''w1'' 1 ''boom'' 0) sample_machine = Inr st'
    \<and> st' \<noteq> sample_machine
    \<and> psm_active_runs st' = bt_remove ''r1'' (psm_active_runs sample_machine)
    \<and> apply_kron_command minute_libs (FailRun (RunId ''r1'') ''w1'' 1 ''boom'' 0) st' = Inr st'"
proof -
  let ?c = "FailRun (RunId ''r1'') ''w1'' 1 ''boom'' 0"
  obtain st' where st': "apply_kron_command minute_libs ?c sample_machine = Inr st'" by simp
  have "length (psm_history st') \<noteq> length (psm_history sample_machine)"
    using st' by (auto simp: apply_fail_run_def owned_run_def sample_machine_active bt_get_def Let_def)
  then have "st' \<noteq> sample_machine" by blast
  then show ?thesis
    using outcome_requires_ownership [OF disjI2 [OF refl] st'] st' by auto
qed

theorem command_frame_witness:
  "''other'' \<notin> touched (CancelTimer (TimerId ''digest'')) sample_machine
    \<and> bt_get (psm_timers (apply_cancel_timer (TimerId ''digest'') sample_machine)) ''other''
        = bt_get (psm_timers sample_machine) ''other''"
  using command_frame [of minute_libs "CancelTimer (TimerId ''digest'')" sample_machine
      "apply_cancel_timer (TimerId ''digest'') sample_machine" "''other''"] by simp

end
