(* ===== verification/Kron_Runtime.thy ===== *)
theory Kron_Runtime
  imports Kron_Auth Kron_Raft_State
begin

text \<open>
  The operations of a cluster node (openraft_adapter/runtime.rs): what the HTTP handlers do with the
  replicated state.  The raft library is a parameter of every request: whether the node is a
  leader that may answer, and for each write either its failure or the commands of other clients
  that are committed before the one of this request.  Clock readings, random identifiers and the
  JSON text of values are parameters too.
\<close>

section \<open>Nodes and requests\<close>

record node_conf =
  nc_node_id :: u64
  nc_node_name :: string
  nc_http_addr :: string
  nc_raft_addr :: string

text \<open>What the raft library says of itself: whether \<open>ensure_linearizable\<close> succeeds, \<open>current_leader\<close>,
  and the rest of its metrics, of which the node shows the JSON.\<close>

record raft_view =
  rv_linearizable :: bool
  rv_leader :: "u64 option"

record raft_metrics =
  mt_state :: string
  mt_last_log_index :: "u64 option"
  mt_last_applied :: json
  mt_membership :: json

datatype write_outcome = Committed "raft_command list" | WriteError string

text \<open>
  What surrounds one request.  Clock readings, writes and attempts are numbered in the order of
  the code.  \<open>rq_polls\<close> is the number of attempts a poll repeats before its deadline of 20 seconds
  passes or the node shuts down, \<open>rq_others k\<close> what other clients get committed while it sleeps
  before attempt \<open>k\<close>.  The last fields are the voters, the errors of the membership calls of the
  raft library, and its metrics.
\<close>

record request_env =
  rq_libs :: libs
  rq_text :: "json \<Rightarrow> string"
  rq_summary_json :: "distributed_summary \<Rightarrow> json"
  rq_run_json :: "worker_run \<Rightarrow> json"
  rq_view :: raft_view
  rq_now :: "nat \<Rightarrow> datetime"
  rq_write :: "nat \<Rightarrow> write_outcome"
  rq_ulid :: "nat \<Rightarrow> string"
  rq_lease_var :: "string option"
  rq_polls :: nat
  rq_others :: "nat \<Rightarrow> raft_command list"
  rq_voters :: "u64 list"
  rq_add_learner :: "u64 \<Rightarrow> string \<Rightarrow> string option"
  rq_change_membership :: "u64 list \<Rightarrow> string option"
  rq_metrics :: raft_metrics

definition parse_node_id :: "string \<Rightarrow> u64" where
  "parse_node_id name =
     (case parse_unsigned 64 (filter (\<lambda>c. digit_val c \<noteq> None) name) of
        Some n \<Rightarrow> of_nat n
      | None \<Rightarrow> foldl (\<lambda>hash byte. (hash XOR ucast byte) * 1099511628211) 1469598103934665603 (as_bytes name))"

definition worker_lease_seconds :: "string option \<Rightarrow> u64" where
  "worker_lease_seconds var =
     (case Option.bind var (parse_unsigned 64) of
        Some n \<Rightarrow> if 0 < n then of_nat n else 30
      | None \<Rightarrow> 30)"

definition is_some :: "'a option \<Rightarrow> bool" where
  "is_some x \<longleftrightarrow> x \<noteq> None"

definition parse_request_schedule :: "libs \<Rightarrow> datetime \<Rightarrow> create_timer_request \<Rightarrow> schedule res" where
  "parse_request_schedule L now request =
     (if length (filter (\<lambda>v. v) [is_some (cr_cron request), is_some (cr_every request),
                                is_some (cr_after request), is_some (cr_at request)]) \<noteq> 1
      then Inl (Err (InvalidCron ''expected exactly one of cron, every, after, at''))
      else case cr_cron request of
        Some e \<Rightarrow> Inr (Cron e)
      | None \<Rightarrow>
      case cr_every request of
        Some every \<Rightarrow> (case parse_duration_str every of Inl err \<Rightarrow> Inl err | Inr n \<Rightarrow> Inr (Every n))
      | None \<Rightarrow>
      case cr_after request of
        Some after \<Rightarrow> (case parse_duration_str after of Inl err \<Rightarrow> Inl err | Inr n \<Rightarrow> Inr (After n now))
      | None \<Rightarrow>
      case cr_at request of
        Some at \<Rightarrow>
          (case parse_rfc3339 L at of
             Inl err \<Rightarrow> Inl (Err (InvalidCron (''invalid at datetime: '' @ err)))
           | Inr t \<Rightarrow> Inr (At t))
      | None \<Rightarrow> Inl (Panic ''selected at''))"

section \<open>Writing through the raft library\<close>

fun apply_commands :: "libs \<Rightarrow> raft_command list \<Rightarrow> state_machine \<Rightarrow> state_machine res" where
  "apply_commands L [] st = Inr st"
| "apply_commands L (c # cs) st =
     (case apply_kron_command L c st of Inl f \<Rightarrow> Inl f | Inr st1 \<Rightarrow> apply_commands L cs st1)"

text \<open>A write that is committed is applied after the commands \<open>before\<close> that were committed meanwhile.  A
  write that fails changes nothing at that time; should the library still commit its command later,
  the command is one of those that a later write or a sleeping poll finds committed.\<close>

definition write_command ::
  "request_env \<Rightarrow> nat \<Rightarrow> raft_command \<Rightarrow> state_machine \<Rightarrow> unit res \<times> state_machine" where
  "write_command R k c st =
     (case rq_write R k of
        WriteError err \<Rightarrow> (Inl (Err (IpcUnavailable err)), st)
      | Committed before \<Rightarrow>
          (case apply_commands (rq_libs R) (before @ [c]) st of
             Inl f \<Rightarrow> (Inl f, st)
           | Inr st1 \<Rightarrow> (Inr (), st1)))"

definition not_leader_response :: "node_conf \<Rightarrow> raft_view \<Rightarrow> state_machine \<Rightarrow> json" where
  "not_leader_response N V st =
     (let leader_http =
            Option.bind (rv_leader V) (\<lambda>leader.
              if leader = nc_node_id N then Some (nc_http_addr N)
              else map_option ni_http_addr
                     (List.find (\<lambda>node. parse_node_id (ni_node_id node) = leader)
                       (bt_values (app_nodes (app_state st)))))
      in Object [(''error'', String ''not_leader''),
           (''leader_id'', (case rv_leader V of None \<Rightarrow> Null | Some i \<Rightarrow> json_u64 i)),
           (''leader_http'', opt_string leader_http)])"

definition ensure_leader :: "node_conf \<Rightarrow> request_env \<Rightarrow> state_machine \<Rightarrow> unit res" where
  "ensure_leader N R st =
     (if rv_linearizable (rq_view R) then Inr ()
      else Inl (Err (IpcUnavailable (rq_text R (not_leader_response N (rq_view R) st)))))"

section \<open>Reading\<close>

definition list_all_timers :: "state_machine \<Rightarrow> distributed_summary list" where
  "list_all_timers st = bt_values (app_timers (app_state st))"

definition list_for_tenant :: "string option \<Rightarrow> state_machine \<Rightarrow> distributed_summary list" where
  "list_for_tenant tenant st =
     filter (\<lambda>s. tenant_matches tenant (dsum_tenant_id s)) (list_all_timers st)"

definition timer_status :: "string \<Rightarrow> state_machine \<Rightarrow> distributed_summary option" where
  "timer_status name st = bt_get (app_timers (app_state st)) name"

definition status_for_tenant ::
  "string \<Rightarrow> string option \<Rightarrow> state_machine \<Rightarrow> distributed_summary option" where
  "status_for_tenant name tenant st =
     Option.bind (timer_status name st)
       (\<lambda>s. if tenant_matches tenant (dsum_tenant_id s) then Some s else None)"

definition timer_history :: "string \<Rightarrow> state_machine \<Rightarrow> json list" where
  "timer_history name st =
     filter (\<lambda>entry. str_field entry ''timer'' = Some name) (app_history (app_state st))"

definition history_for_tenant :: "string \<Rightarrow> string option \<Rightarrow> state_machine \<Rightarrow> json list" where
  "history_for_tenant name tenant st =
     filter (\<lambda>entry. tenant_matches tenant (str_field entry ''tenant_id'')) (timer_history name st)"

section \<open>Timers and workers\<close>

definition scoped_request ::
  "create_timer_request \<Rightarrow> string option \<Rightarrow> create_timer_request res" where
  "scoped_request request tenant =
     (case tenant of
        None \<Rightarrow> Inr request
      | Some scoped \<Rightarrow>
          if (case cr_tenant_id request of None \<Rightarrow> False | Some requested \<Rightarrow> requested \<noteq> scoped)
          then Inl (Err (IpcUnavailable ''token tenant does not match requested tenant''))
          else Inr (request\<lparr>cr_tenant_id := Some scoped\<rparr>))"

definition spec_of_request ::
  "create_timer_request \<Rightarrow> schedule \<Rightarrow> datetime \<Rightarrow> distributed_timer_spec" where
  "spec_of_request request sched now =
     \<lparr>ds_id = TimerId (cr_name request), ds_tenant_id = cr_tenant_id request, ds_schedule = sched,
      ds_retry = default_retry\<lparr>max_attempts := unwrap_or (cr_max_attempts request) 3\<rparr>,
      ds_timezone = unwrap_or (cr_timezone request) ''UTC'',
      ds_target = WorkerTask (cr_task request) (unwrap_or (cr_payload request) Null),
      ds_created_at = now\<rparr>"

definition create_timer ::
  "node_conf \<Rightarrow> request_env \<Rightarrow> create_timer_request \<Rightarrow> string option \<Rightarrow> state_machine
   \<Rightarrow> distributed_summary res \<times> state_machine" where
  "create_timer N R request0 tenant st =
     (case ensure_leader N R st of
        Inl err \<Rightarrow> (Inl err, st)
      | Inr _ \<Rightarrow>
     (case scoped_request request0 tenant of
        Inl err \<Rightarrow> (Inl err, st)
      | Inr request \<Rightarrow>
     (case parse_request_schedule (rq_libs R) (rq_now R 0) request of
        Inl err \<Rightarrow> (Inl err, st)
      | Inr sched \<Rightarrow>
          let spec = spec_of_request request sched (rq_now R 1) in
     (case next_run_after (rq_libs R) sched (ds_created_at spec) (ds_timezone spec) of
        Inl err \<Rightarrow> (Inl err, st)
      | Inr next_run_at \<Rightarrow>
     (case write_command R 0 (CreateTimer spec next_run_at) st of
        (Inl err, st1) \<Rightarrow> (Inl err, st1)
      | (Inr _, st1) \<Rightarrow>
          (case timer_status (cr_name request) st1 of
             None \<Rightarrow> (Inl (Err (IpcUnavailable ''timer was not applied'')), st1)
           | Some s \<Rightarrow> (Inr s, st1)))))))"

definition register_worker ::
  "node_conf \<Rightarrow> request_env \<Rightarrow> worker_register_request \<Rightarrow> state_machine \<Rightarrow> json res \<times> state_machine" where
  "register_worker N R request st =
     (case ensure_leader N R st of
        Inl err \<Rightarrow> (Inl err, st)
      | Inr _ \<Rightarrow>
     (case plus_seconds (rq_libs R) (rq_now R 0)
             (unwrap_or (wreg_lease_seconds request) (worker_lease_seconds (rq_lease_var R))) of
        Inl err \<Rightarrow> (Inl err, st)
      | Inr lease_until \<Rightarrow>
     (case write_command R 0 (RegisterWorker (wreg_worker_id request) (wreg_tasks request) lease_until) st of
        (Inl err, st1) \<Rightarrow> (Inl err, st1)
      | (Inr _, st1) \<Rightarrow> (Inr (Object [(''registered'', Bool True)]), st1))))"

definition heartbeat_worker ::
  "node_conf \<Rightarrow> request_env \<Rightarrow> string \<Rightarrow> state_machine \<Rightarrow> json res \<times> state_machine" where
  "heartbeat_worker N R worker st =
     (case ensure_leader N R st of
        Inl err \<Rightarrow> (Inl err, st)
      | Inr _ \<Rightarrow>
     (case plus_seconds (rq_libs R) (rq_now R 0) (worker_lease_seconds (rq_lease_var R)) of
        Inl err \<Rightarrow> (Inl err, st)
      | Inr lease_until \<Rightarrow>
     (case write_command R 0 (HeartbeatWorker worker lease_until) st of
        (Inl err, st1) \<Rightarrow> (Inl err, st1)
      | (Inr _, st1) \<Rightarrow> (Inr (Object [(''ok'', Bool True)]), st1))))"

section \<open>Claims\<close>

fun find_map :: "('a \<Rightarrow> 'b option) \<Rightarrow> 'a list \<Rightarrow> 'b option" where
  "find_map f [] = None"
| "find_map f (x # xs) = (case f x of Some y \<Rightarrow> Some y | None \<Rightarrow> find_map f xs)"

definition claim_candidate ::
  "libs \<Rightarrow> string option \<Rightarrow> string list \<Rightarrow> datetime \<Rightarrow> string \<Rightarrow> string list \<Rightarrow> distributed_summary
   \<Rightarrow> worker_run option" where
  "claim_candidate L tenant tasks now ulid active_timer_ids s =
     (if \<not> tenant_matches tenant (dsum_tenant_id s) then None
      else if dsum_id s \<in> set active_timer_ids then None
      else case dsum_next_run_at s of
             None \<Rightarrow> None
           | Some next_run \<Rightarrow>
               if now < next_run then None
               else case dsum_target s of
                      WorkerTask task payload \<Rightarrow>
                        if \<not> list_ex (\<lambda>candidate. candidate = task) tasks then None
                        else Some \<lparr>wr_timer = dsum_id s, wr_tenant_id = dsum_tenant_id s,
                                   wr_run_id = run_id_str (new_run_id ulid), wr_task = task,
                                   wr_payload = payload, wr_attempt = 1,
                                   wr_fencing_token = dsum_fencing_token s + 1,
                                   wr_idempotency_key = dsum_id s @ '':'' @ rfc3339 L next_run\<rparr>
                    | _ \<Rightarrow> None)"

text \<open>The \<open>k\<close>-th attempt of a poll reads the clock twice and writes once; write 0 and clock reading 0
  belong to the heartbeat before.\<close>

definition try_claim ::
  "request_env \<Rightarrow> nat \<Rightarrow> string \<Rightarrow> string list \<Rightarrow> string option \<Rightarrow> state_machine
   \<Rightarrow> worker_run option res \<times> state_machine" where
  "try_claim R k worker tasks tenant st =
     (let app = app_state st;
          active_timer_ids = map (\<lambda>r. timer_id_str (pa_timer_id r)) (bt_values (app_active_runs app))
      in case find_map (claim_candidate (rq_libs R) tenant tasks (rq_now R (2 * k + 1)) (rq_ulid R k)
                          active_timer_ids) (bt_values (app_timers app)) of
           None \<Rightarrow> (Inr None, st)
         | Some run \<Rightarrow>
             (case plus_seconds (rq_libs R) (rq_now R (2 * k + 2)) (worker_lease_seconds (rq_lease_var R)) of
                Inl err \<Rightarrow> (Inl err, st)
              | Inr lease_deadline \<Rightarrow>
                  (case write_command R (k + 1)
                          (ClaimRun (TimerId (wr_timer run)) (RunId (wr_run_id run)) worker
                             (wr_fencing_token run) (wr_attempt run) lease_deadline) st of
                     (Inl err, st1) \<Rightarrow> (Inl err, st1)
                   | (Inr _, st1) \<Rightarrow>
                       let still_owner =
                             (case bt_get (app_active_runs (app_state st1)) (wr_run_id run) of
                                None \<Rightarrow> False
                              | Some active \<Rightarrow>
                                  pa_worker_id active = worker
                                  \<and> pa_fencing_token active = wr_fencing_token run)
                       in (Inr (if still_owner then Some run else None), st1))))"

text \<open>One turn of the loop of \<open>poll_worker\<close>, after what others got committed meanwhile.\<close>

definition poll_attempt ::
  "request_env \<Rightarrow> nat \<Rightarrow> string \<Rightarrow> string list \<Rightarrow> string option \<Rightarrow> state_machine
   \<Rightarrow> worker_run option res \<times> state_machine" where
  "poll_attempt R k worker tasks tenant st =
     (case apply_commands (rq_libs R) (rq_others R k) st of
        Inl f \<Rightarrow> (Inl f, st)
      | Inr st0 \<Rightarrow> try_claim R k worker tasks tenant st0)"

fun poll_loop ::
  "nat \<Rightarrow> request_env \<Rightarrow> nat \<Rightarrow> string \<Rightarrow> string list \<Rightarrow> string option \<Rightarrow> state_machine
   \<Rightarrow> worker_run option res \<times> state_machine" where
  "poll_loop n R k worker tasks tenant st =
     (case poll_attempt R k worker tasks tenant st of
        (Inl err, st1) \<Rightarrow> (Inl err, st1)
      | (Inr (Some run), st1) \<Rightarrow> (Inr (Some run), st1)
      | (Inr None, st1) \<Rightarrow>
          (case n of
             0 \<Rightarrow> (Inr None, st1)
           | Suc n' \<Rightarrow> poll_loop n' R (k + 1) worker tasks tenant st1))"

declare poll_loop.simps [simp del]

definition poll_worker ::
  "node_conf \<Rightarrow> request_env \<Rightarrow> worker_poll_request \<Rightarrow> string option \<Rightarrow> state_machine
   \<Rightarrow> worker_run option res \<times> state_machine" where
  "poll_worker N R request tenant st =
     (case ensure_leader N R st of
        Inl err \<Rightarrow> (Inl err, st)
      | Inr _ \<Rightarrow>
          (case heartbeat_worker N R (wp_worker_id request) st of
             (Inl err, st1) \<Rightarrow> (Inl err, st1)
           | (Inr _, st1) \<Rightarrow>
               poll_loop (rq_polls R) R 0 (wp_worker_id request) (wp_tasks request) tenant st1))"

section \<open>Outcomes\<close>

definition validate_active_run ::
  "string \<Rightarrow> string \<Rightarrow> u64 \<Rightarrow> string option \<Rightarrow> state_machine \<Rightarrow> unit res" where
  "validate_active_run rid worker token tenant st =
     (let app = app_state st in
      case bt_get (app_active_runs app) rid of
        None \<Rightarrow> Inl (Err (IpcUnavailable ''run not active''))
      | Some active \<Rightarrow>
          if pa_worker_id active \<noteq> worker then Inl (Err (IpcUnavailable ''worker is not run owner''))
          else if pa_fencing_token active \<noteq> token then Inl (Err (IpcUnavailable ''stale fencing token''))
          else if \<not> tenant_matches tenant
                      (Option.bind (bt_get (app_specs app) (timer_id_str (pa_timer_id active))) ds_tenant_id)
          then Inl (Err (IpcUnavailable ''token tenant does not match run tenant''))
          else Inr ())"

definition ok_json :: json where
  "ok_json = Object [(''ok'', Bool True)]"

definition complete_run ::
  "node_conf \<Rightarrow> request_env \<Rightarrow> string \<Rightarrow> run_complete_request \<Rightarrow> string option \<Rightarrow> state_machine
   \<Rightarrow> json res \<times> state_machine" where
  "complete_run N R rid request tenant st =
     (case ensure_leader N R st of
        Inl err \<Rightarrow> (Inl err, st)
      | Inr _ \<Rightarrow>
     (case validate_active_run rid (rc_worker_id request) (rc_fencing_token request) tenant st of
        Inl err \<Rightarrow> (Inl err, st)
      | Inr _ \<Rightarrow>
     (case write_command R 0 (CompleteRun (RunId rid) (rc_worker_id request) (rc_fencing_token request)
                                (rq_now R 0)) st of
        (Inl err, st1) \<Rightarrow> (Inl err, st1)
      | (Inr _, st1) \<Rightarrow> (Inr ok_json, st1))))"

definition fail_run ::
  "node_conf \<Rightarrow> request_env \<Rightarrow> string \<Rightarrow> run_fail_request \<Rightarrow> string option \<Rightarrow> state_machine
   \<Rightarrow> json res \<times> state_machine" where
  "fail_run N R rid request tenant st =
     (case ensure_leader N R st of
        Inl err \<Rightarrow> (Inl err, st)
      | Inr _ \<Rightarrow>
     (case validate_active_run rid (rf_worker_id request) (rf_fencing_token request) tenant st of
        Inl err \<Rightarrow> (Inl err, st)
      | Inr _ \<Rightarrow>
     (case write_command R 0 (FailRun (RunId rid) (rf_worker_id request) (rf_fencing_token request)
                                (rf_error request) (rq_now R 0)) st of
        (Inl err, st1) \<Rightarrow> (Inl err, st1)
      | (Inr _, st1) \<Rightarrow> (Inr ok_json, st1))))"

section \<open>Expired leases\<close>

definition lease_replacement :: "raft_app_state \<Rightarrow> persisted_active_run \<Rightarrow> worker_run option" where
  "lease_replacement app active =
     Option.bind (bt_get (app_specs app) (timer_id_str (pa_timer_id active))) (\<lambda>spec.
       if max_attempts (ds_retry spec) \<le> pa_attempt active then None
       else case ds_target spec of
              WorkerTask task payload \<Rightarrow>
                Some \<lparr>wr_timer = timer_id_str (pa_timer_id active), wr_tenant_id = ds_tenant_id spec,
                      wr_run_id = run_id_str (pa_run_id active), wr_task = task, wr_payload = payload,
                      wr_attempt = pa_attempt active + 1,
                      wr_fencing_token =
                        (case bt_get (app_timers app) (timer_id_str (pa_timer_id active)) of
                           Some s \<Rightarrow> dsum_fencing_token s + 1
                         | None \<Rightarrow> pa_fencing_token active + 1),
                      wr_idempotency_key = timer_id_str (pa_timer_id active) @ '':lease-expired:''
                        @ run_id_str (pa_run_id active)\<rparr>
            | _ \<Rightarrow> None)"

fun expire_loop ::
  "request_env \<Rightarrow> raft_app_state \<Rightarrow> nat \<Rightarrow> persisted_active_run list \<Rightarrow> state_machine
   \<Rightarrow> unit res \<times> state_machine" where
  "expire_loop R app k [] st = (Inr (), st)"
| "expire_loop R app k (active # rest) st =
     (if rq_now R 0 < pa_lease_deadline active then expire_loop R app k rest st
      else case write_command R k (ExpireRunLease (pa_run_id active) (lease_replacement app active)
                                     (rq_now R 0)) st of
             (Inl err, st1) \<Rightarrow> (Inl err, st1)
           | (Inr _, st1) \<Rightarrow> expire_loop R app (k + 1) rest st1)"

definition expire_active_leases ::
  "node_conf \<Rightarrow> request_env \<Rightarrow> state_machine \<Rightarrow> unit res \<times> state_machine" where
  "expire_active_leases N R st =
     (if rv_leader (rq_view R) \<noteq> Some (nc_node_id N) then (Inr (), st)
      else expire_loop R (app_state st) 0 (bt_values (app_active_runs (app_state st))) st)"

section \<open>Membership\<close>

definition join ::
  "node_conf \<Rightarrow> request_env \<Rightarrow> join_request \<Rightarrow> state_machine \<Rightarrow> json res \<times> state_machine" where
  "join N R request st =
     (case ensure_leader N R st of
        Inl err \<Rightarrow> (Inl err, st)
      | Inr _ \<Rightarrow>
          let i = parse_node_id (jr_node_id request);
              node = \<lparr>ni_node_id = jr_node_id request, ni_http_addr = jr_http_addr request,
                      ni_raft_addr = jr_raft_addr request\<rparr>;
              own = \<lparr>ni_node_id = nc_node_name N, ni_http_addr = nc_http_addr N,
                     ni_raft_addr = nc_raft_addr N\<rparr>
          in (case rq_add_learner R i (jr_raft_addr request) of
                Some err \<Rightarrow> (Inl (Err (IpcUnavailable err)), st)
              | None \<Rightarrow>
             (case write_command R 0 (AddNode own) st of
                (Inl err, st1) \<Rightarrow> (Inl err, st1)
              | (Inr _, st1) \<Rightarrow>
             (case write_command R 1 (AddNode node) st1 of
                (Inl err, st2) \<Rightarrow> (Inl err, st2)
              | (Inr _, st2) \<Rightarrow>
             (case rq_change_membership R (insort i (filter (\<lambda>v. v \<noteq> i) (rq_voters R))) of
                Some err \<Rightarrow> (Inl (Err (IpcUnavailable err)), st2)
              | None \<Rightarrow> (Inr (Object [(''joined'', Bool True)]), st2))))))"

definition leave ::
  "node_conf \<Rightarrow> request_env \<Rightarrow> leave_request \<Rightarrow> state_machine \<Rightarrow> json res \<times> state_machine" where
  "leave N R request st =
     (case ensure_leader N R st of
        Inl err \<Rightarrow> (Inl err, st)
      | Inr _ \<Rightarrow>
          let remove_id = parse_node_id (lr_node_id request)
          in (case rq_change_membership R (filter (\<lambda>i. i \<noteq> remove_id) (rq_voters R)) of
                Some err \<Rightarrow> (Inl (Err (IpcUnavailable err)), st)
              | None \<Rightarrow> (Inr (Object [(''left'', Bool True)]), st)))"

definition cluster_status :: "node_conf \<Rightarrow> request_env \<Rightarrow> state_machine \<Rightarrow> json" where
  "cluster_status N R st =
     (let metrics = rq_metrics R; app = app_state st
      in Object [(''node_id'', String (nc_node_name N)), (''raft_node_id'', json_u64 (nc_node_id N)),
           (''leader_id'', (case rv_leader (rq_view R) of None \<Rightarrow> Null | Some i \<Rightarrow> json_u64 i)),
           (''role'', String (mt_state metrics)),
           (''timers'', json_u64 (of_nat (length (app_timers app)))),
           (''workers'', json_u64 0),
           (''raft'', String ''openraft''),
           (''last_log_index'', (case mt_last_log_index metrics of None \<Rightarrow> Null | Some i \<Rightarrow> json_u64 i)),
           (''last_applied'', mt_last_applied metrics),
           (''membership'', mt_membership metrics)])"

section \<open>The HTTP interface\<close>

datatype api_request =
    ApiCreateTimer create_timer_request
  | ApiListTimers
  | ApiStatusTimer string
  | ApiHistoryTimer string
  | ApiRegisterWorker worker_register_request
  | ApiHeartbeatWorker json
  | ApiPollWorker worker_poll_request
  | ApiSucceedRun string run_complete_request
  | ApiFailRun string run_fail_request
  | ApiClusterStatus
  | ApiJoin join_request
  | ApiLeave leave_request
  | ApiShutdown

fun api_role :: "api_request \<Rightarrow> auth_role" where
  "api_role (ApiCreateTimer _) = Operator"
| "api_role ApiListTimers = Reader"
| "api_role (ApiStatusTimer _) = Reader"
| "api_role (ApiHistoryTimer _) = Reader"
| "api_role (ApiRegisterWorker _) = Worker"
| "api_role (ApiHeartbeatWorker _) = Worker"
| "api_role (ApiPollWorker _) = Worker"
| "api_role (ApiSucceedRun _ _) = Worker"
| "api_role (ApiFailRun _ _) = Worker"
| "api_role ApiClusterStatus = Reader"
| "api_role (ApiJoin _) = Admin"
| "api_role (ApiLeave _) = Admin"
| "api_role ApiShutdown = Admin"

fun api_action :: "api_request \<Rightarrow> string" where
  "api_action (ApiCreateTimer _) = ''timer.create''"
| "api_action ApiListTimers = ''timer.list''"
| "api_action (ApiStatusTimer _) = ''timer.status''"
| "api_action (ApiHistoryTimer _) = ''timer.history''"
| "api_action (ApiRegisterWorker _) = ''worker.register''"
| "api_action (ApiHeartbeatWorker _) = ''worker.heartbeat''"
| "api_action (ApiPollWorker _) = ''worker.poll''"
| "api_action (ApiSucceedRun _ _) = ''run.succeed''"
| "api_action (ApiFailRun _ _) = ''run.fail''"
| "api_action ApiClusterStatus = ''cluster.status''"
| "api_action (ApiJoin _) = ''cluster.join''"
| "api_action (ApiLeave _) = ''cluster.leave''"
| "api_action ApiShutdown = ''runtime.shutdown''"

text \<open>The replicated state and the shutdown flag of the node.\<close>

type_synonym node_state = "state_machine \<times> bool"

definition as_json :: "('a \<Rightarrow> json) \<Rightarrow> bool \<Rightarrow> 'a res \<times> state_machine \<Rightarrow> json res \<times> node_state" where
  "as_json f flag r = (case r of (Inl err, st) \<Rightarrow> (Inl err, st, flag) | (Inr v, st) \<Rightarrow> (Inr (f v), st, flag))"

definition opt_json :: "('a \<Rightarrow> json) \<Rightarrow> 'a option \<Rightarrow> json" where
  "opt_json f x = (case x of None \<Rightarrow> Null | Some v \<Rightarrow> f v)"

fun api_handler ::
  "node_conf \<Rightarrow> request_env \<Rightarrow> api_request \<Rightarrow> auth_context \<Rightarrow> node_state \<Rightarrow> json res \<times> node_state" where
  "api_handler N R (ApiCreateTimer request) auth (st, flag) =
     as_json (rq_summary_json R) flag (create_timer N R request (ac_tenant_id auth) st)"
| "api_handler N R ApiListTimers auth (st, flag) =
     (Inr (Array (map (rq_summary_json R) (list_for_tenant (ac_tenant_id auth) st))), st, flag)"
| "api_handler N R (ApiStatusTimer name) auth (st, flag) =
     (Inr (opt_json (rq_summary_json R) (status_for_tenant name (ac_tenant_id auth) st)), st, flag)"
| "api_handler N R (ApiHistoryTimer name) auth (st, flag) =
     (Inr (Array (history_for_tenant name (ac_tenant_id auth) st)), st, flag)"
| "api_handler N R (ApiRegisterWorker request) auth (st, flag) =
     as_json (\<lambda>v. v) flag (register_worker N R request st)"
| "api_handler N R (ApiHeartbeatWorker v) auth (st, flag) =
     as_json (\<lambda>v. v) flag (heartbeat_worker N R (unwrap_or (str_field v ''worker_id'') []) st)"
| "api_handler N R (ApiPollWorker request) auth (st, flag) =
     as_json (opt_json (rq_run_json R)) flag (poll_worker N R request (ac_tenant_id auth) st)"
| "api_handler N R (ApiSucceedRun rid request) auth (st, flag) =
     as_json (\<lambda>v. v) flag (complete_run N R rid request (ac_tenant_id auth) st)"
| "api_handler N R (ApiFailRun rid request) auth (st, flag) =
     as_json (\<lambda>v. v) flag (fail_run N R rid request (ac_tenant_id auth) st)"
| "api_handler N R ApiClusterStatus auth (st, flag) = (Inr (cluster_status N R st), st, flag)"
| "api_handler N R (ApiJoin request) auth (st, flag) = as_json (\<lambda>v. v) flag (join N R request st)"
| "api_handler N R (ApiLeave request) auth (st, flag) = as_json (\<lambda>v. v) flag (leave N R request st)"
| "api_handler N R ApiShutdown auth (st, flag) =
     (Inr (Object [(''shutdown'', String ''requested'')]), st, True)"

definition handle_api ::
  "error_text \<Rightarrow> auth_env \<Rightarrow> audit_env \<Rightarrow> node_conf \<Rightarrow> request_env \<Rightarrow> api_request \<Rightarrow> node_state \<times> audit_log
   \<Rightarrow> http_response res \<times> node_state \<times> audit_log" where
  "handle_api T E U N R request = authed T E U (api_role request) (api_action request) (api_handler N R request)"

section \<open>Commands keep the invariants\<close>

context run_invariant
begin

lemma keep_commands:
  "apply_commands L cs st = Inr st' \<Longrightarrow> (\<Union>c\<in>set cs. claims_of c) \<subseteq> D \<Longrightarrow> J (runs_of st) \<Longrightarrow> J (runs_of st')"
proof (induction cs arbitrary: st)
  case (Cons c cs)
  then obtain st1 where st1: "apply_kron_command L c st = Inr st1" "apply_commands L cs st1 = Inr st'"
    by (auto split: sum.splits)
  have "J (runs_of st1)"
    using command_effect [OF st1(1), of D] Cons.prems by (auto intro: keep)
  then show ?case using Cons st1 by auto
qed simp

end

text \<open>A run identifier that nobody claims does not become active.\<close>

lemma unclaimed_invariant:
  assumes "k \<notin> fst ` D"
  shows "run_invariant D (\<lambda>x. bt_get (fst x) k = None)"
proof
  show "run_effect D x y \<Longrightarrow> bt_get (fst x) k = None \<Longrightarrow> bt_get (fst y) k = None" for x y
    by (induction rule: run_effect.induct) (use assms in \<open>force+\<close>)
qed simp

lemma apply_commands_append:
  "apply_commands L (cs @ ds) st =
     (case apply_commands L cs st of Inl f \<Rightarrow> Inl f | Inr st1 \<Rightarrow> apply_commands L ds st1)"
  by (induction cs arbitrary: st) (auto split: sum.split)

lemma timers_sorted_helpers [simp]:
  "bt_sorted (psm_timers (set_state tid ts st)) = bt_sorted (psm_timers st)"
  by (simp add: set_state_def)

lemma command_timers_sorted:
  assumes "apply_kron_command L c st = Inr st'" "bt_sorted (psm_timers st)"
  shows "bt_sorted (psm_timers st')"
proof (cases c)
  case (CompleteRun rid worker token now)
  then show ?thesis
    using assms by (auto simp: apply_complete_run_def reschedule_timer_def Let_def
        split: option.splits sum.splits if_splits fault.splits)
qed (use assms in \<open>auto simp: apply_create_timer_def apply_cancel_timer_def apply_pause_timer_def
      apply_resume_timer_def apply_claim_run_def apply_fail_run_def apply_expire_run_lease_def
      apply_heartbeat_worker_def apply_register_worker_def Let_def split: option.splits\<close>)

lemma commands_timers_sorted:
  "apply_commands L cs st = Inr st' \<Longrightarrow> bt_sorted (psm_timers st) \<Longrightarrow> bt_sorted (psm_timers st')"
  by (induction cs arbitrary: st) (auto split: sum.splits intro: command_timers_sorted)

text \<open>States the cluster can be in, with what they satisfy.\<close>

definition committed :: "libs \<Rightarrow> raft_command list \<Rightarrow> state_machine \<Rightarrow> bool" where
  "committed L cs st \<longleftrightarrow> apply_commands L cs default_state_machine = Inr st"

lemma committedD:
  assumes "committed L cs st"
  shows "one_run (psm_active_runs st)" "bt_sorted (psm_timers st)"
proof -
  have run: "apply_commands L cs default_state_machine = Inr st" using assms by (simp add: committed_def)
  show "one_run (psm_active_runs st)"
    using one.keep_commands [OF run] one.initial by (simp add: default_state_machine_def)
  show "bt_sorted (psm_timers st)"
    using commands_timers_sorted [OF run] by (simp add: default_state_machine_def)
qed

lemma committed_append: "committed L cs st \<Longrightarrow> apply_commands L ds st = Inr st' \<Longrightarrow> committed L (cs @ ds) st'"
  by (simp add: committed_def apply_commands_append)

section \<open>Roles\<close>

lemma reader_changes_nothing: "api_role request = Reader \<Longrightarrow> snd (api_handler N R request auth ns) = ns"
  by (cases ns; cases request) simp_all

text \<open>C20: who can change the cluster.  A request of the HTTP interface that changes the replicated
  state or stops the node was authenticated, and either by an administrator, or by an operator
  creating a timer, or by a worker registering, reporting or polling; tokens of readers and of
  the raft peers cannot change anything there.\<close>

theorem api_requires_role:
  assumes "handle_api T E U N R request (ns, al) = (r, ns', al')" "ns' \<noteq> ns"
  shows "\<exists>auth. authenticate E = Inr auth \<and> ns' = snd (api_handler N R request auth ns)
    \<and> (ac_role auth = Admin
       \<or> ac_role auth = Operator \<and> (\<exists>q. request = ApiCreateTimer q)
       \<or> ac_role auth = Worker
         \<and> ((\<exists>q. request = ApiRegisterWorker q) \<or> (\<exists>v. request = ApiHeartbeatWorker v)
            \<or> (\<exists>q. request = ApiPollWorker q) \<or> (\<exists>i q. request = ApiSucceedRun i q)
            \<or> (\<exists>i q. request = ApiFailRun i q)))"
proof -
  obtain auth where auth: "authenticate E = Inr auth" "allows (ac_role auth) (api_role request)"
    "ns' = snd (api_handler N R request auth ns)"
    using authed_runs [of T E U "api_role request" "api_action request" "api_handler N R request" ns al r ns' al'] assms
    by (auto simp: handle_api_def)
  have "api_role request \<noteq> Reader"
    using reader_changes_nothing assms(2) auth(3) by metis
  with auth show ?thesis
    by (cases request) (auto simp: allows_def)
qed

section \<open>Claims\<close>

lemma bt_get_map_values: "bt_get (map (\<lambda>(k, v). (k, f k v)) m) k = map_option (f k) (bt_get m k)"
  by (induction m) (auto simp: bt_get_def)

lemma app_state_get:
  "bt_get (app_specs (app_state st)) t = map_option pt_spec (bt_get (psm_timers st) t)"
  "app_active_runs (app_state st) = psm_active_runs st"
  by (simp_all add: app_state_def bt_get_map_values [where f = "\<lambda>_. pt_spec"])

lemma timer_status_some:
  "bt_get (psm_timers st) x = Some timer \<Longrightarrow>
     \<exists>s. timer_status x st = Some s \<and> dsum_tenant_id s = ds_tenant_id (pt_spec timer)"
  by (auto simp: timer_status_def app_state_def
      bt_get_map_values [where f = "\<lambda>tid timer. \<lparr>dsum_id = tid, dsum_tenant_id = ds_tenant_id (pt_spec timer),
         dsum_state = pt_state timer, dsum_target = ds_target (pt_spec timer),
         dsum_next_run_at = bt_get (psm_next_runs st) tid,
         dsum_last_status = last_status_of tid (psm_history st),
         dsum_fencing_token = pt_fencing_token timer\<rparr>"])

lemma app_timer_in:
  assumes "bt_sorted (psm_timers st)" "s \<in> set (bt_values (app_timers (app_state st)))"
  shows "\<exists>timer. bt_get (psm_timers st) (dsum_id s) = Some timer
    \<and> dsum_tenant_id s = ds_tenant_id (pt_spec timer) \<and> dsum_target s = ds_target (pt_spec timer)
    \<and> dsum_next_run_at s = bt_get (psm_next_runs st) (dsum_id s)
    \<and> dsum_fencing_token s = pt_fencing_token timer"
  using assms(2) by (auto simp: app_state_def bt_values_def bt_get_in [OF assms(1)])

lemma find_mapD: "find_map f xs = Some y \<Longrightarrow> \<exists>x \<in> set xs. f x = Some y"
  by (induction xs) (auto split: option.splits)

lemma claim_candidateD:
  assumes "claim_candidate L tenant tasks now ulid ids s = Some run"
  shows "wr_timer run = dsum_id s" "wr_tenant_id run = dsum_tenant_id s"
    "tenant_matches tenant (dsum_tenant_id s)" "dsum_id s \<notin> set ids"
    "\<exists>t. dsum_next_run_at s = Some t \<and> t \<le> now" "wr_task run \<in> set tasks"
    "wr_run_id run = run_id_str (new_run_id ulid)" "wr_fencing_token run = dsum_fencing_token s + 1"
    "\<exists>payload. dsum_target s = WorkerTask (wr_task run) payload"
  using assms
  by (auto simp: claim_candidate_def list_ex_iff split: if_splits option.splits timer_target.splits)

text \<open>What a successful claim went through.\<close>

lemma try_claimD:
  assumes "try_claim R k worker tasks tenant st = (Inr (Some run), st')"
  obtains s deadline before st1 active where
    "s \<in> set (bt_values (app_timers (app_state st)))"
    "claim_candidate (rq_libs R) tenant tasks (rq_now R (2 * k + 1)) (rq_ulid R k)
       (map (\<lambda>r. timer_id_str (pa_timer_id r)) (bt_values (psm_active_runs st))) s = Some run"
    "rq_write R (k + 1) = Committed before" "apply_commands (rq_libs R) before st = Inr st1"
    "st' = apply_claim_run (TimerId (wr_timer run)) (RunId (wr_run_id run)) worker (wr_fencing_token run)
       (wr_attempt run) deadline st1"
    "bt_get (psm_active_runs st') (wr_run_id run) = Some active"
    "pa_worker_id active = worker" "pa_fencing_token active = wr_fencing_token run"
  using assms
  by (auto simp: try_claim_def write_command_def apply_commands_append app_state_get Let_def
      dest!: find_mapD split: option.splits sum.splits write_outcome.splits if_splits)

text \<open>C21: a claimed run belongs to its worker alone.  If a poll of a worker returns a run, whatever
  commands of other clients were committed in between, then the timer of the run existed, was due,
  belongs to the tenant of the token and runs a task the worker offered; afterwards the run is
  active under the worker and the fencing token that were returned, and it is the only active run
  of that timer.  (The fresh identifier of the run is assumed not to be in use.)\<close>

theorem claim_is_exclusive:
  assumes "committed (rq_libs R) cs st"
    and "try_claim R k worker tasks tenant st = (Inr (Some run), st')"
    and "rq_write R (k + 1) = Committed before"
    and "\<forall>c \<in> set (cs @ before). run_id_str (new_run_id (rq_ulid R k)) \<notin> fst ` claims_of c"
  shows "(\<exists>timer t. bt_get (psm_timers st) (wr_timer run) = Some timer
           \<and> bt_get (psm_next_runs st) (wr_timer run) = Some t \<and> t \<le> rq_now R (2 * k + 1)
           \<and> tenant_matches tenant (ds_tenant_id (pt_spec timer)) \<and> wr_task run \<in> set tasks)
    \<and> (\<exists>a. bt_get (psm_active_runs st') (wr_run_id run) = Some a
           \<and> pa_timer_id a = TimerId (wr_timer run) \<and> pa_worker_id a = worker
           \<and> pa_fencing_token a = wr_fencing_token run)
    \<and> (\<forall>i a. bt_get (psm_active_runs st') i = Some a \<longrightarrow> pa_timer_id a = TimerId (wr_timer run)
           \<longrightarrow> i = wr_run_id run)"
proof -
  obtain s deadline st1 active where c: "s \<in> set (bt_values (app_timers (app_state st)))"
    "claim_candidate (rq_libs R) tenant tasks (rq_now R (2 * k + 1)) (rq_ulid R k)
       (map (\<lambda>r. timer_id_str (pa_timer_id r)) (bt_values (psm_active_runs st))) s = Some run"
    "apply_commands (rq_libs R) before st = Inr st1"
    "st' = apply_claim_run (TimerId (wr_timer run)) (RunId (wr_run_id run)) worker (wr_fencing_token run)
       (wr_attempt run) deadline st1"
    "bt_get (psm_active_runs st') (wr_run_id run) = Some active"
    using try_claimD [OF assms(2)] assms(3) by (metis write_outcome.inject(1))
  note cand = claim_candidateD [OF c(2)]
  have st1: "committed (rq_libs R) (cs @ before) st1" by (rule committed_append [OF assms(1) c(3)])
  have "bt_get (psm_active_runs st1) (wr_run_id run) = None"
  proof -
    let ?D = "\<Union>c \<in> set (cs @ before). claims_of c"
    have "wr_run_id run \<notin> fst ` ?D" using assms(4) cand(7) by auto
    from run_invariant.keep_commands [OF unclaimed_invariant [OF this] st1 [unfolded committed_def]]
    show ?thesis by (simp add: default_state_machine_def)
  qed
  then have free: "\<not> list_ex (\<lambda>r. pa_timer_id r = TimerId (wr_timer run)) (bt_values (psm_active_runs st1))"
    using c(4,5) by (auto simp: apply_claim_run_def split: if_splits)
  then have new: "psm_active_runs st' = bt_insert (wr_run_id run) \<lparr>pa_timer_id = TimerId (wr_timer run),
      pa_run_id = RunId (wr_run_id run), pa_worker_id = worker, pa_fencing_token = wr_fencing_token run,
      pa_attempt = wr_attempt run, pa_lease_deadline = deadline\<rparr> (psm_active_runs st1)"
    using c(4) by (simp add: apply_claim_run_def Let_def)
  have none: "pa_timer_id a \<noteq> TimerId (wr_timer run)" if "bt_get (psm_active_runs st1) i = Some a" for i a
    using free that committedD(1) [OF st1] by (auto simp: no_run_of_timer one_run_def)
  have "\<exists>timer t. bt_get (psm_timers st) (wr_timer run) = Some timer
      \<and> bt_get (psm_next_runs st) (wr_timer run) = Some t \<and> t \<le> rq_now R (2 * k + 1)
      \<and> tenant_matches tenant (ds_tenant_id (pt_spec timer)) \<and> wr_task run \<in> set tasks"
    using app_timer_in [OF committedD(2) [OF assms(1)] c(1)] cand by auto
  then show ?thesis using none by (auto simp: new)
qed

section \<open>Witnesses\<close>

definition sample_node :: node_conf where
  "sample_node = \<lparr>nc_node_id = 1, nc_node_name = ''node1'', nc_http_addr = ''127.0.0.1:8080'',
     nc_raft_addr = ''127.0.0.1:9090''\<rparr>"

text \<open>A leader whose writes succeed at once, one second after every timer of the samples is due.\<close>

definition sample_request_env :: request_env where
  "sample_request_env = \<lparr>rq_libs = minute_libs, rq_text = (\<lambda>_. []), rq_summary_json = (\<lambda>_. Null),
     rq_run_json = (\<lambda>_. Null), rq_view = \<lparr>rv_linearizable = True, rv_leader = Some 1\<rparr>,
     rq_now = (\<lambda>_. 61000000000), rq_write = (\<lambda>_. Committed []), rq_ulid = (\<lambda>_. ''01ARZ''), rq_lease_var = None,
     rq_polls = 0, rq_others = (\<lambda>_. []), rq_voters = [1], rq_add_learner = (\<lambda>_ _. None),
     rq_change_membership = (\<lambda>_. None), rq_metrics = \<lparr>mt_state = ''Leader'',
       mt_last_log_index = Some 1, mt_last_applied = Null, mt_membership = Null\<rparr>\<rparr>"

definition sample_created :: state_machine where
  "sample_created = apply_create_timer sample_dspec (Some 60000000000) default_state_machine"

definition sample_run :: worker_run where
  "sample_run = \<lparr>wr_timer = ''digest'', wr_tenant_id = Some ''acme'', wr_run_id = run_id_str (new_run_id ''01ARZ''),
     wr_task = ''mail'', wr_payload = Null, wr_attempt = 1, wr_fencing_token = 1,
     wr_idempotency_key = ''digest:1970-01-01T00:00:00+00:00''\<rparr>"

lemmas sample_runtime_defs = sample_node_def sample_request_env_def sample_created_def sample_run_def

lemma sample_created_committed:
  "committed minute_libs [CreateTimer sample_dspec (Some 60000000000)] sample_created"
  by (simp add: committed_def sample_created_def)

lemma sample_claimed:
  "\<exists>st'. try_claim sample_request_env 0 ''w1'' [''mail''] (Some ''acme'') sample_created = (Inr (Some sample_run), st')"
  by (simp add: try_claim_def sample_runtime_defs sample_dspec_def apply_create_timer_def default_state_machine_def
      set_next_run_def push_history_def app_state_def bt_values_def claim_candidate_def tenant_matches_def
      write_command_def apply_claim_run_def plus_seconds_def minute_libs_def worker_lease_seconds_def Let_def
      bt_get_def)

theorem claim_is_exclusive_witness:
  "\<exists>st'. try_claim sample_request_env 0 ''w1'' [''mail''] (Some ''acme'') sample_created = (Inr (Some sample_run), st')
    \<and> (\<exists>timer. bt_get (psm_timers sample_created) ''digest'' = Some timer)
    \<and> (\<exists>a. bt_get (psm_active_runs st') (wr_run_id sample_run) = Some a \<and> pa_worker_id a = ''w1''
          \<and> pa_fencing_token a = 1)"
proof -
  obtain st' where run: "try_claim sample_request_env 0 ''w1'' [''mail''] (Some ''acme'') sample_created
      = (Inr (Some sample_run), st')" using sample_claimed by blast
  have com: "committed (rq_libs sample_request_env) [CreateTimer sample_dspec (Some 60000000000)] sample_created"
    using sample_created_committed by (simp add: sample_request_env_def)
  have fresh: "\<forall>c \<in> set ([CreateTimer sample_dspec (Some 60000000000)] @ []).
      run_id_str (new_run_id (rq_ulid sample_request_env 0)) \<notin> fst ` claims_of c" by simp
  have wr: "rq_write sample_request_env (0 + 1) = Committed []" by (simp add: sample_request_env_def)
  from claim_is_exclusive [OF com run wr fresh] run show ?thesis
    by (auto simp: sample_run_def)
qed

theorem api_requires_role_witness:
  "\<exists>r ns' al' auth.
     handle_api sample_error_text sample_auth_env sample_audit_env sample_node sample_request_env ApiShutdown
       ((default_state_machine, False), empty_audit) = (r, ns', al')
     \<and> ns' = (default_state_machine, True) \<and> authenticate sample_auth_env = Inr auth \<and> ac_role auth = Admin"
proof -
  obtain r ns' al' where run: "handle_api sample_error_text sample_auth_env sample_audit_env sample_node
      sample_request_env ApiShutdown ((default_state_machine, False), empty_audit) = (r, ns', al')"
    by (metis prod.exhaust)
  then have ns: "ns' = (default_state_machine, True)"
    by (auto simp: handle_api_def authed_def sample_authenticated allows_def audited_def audit_def
        sample_audit_env_def number_encode Let_def)
  then have "ns' \<noteq> (default_state_machine, False)" by simp
  from api_requires_role [OF run this] run ns show ?thesis by (auto simp: sample_authenticated)
qed

end
