(* ===== verification/Kron_Cluster.thy ===== *)
theory Kron_Cluster
  imports Kron_Runtime
begin

text \<open>
  The engine of the alpha cluster (cluster.rs): a leader that keeps timers, queues due runs for
  workers, and writes every command to the file \<open>kron.raft.aof\<close> after a majority of its peers
  has acknowledged it.  Hash maps are kept sorted by key; where the code iterates over one, the
  order is an argument.  A timer or run is named by the text of its identifier.  Clock
  readings, random identifiers, the answers of peers and the outcome of writes are the
  environment of an operation.  Shown: a timer has at most one run that is queued or executed,
  and a timer is created only by a leader with a majority.
\<close>

section \<open>State\<close>

record command_entry =
  cmd_v :: u8
  cmd_ts :: datetime
  cmd_command :: raft_command

record worker_info =
  wi_tasks :: "string list"
  wi_lease_until :: int

record active_run =
  ca_timer_id :: string
  ca_run_id :: string
  ca_worker_id :: string
  ca_fencing_token :: u64
  ca_attempt :: u32
  ca_lease_deadline :: datetime

record cluster_state =
  cs_config :: cluster_config
  cs_timers :: "(string, distributed_timer_spec) btree_map"
  cs_states :: "(string, timer_state) btree_map"
  cs_next_runs :: "(string, datetime) btree_map"
  cs_history :: "json list"
  cs_workers :: "(string, worker_info) btree_map"
  cs_pending :: "worker_run list"
  cs_active_runs :: "(string, active_run) btree_map"
  cs_fencing :: "(string, u64) btree_map"
  cs_leader :: bool
  cs_shutting_down :: bool

definition new_cluster_state :: "cluster_config \<Rightarrow> cluster_state" where
  "new_cluster_state config =
     \<lparr>cs_config = config, cs_timers = [], cs_states = [], cs_next_runs = [], cs_history = [],
      cs_workers = [], cs_pending = [], cs_active_runs = [], cs_fencing = [],
      cs_leader = (cc_leader_id config = cc_node_id config), cs_shutting_down = False\<rparr>"

text \<open>The engine with its two files: the commands and the configuration.\<close>

record cluster_engine =
  en_state :: cluster_state
  en_log :: string
  en_config :: cluster_config

text \<open>
  \<open>al_ts\<close> is the JSON form of a date, \<open>al_instant\<close> the monotonic clock in nanoseconds,
  \<open>al_contended\<close> whether another thread holds the lock of the state when a command is about to be
  replicated, \<open>al_ack\<close> which peers acknowledge it, \<open>al_config_io\<close> the error of writing the
  configuration.
\<close>

record alpha_env =
  al_libs :: libs
  al_ts :: "datetime \<Rightarrow> json"
  al_codec :: "command_entry codec"
  al_now :: "nat \<Rightarrow> datetime"
  al_instant :: "nat \<Rightarrow> int"
  al_io :: io_outcome
  al_contended :: bool
  al_token :: "string res"
  al_ack :: "node_info \<Rightarrow> bool"
  al_ulid :: "nat \<Rightarrow> string"
  al_config_io :: "string option"

text \<open>\<open>Instant + Duration\<close> panics when the seconds do not fit in 63 bits.\<close>

definition instant_plus :: "int \<Rightarrow> u64 \<Rightarrow> int res" where
  "instant_plus t n =
     (if t div nanos_per_sec + int (unat n) < 9223372036854775808
      then Inr (t + int (unat n) * nanos_per_sec)
      else Inl (Panic ''overflow when adding duration to instant''))"

definition on_state :: "(cluster_state \<Rightarrow> cluster_state) \<Rightarrow> cluster_engine \<Rightarrow> cluster_engine" where
  "on_state f en = en\<lparr>en_state := f (en_state en)\<rparr>"

definition push_event :: "json \<Rightarrow> cluster_state \<Rightarrow> cluster_state" where
  "push_event e st = st\<lparr>cs_history := cs_history st @ [e]\<rparr>"

section \<open>Commands\<close>

definition alpha_ensure_leader :: "cluster_state \<Rightarrow> unit res" where
  "alpha_ensure_leader st =
     (if cs_leader st then Inr ()
      else Inl (Err (IpcUnavailable (''not_leader: leader is '' @ cc_leader_id (cs_config st)))))"

definition append_command :: "alpha_env \<Rightarrow> nat \<Rightarrow> raft_command \<Rightarrow> cluster_engine \<Rightarrow> unit res \<times> cluster_engine" where
  "append_command E k c en =
     (case encode (al_codec E) \<lparr>cmd_v = 1, cmd_ts = al_now E k, cmd_command = c\<rparr> of
        Inl msg \<Rightarrow> (Inl (Err (LogSerde msg)), en)
      | Inr txt \<Rightarrow>
          let line = txt @ [LF] in
          case al_io E of
            IoOk \<Rightarrow> (Inr (), en\<lparr>en_log := en_log en @ line\<rparr>)
          | WriteFails n msg \<Rightarrow> (Inl (Err (LogIo msg)), en\<lparr>en_log := en_log en @ take n line\<rparr>)
          | SyncFails msg \<Rightarrow> (Inl (Err (LogIo msg)), en\<lparr>en_log := en_log en @ line\<rparr>))"

definition append_replicated_command ::
  "alpha_env \<Rightarrow> nat \<Rightarrow> raft_command \<Rightarrow> cluster_engine \<Rightarrow> unit res \<times> cluster_engine" where
  "append_replicated_command E k c en =
     (case alpha_ensure_leader (en_state en) of
        Inl err \<Rightarrow> (Inl err, en)
      | Inr _ \<Rightarrow>
          if al_contended E then append_command E k c en
          else
            let peers = cc_peers (cs_config (en_state en));
                majority = (length peers + 1) div 2 + 1
            in case al_token E of
                 Inl err \<Rightarrow> (Inl err, en)
               | Inr _ \<Rightarrow>
                   let acks = 1 + length (filter (al_ack E) peers)
                   in if acks < majority
                      then (Inl (Err (IpcUnavailable (''replication quorum failed: '' @ show_nat acks
                              @ ''/'' @ show_nat majority @ '' acknowledgements''))), en)
                      else append_command E k c en)"

definition alpha_apply_create ::
  "alpha_env \<Rightarrow> nat \<Rightarrow> distributed_timer_spec \<Rightarrow> cluster_state \<Rightarrow> cluster_state res" where
  "alpha_apply_create E k spec st =
     (case next_run_after (al_libs E) (ds_schedule spec) (al_now E k) (ds_timezone spec) of
        Inl err \<Rightarrow> Inl err
      | Inr next_run \<Rightarrow>
          let tid = timer_id_str (ds_id spec);
              st1 = st\<lparr>cs_timers := bt_insert tid spec (cs_timers st),
                       cs_states := bt_insert tid Scheduled (cs_states st),
                       cs_next_runs := (case next_run of
                                          Some t \<Rightarrow> bt_insert tid t (cs_next_runs st)
                                        | None \<Rightarrow> cs_next_runs st)\<rparr>
          in Inr (push_event (Object [(''type'', String ''TIMER_CREATED''), (''timer'', String tid),
                    (''ts'', al_ts E (al_now E (k + 1)))]) st1))"

definition alpha_reschedule :: "alpha_env \<Rightarrow> nat \<Rightarrow> string \<Rightarrow> cluster_state \<Rightarrow> cluster_state res" where
  "alpha_reschedule E k tid st =
     (case bt_get (cs_timers st) tid of
        None \<Rightarrow> Inr st
      | Some spec \<Rightarrow>
          (case next_run_after (al_libs E) (ds_schedule spec) (al_now E k) (ds_timezone spec) of
             Inl (Panic msg) \<Rightarrow> Inl (Panic msg)
           | Inr (Some t) \<Rightarrow> Inr (st\<lparr>cs_next_runs := bt_insert tid t (cs_next_runs st)\<rparr>)
           | _ \<Rightarrow> Inr (st\<lparr>cs_next_runs := bt_remove tid (cs_next_runs st)\<rparr>)))"

definition alpha_owned :: "string \<Rightarrow> string \<Rightarrow> u64 \<Rightarrow> cluster_state \<Rightarrow> active_run option" where
  "alpha_owned rid worker token st =
     (case bt_get (cs_active_runs st) rid of
        None \<Rightarrow> None
      | Some active \<Rightarrow>
          if ca_worker_id active = worker \<and> ca_fencing_token active = token then Some active else None)"

definition alpha_apply_claim ::
  "alpha_env \<Rightarrow> nat \<Rightarrow> string \<Rightarrow> string \<Rightarrow> string \<Rightarrow> u64 \<Rightarrow> u32 \<Rightarrow> datetime \<Rightarrow> cluster_state \<Rightarrow> cluster_state" where
  "alpha_apply_claim E k tid rid worker token attempt deadline st =
     (if list_ex (\<lambda>run. ca_timer_id run = tid) (bt_values (cs_active_runs st)) then st
      else push_event (Object [(''type'', String ''RUN_CLAIMED''), (''timer'', String tid),
             (''run_id'', String rid), (''worker_id'', String worker), (''fencing_token'', json_u64 token),
             (''ts'', al_ts E (al_now E k))])
           (st\<lparr>cs_active_runs := bt_insert rid
                 \<lparr>ca_timer_id = tid, ca_run_id = rid, ca_worker_id = worker, ca_fencing_token = token,
                  ca_attempt = attempt, ca_lease_deadline = deadline\<rparr> (cs_active_runs st),
               cs_states := bt_insert tid Running (cs_states st),
               cs_fencing := bt_insert tid token (cs_fencing st)\<rparr>))"

definition alpha_apply_complete ::
  "alpha_env \<Rightarrow> nat \<Rightarrow> string \<Rightarrow> string \<Rightarrow> u64 \<Rightarrow> cluster_state \<Rightarrow> cluster_state res" where
  "alpha_apply_complete E k rid worker token st =
     (case alpha_owned rid worker token st of
        None \<Rightarrow> Inr st
      | Some active \<Rightarrow>
          alpha_reschedule E (k + 1) (ca_timer_id active)
            (push_event (Object [(''type'', String ''RUN_SUCCEEDED''), (''timer'', String (ca_timer_id active)),
               (''run_id'', String rid), (''worker_id'', String worker),
               (''fencing_token'', json_u64 (ca_fencing_token active)), (''ts'', al_ts E (al_now E k))])
             (st\<lparr>cs_active_runs := bt_remove rid (cs_active_runs st),
                 cs_states := bt_insert (ca_timer_id active) Scheduled (cs_states st)\<rparr>)))"

definition alpha_apply_fail ::
  "alpha_env \<Rightarrow> nat \<Rightarrow> string \<Rightarrow> string \<Rightarrow> u64 \<Rightarrow> string \<Rightarrow> cluster_state \<Rightarrow> cluster_state" where
  "alpha_apply_fail E k rid worker token err st =
     (case alpha_owned rid worker token st of
        None \<Rightarrow> st
      | Some active \<Rightarrow>
          push_event (Object [(''type'', String ''RUN_FAILED''), (''timer'', String (ca_timer_id active)),
             (''run_id'', String rid), (''worker_id'', String worker), (''error'', String err),
             (''fencing_token'', json_u64 (ca_fencing_token active)), (''ts'', al_ts E (al_now E k))])
           (st\<lparr>cs_active_runs := bt_remove rid (cs_active_runs st),
               cs_states := bt_insert (ca_timer_id active) Dead (cs_states st)\<rparr>))"

definition add_peer :: "node_info \<Rightarrow> cluster_config \<Rightarrow> cluster_config" where
  "add_peer node config =
     (if ni_node_id node \<noteq> cc_node_id config
         \<and> \<not> list_ex (\<lambda>peer. ni_node_id peer = ni_node_id node) (cc_peers config)
      then config\<lparr>cc_peers := cc_peers config @ [node]\<rparr> else config)"

definition remove_peer :: "string \<Rightarrow> cluster_config \<Rightarrow> cluster_config" where
  "remove_peer nid config =
     config\<lparr>cc_peers := filter (\<lambda>peer. ni_node_id peer \<noteq> nid) (cc_peers config)\<rparr>"

fun alpha_apply_command ::
  "alpha_env \<Rightarrow> nat \<Rightarrow> raft_command \<Rightarrow> cluster_state \<Rightarrow> cluster_state res" where
  "alpha_apply_command E k (CreateTimer spec _) st = alpha_apply_create E k spec st"
| "alpha_apply_command E k (UpdateTimer spec _) st = alpha_apply_create E k spec st"
| "alpha_apply_command E k (CancelTimer tid) st =
     Inr (st\<lparr>cs_states := bt_insert (timer_id_str tid) Cancelled (cs_states st),
             cs_next_runs := bt_remove (timer_id_str tid) (cs_next_runs st)\<rparr>)"
| "alpha_apply_command E k (PauseTimer tid) st =
     Inr (st\<lparr>cs_states := bt_insert (timer_id_str tid) Paused (cs_states st),
             cs_next_runs := bt_remove (timer_id_str tid) (cs_next_runs st)\<rparr>)"
| "alpha_apply_command E k (ResumeTimer tid _) st =
     alpha_reschedule E k (timer_id_str tid)
       (st\<lparr>cs_states := bt_insert (timer_id_str tid) Scheduled (cs_states st)\<rparr>)"
| "alpha_apply_command E k (ClaimRun tid rid worker token attempt deadline) st =
     Inr (alpha_apply_claim E k (timer_id_str tid) (run_id_str rid) worker token attempt deadline st)"
| "alpha_apply_command E k (CompleteRun rid worker token _) st =
     alpha_apply_complete E k (run_id_str rid) worker token st"
| "alpha_apply_command E k (FailRun rid worker token err _) st =
     Inr (alpha_apply_fail E k (run_id_str rid) worker token err st)"
| "alpha_apply_command E k (ExpireRunLease _ _ _) st = Inr st"
| "alpha_apply_command E k (HeartbeatWorker worker _) st =
     (case bt_get (cs_workers st) worker of
        None \<Rightarrow> Inr st
      | Some w \<Rightarrow>
          (case instant_plus (al_instant E k) 30 of
             Inl f \<Rightarrow> Inl f
           | Inr t \<Rightarrow> Inr (st\<lparr>cs_workers := bt_insert worker (w\<lparr>wi_lease_until := t\<rparr>) (cs_workers st)\<rparr>)))"
| "alpha_apply_command E k (RegisterWorker worker tasks _) st =
     (case instant_plus (al_instant E k) 30 of
        Inl f \<Rightarrow> Inl f
      | Inr t \<Rightarrow>
          Inr (push_event (Object [(''type'', String ''WORKER_REGISTERED''), (''worker_id'', String worker),
                 (''ts'', al_ts E (al_now E k))])
               (st\<lparr>cs_workers := bt_insert worker \<lparr>wi_tasks = tasks, wi_lease_until = t\<rparr> (cs_workers st)\<rparr>)))"
| "alpha_apply_command E k (UnregisterWorker worker) st =
     Inr (st\<lparr>cs_workers := bt_remove worker (cs_workers st)\<rparr>)"
| "alpha_apply_command E k (AddNode node) st = Inr (st\<lparr>cs_config := add_peer node (cs_config st)\<rparr>)"
| "alpha_apply_command E k (RemoveNode nid) st = Inr (st\<lparr>cs_config := remove_peer nid (cs_config st)\<rparr>)"

section \<open>Requests to the engine\<close>

definition alpha_last_status :: "string \<Rightarrow> json list \<Rightarrow> string option" where
  "alpha_last_status tid hist =
     Option.bind (List.find (\<lambda>entry. str_field entry ''timer'' = Some tid) (rev hist))
       (\<lambda>entry. str_field entry ''type'')"

definition summary_for :: "cluster_state \<Rightarrow> string \<Rightarrow> distributed_summary option" where
  "summary_for st tid =
     map_option (\<lambda>spec.
       \<lparr>dsum_id = tid, dsum_tenant_id = ds_tenant_id spec,
        dsum_state = unwrap_or (bt_get (cs_states st) tid) Scheduled, dsum_target = ds_target spec,
        dsum_next_run_at = bt_get (cs_next_runs st) tid,
        dsum_last_status = alpha_last_status tid (cs_history st),
        dsum_fencing_token = unwrap_or (bt_get (cs_fencing st) tid) 0\<rparr>) (bt_get (cs_timers st) tid)"

definition alpha_create_timer ::
  "alpha_env \<Rightarrow> create_timer_request \<Rightarrow> cluster_engine \<Rightarrow> distributed_summary res \<times> cluster_engine" where
  "alpha_create_timer E request en =
     (case alpha_ensure_leader (en_state en) of
        Inl err \<Rightarrow> (Inl err, en)
      | Inr _ \<Rightarrow>
     (case parse_request_schedule (al_libs E) (al_now E 0) request of
        Inl err \<Rightarrow> (Inl err, en)
      | Inr sched \<Rightarrow>
          let spec = spec_of_request request sched (al_now E 1) in
     (case next_run_after (al_libs E) sched (ds_created_at spec) (ds_timezone spec) of
        Inl err \<Rightarrow> (Inl err, en)
      | Inr next_run_at \<Rightarrow>
     (case append_replicated_command E 2 (CreateTimer spec next_run_at) en of
        (Inl err, en1) \<Rightarrow> (Inl err, en1)
      | (Inr _, en1) \<Rightarrow>
     (case alpha_apply_create E 3 spec (en_state en1) of
        Inl err \<Rightarrow> (Inl err, en1)
      | Inr st1 \<Rightarrow>
          (case summary_for st1 (cr_name request) of
             None \<Rightarrow> Inl (Panic ''created timer summary exists'')
           | Some s \<Rightarrow> Inr s, en1\<lparr>en_state := st1\<rparr>))))))"

definition alpha_list :: "string list \<Rightarrow> cluster_engine \<Rightarrow> distributed_summary list" where
  "alpha_list order en = List.map_filter (summary_for (en_state en)) order"

definition alpha_status :: "string \<Rightarrow> cluster_engine \<Rightarrow> distributed_summary option" where
  "alpha_status name en = summary_for (en_state en) name"

definition alpha_history :: "string \<Rightarrow> cluster_engine \<Rightarrow> json list" where
  "alpha_history name en =
     filter (\<lambda>entry. str_field entry ''timer'' = Some name) (cs_history (en_state en))"

definition alpha_register_worker ::
  "alpha_env \<Rightarrow> worker_register_request \<Rightarrow> cluster_engine \<Rightarrow> json res \<times> cluster_engine" where
  "alpha_register_worker E request en =
     (case alpha_ensure_leader (en_state en) of
        Inl err \<Rightarrow> (Inl err, en)
      | Inr _ \<Rightarrow>
          let lease = unwrap_or (wreg_lease_seconds request) 30 in
     (case plus_seconds (al_libs E) (al_now E 0) lease of
        Inl err \<Rightarrow> (Inl err, en)
      | Inr lease_until \<Rightarrow>
     (case append_replicated_command E 1
             (RegisterWorker (wreg_worker_id request) (wreg_tasks request) lease_until) en of
        (Inl err, en1) \<Rightarrow> (Inl err, en1)
      | (Inr _, en1) \<Rightarrow>
     (case instant_plus (al_instant E 0) lease of
        Inl err \<Rightarrow> (Inl err, en1)
      | Inr t \<Rightarrow>
          (Inr (Object [(''registered'', Bool True)]),
           on_state (\<lambda>st. push_event (Object [(''type'', String ''WORKER_REGISTERED''),
               (''worker_id'', String (wreg_worker_id request)), (''ts'', al_ts E (al_now E 2))])
             (st\<lparr>cs_workers := bt_insert (wreg_worker_id request)
                    \<lparr>wi_tasks = wreg_tasks request, wi_lease_until = t\<rparr> (cs_workers st)\<rparr>)) en1)))))"

definition alpha_heartbeat_worker ::
  "alpha_env \<Rightarrow> string \<Rightarrow> cluster_engine \<Rightarrow> json res \<times> cluster_engine" where
  "alpha_heartbeat_worker E worker en =
     (case alpha_ensure_leader (en_state en) of
        Inl err \<Rightarrow> (Inl err, en)
      | Inr _ \<Rightarrow>
     (case bt_get (cs_workers (en_state en)) worker of
        None \<Rightarrow> (Inr ok_json, en)
      | Some w \<Rightarrow>
          (case instant_plus (al_instant E 0) 30 of
             Inl err \<Rightarrow> (Inl err, en)
           | Inr t \<Rightarrow>
               (Inr ok_json, on_state (\<lambda>st. st\<lparr>cs_workers :=
                  bt_insert worker (w\<lparr>wi_lease_until := t\<rparr>) (cs_workers st)\<rparr>) en))))"

definition claimable :: "string list \<Rightarrow> string list \<Rightarrow> worker_run \<Rightarrow> bool" where
  "claimable tasks worker_tasks run \<longleftrightarrow> wr_task run \<in> set tasks \<and> wr_task run \<in> set worker_tasks"

definition claim_pending_for ::
  "alpha_env \<Rightarrow> string \<Rightarrow> string list \<Rightarrow> cluster_engine \<Rightarrow> worker_run option res \<times> cluster_engine" where
  "claim_pending_for E worker tasks en =
     (let st = en_state en;
          worker_tasks = (case bt_get (cs_workers st) worker of Some w \<Rightarrow> wi_tasks w | None \<Rightarrow> tasks)
      in case List.find (claimable tasks worker_tasks) (cs_pending st) of
           None \<Rightarrow> (Inr None, en)
         | Some run \<Rightarrow>
     (case plus_seconds (al_libs E) (al_now E 0) 30 of
        Inl err \<Rightarrow> (Inl err, en)
      | Inr logged_deadline \<Rightarrow>
     (case append_command E 1 (ClaimRun (TimerId (wr_timer run)) (RunId (wr_run_id run)) worker
             (wr_fencing_token run) (wr_attempt run) logged_deadline) en of
        (Inl err, en1) \<Rightarrow> (Inl err, en1)
      | (Inr _, en1) \<Rightarrow>
     (case plus_seconds (al_libs E) (al_now E 2) 30 of
        Inl err \<Rightarrow> (Inl err, en1)
      | Inr deadline \<Rightarrow>
          (Inr (Some run),
           on_state (\<lambda>st. push_event (Object [(''type'', String ''RUN_CLAIMED''), (''timer'', String (wr_timer run)),
               (''run_id'', String (wr_run_id run)), (''worker_id'', String worker),
               (''fencing_token'', json_u64 (wr_fencing_token run)), (''ts'', al_ts E (al_now E 3))])
             (st\<lparr>cs_pending := remove_first (claimable tasks worker_tasks) (cs_pending st),
                 cs_active_runs := bt_insert (wr_run_id run)
                   \<lparr>ca_timer_id = wr_timer run, ca_run_id = wr_run_id run, ca_worker_id = worker,
                    ca_fencing_token = wr_fencing_token run, ca_attempt = wr_attempt run,
                    ca_lease_deadline = deadline\<rparr> (cs_active_runs st),
                 cs_states := bt_insert (wr_timer run) Running (cs_states st)\<rparr>)) en1)))))"

text \<open>
  A poll repeats the attempt until its deadline of 20 seconds passes or the engine stops: \<open>n\<close>
  further attempts, the \<open>k\<close>-th in environment \<open>Es k\<close> and after what others did in between.
\<close>

fun alpha_poll_loop ::
  "nat \<Rightarrow> (nat \<Rightarrow> alpha_env) \<Rightarrow> (nat \<Rightarrow> cluster_engine \<Rightarrow> cluster_engine) \<Rightarrow> nat \<Rightarrow> string \<Rightarrow> string list
   \<Rightarrow> cluster_engine \<Rightarrow> worker_run option res \<times> cluster_engine" where
  "alpha_poll_loop n Es others k worker tasks en =
     (case claim_pending_for (Es k) worker tasks (others k en) of
        (Inl err, en1) \<Rightarrow> (Inl err, en1)
      | (Inr (Some run), en1) \<Rightarrow> (Inr (Some run), en1)
      | (Inr None, en1) \<Rightarrow>
          (case n of
             0 \<Rightarrow> (Inr None, en1)
           | Suc n' \<Rightarrow> alpha_poll_loop n' Es others (k + 1) worker tasks en1))"

declare alpha_poll_loop.simps [simp del]

definition alpha_poll_worker ::
  "nat \<Rightarrow> (nat \<Rightarrow> alpha_env) \<Rightarrow> (nat \<Rightarrow> cluster_engine \<Rightarrow> cluster_engine) \<Rightarrow> alpha_env \<Rightarrow> worker_poll_request
   \<Rightarrow> cluster_engine \<Rightarrow> worker_run option res \<times> cluster_engine" where
  "alpha_poll_worker n Es others E request en =
     (case alpha_ensure_leader (en_state en) of
        Inl err \<Rightarrow> (Inl err, en)
      | Inr _ \<Rightarrow>
     (case alpha_heartbeat_worker E (wp_worker_id request) en of
        (Inl err, en1) \<Rightarrow> (Inl err, en1)
      | (Inr _, en1) \<Rightarrow> alpha_poll_loop n Es others 0 (wp_worker_id request) (wp_tasks request) en1))"

definition alpha_validate_active_run ::
  "cluster_state \<Rightarrow> string \<Rightarrow> string \<Rightarrow> u64 \<Rightarrow> active_run res" where
  "alpha_validate_active_run st rid worker token =
     (case bt_get (cs_active_runs st) rid of
        None \<Rightarrow> Inl (Err (IpcUnavailable ''run not active''))
      | Some active \<Rightarrow>
          if ca_worker_id active \<noteq> worker then Inl (Err (IpcUnavailable ''worker is not run owner''))
          else if ca_fencing_token active \<noteq> token then Inl (Err (IpcUnavailable ''stale fencing token''))
          else Inr active)"

definition alpha_complete_run ::
  "alpha_env \<Rightarrow> string \<Rightarrow> run_complete_request \<Rightarrow> cluster_engine \<Rightarrow> json res \<times> cluster_engine" where
  "alpha_complete_run E rid request en =
     (case alpha_ensure_leader (en_state en) of
        Inl err \<Rightarrow> (Inl err, en)
      | Inr _ \<Rightarrow>
     (case alpha_validate_active_run (en_state en) rid (rc_worker_id request) (rc_fencing_token request) of
        Inl err \<Rightarrow> (Inl err, en)
      | Inr active \<Rightarrow>
     (case append_command E 1 (CompleteRun (RunId rid) (rc_worker_id request) (rc_fencing_token request)
             (al_now E 0)) en of
        (Inl err, en1) \<Rightarrow> (Inl err, en1)
      | (Inr _, en1) \<Rightarrow>
          let st = en_state en1;
              st1 = push_event (Object [(''type'', String ''RUN_SUCCEEDED''),
                        (''timer'', String (ca_timer_id active)), (''run_id'', String rid),
                        (''fencing_token'', json_u64 (ca_fencing_token active)), (''ts'', al_ts E (al_now E 2))])
                      (st\<lparr>cs_active_runs := bt_remove rid (cs_active_runs st),
                          cs_states := bt_insert (ca_timer_id active) Scheduled (cs_states st)\<rparr>)
          in (case alpha_reschedule E 3 (ca_timer_id active) st1 of
                Inl err \<Rightarrow> (Inl err, en1)
              | Inr st2 \<Rightarrow> (Inr ok_json, en1\<lparr>en_state := st2\<rparr>)))))"

definition alpha_fail_run ::
  "alpha_env \<Rightarrow> string \<Rightarrow> run_fail_request \<Rightarrow> cluster_engine \<Rightarrow> json res \<times> cluster_engine" where
  "alpha_fail_run E rid request en =
     (case alpha_ensure_leader (en_state en) of
        Inl err \<Rightarrow> (Inl err, en)
      | Inr _ \<Rightarrow>
     (case alpha_validate_active_run (en_state en) rid (rf_worker_id request) (rf_fencing_token request) of
        Inl err \<Rightarrow> (Inl err, en)
      | Inr active \<Rightarrow>
     (case append_command E 1 (FailRun (RunId rid) (rf_worker_id request) (rf_fencing_token request)
             (rf_error request) (al_now E 0)) en of
        (Inl err, en1) \<Rightarrow> (Inl err, en1)
      | (Inr _, en1) \<Rightarrow>
          (Inr ok_json,
           on_state (\<lambda>st. push_event (Object [(''type'', String ''RUN_FAILED''),
               (''timer'', String (ca_timer_id active)), (''run_id'', String rid), (''error'', String (rf_error request)),
               (''fencing_token'', json_u64 (ca_fencing_token active)), (''ts'', al_ts E (al_now E 2))])
             (st\<lparr>cs_active_runs := bt_remove rid (cs_active_runs st),
                 cs_states := bt_insert (ca_timer_id active) Dead (cs_states st)\<rparr>)) en1))))"

definition write_config :: "alpha_env \<Rightarrow> cluster_engine \<Rightarrow> unit res \<times> cluster_engine" where
  "write_config E en =
     (case al_config_io E of
        Some err \<Rightarrow> (Inl (Err (LogIo err)), en)
      | None \<Rightarrow> (Inr (), en\<lparr>en_config := cs_config (en_state en)\<rparr>))"

text \<open>After the command is logged: apply it and write the configuration.\<close>

definition apply_membership ::
  "alpha_env \<Rightarrow> raft_command \<Rightarrow> json \<Rightarrow> unit res \<times> cluster_engine \<Rightarrow> json res \<times> cluster_engine" where
  "apply_membership E c answer logged =
     (case logged of
        (Inl err, en1) \<Rightarrow> (Inl err, en1)
      | (Inr _, en1) \<Rightarrow>
     (case alpha_apply_command E 1 c (en_state en1) of
        Inl err \<Rightarrow> (Inl err, en1)
      | Inr st1 \<Rightarrow>
     (case write_config E (en1\<lparr>en_state := st1\<rparr>) of
        (Inl err, en2) \<Rightarrow> (Inl err, en2)
      | (Inr _, en2) \<Rightarrow> (Inr answer, en2))))"

definition alpha_join ::
  "alpha_env \<Rightarrow> join_request \<Rightarrow> cluster_engine \<Rightarrow> json res \<times> cluster_engine" where
  "alpha_join E request en =
     (case alpha_ensure_leader (en_state en) of
        Inl err \<Rightarrow> (Inl err, en)
      | Inr _ \<Rightarrow>
          let c = AddNode \<lparr>ni_node_id = jr_node_id request, ni_http_addr = jr_http_addr request,
                           ni_raft_addr = jr_raft_addr request\<rparr>
          in apply_membership E c (Object [(''joined'', Bool True)]) (append_replicated_command E 0 c en))"

definition alpha_leave ::
  "alpha_env \<Rightarrow> leave_request \<Rightarrow> cluster_engine \<Rightarrow> json res \<times> cluster_engine" where
  "alpha_leave E request en =
     (case alpha_ensure_leader (en_state en) of
        Inl err \<Rightarrow> (Inl err, en)
      | Inr _ \<Rightarrow>
          let c = RemoveNode (lr_node_id request)
          in apply_membership E c (Object [(''left'', Bool True)]) (append_command E 0 c en))"

definition apply_replicated_command ::
  "alpha_env \<Rightarrow> raft_command \<Rightarrow> cluster_engine \<Rightarrow> unit res \<times> cluster_engine" where
  "apply_replicated_command E c en =
     (case append_command E 0 c en of
        (Inl err, en1) \<Rightarrow> (Inl err, en1)
      | (Inr _, en1) \<Rightarrow>
     (case alpha_apply_command E 1 c (en_state en1) of
        Inl err \<Rightarrow> (Inl err, en1)
      | Inr st1 \<Rightarrow>
          (case c of
             AddNode _ \<Rightarrow> write_config E (en1\<lparr>en_state := st1\<rparr>)
           | RemoveNode _ \<Rightarrow> write_config E (en1\<lparr>en_state := st1\<rparr>)
           | _ \<Rightarrow> (Inr (), en1\<lparr>en_state := st1\<rparr>))))"

definition alpha_shutdown :: "cluster_engine \<Rightarrow> cluster_engine" where
  "alpha_shutdown = on_state (\<lambda>st. st\<lparr>cs_shutting_down := True\<rparr>)"

definition alpha_cluster_status :: "(node_info list \<Rightarrow> json) \<Rightarrow> cluster_engine \<Rightarrow> json" where
  "alpha_cluster_status peers_json en =
     (let st = en_state en
      in Object [(''node_id'', String (cc_node_id (cs_config st))),
           (''leader_id'', String (cc_leader_id (cs_config st))),
           (''role'', String (if cs_leader st then ''leader'' else ''follower'')),
           (''timers'', json_u64 (of_nat (length (cs_timers st)))),
           (''workers'', json_u64 (of_nat (length (cs_workers st)))),
           (''peers'', peers_json (cc_peers (cs_config st))),
           (''raft'', String ''file-aof-quorum-alpha'')])"

section \<open>The scheduler thread\<close>

definition outstanding_run :: "string \<Rightarrow> cluster_state \<Rightarrow> bool" where
  "outstanding_run tid st \<longleftrightarrow>
     list_ex (\<lambda>run. wr_timer run = tid) (cs_pending st)
     \<or> list_ex (\<lambda>run. ca_timer_id run = tid) (bt_values (cs_active_runs st))"

text \<open>The next fencing token of a timer, entered as the last one.\<close>

definition bump_fencing :: "string \<Rightarrow> cluster_state \<Rightarrow> u64 \<times> cluster_state" where
  "bump_fencing tid st =
     (let token = unwrap_or (bt_get (cs_fencing st) tid) 0 + 1
      in (token, st\<lparr>cs_fencing := bt_insert tid token (cs_fencing st)\<rparr>))"

definition enqueue_one :: "alpha_env \<Rightarrow> nat \<Rightarrow> string \<Rightarrow> cluster_state \<Rightarrow> cluster_state res" where
  "enqueue_one E k tid st =
     (if outstanding_run tid st then Inr st
      else case bt_get (cs_timers st) tid of
        None \<Rightarrow> Inr st
      | Some spec \<Rightarrow>
          (case ds_target spec of
             WorkerTask task payload \<Rightarrow>
               (case bt_get (cs_next_runs st) tid of
                  None \<Rightarrow> Inl (Panic ''no entry found for key'')
                | Some next_run \<Rightarrow>
                    let (token, st1) = bump_fencing tid st;
                        run = \<lparr>wr_timer = tid, wr_tenant_id = ds_tenant_id spec,
                               wr_run_id = run_id_str (new_run_id (al_ulid E k)), wr_task = task,
                               wr_payload = payload, wr_attempt = 1, wr_fencing_token = token,
                               wr_idempotency_key = tid @ '':'' @ rfc3339 (al_libs E) next_run\<rparr>
                    in Inr (st1\<lparr>cs_pending := cs_pending st1 @ [run],
                                cs_states := bt_insert tid Scheduled (cs_states st1)\<rparr>))
           | _ \<Rightarrow> Inr st))"

fun enqueue_loop :: "alpha_env \<Rightarrow> nat \<Rightarrow> string list \<Rightarrow> cluster_state \<Rightarrow> cluster_state res" where
  "enqueue_loop E k [] st = Inr st"
| "enqueue_loop E k (tid # rest) st =
     (case enqueue_one E k tid st of Inl f \<Rightarrow> Inl f | Inr st1 \<Rightarrow> enqueue_loop E (k + 1) rest st1)"

text \<open>\<open>order\<close> is the order in which the hash map of the next runs is iterated.\<close>

definition enqueue_due_runs :: "alpha_env \<Rightarrow> string list \<Rightarrow> cluster_state \<Rightarrow> cluster_state res" where
  "enqueue_due_runs E order st =
     (if \<not> cs_leader st then Inr st
      else enqueue_loop E 0
             (filter (\<lambda>tid. case bt_get (cs_next_runs st) tid of Some at \<Rightarrow> at \<le> al_now E 0 | None \<Rightarrow> False) order) st)"

definition lose_worker :: "alpha_env \<Rightarrow> nat \<Rightarrow> string \<Rightarrow> cluster_state \<Rightarrow> cluster_state" where
  "lose_worker E k worker st =
     push_event (Object [(''type'', String ''WORKER_LOST''), (''worker_id'', String worker),
         (''ts'', al_ts E (al_now E k))])
       (st\<lparr>cs_workers := bt_remove worker (cs_workers st)\<rparr>)"

fun lose_workers :: "alpha_env \<Rightarrow> nat \<Rightarrow> string list \<Rightarrow> cluster_state \<Rightarrow> cluster_state" where
  "lose_workers E k [] st = st"
| "lose_workers E k (worker # rest) st = lose_workers E (k + 1) rest (lose_worker E k worker st)"

definition expire_run :: "alpha_env \<Rightarrow> nat \<Rightarrow> string \<Rightarrow> cluster_state \<Rightarrow> cluster_state" where
  "expire_run E k rid st =
     (case bt_get (cs_active_runs st) rid of
        None \<Rightarrow> st
      | Some active \<Rightarrow>
          let st1 = st\<lparr>cs_active_runs := bt_remove rid (cs_active_runs st)\<rparr>;
              tid = ca_timer_id active
          in case bt_get (cs_timers st1) tid of
               None \<Rightarrow> st1
             | Some spec \<Rightarrow>
                 let st2 = push_event (Object [(''type'', String ''RUN_LEASE_EXPIRED''), (''timer'', String tid),
                             (''run_id'', String (ca_run_id active)), (''worker_id'', String (ca_worker_id active)),
                             (''fencing_token'', json_u64 (ca_fencing_token active)), (''ts'', al_ts E (al_now E (2 * k)))]) st1
                 in if max_attempts (ds_retry spec) \<le> ca_attempt active
                    then push_event (Object [(''type'', String ''RUN_DEAD''), (''timer'', String tid),
                           (''run_id'', String (ca_run_id active)), (''ts'', al_ts E (al_now E (2 * k + 1)))])
                         (st2\<lparr>cs_states := bt_insert tid Dead (cs_states st2)\<rparr>)
                    else case ds_target spec of
                           WorkerTask task payload \<Rightarrow>
                             let (token, st3) = bump_fencing tid st2;
                                 run = \<lparr>wr_timer = tid, wr_tenant_id = ds_tenant_id spec,
                                        wr_run_id = ca_run_id active, wr_task = task, wr_payload = payload,
                                        wr_attempt = ca_attempt active + 1, wr_fencing_token = token,
                                        wr_idempotency_key = tid @ '':'' @
                                          (case bt_get (cs_next_runs st3) tid of
                                             Some at \<Rightarrow> rfc3339 (al_libs E) at | None \<Rightarrow> ''lease-expired'')\<rparr>
                             in st3\<lparr>cs_pending := cs_pending st3 @ [run],
                                    cs_states := bt_insert tid Retrying (cs_states st3)\<rparr>
                         | _ \<Rightarrow> st2)"

fun expire_runs :: "alpha_env \<Rightarrow> nat \<Rightarrow> string list \<Rightarrow> cluster_state \<Rightarrow> cluster_state" where
  "expire_runs E k [] st = st"
| "expire_runs E k (rid # rest) st = expire_runs E (k + 1) rest (expire_run E k rid st)"

definition expire_workers :: "alpha_env \<Rightarrow> string list \<Rightarrow> string list \<Rightarrow> cluster_state \<Rightarrow> cluster_state" where
  "expire_workers E workers_order runs_order st =
     (let lost = filter (\<lambda>worker. case bt_get (cs_workers st) worker of
                           Some w \<Rightarrow> wi_lease_until w < al_instant E 0 | None \<Rightarrow> False) workers_order;
          st1 = lose_workers E 1 lost st;
          expired = filter (\<lambda>rid. case bt_get (cs_active_runs st1) rid of
                              Some active \<Rightarrow> ca_lease_deadline active \<le> al_now E 0
                                \<or> bt_get (cs_workers st1) (ca_worker_id active) = None
                            | None \<Rightarrow> False) runs_order
      in expire_runs E (1 + length lost) expired st1)"

section \<open>Opening\<close>

fun replay_commands :: "alpha_env \<Rightarrow> nat \<Rightarrow> string list \<Rightarrow> cluster_state \<Rightarrow> cluster_state res" where
  "replay_commands E k [] st = Inr st"
| "replay_commands E k (line # rest) st =
     (if \<not> utf8_ok line then Inl (Err (LogIo ''stream did not contain valid UTF-8''))
      else if trim line = [] then replay_commands E k rest st
      else case decode (al_codec E) line of
             Inl (msg, _) \<Rightarrow> Inl (Err (LogSerde msg))
           | Inr entry \<Rightarrow>
               (case alpha_apply_command E k (cmd_command entry) st of
                  Inl f \<Rightarrow> Inl f
                | Inr st1 \<Rightarrow> replay_commands E (k + 1) rest st1))"

definition alpha_open ::
  "alpha_env \<Rightarrow> bool \<Rightarrow> string \<Rightarrow> string \<Rightarrow> string \<Rightarrow> string \<Rightarrow> string option \<Rightarrow> string option \<Rightarrow> cluster_engine res" where
  "alpha_open E locked_by_other data_dir node_id http_addr raft_addr leader_id log =
     (if locked_by_other then Inl (Err (DataDirLocked (data_dir @ ''/kron.lock'')))
      else
        let config = \<lparr>cc_node_id = node_id, cc_http_addr = http_addr, cc_raft_addr = raft_addr,
                      cc_leader_id = unwrap_or leader_id node_id, cc_peers = []\<rparr>
        in case al_config_io E of
             Some err \<Rightarrow> Inl (Err (LogIo err))
           | None \<Rightarrow>
               let command_log = unwrap_or log []
               in case replay_commands E 0 (read_lines command_log) (new_cluster_state config) of
                    Inl f \<Rightarrow> Inl f
                  | Inr st \<Rightarrow> Inr \<lparr>en_state = st, en_log = command_log, en_config = config\<rparr>)"

section \<open>One outstanding run per timer\<close>

definition runs_of_timer :: "string \<Rightarrow> cluster_state \<Rightarrow> nat" where
  "runs_of_timer t st = length (filter (\<lambda>r. wr_timer r = t) (cs_pending st))
     + length (filter (\<lambda>r. ca_timer_id r = t) (bt_values (cs_active_runs st)))"

definition one_outstanding :: "cluster_state \<Rightarrow> bool" where
  "one_outstanding st \<longleftrightarrow> (\<forall>t. runs_of_timer t st \<le> 1)"

text \<open>No timer has more outstanding runs afterwards.\<close>

lemma one_outstanding_mono:
  "one_outstanding st \<Longrightarrow> (\<And>t. runs_of_timer t st' \<le> runs_of_timer t st) \<Longrightarrow> one_outstanding st'"
  using le_trans unfolding one_outstanding_def by blast

lemma count_insert:
  "length (filter P (bt_values (bt_insert k v m))) \<le> length (filter P (bt_values m)) + (if P v then 1 else 0)"
  by (induction m) (auto simp: bt_values_def)

lemma count_remove:
  "length (filter P (bt_values (bt_remove k m))) \<le> length (filter P (bt_values m))"
  by (induction m) (auto simp: bt_values_def bt_remove_def bt_retain_def)

lemma count_remove_hit:
  "bt_get m k = Some v \<Longrightarrow> P v \<Longrightarrow>
     length (filter P (bt_values (bt_remove k m))) + 1 \<le> length (filter P (bt_values m))"
proof (induction m)
  case (Cons kv m)
  then show ?case using count_remove [of P k m]
    by (cases kv) (auto simp: bt_values_def bt_remove_def bt_retain_def bt_get_def split: if_splits)
qed simp

lemma count_remove_first:
  assumes "List.find Q xs = Some x"
  shows "length (filter P (remove_first Q xs)) + (if P x then 1 else 0) = length (filter P xs)"
  using assms by (induction xs) (auto split: if_splits)

lemma not_outstanding: "\<not> outstanding_run t st \<Longrightarrow> runs_of_timer t st = 0"
  by (auto simp: outstanding_run_def runs_of_timer_def list_ex_iff filter_empty_conv)

lemma runs_of_timer_cong:
  "cs_pending st' = cs_pending st \<Longrightarrow> cs_active_runs st' = cs_active_runs st \<Longrightarrow> runs_of_timer t st' = runs_of_timer t st"
  by (simp add: runs_of_timer_def)

lemma enqueue_one_runs:
  assumes "enqueue_one E k tid st = Inr st'" "one_outstanding st"
  shows "one_outstanding st'"
proof (cases "st' = st")
  case False
  then have none: "runs_of_timer tid st = 0"
    using assms(1) by (intro not_outstanding) (auto simp: enqueue_one_def)
  obtain run where "cs_pending st' = cs_pending st @ [run]" "wr_timer run = tid" "cs_active_runs st' = cs_active_runs st"
    using assms(1) False
    by (auto simp: enqueue_one_def bump_fencing_def Let_def split: if_splits option.splits timer_target.splits)
  then have "runs_of_timer t st' = runs_of_timer t st + (if t = tid then 1 else 0)" for t
    by (simp add: runs_of_timer_def)
  with none assms(2) show ?thesis by (simp add: one_outstanding_def)
qed (use assms in simp)

lemma enqueue_loop_runs:
  "enqueue_loop E k tids st = Inr st' \<Longrightarrow> one_outstanding st \<Longrightarrow> one_outstanding st'"
  by (induction tids arbitrary: k st) (auto split: sum.splits dest: enqueue_one_runs)

lemma expire_run_runs: "one_outstanding st \<Longrightarrow> one_outstanding (expire_run E k rid st)"
proof (cases "bt_get (cs_active_runs st) rid")
  case (Some active)
  assume one: "one_outstanding st"
  let ?st = "expire_run E k rid st" and ?tid = "ca_timer_id active"
  have act: "cs_active_runs ?st = bt_remove rid (cs_active_runs st)"
    using Some by (auto simp: expire_run_def bump_fencing_def push_event_def Let_def split: option.split timer_target.split)
  have "\<exists>new. cs_pending ?st = cs_pending st @ new \<and> (new = [] \<or> (\<exists>r. new = [r] \<and> wr_timer r = ?tid))"
    using Some by (auto simp: expire_run_def bump_fencing_def push_event_def Let_def split: option.split timer_target.split)
  then obtain new where pend: "cs_pending ?st = cs_pending st @ new" "new = [] \<or> (\<exists>r. new = [r] \<and> wr_timer r = ?tid)"
    by blast
  show ?thesis
  proof (rule one_outstanding_mono [OF one])
    fix t
    have "length (filter (\<lambda>r. wr_timer r = t) new) \<le> (if t = ?tid then 1 else 0)" using pend(2) by auto
    moreover have "length (filter (\<lambda>r. ca_timer_id r = t) (bt_values (bt_remove rid (cs_active_runs st))))
        + (if t = ?tid then 1 else 0) \<le> length (filter (\<lambda>r. ca_timer_id r = t) (bt_values (cs_active_runs st)))"
      using count_remove_hit [OF Some, of "\<lambda>r. ca_timer_id r = t"] count_remove [of "\<lambda>r. ca_timer_id r = t" rid "cs_active_runs st"]
      by auto
    ultimately show "runs_of_timer t ?st \<le> runs_of_timer t st"
      by (simp add: runs_of_timer_def act pend(1))
  qed
qed (simp add: expire_run_def)

lemma expire_runs_runs: "one_outstanding st \<Longrightarrow> one_outstanding (expire_runs E k rids st)"
  by (induction rids arbitrary: k st) (simp_all add: expire_run_runs)

lemma lose_workers_same:
  "cs_pending (lose_workers E k ws st) = cs_pending st" "cs_active_runs (lose_workers E k ws st) = cs_active_runs st"
  "cs_timers (lose_workers E k ws st) = cs_timers st"
  by (induction ws arbitrary: k st) (simp_all add: lose_worker_def push_event_def)

lemma expire_workers_runs: "one_outstanding st \<Longrightarrow> one_outstanding (expire_workers E ws rs st)"
  unfolding expire_workers_def Let_def
  by (rule expire_runs_runs) (erule one_outstanding_mono, simp add: runs_of_timer_cong [OF lose_workers_same(1,2)])

lemma append_command_state: "append_command E k c en = (r, en') \<Longrightarrow> en_state en' = en_state en"
  by (auto simp: append_command_def Let_def split: sum.splits io_outcome.splits)

lemma append_replicated_state: "append_replicated_command E k c en = (r, en') \<Longrightarrow> en_state en' = en_state en"
  by (auto simp: append_replicated_command_def Let_def split: sum.splits if_splits dest: append_command_state)

text \<open>What a successful claim does to the queue and to the active runs.\<close>

lemma claim_pendingD:
  assumes "claim_pending_for E worker tasks en = (r, en')"
  shows "en_state en' = en_state en \<or>
    (\<exists>run wt a. List.find (claimable tasks wt) (cs_pending (en_state en)) = Some run \<and> r = Inr (Some run)
       \<and> cs_pending (en_state en') = remove_first (claimable tasks wt) (cs_pending (en_state en))
       \<and> cs_active_runs (en_state en') = bt_insert (wr_run_id run) a (cs_active_runs (en_state en))
       \<and> cs_timers (en_state en') = cs_timers (en_state en) \<and> ca_timer_id a = wr_timer run
       \<and> ca_worker_id a = worker \<and> ca_fencing_token a = wr_fencing_token run)"
proof -
  let ?st = "en_state en"
  let ?wt = "case bt_get (cs_workers ?st) worker of Some w \<Rightarrow> wi_tasks w | None \<Rightarrow> tasks"
  show ?thesis
  proof (cases "List.find (claimable tasks ?wt) (cs_pending ?st)")
    case None
    with assms show ?thesis by (simp add: claim_pending_for_def Let_def)
  next
    case (Some run)
    obtain r1 en1 where app: "append_command E 1 (ClaimRun (TimerId (wr_timer run)) (RunId (wr_run_id run)) worker
        (wr_fencing_token run) (wr_attempt run) (case plus_seconds (al_libs E) (al_now E 0) 30 of Inr d \<Rightarrow> d | Inl _ \<Rightarrow> 0)) en = (r1, en1)"
      by (metis prod.exhaust)
    note same = append_command_state [OF app]
    show ?thesis
    proof (cases "plus_seconds (al_libs E) (al_now E 0) 30")
      case (Inr d)
      then show ?thesis
        using assms Some app same
        by (cases r1; cases "plus_seconds (al_libs E) (al_now E 2) 30")
           (auto simp: claim_pending_for_def Let_def on_state_def push_event_def intro!: exI [of _ run] exI [of _ ?wt])
    qed (use assms Some in \<open>simp add: claim_pending_for_def Let_def\<close>)
  qed
qed

lemma claim_pending_runs:
  assumes "claim_pending_for E worker tasks en = (r, en')" "one_outstanding (en_state en)"
  shows "one_outstanding (en_state en')"
proof (cases "en_state en' = en_state en")
  case False
  then obtain run wt a where c: "List.find (claimable tasks wt) (cs_pending (en_state en)) = Some run"
    "cs_pending (en_state en') = remove_first (claimable tasks wt) (cs_pending (en_state en))"
    "cs_active_runs (en_state en') = bt_insert (wr_run_id run) a (cs_active_runs (en_state en))"
    "ca_timer_id a = wr_timer run"
    using claim_pendingD [OF assms(1)] by blast
  show ?thesis
  proof (rule one_outstanding_mono [OF assms(2)])
    fix t
    show "runs_of_timer t (en_state en') \<le> runs_of_timer t (en_state en)"
      using count_remove_first [OF c(1), of "\<lambda>r. wr_timer r = t"]
        count_insert [of "\<lambda>r. ca_timer_id r = t" "wr_run_id run" a "cs_active_runs (en_state en)"] c(4)
      by (simp add: runs_of_timer_def c(2,3) split: if_splits)
  qed
qed (use assms in simp)

text \<open>Commands that are replayed or applied, without a queue.\<close>

lemma apply_command_pending:
  assumes "alpha_apply_command E k c st = Inr st'"
  shows "cs_pending st' = cs_pending st"
  using assms
  by (cases c) (auto simp: alpha_apply_create_def alpha_reschedule_def alpha_apply_claim_def alpha_apply_complete_def
      alpha_apply_fail_def push_event_def Let_def split: sum.splits option.splits fault.splits)

lemma apply_command_active:
  assumes "alpha_apply_command E k c st = Inr st'"
  shows "cs_active_runs st' = cs_active_runs st \<or> (\<exists>rid. cs_active_runs st' = bt_remove rid (cs_active_runs st))
    \<or> (\<exists>rid a. cs_active_runs st' = bt_insert rid a (cs_active_runs st)
         \<and> \<not> list_ex (\<lambda>run. ca_timer_id run = ca_timer_id a) (bt_values (cs_active_runs st)))"
proof (cases c)
  case (ClaimRun tid rid worker token attempt deadline)
  let ?a = "\<lparr>ca_timer_id = timer_id_str tid, ca_run_id = run_id_str rid, ca_worker_id = worker, ca_fencing_token = token,
    ca_attempt = attempt, ca_lease_deadline = deadline\<rparr>"
  show ?thesis
    using assms ClaimRun
    by (cases "list_ex (\<lambda>run. ca_timer_id run = timer_id_str tid) (bt_values (cs_active_runs st))")
       (auto simp: alpha_apply_claim_def push_event_def intro!: exI [of _ "run_id_str rid"] exI [of _ ?a])
qed (use assms in \<open>auto simp: alpha_apply_create_def alpha_reschedule_def alpha_apply_complete_def
      alpha_apply_fail_def push_event_def Let_def split: sum.splits option.splits fault.splits\<close>)

lemma apply_command_runs:
  assumes "alpha_apply_command E k c st = Inr st'" "one_outstanding st" "cs_pending st = []"
  shows "one_outstanding st'"
proof -
  note pend = apply_command_pending [OF assms(1)]
  consider (same) "cs_active_runs st' = cs_active_runs st" | (removed) rid where "cs_active_runs st' = bt_remove rid (cs_active_runs st)"
    | (added) rid a where "cs_active_runs st' = bt_insert rid a (cs_active_runs st)"
        "\<not> list_ex (\<lambda>run. ca_timer_id run = ca_timer_id a) (bt_values (cs_active_runs st))"
    using apply_command_active [OF assms(1)] by blast
  then show ?thesis
  proof cases
    case same
    then show ?thesis using assms(2) runs_of_timer_cong [OF pend same] by (simp add: one_outstanding_def)
  next
    case removed
    show ?thesis
      by (rule one_outstanding_mono [OF assms(2)]) (simp add: runs_of_timer_def pend removed count_remove)
  next
    case added
    have "runs_of_timer t st' \<le> 1" for t
    proof -
      have "runs_of_timer t st' \<le> runs_of_timer t st + (if ca_timer_id a = t then 1 else 0)"
        using count_insert [of "\<lambda>r. ca_timer_id r = t" rid a "cs_active_runs st"] by (simp add: runs_of_timer_def pend added(1))
      moreover have "runs_of_timer t st = 0" if "ca_timer_id a = t"
        using added(2) that assms(3) by (intro not_outstanding) (simp add: outstanding_run_def)
      moreover have "runs_of_timer t st \<le> 1" using assms(2) by (simp add: one_outstanding_def)
      ultimately show ?thesis by (cases "ca_timer_id a = t") simp_all
    qed
    then show ?thesis by (simp add: one_outstanding_def)
  qed
qed

lemma replay_runs:
  "replay_commands E k lines st = Inr st' \<Longrightarrow> one_outstanding st \<Longrightarrow> cs_pending st = [] \<Longrightarrow>
     one_outstanding st' \<and> cs_pending st' = []"
proof (induction lines arbitrary: k st)
  case (Cons line rest)
  show ?case
  proof (cases "trim line = []")
    case False
    then obtain entry :: command_entry and st1 where "alpha_apply_command E k (cmd_command entry) st = Inr st1"
      "replay_commands E (k + 1) rest st1 = Inr st'"
      using Cons.prems(1) by (auto split: if_splits sum.splits prod.splits)
    then show ?thesis using Cons.IH apply_command_runs apply_command_pending Cons.prems by metis
  qed (use Cons in \<open>auto split: if_splits\<close>)
qed simp

section \<open>Sequences of operations of a leader\<close>

datatype alpha_op =
    OpCreate create_timer_request
  | OpRegister worker_register_request
  | OpHeartbeat string
  | OpClaim string "string list"
  | OpComplete string run_complete_request
  | OpFail string run_fail_request
  | OpJoin join_request
  | OpLeave leave_request
  | OpEnqueue "string list"
  | OpExpire "string list" "string list"
  | OpShutdown

fun alpha_step :: "alpha_env \<Rightarrow> alpha_op \<Rightarrow> cluster_engine \<Rightarrow> cluster_engine" where
  "alpha_step E (OpCreate q) en = snd (alpha_create_timer E q en)"
| "alpha_step E (OpRegister q) en = snd (alpha_register_worker E q en)"
| "alpha_step E (OpHeartbeat w) en = snd (alpha_heartbeat_worker E w en)"
| "alpha_step E (OpClaim w tasks) en = snd (claim_pending_for E w tasks en)"
| "alpha_step E (OpComplete rid q) en = snd (alpha_complete_run E rid q en)"
| "alpha_step E (OpFail rid q) en = snd (alpha_fail_run E rid q en)"
| "alpha_step E (OpJoin q) en = snd (alpha_join E q en)"
| "alpha_step E (OpLeave q) en = snd (alpha_leave E q en)"
| "alpha_step E (OpEnqueue order) en =
     (case enqueue_due_runs E order (en_state en) of Inl _ \<Rightarrow> en | Inr st \<Rightarrow> en\<lparr>en_state := st\<rparr>)"
| "alpha_step E (OpExpire ws rs) en = on_state (expire_workers E ws rs) en"
| "alpha_step E OpShutdown en = alpha_shutdown en"

definition alpha_steps :: "(alpha_env \<times> alpha_op) list \<Rightarrow> cluster_engine \<Rightarrow> cluster_engine" where
  "alpha_steps ops en = fold (\<lambda>(E, op). alpha_step E op) ops en"

definition run_ended :: "string \<Rightarrow> cluster_state \<Rightarrow> cluster_state \<Rightarrow> bool" where
  "run_ended rid st st' \<longleftrightarrow> cs_pending st' = cs_pending st
     \<and> (cs_active_runs st' = cs_active_runs st \<or> cs_active_runs st' = bt_remove rid (cs_active_runs st))"

lemma run_ended_runs: "run_ended rid st st' \<Longrightarrow> one_outstanding st \<Longrightarrow> one_outstanding st'"
  by (erule one_outstanding_mono) (auto simp: run_ended_def runs_of_timer_def count_remove)

text \<open>Operations that keep the queue and the active runs.\<close>

fun quiet_op :: "alpha_op \<Rightarrow> bool" where
  "quiet_op (OpClaim _ _) = False"
| "quiet_op (OpComplete _ _) = False"
| "quiet_op (OpFail _ _) = False"
| "quiet_op (OpEnqueue _) = False"
| "quiet_op (OpExpire _ _) = False"
| "quiet_op _ = True"

lemma quiet_ops: "quiet_op op \<Longrightarrow> run_ended rid (en_state en) (en_state (alpha_step E op en))"
  unfolding run_ended_def
  by (cases op)
     (auto simp: alpha_create_timer_def alpha_apply_create_def alpha_register_worker_def alpha_heartbeat_worker_def
       alpha_shutdown_def alpha_join_def alpha_leave_def apply_membership_def write_config_def on_state_def push_event_def Let_def
       split: sum.splits prod.splits option.splits dest!: append_replicated_state append_command_state)

lemma finish_run_ended:
  "run_ended rid (en_state en) (en_state (snd (alpha_complete_run E rid q en)))"
  "run_ended rid (en_state en) (en_state (snd (alpha_fail_run E rid q' en)))"
  by (auto simp: alpha_complete_run_def alpha_fail_run_def alpha_reschedule_def on_state_def push_event_def Let_def
      run_ended_def split: sum.splits prod.splits option.splits fault.splits dest!: append_command_state)

lemma new_cluster_state_runs: "one_outstanding (new_cluster_state config)" "cs_pending (new_cluster_state config) = []"
  by (simp_all add: new_cluster_state_def one_outstanding_def runs_of_timer_def bt_values_def)

lemma step_runs:
  assumes "one_outstanding (en_state en)"
  shows "one_outstanding (en_state (alpha_step E op en))"
proof (cases op)
  case (OpClaim w tasks)
  then show ?thesis using claim_pending_runs [OF _ assms] by (metis alpha_step.simps(4) prod.collapse)
next
  case (OpComplete rid q)
  then show ?thesis using run_ended_runs [OF finish_run_ended(1) assms] by simp
next
  case (OpFail rid q)
  then show ?thesis using run_ended_runs [OF finish_run_ended(2) assms] by simp
next
  case (OpEnqueue order)
  then show ?thesis
    using assms by (auto simp: enqueue_due_runs_def split: sum.split if_splits dest: enqueue_loop_runs)
next
  case (OpExpire ws rs)
  then show ?thesis using expire_workers_runs [OF assms] by (simp add: on_state_def)
qed (rule run_ended_runs [OF quiet_ops assms]; simp)+

lemma open_runs:
  assumes "alpha_open E0 locked data_dir node_id http_addr raft_addr leader_id log = Inr en"
  shows "one_outstanding (en_state en)"
proof -
  obtain config where "replay_commands E0 0 (read_lines (unwrap_or log [])) (new_cluster_state config) = Inr (en_state en)"
    using assms by (auto simp: alpha_open_def Let_def split: if_splits option.splits sum.splits)
  then show ?thesis using replay_runs new_cluster_state_runs by blast
qed

lemma steps_runs: "one_outstanding (en_state en) \<Longrightarrow> one_outstanding (en_state (alpha_steps ops en))"
  unfolding alpha_steps_def by (induction ops arbitrary: en) (auto simp: step_runs)

text \<open>At most one run of a timer is outstanding.  Open the alpha cluster on any command log and let
  its leader serve any sequence of requests, polls, scheduler turns and lease expiries, with any
  outcome of the writes: at every moment a timer has at most one run that is queued or being
  executed by a worker.\<close>

theorem alpha_one_outstanding:
  assumes "alpha_open E0 locked data_dir node_id http_addr raft_addr leader_id log = Inr en"
  shows "\<forall>t. runs_of_timer t (en_state (alpha_steps ops en)) \<le> 1"
  using steps_runs [OF open_runs [OF assms]] by (simp add: one_outstanding_def)

section \<open>Quorum\<close>

definition quorum :: "alpha_env \<Rightarrow> cluster_state \<Rightarrow> bool" where
  "quorum E st \<longleftrightarrow> length (cc_peers (cs_config st)) + 1
     < 2 * (1 + length (filter (al_ack E) (cc_peers (cs_config st))))"

lemma replicated_quorum:
  assumes "append_replicated_command E k c en = (r, en')" "\<not> al_contended E" "en' \<noteq> en \<or> r = Inr ()"
  shows "cs_leader (en_state en) \<and> quorum E (en_state en)"
  using assms
  by (auto simp: append_replicated_command_def alpha_ensure_leader_def quorum_def Let_def split: if_splits sum.splits)

lemma append_logged:
  "append_command E k c en = (Inr (), en') \<Longrightarrow>
     \<exists>line. encode (al_codec E) \<lparr>cmd_v = 1, cmd_ts = al_now E k, cmd_command = c\<rparr> = Inr line
       \<and> en_log en' = en_log en @ line @ [LF]"
  by (auto simp: append_command_def Let_def split: sum.splits io_outcome.splits)

lemma replicated_logged:
  "append_replicated_command E k c en = (Inr (), en') \<Longrightarrow>
     \<exists>line. encode (al_codec E) \<lparr>cmd_v = 1, cmd_ts = al_now E k, cmd_command = c\<rparr> = Inr line
       \<and> en_log en' = en_log en @ line @ [LF]"
  by (auto simp: append_replicated_command_def Let_def split: sum.splits if_splits dest: append_logged)

lemma apply_create_stored:
  "alpha_apply_create E k spec st = Inr st' \<Longrightarrow>
     bt_get (cs_timers st') (timer_id_str (ds_id spec)) = Some spec
     \<and> bt_get (cs_states st') (timer_id_str (ds_id spec)) = Some Scheduled"
  by (auto simp: alpha_apply_create_def push_event_def Let_def split: sum.splits)

text \<open>How a creation ends: without any effect, after a failed append, after an append that could not
  be applied, or with the timer stored.\<close>

definition requested_spec :: "create_timer_request \<Rightarrow> distributed_timer_spec \<Rightarrow> bool" where
  "requested_spec q spec \<longleftrightarrow> timer_id_str (ds_id spec) = cr_name q \<and> ds_tenant_id spec = cr_tenant_id q
     \<and> (\<exists>p. ds_target spec = WorkerTask (cr_task q) p)
     \<and> max_attempts (ds_retry spec) = unwrap_or (cr_max_attempts q) 3"

lemma create_timer_cases:
  assumes "alpha_create_timer E q en = (r, en')"
  obtains (refused) err where "r = Inl err" "en' = en"
  | (logged) spec n r1 en1 where "append_replicated_command E 2 (CreateTimer spec n) en = (r1, en1)"
      "requested_spec q spec" "\<exists>t. next_run_after (al_libs E) (ds_schedule spec) t (ds_timezone spec) = Inr n"
      "(\<exists>err. r1 = Inl err \<and> r = Inl err \<and> en' = en1)
       \<or> r1 = Inr () \<and> (\<exists>err. alpha_apply_create E 3 spec (en_state en1) = Inl err \<and> r = Inl err \<and> en' = en1)
       \<or> r1 = Inr () \<and> (\<exists>st1. alpha_apply_create E 3 spec (en_state en1) = Inr st1 \<and> en' = en1\<lparr>en_state := st1\<rparr>)"
proof (cases "alpha_ensure_leader (en_state en)")
  case leader: (Inr u)
  show ?thesis
  proof (cases "parse_request_schedule (al_libs E) (al_now E 0) q")
    case parsed: (Inr sched)
    let ?spec = "spec_of_request q sched (al_now E 1)"
    show ?thesis
    proof (cases "next_run_after (al_libs E) sched (ds_created_at ?spec) (ds_timezone ?spec)")
      case next_run: (Inr n)
      obtain r1 en1 where app: "append_replicated_command E 2 (CreateTimer ?spec n) en = (r1, en1)" by (metis prod.exhaust)
      have spec: "requested_spec q ?spec" "ds_schedule ?spec = sched" by (simp_all add: requested_spec_def spec_of_request_def)
      show ?thesis
      proof (rule logged [OF app spec(1)])
        show "\<exists>t. next_run_after (al_libs E) (ds_schedule ?spec) t (ds_timezone ?spec) = Inr n"
          using next_run spec(2) by metis
      qed (use assms leader parsed next_run app in \<open>cases r1; cases "alpha_apply_create E 3 ?spec (en_state en1)";
             simp add: alpha_create_timer_def Let_def del: One_nat_def\<close>)
    qed (use assms leader parsed in \<open>auto simp: alpha_create_timer_def Let_def simp del: One_nat_def intro: refused\<close>)
  qed (use assms leader in \<open>auto simp: alpha_create_timer_def intro: refused\<close>)
qed (use assms in \<open>auto simp: alpha_create_timer_def intro: refused\<close>)

text \<open>A timer needs a majority.  Unless another thread holds the lock of the state, creating a
  timer changes the engine or its log only on the leader and only when more than half of the
  nodes have acknowledged the command.  When it succeeds, the command is in the log and the
  timer is stored with the name, tenant, task and attempts of the request, and is scheduled.\<close>

theorem alpha_create_needs_quorum:
  assumes "alpha_create_timer E q en = (r, en')" "\<not> al_contended E"
  shows "(en' = en \<or> cs_leader (en_state en) \<and> quorum E (en_state en))
    \<and> (\<forall>s. r = Inr s \<longrightarrow> (\<exists>spec n line. encode (al_codec E)
              \<lparr>cmd_v = 1, cmd_ts = al_now E 2, cmd_command = CreateTimer spec n\<rparr> = Inr line
          \<and> en_log en' = en_log en @ line @ [LF]
          \<and> bt_get (cs_timers (en_state en')) (cr_name q) = Some spec
          \<and> bt_get (cs_states (en_state en')) (cr_name q) = Some Scheduled
          \<and> requested_spec q spec
          \<and> cs_leader (en_state en) \<and> quorum E (en_state en)))"
  using assms(1)
proof (cases rule: create_timer_cases)
  case (logged spec n r1 en1)
  have quo: "cs_leader (en_state en) \<and> quorum E (en_state en)" if "en1 \<noteq> en \<or> r1 = Inr ()"
    by (rule replicated_quorum [OF logged(1) assms(2) that])
  from logged(4) show ?thesis
  proof (elim disjE exE conjE)
    fix st1 assume ok: "r1 = Inr ()" "alpha_apply_create E 3 spec (en_state en1) = Inr st1" "en' = en1\<lparr>en_state := st1\<rparr>"
    have "timer_id_str (ds_id spec) = cr_name q" using logged(2) by (simp add: requested_spec_def)
    then show ?thesis
      using quo ok apply_create_stored [OF ok(2)] replicated_logged [OF logged(1) [unfolded ok(1)]] logged(2)
      by (simp del: One_nat_def) blast
  qed (use quo in auto)
qed simp

text \<open>A contended lock skips the replication: the command is logged without asking any peer.\<close>

lemma contended_skips_quorum:
  "al_contended E \<Longrightarrow> cs_leader (en_state en) \<Longrightarrow>
     append_replicated_command E k c en = append_command E k c en"
  by (simp add: append_replicated_command_def alpha_ensure_leader_def)

section \<open>Witnesses\<close>

definition sample_alpha_env :: "command_entry codec \<Rightarrow> datetime \<Rightarrow> alpha_env" where
  "sample_alpha_env C now = \<lparr>al_libs = minute_libs, al_ts = (\<lambda>_. Null), al_codec = C, al_now = (\<lambda>_. now),
     al_instant = (\<lambda>_. 0), al_io = IoOk, al_contended = False, al_token = Inr ''secret'', al_ack = (\<lambda>_. True),
     al_ulid = (\<lambda>_. ''01ARZ''), al_config_io = None\<rparr>"

text \<open>A JSON library whose texts nobody reads back.\<close>

definition blank_codec :: "command_entry codec" where
  "blank_codec = \<lparr>encode = (\<lambda>_. Inr ''{}''), decode = (\<lambda>_. Inl (''unreadable'', False))\<rparr>"

definition sample_create_request :: create_timer_request where
  "sample_create_request = \<lparr>cr_name = ''digest'', cr_tenant_id = None, cr_cron = None,
     cr_every = Some (show_duration 2 Minutes), cr_after = None, cr_at = None, cr_timezone = None,
     cr_max_attempts = Some 2, cr_task = ''mail'', cr_payload = None\<rparr>"

definition sample_alpha_spec :: "datetime \<Rightarrow> distributed_timer_spec" where
  "sample_alpha_spec now = spec_of_request sample_create_request (Every 120) now"

definition fresh_engine :: cluster_engine where
  "fresh_engine = (let config = \<lparr>cc_node_id = ''n1'', cc_http_addr = ''h'', cc_raft_addr = ''r'',
     cc_leader_id = ''n1'', cc_peers = []\<rparr>
     in \<lparr>en_state = new_cluster_state config, en_log = [], en_config = config\<rparr>)"

lemma alpha_open_fresh: "alpha_open (sample_alpha_env C 0) False ''data'' ''n1'' ''h'' ''r'' None None = Inr fresh_engine"
  by (simp add: alpha_open_def sample_alpha_env_def fresh_engine_def unwrap_or_def Let_def read_lines_def)

lemma sample_created_alpha:
  "\<exists>s. alpha_create_timer (sample_alpha_env blank_codec 0) sample_create_request fresh_engine =
     (Inr s, fresh_engine\<lparr>en_log := ''{}'' @ [LF], en_state := (en_state fresh_engine)\<lparr>
        cs_timers := [(''digest'', sample_alpha_spec 0)], cs_states := [(''digest'', Scheduled)],
        cs_next_runs := [(''digest'', 120000000000)],
        cs_history := [Object [(''type'', String ''TIMER_CREATED''), (''timer'', String ''digest''), (''ts'', Null)]]\<rparr>\<rparr>)"
proof -
  have dur: "parse_duration_str (show_duration 2 Minutes) = Inr 120" by (simp add: parse_duration_shown)
  have "parse_request_schedule minute_libs 0 sample_create_request = Inr (Every 120)"
    by (simp add: parse_request_schedule_def sample_create_request_def is_some_def dur)
  moreover have "next_run_after minute_libs (Every 120) 0 ''UTC'' = Inr (Some 120000000000)"
    by (simp add: next_run_after_def plus_seconds_def minute_libs_def nanos_per_sec_def)
  ultimately show ?thesis
    by (simp add: alpha_create_timer_def sample_alpha_env_def fresh_engine_def new_cluster_state_def alpha_ensure_leader_def
        append_replicated_command_def append_command_def blank_codec_def alpha_apply_create_def sample_alpha_spec_def
        spec_of_request_def sample_create_request_def unwrap_or_def push_event_def summary_for_def bt_get_def Let_def)
qed

theorem alpha_create_needs_quorum_witness:
  "\<exists>s en'. alpha_create_timer (sample_alpha_env blank_codec 0) sample_create_request fresh_engine = (Inr s, en')
    \<and> quorum (sample_alpha_env blank_codec 0) (en_state fresh_engine)
    \<and> (\<exists>spec. bt_get (cs_timers (en_state en')) ''digest'' = Some spec)"
proof -
  obtain s en' where run: "alpha_create_timer (sample_alpha_env blank_codec 0) sample_create_request fresh_engine = (Inr s, en')"
    using sample_created_alpha by blast
  have "\<not> al_contended (sample_alpha_env blank_codec 0)" by (simp add: sample_alpha_env_def)
  from alpha_create_needs_quorum [OF run this] run show ?thesis by (auto simp: sample_create_request_def)
qed

text \<open>The timer of the sample is created and, two minutes later, queued.\<close>

definition sample_alpha_ops :: "(alpha_env \<times> alpha_op) list" where
  "sample_alpha_ops = [(sample_alpha_env blank_codec 0, OpCreate sample_create_request),
     (sample_alpha_env blank_codec 120000000000, OpEnqueue [''digest''])]"

theorem alpha_one_outstanding_witness:
  "\<exists>en. alpha_open (sample_alpha_env blank_codec 0) False ''data'' ''n1'' ''h'' ''r'' None None = Inr en
    \<and> cs_pending (en_state (alpha_steps sample_alpha_ops en)) \<noteq> []
    \<and> runs_of_timer ''digest'' (en_state (alpha_steps sample_alpha_ops en)) \<le> 1"
proof -
  obtain s where "alpha_step (sample_alpha_env blank_codec 0) (OpCreate sample_create_request) fresh_engine =
     fresh_engine\<lparr>en_log := ''{}'' @ [LF], en_state := (en_state fresh_engine)\<lparr>
        cs_timers := [(''digest'', sample_alpha_spec 0)], cs_states := [(''digest'', Scheduled)],
        cs_next_runs := [(''digest'', 120000000000)],
        cs_history := [Object [(''type'', String ''TIMER_CREATED''), (''timer'', String ''digest''), (''ts'', Null)]]\<rparr>\<rparr>"
    using sample_created_alpha by auto
  then have "cs_pending (en_state (alpha_steps sample_alpha_ops fresh_engine)) \<noteq> []"
    by (simp add: alpha_steps_def sample_alpha_ops_def enqueue_due_runs_def enqueue_one_def outstanding_run_def bump_fencing_def
        fresh_engine_def new_cluster_state_def bt_get_def bt_values_def sample_alpha_env_def sample_alpha_spec_def
        spec_of_request_def Let_def)
  then show ?thesis
    using alpha_open_fresh alpha_one_outstanding [OF alpha_open_fresh] by blast
qed

end
