(* ===== verification/Kron_Cluster_Log.thy ===== *)
theory Kron_Cluster_Log
  imports Kron_Cluster Kron_Number_Codec
begin

text \<open>
  The command log of the alpha cluster (cluster.rs): what a replay of \<open>kron.raft.aof\<close> gives back.
  Shown: timers and configuration survive a restart after any sequence of operations, while a
  run whose lease expired and that another worker completed is active again.
\<close>

section \<open>What a command means for timers and configuration\<close>

fun spec_effect ::
  "raft_command \<Rightarrow> (string, distributed_timer_spec) btree_map \<times> cluster_config
   \<Rightarrow> (string, distributed_timer_spec) btree_map \<times> cluster_config" where
  "spec_effect (CreateTimer spec _) (ts, config) = (bt_insert (timer_id_str (ds_id spec)) spec ts, config)"
| "spec_effect (UpdateTimer spec _) (ts, config) = (bt_insert (timer_id_str (ds_id spec)) spec ts, config)"
| "spec_effect (AddNode node) (ts, config) = (ts, add_peer node config)"
| "spec_effect (RemoveNode nid) (ts, config) = (ts, remove_peer nid config)"
| "spec_effect _ x = x"

definition durable_part :: "cluster_state \<Rightarrow> (string, distributed_timer_spec) btree_map \<times> cluster_config" where
  "durable_part st = (cs_timers st, cs_config st)"

lemma apply_spec_effect:
  "alpha_apply_command E k c st = Inr st' \<Longrightarrow> durable_part st' = spec_effect c (durable_part st)"
  by (cases c) (auto simp: durable_part_def alpha_apply_create_def alpha_reschedule_def alpha_apply_claim_def
      alpha_apply_complete_def alpha_apply_fail_def push_event_def Let_def
      split: sum.splits option.splits fault.splits)

text \<open>The date arithmetic never leaves the range of dates.\<close>

definition dates_in_range :: "libs \<Rightarrow> bool" where
  "dates_in_range L \<longleftrightarrow> (\<forall>t n. add_seconds L t n \<noteq> None)"

lemma plus_total: "dates_in_range L \<Longrightarrow> \<exists>x. plus_seconds L u m = Inr x"
  by (auto simp: dates_in_range_def plus_seconds_def split: option.split)

lemma next_run_total:
  assumes "dates_in_range L" "next_run_after L s t tz = Inr n"
  shows "\<exists>n'. next_run_after L s t' tz = Inr n'"
  using assms(2) plus_total [OF assms(1)]
  by (auto simp: next_run_after_def Let_def split: if_splits schedule.splits sum.splits option.splits)
     (metis Inl_Inr_False)+

lemma next_run_no_panic:
  assumes "dates_in_range L"
  shows "next_run_after L s t tz \<noteq> Inl (Panic msg)"
  using plus_total [OF assms]
  by (auto simp: next_run_after_def Let_def split: if_splits schedule.splits sum.splits option.splits)
     (metis Inl_Inr_False)+

fun valid_command :: "libs \<Rightarrow> raft_command \<Rightarrow> bool" where
  "valid_command L (CreateTimer spec _) = (\<exists>t n. next_run_after L (ds_schedule spec) t (ds_timezone spec) = Inr n)"
| "valid_command L (UpdateTimer spec _) = (\<exists>t n. next_run_after L (ds_schedule spec) t (ds_timezone spec) = Inr n)"
| "valid_command L _ = True"

text \<open>What is assumed of an environment: dates stay in range, the machine has been up for less than
  136 years, and every entry can be serialised.\<close>

definition sane :: "libs \<Rightarrow> command_entry codec \<Rightarrow> alpha_env \<Rightarrow> bool" where
  "sane L C E \<longleftrightarrow> al_libs E = L \<and> al_codec E = C \<and> al_io E = IoOk \<and> al_config_io E = None
     \<and> (\<forall>k. al_instant E k < 4294967296 * nanos_per_sec)"

lemma sane_instant: "sane L C E \<Longrightarrow> \<exists>t. instant_plus (al_instant E k) 30 = Inr t"
proof -
  assume "sane L C E"
  then have "al_instant E k < 4294967296 * nanos_per_sec" by (simp add: sane_def)
  then have "al_instant E k div nanos_per_sec < 4294967296"
    by (simp add: nanos_per_sec_def div_less_iff_less_mult)
  then show ?thesis by (simp add: instant_plus_def)
qed

lemma reschedule_total:
  "dates_in_range (al_libs E) \<Longrightarrow> \<exists>st'. alpha_reschedule E k tid st = Inr st'"
  using next_run_no_panic [of "al_libs E"]
  by (auto simp: alpha_reschedule_def split: option.split sum.split fault.split)

lemma apply_total:
  assumes "sane L C E" "dates_in_range L" "valid_command L c"
  shows "\<exists>st'. alpha_apply_command E k c st = Inr st'"
proof -
  have libs: "al_libs E = L" using assms(1) by (simp add: sane_def)
  have create: "\<exists>st'. alpha_apply_create E k spec st = Inr st'"
    if ok: "\<exists>t n. next_run_after L (ds_schedule spec) t (ds_timezone spec) = Inr n" for spec
  proof -
    obtain n where "next_run_after L (ds_schedule spec) (al_now E k) (ds_timezone spec) = Inr n"
      using ok next_run_total [OF assms(2)] by blast
    then show ?thesis by (simp add: alpha_apply_create_def libs Let_def)
  qed
  show ?thesis
    using assms(3) create sane_instant [OF assms(1), of k] reschedule_total [of E] assms(2) libs
    by (cases c) (auto simp: alpha_apply_complete_def split: option.split)
qed

lemma replay_total:
  assumes "sane L C E" "dates_in_range L" "list_all (wf_entry C) es" "list_all (\<lambda>e. valid_command L (cmd_command e)) es"
  shows "\<exists>st'. replay_commands E k (map (entry_text C) es) st = Inr st'
    \<and> durable_part st' = fold (\<lambda>e. spec_effect (cmd_command e)) es (durable_part st)"
  using assms(3,4)
proof (induction es arbitrary: k st)
  case (Cons e es)
  obtain st1 where st1: "alpha_apply_command E k (cmd_command e) st = Inr st1"
    using apply_total [OF assms(1,2)] Cons.prems(2) by fastforce
  have "al_codec E = C" using assms(1) by (simp add: sane_def)
  with Cons.IH [of "k + 1" st1] Cons.prems st1 apply_spec_effect [OF st1] wf_entryD [of C e] show ?case by auto
qed simp

section \<open>The log holds the timers and the configuration\<close>

definition log_holds :: "libs \<Rightarrow> command_entry codec \<Rightarrow> cluster_config \<Rightarrow> cluster_engine \<Rightarrow> bool" where
  "log_holds L C config en \<longleftrightarrow>
     (\<exists>es. list_all (wf_entry C) es \<and> list_all (\<lambda>e. valid_command L (cmd_command e)) es \<and> en_log en = log_file C es
        \<and> durable_part (en_state en) = fold (\<lambda>e. spec_effect (cmd_command e)) es ([], config))"

lemma log_holds_same:
  "log_holds L C config en \<Longrightarrow> en_log en' = en_log en \<Longrightarrow> durable_part (en_state en') = durable_part (en_state en)
   \<Longrightarrow> log_holds L C config en'"
  by (simp add: log_holds_def)

lemma sane_append:
  assumes "sane L C E" "\<forall>e. wf_entry C e"
  shows "append_command E k c en =
    (Inr (), en\<lparr>en_log := en_log en @ log_file C [\<lparr>cmd_v = 1, cmd_ts = al_now E k, cmd_command = c\<rparr>]\<rparr>)"
proof -
  have "encode C e = Inr (entry_text C e)" for e by (rule wf_entryD(1)) (simp add: assms(2))
  with assms(1) show ?thesis by (simp add: append_command_def sane_def log_file_def Let_def)
qed

lemma log_holds_append:
  assumes "log_holds L C config en" "\<forall>e. wf_entry C e" "valid_command L c"
    and "en_log en' = en_log en @ log_file C [\<lparr>cmd_v = 1, cmd_ts = t, cmd_command = c\<rparr>]"
    and "durable_part (en_state en') = spec_effect c (durable_part (en_state en))"
  shows "log_holds L C config en'"
proof -
  obtain es where es: "list_all (wf_entry C) es" "list_all (\<lambda>e. valid_command L (cmd_command e)) es" "en_log en = log_file C es"
    "durable_part (en_state en) = fold (\<lambda>e. spec_effect (cmd_command e)) es ([], config)"
    using assms(1) by (auto simp: log_holds_def)
  let ?e = "\<lparr>cmd_v = 1, cmd_ts = t, cmd_command = c\<rparr>"
  have "list_all (wf_entry C) (es @ [?e])" using es(1) assms(2) by simp
  moreover have "list_all (\<lambda>e. valid_command L (cmd_command e)) (es @ [?e])" using es(2) assms(3) by simp
  moreover have "en_log en' = log_file C (es @ [?e])" using assms(4) es(3) by simp
  moreover have "durable_part (en_state en') = fold (\<lambda>e. spec_effect (cmd_command e)) (es @ [?e]) ([], config)"
    using assms(5) es(4) by simp
  ultimately show ?thesis unfolding log_holds_def by blast
qed

lemma sane_replicated:
  assumes "sane L C E" "\<forall>e. wf_entry C e" "append_replicated_command E k c en = (r, en1)"
  shows "(\<exists>err. r = Inl err \<and> en1 = en) \<or> r = Inr () \<and>
    en1 = en\<lparr>en_log := en_log en @ log_file C [\<lparr>cmd_v = 1, cmd_ts = al_now E k, cmd_command = c\<rparr>]\<rparr>"
  using assms(3) sane_append [OF assms(1,2)]
  by (auto simp: append_replicated_command_def alpha_ensure_leader_def Let_def split: sum.splits if_splits)

text \<open>Membership commands: logged, applied, and written to the configuration file.\<close>

lemma membership_holds:
  assumes "log_holds L C config en" "sane L C E" "dates_in_range L" "\<forall>e. wf_entry C e" "valid_command L c"
    and "(\<exists>err. r1 = Inl err \<and> en1 = en) \<or> r1 = Inr () \<and>
      en1 = en\<lparr>en_log := en_log en @ log_file C [\<lparr>cmd_v = 1, cmd_ts = t, cmd_command = c\<rparr>]\<rparr>"
  shows "log_holds L C config (snd (apply_membership E c answer (r1, en1)))"
  using assms(6)
proof
  assume en1: "r1 = Inr () \<and> en1 = en\<lparr>en_log := en_log en @ log_file C [\<lparr>cmd_v = 1, cmd_ts = t, cmd_command = c\<rparr>]\<rparr>"
  obtain st1 where st1: "alpha_apply_command E 1 c (en_state en1) = Inr st1"
    using apply_total [OF assms(2,3,5)] by blast
  have "snd (apply_membership E c answer (r1, en1)) = en1\<lparr>en_state := st1, en_config := cs_config st1\<rparr>"
    using assms(2) en1 st1 by (simp add: apply_membership_def write_config_def sane_def)
  with apply_spec_effect [OF st1] en1 log_holds_append [OF assms(1,4,5)] show ?thesis by simp
qed (use assms(1) in \<open>auto simp: apply_membership_def\<close>)

lemma create_holds:
  assumes "log_holds L C config en" "sane L C E" "dates_in_range L" "\<forall>e. wf_entry C e"
    and "alpha_create_timer E q en = (r, en')"
  shows "log_holds L C config en'"
  using assms(5)
proof (cases rule: create_timer_cases)
  case (logged spec n r1 en1)
  have libs: "al_libs E = L" using assms(2) by (simp add: sane_def)
  have valid: "valid_command L (CreateTimer spec n)" using logged(3) libs by auto
  obtain st0 where "alpha_apply_create E 3 spec (en_state en) = Inr st0"
    using apply_total [OF assms(2,3) valid, of 3 "en_state en"] by auto
  then have "en' = en \<or> (\<exists>st1. alpha_apply_create E 3 spec (en_state en) = Inr st1 \<and>
      en' = en\<lparr>en_log := en_log en @ log_file C [\<lparr>cmd_v = 1, cmd_ts = al_now E 2, cmd_command = CreateTimer spec n\<rparr>], en_state := st1\<rparr>)"
    using logged(4) sane_replicated [OF assms(2,4) logged(1)] by auto
  then show ?thesis
  proof (elim disjE exE conjE)
    fix st1 assume st1: "alpha_apply_create E 3 spec (en_state en) = Inr st1"
      and en': "en' = en\<lparr>en_log := en_log en @ log_file C [\<lparr>cmd_v = 1, cmd_ts = al_now E 2, cmd_command = CreateTimer spec n\<rparr>], en_state := st1\<rparr>"
    show ?thesis
      using log_holds_append [OF assms(1,4) valid] apply_spec_effect [of E 3 "CreateTimer spec n" "en_state en" st1] st1 en' by simp
  qed (use assms(1) in simp)
qed (use assms(1) in simp)

text \<open>Operations whose command changes neither timers nor configuration.\<close>

lemma logged_holds:
  assumes "log_holds L C config en" "\<forall>e. wf_entry C e" "valid_command L c" "\<And>x. spec_effect c x = x"
    and "en_log en' = en_log en \<or> en_log en' = en_log en @ log_file C [\<lparr>cmd_v = 1, cmd_ts = t, cmd_command = c\<rparr>]"
    and "durable_part (en_state en') = durable_part (en_state en)"
  shows "log_holds L C config en'"
  using assms(5) log_holds_append [OF assms(1,2,3)] log_holds_same [OF assms(1)] assms(4,6) by metis

lemma enqueue_durable: "enqueue_loop E k tids st = Inr st' \<Longrightarrow> durable_part st' = durable_part st"
  by (induction tids arbitrary: k st)
     (auto simp: enqueue_one_def bump_fencing_def durable_part_def Let_def
       split: sum.splits if_splits option.splits timer_target.splits)

lemma expire_run_durable: "durable_part (expire_run E k rid st) = durable_part st"
  by (auto simp: expire_run_def bump_fencing_def push_event_def durable_part_def Let_def
      split: option.split timer_target.split)

lemma expire_runs_durable: "durable_part (expire_runs E k rids st) = durable_part st"
  by (induction rids arbitrary: k st) (simp_all add: expire_run_durable)

lemma lose_workers_durable: "durable_part (lose_workers E k ws st) = durable_part st"
  by (induction ws arbitrary: k st) (simp_all add: lose_worker_def push_event_def durable_part_def)

lemma claim_holds:
  assumes "log_holds L C config en" "sane L C E" "dates_in_range L" "\<forall>e. wf_entry C e"
  shows "log_holds L C config (snd (claim_pending_for E worker tasks en))"
proof -
  note app = sane_append [OF assms(2,4)]
  let ?wt = "case bt_get (cs_workers (en_state en)) worker of Some w \<Rightarrow> wi_tasks w | None \<Rightarrow> tasks"
  obtain d0 d2 where d: "plus_seconds (al_libs E) (al_now E 0) 30 = Inr d0" "plus_seconds (al_libs E) (al_now E 2) 30 = Inr d2"
    using plus_total assms(2,3) by (metis sane_def)
  show ?thesis
  proof (cases "List.find (claimable tasks ?wt) (cs_pending (en_state en))")
    case (Some run)
    let ?c = "ClaimRun (TimerId (wr_timer run)) (RunId (wr_run_id run)) worker (wr_fencing_token run) (wr_attempt run) d0"
    show ?thesis
      by (rule logged_holds [OF assms(1,4), where c = ?c and t = "al_now E 1"])
         (use Some d in \<open>simp_all add: claim_pending_for_def app on_state_def push_event_def durable_part_def Let_def\<close>)
  qed (use assms(1) in \<open>simp add: claim_pending_for_def Let_def\<close>)
qed

lemma finish_holds:
  assumes "log_holds L C config en" "sane L C E" "\<forall>e. wf_entry C e"
  shows "log_holds L C config (snd (alpha_complete_run E rid q en))" "log_holds L C config (snd (alpha_fail_run E rid q' en))"
proof -
  note app = sane_append [OF assms(2,3)]
  show "log_holds L C config (snd (alpha_complete_run E rid q en))"
    by (rule logged_holds [OF assms(1,3), where c = "CompleteRun (RunId rid) (rc_worker_id q) (rc_fencing_token q) (al_now E 0)"
          and t = "al_now E 1"])
       (auto simp: alpha_complete_run_def alpha_reschedule_def app push_event_def durable_part_def Let_def
          split: sum.splits option.splits fault.splits)
  show "log_holds L C config (snd (alpha_fail_run E rid q' en))"
    by (rule logged_holds [OF assms(1,3), where c = "FailRun (RunId rid) (rf_worker_id q') (rf_fencing_token q') (rf_error q') (al_now E 0)"
          and t = "al_now E 1"])
       (auto simp: alpha_fail_run_def app on_state_def push_event_def durable_part_def Let_def split: sum.splits)
qed

lemma step_holds:
  assumes "log_holds L C config en" "sane L C E" "dates_in_range L" "\<forall>e. wf_entry C e"
  shows "log_holds L C config (alpha_step E op en)"
proof -
  note app = sane_append [OF assms(2,4)] and repl = sane_replicated [OF assms(2,4)] and keep = logged_holds [OF assms(1,4)]
  show ?thesis
  proof (cases op)
    case (OpCreate q)
    then show ?thesis using create_holds [OF assms] by (metis alpha_step.simps(1) prod.collapse)
  next
    case (OpRegister q)
    obtain until where until: "plus_seconds (al_libs E) (al_now E 0) (unwrap_or (wreg_lease_seconds q) 30) = Inr until"
      using plus_total assms(2,3) by (metis sane_def)
    obtain r1 en1 where r1: "append_replicated_command E 1 (RegisterWorker (wreg_worker_id q) (wreg_tasks q) until) en = (r1, en1)"
      by (metis prod.exhaust)
    show ?thesis unfolding OpRegister alpha_step.simps
      by (rule keep [where c = "RegisterWorker (wreg_worker_id q) (wreg_tasks q) until" and t = "al_now E 1"])
         (use repl [OF r1] r1 until in \<open>auto simp: alpha_register_worker_def on_state_def push_event_def durable_part_def Let_def
            split: sum.splits\<close>)
  next
    case (OpJoin q)
    let ?c = "AddNode \<lparr>ni_node_id = jr_node_id q, ni_http_addr = jr_http_addr q, ni_raft_addr = jr_raft_addr q\<rparr>"
    obtain r1 en1 where r1: "append_replicated_command E 0 ?c en = (r1, en1)" by (metis prod.exhaust)
    have "log_holds L C config (snd (apply_membership E ?c (Object [(''joined'', Bool True)]) (r1, en1)))"
      by (rule membership_holds [OF assms _ repl [OF r1]]) simp
    with OpJoin r1 assms(1) show ?thesis by (auto simp: alpha_join_def Let_def split: sum.split)
  next
    case (OpLeave q)
    let ?c = "RemoveNode (lr_node_id q)"
    have "log_holds L C config (snd (apply_membership E ?c (Object [(''left'', Bool True)]) (append_command E 0 ?c en)))"
      unfolding app by (rule membership_holds [OF assms]) simp_all
    with OpLeave assms(1) show ?thesis by (auto simp: alpha_leave_def Let_def split: sum.split)
  next
    case (OpEnqueue order)
    then show ?thesis
      using log_holds_same [OF assms(1)] by (auto simp: enqueue_due_runs_def split: sum.split if_splits dest: enqueue_durable)
  next
    case (OpExpire ws rs)
    then show ?thesis
      by (simp add: log_holds_same [OF assms(1)] on_state_def expire_workers_def Let_def expire_runs_durable lose_workers_durable)
  qed (use claim_holds [OF assms] finish_holds [OF assms(1,2,4)] log_holds_same [OF assms(1)] in
        \<open>auto simp: alpha_heartbeat_worker_def alpha_shutdown_def on_state_def durable_part_def split: sum.split option.split\<close>)
qed

section \<open>Restarting\<close>

lemma steps_hold:
  "log_holds L C config en \<Longrightarrow> dates_in_range L \<Longrightarrow> \<forall>e. wf_entry C e \<Longrightarrow> list_all (\<lambda>(E, op). sane L C E) ops \<Longrightarrow>
     log_holds L C config (alpha_steps ops en)"
  unfolding alpha_steps_def by (induction ops arbitrary: en) (auto simp: step_holds)

lemma durable_part_eq: "durable_part st = durable_part st' \<longleftrightarrow> cs_timers st = cs_timers st' \<and> cs_config st = cs_config st'"
  by (auto simp: durable_part_def)

text \<open>The alpha cluster restarts with its timers and peers.  Start on an empty directory and let the
  leader perform any sequence of operations, while writes succeed, entries can be serialised and
  dates stay in range.  Then the command log can be replayed, and opening the directory again
  gives exactly the timer specifications and the configuration with its peers that the engine
  had.\<close>

theorem alpha_restart:
  assumes "dates_in_range L" "\<forall>e. wf_entry C e" "sane L C E0" "sane L C E1"
    and "alpha_open E0 False data_dir node_id http_addr raft_addr leader_id None = Inr en"
    and "list_all (\<lambda>(E, op). sane L C E) ops"
  shows "\<exists>en'. alpha_open E1 False data_dir node_id http_addr raft_addr leader_id
      (Some (en_log (alpha_steps ops en))) = Inr en'
    \<and> cs_timers (en_state en') = cs_timers (en_state (alpha_steps ops en))
    \<and> cs_config (en_state en') = cs_config (en_state (alpha_steps ops en))"
proof -
  let ?config = "\<lparr>cc_node_id = node_id, cc_http_addr = http_addr, cc_raft_addr = raft_addr,
    cc_leader_id = unwrap_or leader_id node_id, cc_peers = []\<rparr>"
  have new: "durable_part (new_cluster_state ?config) = ([], ?config)" by (simp add: durable_part_def new_cluster_state_def)
  have "en = \<lparr>en_state = new_cluster_state ?config, en_log = [], en_config = ?config\<rparr>"
    using assms(3,5) by (simp add: alpha_open_def sane_def Let_def unwrap_or_def)
  then have "log_holds L C ?config en"
    using new by (auto simp: log_holds_def log_file_def intro!: exI [of _ "[]"])
  from steps_hold [OF this assms(1,2,6)] obtain es where es: "list_all (wf_entry C) es"
    "list_all (\<lambda>e. valid_command L (cmd_command e)) es" "en_log (alpha_steps ops en) = log_file C es"
    "durable_part (en_state (alpha_steps ops en)) = fold (\<lambda>e. spec_effect (cmd_command e)) es ([], ?config)"
    by (auto simp: log_holds_def)
  have "read_lines (log_file C es) = map (entry_text C) es" using read_log_file [OF es(1), of "[]"] by simp
  with replay_total [OF assms(4,1) es(1,2), of 0 "new_cluster_state ?config"] new es(3,4) assms(4) show ?thesis
    by (auto simp: alpha_open_def sane_def Let_def unwrap_or_def durable_part_eq [symmetric])
qed

section \<open>Expired leases are not logged\<close>

lemma reschedule_runs_same:
  "alpha_reschedule E k tid st = Inr st' \<Longrightarrow> cs_active_runs st' = cs_active_runs st \<and> cs_pending st' = cs_pending st"
  by (auto simp: alpha_reschedule_def split: option.splits sum.splits fault.splits)

lemma expire_requeues:
  assumes "cs_active_runs st = [(rid, a)]" "ca_run_id a = rid" "ca_lease_deadline a \<le> al_now E 0" "cs_pending st = []"
    and "bt_get (cs_timers st) (ca_timer_id a) = Some spec" "ds_target spec = WorkerTask task payload"
    and "ca_attempt a < max_attempts (ds_retry spec)"
    and "token = unwrap_or (bt_get (cs_fencing st) (ca_timer_id a)) 0 + 1"
    and "st' = expire_workers E [] [rid] st"
  shows "cs_active_runs st' = [] \<and> cs_workers st' = cs_workers st \<and> cs_leader st' = cs_leader st
    \<and> (\<exists>run. cs_pending st' = [run] \<and> wr_timer run = ca_timer_id a \<and> wr_run_id run = rid \<and> wr_task run = task
         \<and> wr_attempt run = ca_attempt a + 1 \<and> wr_fencing_token run = token)"
  unfolding assms(9) using assms(1-8)
  by (simp add: expire_workers_def expire_run_def bump_fencing_def push_event_def Let_def bt_get_def
      bt_remove_def bt_retain_def)

lemma claim_only_run:
  assumes "sane L C E" "dates_in_range L" "\<forall>e. wf_entry C e" "bt_get (cs_workers (en_state en)) w = None"
    and "cs_pending (en_state en) = [run]" "cs_active_runs (en_state en) = []"
    and "en' = snd (claim_pending_for E w [wr_task run] en)"
  shows "cs_pending (en_state en') = [] \<and> cs_leader (en_state en') = cs_leader (en_state en)
    \<and> (\<exists>b. cs_active_runs (en_state en') = [(wr_run_id run, b)] \<and> ca_worker_id b = w
         \<and> ca_fencing_token b = wr_fencing_token run)
    \<and> (\<exists>t d. en_log en' = en_log en @ log_file C [\<lparr>cmd_v = 1, cmd_ts = t, cmd_command =
         ClaimRun (TimerId (wr_timer run)) (RunId (wr_run_id run)) w (wr_fencing_token run) (wr_attempt run) d\<rparr>])"
proof -
  obtain d0 d2 where "plus_seconds (al_libs E) (al_now E 0) 30 = Inr d0" "plus_seconds (al_libs E) (al_now E 2) 30 = Inr d2"
    using plus_total assms(1,2) by (metis sane_def)
  then show ?thesis
    unfolding assms(7) using assms(4-6)
    by (simp add: claim_pending_for_def claimable_def sane_append [OF assms(1,3)] on_state_def push_event_def Let_def) blast
qed

lemma complete_only_run:
  assumes "sane L C E" "dates_in_range L" "\<forall>e. wf_entry C e" "cs_leader (en_state en)"
    and "cs_active_runs (en_state en) = [(rid, b)]"
    and "en' = snd (alpha_complete_run E rid \<lparr>rc_worker_id = ca_worker_id b, rc_fencing_token = ca_fencing_token b\<rparr> en)"
  shows "cs_active_runs (en_state en') = [] \<and> cs_pending (en_state en') = cs_pending (en_state en)
    \<and> (\<exists>t d. en_log en' = en_log en @ log_file C [\<lparr>cmd_v = 1, cmd_ts = t,
         cmd_command = CompleteRun (RunId rid) (ca_worker_id b) (ca_fencing_token b) d\<rparr>])"
proof -
  have libs: "al_libs E = L" using assms(1) by (simp add: sane_def)
  show ?thesis
    unfolding assms(6) using assms(4,5) reschedule_total [of E] assms(2) libs
    by (auto simp: alpha_complete_run_def alpha_ensure_leader_def alpha_validate_active_run_def sane_append [OF assms(1,3)]
        push_event_def Let_def bt_get_def bt_remove_def bt_retain_def split: sum.split dest: reschedule_runs_same)
       (metis Inl_Inr_False)+
qed

text \<open>A second claim of a timer with an active run is ignored, and so is the outcome of another worker.\<close>

lemma stale_commands_ignored:
  assumes "cs_active_runs st = [(rid, a)]" "w \<noteq> ca_worker_id a"
  shows "alpha_apply_command E k (ClaimRun (TimerId (ca_timer_id a)) (RunId rid') w token attempt d) st = Inr st"
    "alpha_apply_command E k (CompleteRun (RunId rid) w token t) st = Inr st"
  using assms by (simp_all add: alpha_apply_claim_def alpha_apply_complete_def alpha_owned_def bt_values_def bt_get_def)

text \<open>A restart brings a finished run back.  The lease of a run expires, another worker claims the
  run again with the next fencing token and completes it: the engine has no run left.  But the
  expiry is not in the log, so a replay ignores the second claim and rejects the completion; the
  run is active again under the first worker, and will be handed out once more when its lease
  expires.\<close>

theorem alpha_completed_run_resurrected:
  assumes "sane L C E" "dates_in_range L" "\<forall>e. wf_entry C e" "cs_leader (en_state en)"
    and "cs_active_runs (en_state en) = [(rid, a)]" "ca_run_id a = rid" "ca_lease_deadline a \<le> al_now E 0"
    and "cs_pending (en_state en) = []" "bt_get (cs_workers (en_state en)) w = None" "w \<noteq> ca_worker_id a"
    and "bt_get (cs_timers (en_state en)) (ca_timer_id a) = Some spec" "ds_target spec = WorkerTask task payload"
    and "ca_attempt a < max_attempts (ds_retry spec)"
    and "token = unwrap_or (bt_get (cs_fencing (en_state en)) (ca_timer_id a)) 0 + 1"
    and "en' = alpha_steps [(E, OpExpire [] [rid]), (E, OpClaim w [task]),
           (E, OpComplete rid \<lparr>rc_worker_id = w, rc_fencing_token = token\<rparr>)] en"
  shows "cs_active_runs (en_state en') = [] \<and> cs_pending (en_state en') = []
    \<and> (\<exists>e1 e2 st'. en_log en' = en_log en @ log_file C [e1, e2]
         \<and> replay_commands E 0 (map (entry_text C) [e1, e2]) (en_state en) = Inr st'
         \<and> cs_active_runs st' = [(rid, a)])"
proof -
  let ?en1 = "alpha_step E (OpExpire [] [rid]) en"
  let ?en2 = "alpha_step E (OpClaim w [task]) ?en1"
  have en1: "en_state ?en1 = expire_workers E [] [rid] (en_state en)" "en_log ?en1 = en_log en"
    by (simp_all add: on_state_def)
  obtain run where run: "cs_active_runs (en_state ?en1) = []" "cs_workers (en_state ?en1) = cs_workers (en_state en)"
    "cs_leader (en_state ?en1)" "cs_pending (en_state ?en1) = [run]" "wr_timer run = ca_timer_id a" "wr_run_id run = rid"
    "wr_task run = task" "wr_fencing_token run = token"
    using expire_requeues [OF assms(5-8) assms(11-14) en1(1)] assms(4) by auto
  have "?en2 = snd (claim_pending_for E w [wr_task run] ?en1)" "bt_get (cs_workers (en_state ?en1)) w = None"
    using run(2,7) assms(9) by simp_all
  from claim_only_run [OF assms(1-3) this(2) run(4,1) this(1)] run obtain b t d where
    b: "cs_pending (en_state ?en2) = []" "cs_leader (en_state ?en2)" "cs_active_runs (en_state ?en2) = [(rid, b)]"
      "ca_worker_id b = w" "ca_fencing_token b = token"
      "en_log ?en2 = en_log en @ log_file C [\<lparr>cmd_v = 1, cmd_ts = t, cmd_command =
         ClaimRun (TimerId (ca_timer_id a)) (RunId rid) w token (wr_attempt run) d\<rparr>]"
    using en1(2) by auto
  have "en' = snd (alpha_complete_run E rid \<lparr>rc_worker_id = ca_worker_id b, rc_fencing_token = ca_fencing_token b\<rparr> ?en2)"
    using assms(15) b(4,5) by (simp add: alpha_steps_def)
  from complete_only_run [OF assms(1-3) b(2,3) this] b obtain t' d' where
    c: "cs_active_runs (en_state en') = []" "cs_pending (en_state en') = []"
      "en_log en' = en_log ?en2 @ log_file C [\<lparr>cmd_v = 1, cmd_ts = t', cmd_command = CompleteRun (RunId rid) w token d'\<rparr>]"
    by auto
  let ?e1 = "\<lparr>cmd_v = 1, cmd_ts = t, cmd_command = ClaimRun (TimerId (ca_timer_id a)) (RunId rid) w token (wr_attempt run) d\<rparr>"
  let ?e2 = "\<lparr>cmd_v = 1, cmd_ts = t', cmd_command = CompleteRun (RunId rid) w token d'\<rparr>"
  have log: "en_log en' = en_log en @ log_file C [?e1, ?e2]"
    using c(3) b(6) by (simp add: log_file_def)
  have wf: "wf_entry C ?e1" "wf_entry C ?e2" using assms(3) by simp_all
  have "replay_commands E 0 (map (entry_text C) [?e1, ?e2]) (en_state en) = Inr (en_state en)"
    using wf_entryD [OF wf(1)] wf_entryD [OF wf(2)] assms(1) stale_commands_ignored [OF assms(5,10)] by (simp add: sane_def)
  with c log assms(5) show ?thesis by blast
qed

section \<open>Witnesses\<close>

instance json_number :: countable by countable_datatype
instance json :: countable by countable_datatype
instance timer_target :: countable by countable_datatype

instance distributed_timer_spec_ext :: (countable) countable
  by (rule countable_classI [of "\<lambda>s. to_nat (ds_id s, ds_tenant_id s, ds_schedule s, ds_retry s, ds_timezone s,
        ds_target s, ds_created_at s, distributed_timer_spec.more s)"]) simp

instance worker_run_ext :: (countable) countable
  by (rule countable_classI [of "\<lambda>r. to_nat (wr_timer r, wr_tenant_id r, wr_run_id r, wr_task r, wr_payload r, wr_attempt r,
        wr_fencing_token r, wr_idempotency_key r, worker_run.more r)"]) simp

instance node_info_ext :: (countable) countable
  by (rule countable_classI [of "\<lambda>n. to_nat (ni_node_id n, ni_http_addr n, ni_raft_addr n, node_info.more n)"]) simp

instance raft_command :: countable by countable_datatype

instance command_entry_ext :: (countable) countable
  by (rule countable_classI [of "\<lambda>e. to_nat (cmd_v e, cmd_ts e, cmd_command e, command_entry.more e)"]) simp

definition endless_libs :: libs where
  "endless_libs = minute_libs\<lparr>add_seconds := \<lambda>t n. Some (t + n * nanos_per_sec)\<rparr>"

definition sane_env :: "datetime \<Rightarrow> alpha_env" where
  "sane_env now = (sample_alpha_env number_codec now)\<lparr>al_libs := endless_libs\<rparr>"

lemma sane_sample: "sane endless_libs number_codec (sane_env now)" "dates_in_range endless_libs"
  by (simp_all add: sane_def sane_env_def sample_alpha_env_def endless_libs_def dates_in_range_def nanos_per_sec_def)

theorem alpha_restart_witness:
  "\<exists>en en'. alpha_open (sane_env 0) False ''data'' ''n1'' ''h'' ''r'' None None = Inr en
    \<and> alpha_open (sane_env 5) False ''data'' ''n1'' ''h'' ''r'' None
        (Some (en_log (alpha_steps [(sane_env 1, OpJoin \<lparr>jr_node_id = ''n2'', jr_http_addr = ''h2'', jr_raft_addr = ''r2''\<rparr>)] en))) = Inr en'
    \<and> cc_peers (cs_config (en_state en')) = [\<lparr>ni_node_id = ''n2'', ni_http_addr = ''h2'', ni_raft_addr = ''r2''\<rparr>]"
proof -
  let ?ops = "[(sane_env 1, OpJoin \<lparr>jr_node_id = ''n2'', jr_http_addr = ''h2'', jr_raft_addr = ''r2''\<rparr>)]"
  have op: "alpha_open (sane_env 0) False ''data'' ''n1'' ''h'' ''r'' None None = Inr fresh_engine"
    by (simp add: alpha_open_def sane_env_def sample_alpha_env_def fresh_engine_def unwrap_or_def Let_def)
  have wf: "\<forall>e :: command_entry. wf_entry number_codec e" by (simp add: wf_number)
  have "list_all (\<lambda>(E, op). sane endless_libs number_codec E) ?ops" using sane_sample by simp
  from alpha_restart [OF sane_sample(2) wf sane_sample(1) sane_sample(1) op this] obtain en' where
    en': "alpha_open (sane_env 5) False ''data'' ''n1'' ''h'' ''r'' None (Some (en_log (alpha_steps ?ops fresh_engine))) = Inr en'"
      "cs_config (en_state en') = cs_config (en_state (alpha_steps ?ops fresh_engine))" by blast
  have lead: "cs_leader (en_state fresh_engine)" "cc_peers (cs_config (en_state fresh_engine)) = []"
    "cc_node_id (cs_config (en_state fresh_engine)) = ''n1''"
    by (simp_all add: fresh_engine_def new_cluster_state_def Let_def)
  have "cc_peers (cs_config (en_state (alpha_steps ?ops fresh_engine))) = [\<lparr>ni_node_id = ''n2'', ni_http_addr = ''h2'', ni_raft_addr = ''r2''\<rparr>]"
    using lead sane_append [OF sane_sample(1) wf]
    by (simp add: alpha_steps_def alpha_join_def alpha_ensure_leader_def append_replicated_command_def apply_membership_def
        write_config_def add_peer_def Let_def) (simp add: sane_env_def sample_alpha_env_def write_config_def add_peer_def)
  with en' op show ?thesis by auto
qed

text \<open>An engine whose only run was claimed by worker \<open>w1\<close>, with a lease until second 30.\<close>

definition leased_run :: active_run where
  "leased_run = \<lparr>ca_timer_id = ''digest'', ca_run_id = ''r1'', ca_worker_id = ''w1'', ca_fencing_token = 1,
     ca_attempt = 1, ca_lease_deadline = 30000000000\<rparr>"

definition leased_engine :: cluster_engine where
  "leased_engine = fresh_engine\<lparr>en_state := (en_state fresh_engine)\<lparr>
     cs_timers := [(''digest'', sample_alpha_spec 0)], cs_active_runs := [(''r1'', leased_run)],
     cs_fencing := [(''digest'', 1)]\<rparr>\<rparr>"

definition resurrecting_ops :: "(alpha_env \<times> alpha_op) list" where
  "resurrecting_ops = [(sane_env 31000000000, OpExpire [] [''r1'']), (sane_env 31000000000, OpClaim ''w2'' [''mail'']),
     (sane_env 31000000000, OpComplete ''r1'' \<lparr>rc_worker_id = ''w2'', rc_fencing_token = 2\<rparr>)]"

theorem alpha_completed_run_resurrected_witness:
  "cs_active_runs (en_state (alpha_steps resurrecting_ops leased_engine)) = []
    \<and> (\<exists>(e1 :: command_entry) e2 st'. en_log (alpha_steps resurrecting_ops leased_engine) = log_file number_codec [e1, e2]
         \<and> replay_commands (sane_env 31000000000) 0 (map (entry_text number_codec) [e1, e2]) (en_state leased_engine) = Inr st'
         \<and> cs_active_runs st' = [(''r1'', leased_run)])"
proof -
  have wf: "\<forall>e :: command_entry. wf_entry number_codec e" by (simp add: wf_number)
  have st: "cs_leader (en_state leased_engine)" "cs_active_runs (en_state leased_engine) = [(''r1'', leased_run)]"
    "cs_pending (en_state leased_engine) = []" "bt_get (cs_workers (en_state leased_engine)) ''w2'' = None"
    "bt_get (cs_timers (en_state leased_engine)) (ca_timer_id leased_run) = Some (sample_alpha_spec 0)"
    "bt_get (cs_fencing (en_state leased_engine)) (ca_timer_id leased_run) = Some 1" "en_log leased_engine = []"
    by (simp_all add: leased_engine_def leased_run_def fresh_engine_def new_cluster_state_def bt_get_def Let_def)
  have spec: "ds_target (sample_alpha_spec 0) = WorkerTask ''mail'' Null" "max_attempts (ds_retry (sample_alpha_spec 0)) = 2"
    by (simp_all add: sample_alpha_spec_def spec_of_request_def sample_create_request_def unwrap_or_def)
  have run: "ca_run_id leased_run = ''r1''" "ca_lease_deadline leased_run \<le> al_now (sane_env 31000000000) 0"
    "''w2'' \<noteq> ca_worker_id leased_run" "ca_attempt leased_run < max_attempts (ds_retry (sample_alpha_spec 0))"
    "(2 :: u64) = unwrap_or (bt_get (cs_fencing (en_state leased_engine)) (ca_timer_id leased_run)) 0 + 1"
    using spec(2) st(6) by (simp_all add: leased_run_def sane_env_def sample_alpha_env_def)
  have ops: "alpha_steps resurrecting_ops leased_engine = alpha_steps [(sane_env 31000000000, OpExpire [] [''r1'']),
      (sane_env 31000000000, OpClaim ''w2'' [''mail'']),
      (sane_env 31000000000, OpComplete ''r1'' \<lparr>rc_worker_id = ''w2'', rc_fencing_token = 2\<rparr>)] leased_engine"
    by (simp only: resurrecting_ops_def)
  note res = alpha_completed_run_resurrected [OF sane_sample(1,2) wf st(1,2) run(1,2) st(3,4) run(3) st(5) spec(1) run(4,5) ops,
      unfolded st(7) append_Nil]
  show ?thesis by (rule conjI [OF conjunct1 [OF res] conjunct2 [OF conjunct2 [OF res]]])
qed

end
