(* ===== verification/Kron_Cluster_Http.thy ===== *)
theory Kron_Cluster_Http
  imports Kron_Cluster
begin

text \<open>
  The HTTP server of the alpha cluster (cluster.rs): reading a request from a connection, the
  check of the bearer token, the table of routes and the bytes of an answer.  Sockets and the
  thread per connection are outside the model.  Shown: reading ends on every input, only
  authorized requests of bounded size reach the engine, and a command that a leader sends is
  understood and applied by its peer.
\<close>

section \<open>Reading a request\<close>

text \<open>\<open>read_line\<close>: the bytes up to and including the next line feed, or all that is left.\<close>

definition take_line :: "string \<Rightarrow> string \<times> string" where
  "take_line s =
     (let l = takeWhile (\<lambda>c. c \<noteq> LF) s; rest = dropWhile (\<lambda>c. c \<noteq> LF) s
      in case rest of [] \<Rightarrow> (l, []) | c # rest' \<Rightarrow> (l @ [c], rest'))"

lemma take_line_append: "fst (take_line s) @ snd (take_line s) = s"
proof -
  have "takeWhile (\<lambda>c. c \<noteq> LF) s @ dropWhile (\<lambda>c. c \<noteq> LF) s = s" by (rule takeWhile_dropWhile_id)
  then show ?thesis
    unfolding take_line_def Let_def by (auto simp del: takeWhile_dropWhile_id split: list.split)
qed

lemma take_line_not_Nil: "s \<noteq> [] \<Longrightarrow> fst (take_line s) \<noteq> []"
  unfolding take_line_def Let_def by (cases s) (auto split: list.split)

lemma take_line_shorter: "s \<noteq> [] \<Longrightarrow> length (snd (take_line s)) < length s"
  using arg_cong [OF take_line_append, of length s] take_line_not_Nil [of s] by (cases "fst (take_line s)") auto

text \<open>The head of the request: the lines before the first empty one.\<close>

function read_head :: "string \<Rightarrow> string \<Rightarrow> (string \<times> string) res" where
  "read_head head input =
     (if input = [] then Inr (head, [])
      else case take_line input of (line, rest) \<Rightarrow>
        if \<not> utf8_ok line then Inl (Err (LogIo ''stream did not contain valid UTF-8''))
        else if line = [CHR 0x0D, LF] then Inr (head, rest)
        else read_head (head @ line) rest)"
  by pat_completeness auto
termination
  by (relation "measure (\<lambda>(head, input). length input)") (auto dest!: take_line_shorter simp: prod_eq_iff)

declare read_head.simps [simp del]

text \<open>The words of a line, separated by white space.\<close>

lemma ws_prefix_drop: "0 < ws_prefix (c # s) \<Longrightarrow> length (drop (ws_prefix (c # s)) (c # s)) < length (c # s)"
  by simp

function split_words :: "string \<Rightarrow> string \<Rightarrow> string list" where
  "split_words word [] = (if word = [] then [] else [word])"
| "split_words word (c # s) =
     (if 0 < ws_prefix (c # s)
      then (if word = [] then [] else [word]) @ split_words [] (drop (ws_prefix (c # s)) (c # s))
      else split_words (word @ [c]) s)"
  by pat_completeness auto
termination
  by (relation "measure (\<lambda>(word, s). length s)") auto

definition split_whitespace :: "string \<Rightarrow> string list" where
  "split_whitespace s = split_words [] s"

definition split_once :: "char \<Rightarrow> string \<Rightarrow> (string \<times> string) option" where
  "split_once d s =
     (case dropWhile (\<lambda>c. c \<noteq> d) s of [] \<Rightarrow> None | _ # rest \<Rightarrow> Some (takeWhile (\<lambda>c. c \<noteq> d) s, rest))"

definition ascii_lower :: "char \<Rightarrow> char" where
  "ascii_lower c = (let n = of_char c :: nat in if 65 \<le> n \<and> n \<le> 90 then char_of (n + 32) else c)"

definition eq_ignore_ascii_case :: "string \<Rightarrow> string \<Rightarrow> bool" where
  "eq_ignore_ascii_case a b \<longleftrightarrow> map ascii_lower a = map ascii_lower b"

definition content_length_of :: "string \<Rightarrow> nat option" where
  "content_length_of line =
     Option.bind (split_once CHR '':'' line) (\<lambda>(name, v).
       if eq_ignore_ascii_case name ''content-length'' then parse_unsigned 64 (trim v) else None)"

definition authorized_by :: "string \<Rightarrow> string \<Rightarrow> bool" where
  "authorized_by token line =
     (case split_once CHR '':'' line of
        None \<Rightarrow> False
      | Some (name, v) \<Rightarrow>
          eq_ignore_ascii_case name ''authorization''
          \<and> secure_eq (as_bytes (trim v)) (as_bytes (''Bearer '' @ token)))"

section \<open>Routes\<close>

text \<open>The JSON library, for each kind of body and answer.\<close>

record http_json =
  hj_create :: "string \<Rightarrow> json_error + create_timer_request"
  hj_register :: "string \<Rightarrow> json_error + worker_register_request"
  hj_value :: "string \<Rightarrow> json_error + json"
  hj_poll :: "string \<Rightarrow> json_error + worker_poll_request"
  hj_complete :: "string \<Rightarrow> json_error + run_complete_request"
  hj_fail :: "string \<Rightarrow> json_error + run_fail_request"
  hj_join :: "string \<Rightarrow> json_error + join_request"
  hj_leave :: "string \<Rightarrow> json_error + leave_request"
  hj_command :: "string \<Rightarrow> json_error + raft_command"
  hj_summary :: "distributed_summary \<Rightarrow> json"
  hj_run :: "worker_run \<Rightarrow> json"
  hj_peers :: "node_info list \<Rightarrow> json"

text \<open>The environment of a request: that of its operation, the order in which the timers are
  listed, and what a poll goes through.\<close>

record http_env =
  he_json :: http_json
  he_env :: alpha_env
  he_order :: "string list"
  he_polls :: nat
  he_poll_envs :: "nat \<Rightarrow> alpha_env"
  he_others :: "nat \<Rightarrow> cluster_engine \<Rightarrow> cluster_engine"
  he_show :: "kron_error \<Rightarrow> string"
  he_lossy :: "string \<Rightarrow> string"

definition with_body ::
  "(string \<Rightarrow> json_error + 'q) \<Rightarrow> string \<Rightarrow> ('q \<Rightarrow> cluster_engine \<Rightarrow> 'a res \<times> cluster_engine) \<Rightarrow> ('a \<Rightarrow> json)
   \<Rightarrow> cluster_engine \<Rightarrow> json res \<times> cluster_engine" where
  "with_body parse body f show_answer en =
     (case parse body of
        Inl (msg, _) \<Rightarrow> (Inl (Err (LogSerde msg)), en)
      | Inr q \<Rightarrow>
          (case f q en of
             (Inl err, en1) \<Rightarrow> (Inl err, en1)
           | (Inr a, en1) \<Rightarrow> (Inr (show_answer a), en1)))"

text \<open>\<open>trim_matches\<close> and \<open>split\<close> at slashes.\<close>

fun split_at_char :: "char \<Rightarrow> string \<Rightarrow> string \<Rightarrow> string list" where
  "split_at_char d part [] = [part]"
| "split_at_char d part (c # s) =
     (if c = d then part # split_at_char d [] s else split_at_char d (part @ [c]) s)"

definition path_segments :: "string \<Rightarrow> string list" where
  "path_segments path =
     split_at_char CHR ''/'' [] (rev (dropWhile (\<lambda>c. c = CHR ''/'') (rev (dropWhile (\<lambda>c. c = CHR ''/'') path))))"

definition route_http ::
  "http_env \<Rightarrow> string \<Rightarrow> string \<Rightarrow> string \<Rightarrow> cluster_engine \<Rightarrow> http_response res \<times> cluster_engine" where
  "route_http H mtd path body en =
     (let J = he_json H; E = he_env H; s = path_segments path; k = length s;
          answer = (\<lambda>r. case r of
                      (Inl err, en1) \<Rightarrow> (Inl err, en1)
                    | (Inr v, en1) \<Rightarrow> (Inr \<lparr>hr_status = 200, hr_body = v\<rparr>, en1))
      in if mtd = ''POST'' \<and> s = [''v1'', ''timers'']
         then answer (with_body (hj_create J) body (alpha_create_timer E) (hj_summary J) en)
         else if mtd = ''GET'' \<and> s = [''v1'', ''timers'']
         then answer (Inr (Array (map (hj_summary J) (alpha_list (he_order H) en))), en)
         else if mtd = ''GET'' \<and> k = 3 \<and> take 2 s = [''v1'', ''timers'']
         then answer (Inr (opt_json (hj_summary J) (alpha_status (s ! 2) en)), en)
         else if mtd = ''GET'' \<and> k = 4 \<and> take 2 s = [''v1'', ''timers''] \<and> s ! 3 = ''history''
         then answer (Inr (Array (alpha_history (s ! 2) en)), en)
         else if mtd = ''POST'' \<and> s = [''v1'', ''workers'', ''register'']
         then answer (with_body (hj_register J) body (alpha_register_worker E) (\<lambda>v. v) en)
         else if mtd = ''POST'' \<and> s = [''v1'', ''workers'', ''heartbeat'']
         then answer (with_body (hj_value J) body
                (\<lambda>v. alpha_heartbeat_worker E (unwrap_or (str_field v ''worker_id'') [])) (\<lambda>v. v) en)
         else if mtd = ''POST'' \<and> s = [''v1'', ''workers'', ''poll'']
         then answer (with_body (hj_poll J) body
                (alpha_poll_worker (he_polls H) (he_poll_envs H) (he_others H) E) (opt_json (hj_run J)) en)
         else if mtd = ''POST'' \<and> k = 4 \<and> take 2 s = [''v1'', ''runs''] \<and> s ! 3 = ''succeed''
         then answer (with_body (hj_complete J) body (alpha_complete_run E (s ! 2)) (\<lambda>v. v) en)
         else if mtd = ''POST'' \<and> k = 4 \<and> take 2 s = [''v1'', ''runs''] \<and> s ! 3 = ''fail''
         then answer (with_body (hj_fail J) body (alpha_fail_run E (s ! 2)) (\<lambda>v. v) en)
         else if mtd = ''GET'' \<and> s = [''v1'', ''cluster'', ''status'']
         then answer (Inr (alpha_cluster_status (hj_peers J) en), en)
         else if mtd = ''POST'' \<and> s = [''v1'', ''cluster'', ''join'']
         then answer (with_body (hj_join J) body (alpha_join E) (\<lambda>v. v) en)
         else if mtd = ''POST'' \<and> s = [''v1'', ''cluster'', ''leave'']
         then answer (with_body (hj_leave J) body (alpha_leave E) (\<lambda>v. v) en)
         else if mtd = ''POST'' \<and> s = [''v1'', ''raft'', ''apply'']
         then answer (with_body (hj_command J) body (apply_replicated_command E)
                (\<lambda>_. Object [(''applied'', Bool True)]) en)
         else if mtd = ''POST'' \<and> s = [''v1'', ''runtime'', ''shutdown'']
         then answer (Inr (Object [(''shutdown'', String ''requested'')]), alpha_shutdown en)
         else (Inr \<lparr>hr_status = 404, hr_body = Object [(''error'', String ''not found'')]\<rparr>, en))"

section \<open>Answering\<close>

definition status_reason :: "u16 \<Rightarrow> string" where
  "status_reason code =
     (if code = 200 then ''OK'' else if code = 400 then ''Bad Request''
      else if code = 401 then ''Unauthorized'' else if code = 404 then ''Not Found'' else ''OK'')"

definition crlf :: string where
  "crlf = [CHR 0x0D, LF]"

text \<open>The bytes of an answer whose body has the JSON text \<open>body\<close>.\<close>

definition write_json :: "u16 \<Rightarrow> string \<Rightarrow> string" where
  "write_json code body =
     ''HTTP/1.1 '' @ show_nat (unat code) @ '' '' @ status_reason code @ crlf
     @ ''Content-Type: application/json'' @ crlf @ ''Content-Length: '' @ show_nat (length body) @ crlf
     @ ''Connection: close'' @ crlf @ crlf @ body"

definition json_answer :: "u16 \<Rightarrow> string \<Rightarrow> http_response" where
  "json_answer code msg = \<lparr>hr_status = code, hr_body = Object [(''error'', String msg)]\<rparr>"

definition MAX_BODY_BYTES :: nat where
  "MAX_BODY_BYTES = 1024 * 1024"

text \<open>The answer to the bytes of a connection, \<open>Inl\<close> when the connection is dropped without one.\<close>

definition handle_http_stream ::
  "http_env \<Rightarrow> string \<Rightarrow> string \<Rightarrow> cluster_engine \<Rightarrow> http_response res \<times> cluster_engine" where
  "handle_http_stream H token input en =
     (case read_head [] input of
        Inl err \<Rightarrow> (Inl err, en)
      | Inr (head, rest) \<Rightarrow>
          let lines = read_lines head;
              first = (case lines of [] \<Rightarrow> [] | l # _ \<Rightarrow> l);
              parts = split_whitespace first
          in if length parts < 2 then (Inr (json_answer 400 ''bad request''), en)
             else
               let header_lines = tl lines;
                   content_length = unwrap_or (find_map content_length_of header_lines) 0
               in if MAX_BODY_BYTES < content_length
                  then (Inr (json_answer 413 ''request body too large''), en)
                  else if length rest < content_length
                  then (Inl (Err (LogIo ''failed to fill whole buffer'')), en)
                  else
                    let bytes = take content_length rest;
                        body = (if utf8_ok bytes then bytes else he_lossy H bytes)
                    in if \<not> list_ex (authorized_by token) header_lines
                       then (Inr (json_answer 401 ''unauthorized''), en)
                       else (case route_http H (parts ! 0) (parts ! 1) body en of
                               (Inl (Err err), en1) \<Rightarrow> (Inr (json_answer 400 (he_show H err)), en1)
                             | (Inl (Panic msg), en1) \<Rightarrow> (Inl (Panic msg), en1)
                             | (Inr response, en1) \<Rightarrow> (Inr response, en1)))"

section \<open>Replicating to a peer\<close>

text \<open>The bytes of a request, as every client of the repository writes them.\<close>

definition request_text :: "string \<Rightarrow> string \<Rightarrow> string \<Rightarrow> string \<Rightarrow> string \<Rightarrow> string" where
  "request_text mtd path addr token body =
     mtd @ '' '' @ path @ '' HTTP/1.1'' @ crlf @ ''Host: '' @ addr @ crlf @ ''Authorization: Bearer '' @ token @ crlf
     @ ''Content-Type: application/json'' @ crlf @ ''Content-Length: '' @ show_nat (length body) @ crlf
     @ ''Connection: close'' @ crlf @ crlf @ body"

text \<open>The bytes that a leader sends to a peer, and which answers it takes as an acknowledgement.\<close>

definition replicate_request :: "string \<Rightarrow> string \<Rightarrow> string \<Rightarrow> string" where
  "replicate_request addr token body = request_text ''POST'' ''/v1/raft/apply'' addr token body"

definition replicate_accepted :: "string \<Rightarrow> bool" where
  "replicate_accepted response \<longleftrightarrow> take 12 response = ''HTTP/1.1 200''"

section \<open>The token of the server\<close>

text \<open>The variable \<open>KRON_CLUSTER_TOKEN\<close> wins and is written to the token file; otherwise the file is
  read or created.\<close>

definition alpha_server_token :: "string option \<Rightarrow> string + u8 list \<Rightarrow> string option \<Rightarrow> string res \<times> string option" where
  "alpha_server_token var random token_file =
     (case var of
        Some token \<Rightarrow> (Inr token, Some (token @ [LF]))
      | None \<Rightarrow> read_or_create_token random token_file)"

section \<open>Lines and words of a request\<close>

lemma read_head_line:
  "LF \<notin> set l \<Longrightarrow> ascii l \<Longrightarrow> l \<noteq> [] \<Longrightarrow>
     read_head head (l @ crlf @ rest) = read_head (head @ l @ crlf) rest"
proof -
  assume l: "LF \<notin> set l" "ascii l" "l \<noteq> []"
  have "take_line (l @ crlf @ rest) = (l @ crlf, rest)"
    using l(1) by (simp add: take_line_def crlf_def Let_def takeWhile_append dropWhile_append)
  moreover have "utf8_ok (l @ crlf)" using l(2) by (intro utf8_ascii) (simp add: crlf_def ascii_def)
  ultimately show ?thesis
    using l(3) by (subst read_head.simps) (auto simp: crlf_def)
qed

lemma ws_codes_six: "ws_codes = [CHR 0x09] # [CHR 0x0A] # [CHR 0x0B] # [CHR 0x0C] # [CHR 0x0D] # [CHR 0x20] # drop 6 ws_codes"
  by code_simp

lemma ws_prefix_space: "ws_prefix (CHR '' '' # s) = 1"
  unfolding ws_prefix_def by (subst ws_codes_six) simp

lemma split_words_graphic:
  "list_all graphic w \<Longrightarrow> split_words word (w @ s) = split_words (word @ w) s"
  by (induction w arbitrary: word) (simp_all add: ws_prefix_graphic)

lemma split_words_space: "split_words word (CHR '' '' # s) = (if word = [] then [] else [word]) @ split_words [] s"
  by (simp add: ws_prefix_space)

lemma split_words_three:
  "list_all graphic a \<Longrightarrow> list_all graphic b \<Longrightarrow> list_all graphic c \<Longrightarrow> a \<noteq> [] \<Longrightarrow> b \<noteq> [] \<Longrightarrow> c \<noteq> [] \<Longrightarrow>
     split_words [] (a @ CHR '' '' # b @ CHR '' '' # c) = [a, b, c]"
  using split_words_graphic [of a "[]"] split_words_graphic [of b "[]"] split_words_graphic [of c "[]" "[]"]
  by (simp add: split_words_space del: split_words.simps(2))

section \<open>Only authorized requests reach the engine\<close>

lemma authorized_byD:
  "authorized_by token line \<Longrightarrow> \<exists>name v. split_once CHR '':'' line = Some (name, v)
     \<and> eq_ignore_ascii_case name ''authorization'' \<and> trim v = ''Bearer '' @ token"
  by (auto simp: authorized_by_def secure_eq_iff as_bytes_inj split: option.splits)

text \<open>C38: only authorized requests reach the engine of the alpha cluster.  Whatever bytes arrive on a
  connection, the engine changes only if the head of the request has a first line of at least
  two words and a header line \<open>authorization\<close> whose value is exactly the bearer token, the declared
  length of the body is at most one mebibyte, and the whole body has arrived; what happens then
  is the route of the first two words and the body.  Every other request is answered with 400,
  401 or 413 or dropped, and changes nothing.\<close>

theorem alpha_http_gate:
  assumes "handle_http_stream H token input en = (r, en')"
    and "en' \<noteq> en \<or> (\<exists>response. r = Inr response \<and> hr_status response \<notin> {400, 401, 413})"
  shows "\<exists>head rest mtd path n body line name v. read_head [] input = Inr (head, rest)
    \<and> take 2 (split_whitespace (hd (read_lines head))) = [mtd, path]
    \<and> line \<in> set (tl (read_lines head)) \<and> split_once CHR '':'' line = Some (name, v)
    \<and> eq_ignore_ascii_case name ''authorization'' \<and> trim v = ''Bearer '' @ token
    \<and> n = unwrap_or (find_map content_length_of (tl (read_lines head))) 0
    \<and> n \<le> 1024 * 1024 \<and> n \<le> length rest
    \<and> body = (if utf8_ok (take n rest) then take n rest else he_lossy H (take n rest))
    \<and> en' = snd (route_http H mtd path body en)"
proof (cases "read_head [] input")
  case (Inr hr)
  obtain head rest where hr: "hr = (head, rest)" by (cases hr)
  let ?lines = "read_lines head"
  let ?parts = "split_whitespace (case ?lines of [] \<Rightarrow> [] | l # _ \<Rightarrow> l)"
  let ?n = "unwrap_or (find_map content_length_of (tl ?lines)) 0"
  let ?body = "if utf8_ok (take ?n rest) then take ?n rest else he_lossy H (take ?n rest)"
  note run = assms(1) [unfolded handle_http_stream_def Inr hr sum.case prod.case Let_def]
  have parts: "\<not> length ?parts < 2" and small: "\<not> MAX_BODY_BYTES < ?n" and arrived: "\<not> length rest < ?n"
    and auth: "list_ex (authorized_by token) (tl ?lines)"
    using run assms(2) by (auto simp: json_answer_def split: if_splits)
  have ne: "?lines \<noteq> []" using parts by (auto simp: split_whitespace_def)
  then have hd: "(case ?lines of [] \<Rightarrow> [] | l # _ \<Rightarrow> l) = hd ?lines" by (cases ?lines) simp_all
  have two: "take 2 (split_whitespace (hd ?lines)) = [?parts ! 0, ?parts ! 1]"
    using parts unfolding hd by (cases "split_whitespace (hd ?lines)"; cases "tl (split_whitespace (hd ?lines))") auto
  obtain line name v where line: "line \<in> set (tl ?lines)" "split_once CHR '':'' line = Some (name, v)"
    "eq_ignore_ascii_case name ''authorization''" "trim v = ''Bearer '' @ token"
    using auth authorized_byD by (fastforce simp: list_ex_iff)
  have "en' = snd (route_http H (?parts ! 0) (?parts ! 1) ?body en)"
    using run parts small arrived auth by (auto split: prod.splits sum.splits fault.splits)
  with Inr hr two line small arrived show ?thesis
    unfolding MAX_BODY_BYTES_def not_less by blast
qed (use assms in \<open>auto simp: handle_http_stream_def\<close>)

section \<open>What a client sends, a server understands\<close>

lemma read_lines_crlf: "LF \<notin> set l \<Longrightarrow> read_lines (l @ crlf @ s) = l # read_lines s"
  using split_lines_line [of "l @ [CR]" "[]" s]
  by (simp add: read_lines_def crlf_def strip_cr_def)

lemma split_once_first: "d \<notin> set name \<Longrightarrow> split_once d (name @ d # v) = Some (name, v)"
  by (simp add: split_once_def takeWhile_append dropWhile_append)

lemma trim_space: "w \<noteq> [] \<Longrightarrow> graphic (hd w) \<Longrightarrow> graphic (last w) \<Longrightarrow> trim (CHR '' '' # w) = w"
  using trim_graphic [of w] by (simp add: trim_def trim_start_def ws_prefix_space ws_prefix_graphic)

text \<open>The head of such a request, line by line.\<close>

definition request_lines :: "string \<Rightarrow> string \<Rightarrow> string \<Rightarrow> string \<Rightarrow> nat \<Rightarrow> string list" where
  "request_lines mtd path addr token n =
     [mtd @ '' '' @ path @ '' HTTP/1.1'', ''Host: '' @ addr, ''Authorization: Bearer '' @ token,
      ''Content-Type: application/json'', ''Content-Length: '' @ show_nat n, ''Connection: close'']"

definition head_of :: "string list \<Rightarrow> string" where
  "head_of ls = concat (map (\<lambda>l. l @ crlf) ls)"

lemma read_head_lines:
  "list_all (\<lambda>l. LF \<notin> set l \<and> ascii l \<and> l \<noteq> []) ls \<Longrightarrow>
     read_head head (head_of ls @ crlf @ rest) = Inr (head @ head_of ls, rest)"
proof (induction ls arbitrary: head)
  case Nil
  have "take_line (crlf @ rest) = (crlf, rest)" by (simp add: take_line_def crlf_def Let_def)
  moreover have "utf8_ok crlf" by (rule utf8_ascii) (simp add: crlf_def ascii_def)
  ultimately show ?case by (subst read_head.simps) (simp add: head_of_def crlf_def)
next
  case (Cons l ls)
  then show ?case using read_head_line [of l head "head_of ls @ crlf @ rest"] by (simp add: head_of_def)
qed

lemma read_lines_head: "list_all (\<lambda>l. LF \<notin> set l) ls \<Longrightarrow> read_lines (head_of ls) = ls"
proof (induction ls)
  case (Cons l ls)
  then show ?case using read_lines_crlf [of l "head_of ls"] by (simp add: head_of_def)
qed (simp add: head_of_def)

lemma request_lines_ok:
  assumes "ascii addr" "LF \<notin> set addr" "ascii token" "LF \<notin> set token" "list_all graphic mtd" "list_all graphic path"
  shows "list_all (\<lambda>l. LF \<notin> set l \<and> ascii l \<and> l \<noteq> []) (request_lines mtd path addr token n)"
proof -
  have digits: "graphic c" if "c \<in> set (show_nat n)" for c using that show_nat_digits graphic_digit by metis
  have "ascii (show_nat n)" "LF \<notin> set (show_nat n)"
    by (auto simp: ascii_def list_all_iff graphic_def dest!: digits)
  moreover have "ascii mtd" "LF \<notin> set mtd" "ascii path" "LF \<notin> set path"
    using assms(5,6) by (auto simp: ascii_def list_all_iff graphic_def)
  ultimately show ?thesis using assms(1-4) by (auto simp: request_lines_def ascii_def)
qed

lemma request_headers:
  assumes "list_all graphic token" "token \<noteq> []" "n < 2 ^ 64"
  shows "find_map content_length_of (tl (request_lines mtd path addr token n)) = Some n"
    "list_ex (authorized_by token) (tl (request_lines mtd path addr token n))"
proof -
  have host: "split_once CHR '':'' (''Host: '' @ addr) = Some (''Host'', CHR '' '' # addr)"
    using split_once_first [of "CHR '':''" "''Host''" "CHR '' '' # addr"] by simp
  have auth: "split_once CHR '':'' (''Authorization: Bearer '' @ token) = Some (''Authorization'', CHR '' '' # ''Bearer '' @ token)"
    using split_once_first [of "CHR '':''" "''Authorization''" "CHR '' '' # ''Bearer '' @ token"] by simp
  have ctype: "split_once CHR '':'' ''Content-Type: application/json'' = Some (''Content-Type'', '' application/json'')"
    by (simp add: split_once_def)
  have len: "split_once CHR '':'' (''Content-Length: '' @ show_nat n) = Some (''Content-Length'', CHR '' '' # show_nat n)"
    using split_once_first [of "CHR '':''" "''Content-Length''" "CHR '' '' # show_nat n"] by simp
  have names: "\<not> eq_ignore_ascii_case ''Host'' ''content-length''" "\<not> eq_ignore_ascii_case ''Authorization'' ''content-length''"
    "\<not> eq_ignore_ascii_case ''Content-Type'' ''content-length''" "eq_ignore_ascii_case ''Content-Length'' ''content-length''"
    "eq_ignore_ascii_case ''Authorization'' ''authorization''"
    by code_simp+
  have digits: "graphic c" if "c \<in> set (show_nat n)" for c using that show_nat_digits graphic_digit by metis
  then have "trim (CHR '' '' # show_nat n) = show_nat n" by (intro trim_space) simp_all
  then have "content_length_of (''Content-Length: '' @ show_nat n) = Some n"
    by (simp only: content_length_of_def len names parse_show [OF assms(3)] Option.bind.bind_lunit prod.case if_True)
  moreover have "content_length_of (''Host: '' @ addr) = None" "content_length_of (''Authorization: Bearer '' @ token) = None"
    "content_length_of ''Content-Type: application/json'' = None"
    by (simp_all only: content_length_of_def host auth ctype names Option.bind.bind_lunit prod.case if_False)
  ultimately show "find_map content_length_of (tl (request_lines mtd path addr token n)) = Some n"
    by (simp only: request_lines_def list.sel find_map.simps option.case)
  have "trim (CHR '' '' # ''Bearer '' @ token) = ''Bearer '' @ token"
    using assms(1,2) by (intro trim_space) (simp_all add: graphic_def list_all_iff)
  then have "authorized_by token (''Authorization: Bearer '' @ token)"
    by (simp only: authorized_by_def auth option.case prod.case names secure_eq_iff)
  then show "list_ex (authorized_by token) (tl (request_lines mtd path addr token n))"
    by (simp add: request_lines_def)
qed

lemma request_delivered:
  assumes "ascii addr" "LF \<notin> set addr" "list_all graphic token" "token \<noteq> []"
    and "list_all graphic mtd" "mtd \<noteq> []" "list_all graphic path" "path \<noteq> []"
    and "utf8_ok body" "length body \<le> 1024 * 1024"
  shows "handle_http_stream H token (request_text mtd path addr token body) en =
      (case route_http H mtd path body en of
         (Inl (Err err), en1) \<Rightarrow> (Inr (json_answer 400 (he_show H err)), en1)
       | (Inl (Panic msg), en1) \<Rightarrow> (Inl (Panic msg), en1)
       | (Inr response, en1) \<Rightarrow> (Inr response, en1))"
proof -
  let ?ls = "request_lines mtd path addr token (length body)"
  let ?first = "mtd @ '' '' @ path @ '' HTTP/1.1''"
  have tok: "ascii token" "LF \<notin> set token" using assms(3) by (auto simp: ascii_def list_all_iff graphic_def)
  note ok = request_lines_ok [OF assms(1,2) tok assms(5,7), of "length body"]
  have req: "request_text mtd path addr token body = head_of ?ls @ crlf @ body"
    by (simp add: request_text_def head_of_def request_lines_def)
  have head: "read_head [] (request_text mtd path addr token body) = Inr (head_of ?ls, body)"
    unfolding req using read_head_lines [OF ok, of "[]" body] by simp
  have lines: "read_lines (head_of ?ls) = ?ls" using ok by (intro read_lines_head) (simp add: list_all_iff)
  have first: "split_whitespace ?first = [mtd, path, ''HTTP/1.1'']"
    using split_words_three [of mtd path "''HTTP/1.1''"] assms(5-8) by (simp add: graphic_def split_whitespace_def)
  have "length body < 2 ^ 64" using assms(10) by simp
  note hdr = request_headers [OF assms(3,4) this, of mtd path addr]
  have hd: "\<exists>rest. ?ls = ?first # rest" by (simp add: request_lines_def)
  then have case_hd: "(case ?ls of [] \<Rightarrow> [] | l # _ \<Rightarrow> l) = ?first" by auto
  show ?thesis
    unfolding handle_http_stream_def head sum.case prod.case Let_def lines case_hd first
    using hdr assms(9,10) by (simp add: unwrap_or_def MAX_BODY_BYTES_def)
qed

text \<open>A replicated command arrives.  The bytes that a leader sends to a peer are understood by the
  peer: for a printable token and a body of at most one mebibyte the peer applies exactly the
  command whose JSON is the body, and answers 200 when that succeeds and 400 when it fails.  The
  leader counts an answer 200 as an acknowledgement, and none of the error answers.\<close>

theorem replication_delivered:
  assumes "ascii addr" "LF \<notin> set addr" "list_all graphic token" "token \<noteq> []"
    and "utf8_ok body" "length body \<le> 1024 * 1024" "hj_command (he_json H) body = Inr c"
  shows "handle_http_stream H token (replicate_request addr token body) en =
      (case apply_replicated_command (he_env H) c en of
         (Inr _, en1) \<Rightarrow> (Inr \<lparr>hr_status = 200, hr_body = Object [(''applied'', Bool True)]\<rparr>, en1)
       | (Inl (Err err), en1) \<Rightarrow> (Inr (json_answer 400 (he_show H err)), en1)
       | (Inl (Panic msg), en1) \<Rightarrow> (Inl (Panic msg), en1))
    \<and> replicate_accepted (write_json 200 answer) \<and> \<not> replicate_accepted (write_json 400 answer)
    \<and> \<not> replicate_accepted (write_json 401 answer) \<and> \<not> replicate_accepted (write_json 413 answer)"
proof -
  have path: "path_segments ''/v1/raft/apply'' = [''v1'', ''raft'', ''apply'']" by (simp add: path_segments_def)
  have words: "list_all graphic ''POST''" "''POST'' \<noteq> []" "list_all graphic ''/v1/raft/apply''" "''/v1/raft/apply'' \<noteq> []"
    by (simp_all add: graphic_def)
  note sent = request_delivered [OF assms(1-4) words assms(5,6), of H en, folded replicate_request_def]
  have "route_http H ''POST'' ''/v1/raft/apply'' body en =
      (case apply_replicated_command (he_env H) c en of
         (Inl err, en1) \<Rightarrow> (Inl err, en1)
       | (Inr _, en1) \<Rightarrow> (Inr \<lparr>hr_status = 200, hr_body = Object [(''applied'', Bool True)]\<rparr>, en1))"
    using assms(7) by (simp add: route_http_def path with_body_def Let_def split: prod.split sum.split)
  moreover have "show_nat 200 = ''200''" "show_nat 400 = ''400''" "show_nat 401 = ''401''" "show_nat 413 = ''413''" by code_simp+
  ultimately show ?thesis
    unfolding sent by (simp add: replicate_accepted_def write_json_def split: prod.split sum.split fault.split)
qed

section \<open>Witnesses\<close>

definition no_json :: "string \<Rightarrow> json_error + 'a" where
  "no_json _ = Inl (''unreadable'', False)"

definition sample_http_env :: http_env where
  "sample_http_env = \<lparr>he_json = \<lparr>hj_create = no_json, hj_register = no_json, hj_value = no_json, hj_poll = no_json,
       hj_complete = no_json, hj_fail = no_json, hj_join = no_json, hj_leave = no_json, hj_command = no_json,
       hj_summary = (\<lambda>_. Null), hj_run = (\<lambda>_. Null), hj_peers = (\<lambda>_. Null)\<rparr>,
     he_env = sample_alpha_env blank_codec 0, he_order = [], he_polls = 0,
     he_poll_envs = (\<lambda>_. sample_alpha_env blank_codec 0), he_others = (\<lambda>_ en. en), he_show = (\<lambda>_. []), he_lossy = (\<lambda>s. s)\<rparr>"

definition shutdown_head :: string where
  "shutdown_head = ''POST /v1/runtime/shutdown HTTP/1.1'' @ crlf @ ''Authorization:Bearer s'' @ crlf"

lemma shutdown_read: "read_head [] (shutdown_head @ crlf) = Inr (shutdown_head, [])"
proof -
  have "read_head [] (shutdown_head @ crlf) = read_head (''POST /v1/runtime/shutdown HTTP/1.1'' @ crlf) (''Authorization:Bearer s'' @ crlf @ crlf)"
    using read_head_line [of "''POST /v1/runtime/shutdown HTTP/1.1''" "[]" "''Authorization:Bearer s'' @ crlf @ crlf"]
    by (simp add: shutdown_head_def ascii_def)
  also have "\<dots> = read_head shutdown_head crlf"
    using read_head_line [of "''Authorization:Bearer s''" "''POST /v1/runtime/shutdown HTTP/1.1'' @ crlf" crlf]
    by (simp add: shutdown_head_def ascii_def)
  also have "\<dots> = Inr (shutdown_head, [])"
    by (subst read_head.simps) (simp add: crlf_def take_line_def Let_def utf8_ascii ascii_def)
  finally show ?thesis .
qed

lemma shutdown_lines: "read_lines shutdown_head = [''POST /v1/runtime/shutdown HTTP/1.1'', ''Authorization:Bearer s'']"
proof -
  have "read_lines (''POST /v1/runtime/shutdown HTTP/1.1'' @ CHR 0x0D # LF # ''Authorization:Bearer s'' @ CHR 0x0D # [LF]) =
    [''POST /v1/runtime/shutdown HTTP/1.1'', ''Authorization:Bearer s'']"
   by (simp add: read_lines_def strip_cr_def)
  then show ?thesis by (simp add: shutdown_head_def crlf_def)
qed

lemma shutdown_words: "split_whitespace ''POST /v1/runtime/shutdown HTTP/1.1'' = [''POST'', ''/v1/runtime/shutdown'', ''HTTP/1.1'']"
  using split_words_three [of "''POST''" "''/v1/runtime/shutdown''" "''HTTP/1.1''"] by (simp add: graphic_def split_whitespace_def)

lemma shutdown_header: "split_once CHR '':'' ''Authorization:Bearer s'' = Some (''Authorization'', ''Bearer s'')"
  by (simp add: split_once_def)

lemma shutdown_auth: "content_length_of ''Authorization:Bearer s'' = None" "authorized_by ''s'' ''Authorization:Bearer s''"
  "path_segments ''/v1/runtime/shutdown'' = [''v1'', ''runtime'', ''shutdown'']"
proof -
  show "content_length_of ''Authorization:Bearer s'' = None"
    by (simp add: content_length_of_def shutdown_header eq_ignore_ascii_case_def)
  have "trim ''Bearer s'' = ''Bearer s''" by (rule trim_graphic) (simp_all add: graphic_def)
  moreover have "eq_ignore_ascii_case ''Authorization'' ''authorization''" by code_simp
  ultimately show "authorized_by ''s'' ''Authorization:Bearer s''"
    by (simp add: authorized_by_def shutdown_header secure_eq_iff)
  show "path_segments ''/v1/runtime/shutdown'' = [''v1'', ''runtime'', ''shutdown'']"
    by (simp add: path_segments_def)
qed

theorem alpha_http_gate_witness:
  "\<exists>r. handle_http_stream sample_http_env ''s'' (shutdown_head @ crlf) fresh_engine = (r, alpha_shutdown fresh_engine)
    \<and> alpha_shutdown fresh_engine \<noteq> fresh_engine
    \<and> (\<exists>head rest mtd path. read_head [] (shutdown_head @ crlf) = Inr (head, rest)
         \<and> take 2 (split_whitespace (hd (read_lines head))) = [mtd, path])"
proof -
  have "snd (handle_http_stream sample_http_env ''s'' (shutdown_head @ crlf) fresh_engine) = alpha_shutdown fresh_engine"
    by (simp add: handle_http_stream_def shutdown_read shutdown_lines shutdown_words shutdown_auth route_http_def
        MAX_BODY_BYTES_def unwrap_or_def Let_def split: sum.split)
  then obtain r where run: "handle_http_stream sample_http_env ''s'' (shutdown_head @ crlf) fresh_engine = (r, alpha_shutdown fresh_engine)"
    by (metis prod.collapse)
  have ne: "alpha_shutdown fresh_engine \<noteq> fresh_engine"
  proof
    assume "alpha_shutdown fresh_engine = fresh_engine"
    then have "cs_shutting_down (en_state (alpha_shutdown fresh_engine)) = cs_shutting_down (en_state fresh_engine)" by simp
    then show False by (simp add: alpha_shutdown_def on_state_def fresh_engine_def new_cluster_state_def Let_def)
  qed
  from alpha_http_gate [OF run disjI1 [OF ne]] run ne show ?thesis by blast
qed

theorem replication_delivered_witness:
  "\<exists>en'. handle_http_stream (sample_http_env\<lparr>he_json := (he_json sample_http_env)\<lparr>hj_command := \<lambda>_. Inr (RemoveNode ''n2'')\<rparr>\<rparr>) ''s''
       (replicate_request ''peer'' ''s'' ''{}'') fresh_engine
     = (Inr \<lparr>hr_status = 200, hr_body = Object [(''applied'', Bool True)]\<rparr>, en')"
proof -
  let ?H = "sample_http_env\<lparr>he_json := (he_json sample_http_env)\<lparr>hj_command := \<lambda>_. Inr (RemoveNode ''n2'')\<rparr>\<rparr>"
  have ok: "ascii ''peer''" "LF \<notin> set ''peer''" "list_all graphic ''s''" "''s'' \<noteq> []" "utf8_ok ''{}''" "length ''{}'' \<le> 1024 * 1024"
    "hj_command (he_json ?H) ''{}'' = Inr (RemoveNode ''n2'')"
    using utf8_ascii [of "''{}''"] by (simp_all add: ascii_def graphic_def)
  obtain en1 where "apply_replicated_command (he_env ?H) (RemoveNode ''n2'') fresh_engine = (Inr (), en1)"
    by (simp add: apply_replicated_command_def append_command_def sample_http_env_def sample_alpha_env_def blank_codec_def
        write_config_def Let_def)
  with replication_delivered [OF ok, of fresh_engine "[]"] show ?thesis by simp
qed

end
