(* ===== verification/Kron_Cluster_Scheduler.thy ===== *)
theory Kron_Cluster_Scheduler
  imports Kron_Cluster
begin

text \<open>
  The scheduler thread of the alpha cluster (cluster.rs, \<open>start_scheduler\<close>): a turn queues the due
  runs and expires workers and leases.  Shown: a turn never fails, leaves no due timer without a
  run, and leaves no run without a lease and a worker.
\<close>

section \<open>A turn\<close>

text \<open>Every 100 milliseconds; \<open>None\<close> when the thread ends.\<close>

definition scheduler_turn ::
  "alpha_env \<Rightarrow> string list \<Rightarrow> string list \<Rightarrow> string list \<Rightarrow> cluster_engine \<Rightarrow> cluster_engine option res" where
  "scheduler_turn E order workers_order runs_order en =
     (if cs_shutting_down (en_state en) then Inr None
      else case enqueue_due_runs E order (en_state en) of
        Inl f \<Rightarrow> Inl f
      | Inr st \<Rightarrow> Inr (Some (en\<lparr>en_state := expire_workers E workers_order runs_order st\<rparr>)))"

section \<open>What a turn of the scheduler achieves\<close>

text \<open>A timer is served when it has an outstanding run, or has used up its attempts.\<close>

definition served :: "string \<Rightarrow> cluster_state \<Rightarrow> bool" where
  "served tid st \<longleftrightarrow> outstanding_run tid st \<or> bt_get (cs_states st) tid = Some Dead"

definition task_timer :: "string \<Rightarrow> cluster_state \<Rightarrow> bool" where
  "task_timer tid st \<longleftrightarrow> (\<exists>spec task payload. bt_get (cs_timers st) tid = Some spec \<and> ds_target spec = WorkerTask task payload)"

lemma enqueue_one_total:
  assumes "bt_get (cs_next_runs st) tid \<noteq> None"
  shows "\<exists>st'. enqueue_one E k tid st = Inr st' \<and> (task_timer tid st \<longrightarrow> outstanding_run tid st')
     \<and> (\<forall>t. outstanding_run t st \<longrightarrow> outstanding_run t st') \<and> cs_next_runs st' = cs_next_runs st \<and> cs_timers st' = cs_timers st
     \<and> cs_workers st' = cs_workers st \<and> cs_active_runs st' = cs_active_runs st"
  using assms
  by (auto simp: enqueue_one_def outstanding_run_def bump_fencing_def task_timer_def Let_def split: option.split timer_target.split)

lemma enqueue_loop_total:
  assumes "\<And>tid. tid \<in> set tids \<Longrightarrow> bt_get (cs_next_runs st) tid \<noteq> None"
  shows "\<exists>st'. enqueue_loop E k tids st = Inr st' \<and> (\<forall>tid. tid \<in> set tids \<longrightarrow> task_timer tid st \<longrightarrow> outstanding_run tid st')
     \<and> (\<forall>t. outstanding_run t st \<longrightarrow> outstanding_run t st') \<and> cs_timers st' = cs_timers st
     \<and> cs_workers st' = cs_workers st \<and> cs_active_runs st' = cs_active_runs st"
  using assms
proof (induction tids arbitrary: k st)
  case (Cons tid tids)
  obtain st1 where st1: "enqueue_one E k tid st = Inr st1" "task_timer tid st \<longrightarrow> outstanding_run tid st1"
      "\<forall>t. outstanding_run t st \<longrightarrow> outstanding_run t st1" "cs_next_runs st1 = cs_next_runs st" "cs_timers st1 = cs_timers st"
      "cs_workers st1 = cs_workers st" "cs_active_runs st1 = cs_active_runs st"
    using enqueue_one_total [of st tid E k] Cons.prems by auto
  obtain st2 where st2: "enqueue_loop E (k + 1) tids st1 = Inr st2"
      "\<forall>t. t \<in> set tids \<longrightarrow> task_timer t st1 \<longrightarrow> outstanding_run t st2" "\<forall>t. outstanding_run t st1 \<longrightarrow> outstanding_run t st2"
      "cs_timers st2 = cs_timers st1" "cs_workers st2 = cs_workers st1" "cs_active_runs st2 = cs_active_runs st1"
    using Cons.IH [of st1 "k + 1"] Cons.prems st1(4) by auto
  have "enqueue_loop E k (tid # tids) st = Inr st2" using st1(1) st2(1) by simp
  then show ?case using st1 st2 by (intro exI [of _ st2]) (auto simp: task_timer_def)
qed simp

text \<open>The active runs are a map: every identifier stands once.\<close>

lemma apply_command_sorted:
  "alpha_apply_command E k c st = Inr st' \<Longrightarrow> bt_sorted (cs_active_runs st) \<Longrightarrow> bt_sorted (cs_active_runs st')"
  by (drule apply_command_active) auto

lemma replay_sorted:
  "replay_commands E k lines st = Inr st' \<Longrightarrow> bt_sorted (cs_active_runs st) \<Longrightarrow> bt_sorted (cs_active_runs st')"
proof (induction lines arbitrary: k st)
  case (Cons line rest)
  show ?case
  proof (cases "trim line = []")
    case False
    then obtain entry :: command_entry and st1 where "alpha_apply_command E k (cmd_command entry) st = Inr st1"
      "replay_commands E (k + 1) rest st1 = Inr st'"
      using Cons.prems(1) by (auto split: if_splits sum.splits prod.splits)
    then show ?thesis using Cons.IH apply_command_sorted Cons.prems(2) by metis
  qed (use Cons in \<open>auto split: if_splits\<close>)
qed simp

lemma expire_run_active: "cs_active_runs (expire_run E k rid st) = bt_remove rid (cs_active_runs st)"
proof (cases "bt_get (cs_active_runs st) rid")
  case None
  then have "rid \<notin> fst ` set (cs_active_runs st)" by (simp add: bt_get_def map_of_eq_None_iff)
  then have "bt_remove rid (cs_active_runs st) = cs_active_runs st"
    by (force simp: bt_remove_def bt_retain_def filter_id_conv)
  then show ?thesis using None by (simp add: expire_run_def)
qed (auto simp: expire_run_def bump_fencing_def push_event_def Let_def split: option.split timer_target.split)

lemma expire_runs_active:
  "cs_active_runs (expire_runs E k rids st) = bt_retain (\<lambda>rid. rid \<notin> set rids) (cs_active_runs st)"
proof (induction rids arbitrary: k st)
  case (Cons rid rids)
  then show ?case by (simp add: expire_run_active bt_remove_def bt_retain_def conj_commute case_prod_beta')
qed (simp add: bt_retain_def)

lemma run_ended_sorted: "run_ended rid st st' \<Longrightarrow> bt_sorted (cs_active_runs st) \<Longrightarrow> bt_sorted (cs_active_runs st')"
  by (auto simp: run_ended_def)

lemma enqueue_one_active: "enqueue_one E k tid st = Inr st' \<Longrightarrow> cs_active_runs st' = cs_active_runs st"
  by (auto simp: enqueue_one_def bump_fencing_def Let_def split: if_splits option.splits timer_target.splits)

lemma enqueue_loop_active: "enqueue_loop E k tids st = Inr st' \<Longrightarrow> cs_active_runs st' = cs_active_runs st"
  by (induction tids arbitrary: k st) (auto split: sum.splits dest!: enqueue_one_active)

lemma step_sorted:
  assumes "bt_sorted (cs_active_runs (en_state en))"
  shows "bt_sorted (cs_active_runs (en_state (alpha_step E op en)))"
proof (cases op)
  case (OpClaim w tasks)
  obtain r en' where c: "claim_pending_for E w tasks en = (r, en')" by (metis prod.exhaust)
  show ?thesis using claim_pendingD [OF c] assms OpClaim c by auto
next
  case (OpComplete rid q)
  then show ?thesis using run_ended_sorted [OF finish_run_ended(1) assms] by simp
next
  case (OpFail rid q)
  then show ?thesis using run_ended_sorted [OF finish_run_ended(2) assms] by simp
next
  case (OpEnqueue order)
  then show ?thesis
    using assms by (auto simp: enqueue_due_runs_def split: sum.split if_splits dest!: enqueue_loop_active)
next
  case (OpExpire ws rs)
  then show ?thesis
    using assms by (simp add: on_state_def expire_workers_def Let_def expire_runs_active lose_workers_same)
qed (rule run_ended_sorted [OF quiet_ops assms]; simp)+

lemma steps_sorted:
  assumes "alpha_open E0 locked data_dir node_id http_addr raft_addr leader_id log = Inr en"
  shows "bt_sorted (cs_active_runs (en_state (alpha_steps ops en)))"
proof -
  obtain config where "replay_commands E0 0 (read_lines (unwrap_or log [])) (new_cluster_state config) = Inr (en_state en)"
    using assms by (auto simp: alpha_open_def Let_def split: if_splits option.splits sum.splits)
  then have "bt_sorted (cs_active_runs (en_state en))"
    by (rule replay_sorted) (simp add: new_cluster_state_def)
  then show ?thesis
    unfolding alpha_steps_def by (induction ops arbitrary: en) (auto simp: step_sorted)
qed

text \<open>Expiring a lease keeps every task timer served.\<close>

lemma outstanding_other:
  assumes "bt_get m rid = Some a" "ca_timer_id a \<noteq> tid" "bt_sorted m"
  shows "list_ex (\<lambda>r. ca_timer_id r = tid) (bt_values (bt_remove rid m)) = list_ex (\<lambda>r. ca_timer_id r = tid) (bt_values m)"
  (is "?l = ?r")
proof
  assume ?r
  then obtain k v where "bt_get m k = Some v" "ca_timer_id v = tid"
    using assms(3) by (auto simp: list_ex_iff bt_values_in)
  moreover have "k \<noteq> rid" using calculation assms(1,2) by auto
  ultimately have "bt_get (bt_remove rid m) k = Some v" by simp
  then have "v \<in> set (bt_values (bt_remove rid m))" using bt_values_in [OF bt_sorted_remove [OF assms(3)]] by blast
  then show ?l using \<open>ca_timer_id v = tid\<close> by (auto simp: list_ex_iff)
qed (force simp: list_ex_iff bt_values_def bt_remove_def bt_retain_def)

lemma expire_run_served:
  assumes "served tid st" "task_timer tid st" "bt_sorted (cs_active_runs st)"
  shows "served tid (expire_run E k rid st)" "cs_timers (expire_run E k rid st) = cs_timers st"
    "cs_workers (expire_run E k rid st) = cs_workers st"
proof -
  show "served tid (expire_run E k rid st)"
  proof (cases "bt_get (cs_active_runs st) rid")
    case (Some a)
    show ?thesis
    proof (cases "ca_timer_id a = tid")
      case True
      obtain spec task payload where "bt_get (cs_timers st) tid = Some spec" "ds_target spec = WorkerTask task payload"
        using assms(2) by (auto simp: task_timer_def)
      then show ?thesis
        using Some True
        by (cases "max_attempts (ds_retry spec) \<le> ca_attempt a") (simp_all add: expire_run_def served_def outstanding_run_def bump_fencing_def push_event_def Let_def)
    next
      case False
      then show ?thesis
        using Some assms(1) outstanding_other [OF Some False assms(3)]
        by (auto simp: expire_run_def served_def outstanding_run_def bump_fencing_def push_event_def Let_def
            split: option.split timer_target.split)
    qed
  qed (use assms(1) in \<open>simp add: expire_run_def\<close>)
qed (auto simp: expire_run_def bump_fencing_def push_event_def Let_def split: option.split timer_target.split)

lemma expire_runs_served:
  assumes "served tid st" "task_timer tid st" "bt_sorted (cs_active_runs st)"
  shows "served tid (expire_runs E k rids st) \<and> cs_timers (expire_runs E k rids st) = cs_timers st
    \<and> cs_workers (expire_runs E k rids st) = cs_workers st"
  using assms
proof (induction rids arbitrary: k st)
  case (Cons rid rids)
  note step = expire_run_served [OF Cons.prems, of E k rid]
  have "task_timer tid (expire_run E k rid st)" using Cons.prems(2) step(2) by (simp add: task_timer_def)
  then show ?case
    using Cons.IH [of "expire_run E k rid st" "k + 1"] step Cons.prems(3) by (simp add: expire_run_active)
qed simp

lemma expire_runs_workers: "cs_workers (expire_runs E k rids st) = cs_workers st"
proof (induction rids arbitrary: k st)
  case (Cons rid rids)
  have "cs_workers (expire_run E k rid st) = cs_workers st"
    by (auto simp: expire_run_def bump_fencing_def push_event_def Let_def split: option.split timer_target.split)
  with Cons show ?case by simp
qed simp

lemma lose_workers_states: "cs_states (lose_workers E k ws st) = cs_states st"
  by (induction ws arbitrary: k st) (simp_all add: lose_worker_def push_event_def)

lemma lose_workers_get:
  "bt_get (cs_workers (lose_workers E k ws st)) w = (if w \<in> set ws then None else bt_get (cs_workers st) w)"
  by (induction ws arbitrary: k st) (auto simp: lose_worker_def push_event_def)

lemma expire_workers_served:
  assumes "served tid st" "task_timer tid st" "bt_sorted (cs_active_runs st)"
  shows "served tid (expire_workers E ws rs st)"
  unfolding expire_workers_def Let_def
  by (rule conjunct1 [OF expire_runs_served])
     (use assms in \<open>simp_all add: served_def task_timer_def outstanding_run_def lose_workers_same lose_workers_states\<close>)

text \<open>What is still active after a turn has a lease and a worker.\<close>

lemma expire_workers_leases:
  assumes "bt_sorted (cs_active_runs st)" "fst ` set (cs_active_runs st) \<subseteq> set rs" "fst ` set (cs_workers st) \<subseteq> set ws"
    and "a \<in> set (bt_values (cs_active_runs (expire_workers E ws rs st)))"
  shows "al_now E 0 < ca_lease_deadline a
    \<and> (\<exists>w. bt_get (cs_workers (expire_workers E ws rs st)) (ca_worker_id a) = Some w \<and> al_instant E 0 \<le> wi_lease_until w)"
proof -
  define lost where "lost = filter (\<lambda>worker. case bt_get (cs_workers st) worker of
      Some w \<Rightarrow> wi_lease_until w < al_instant E 0 | None \<Rightarrow> False) ws"
  define st1 where "st1 = lose_workers E 1 lost st"
  define expired where "expired = filter (\<lambda>rid. case bt_get (cs_active_runs st1) rid of
      Some active \<Rightarrow> ca_lease_deadline active \<le> al_now E 0 \<or> bt_get (cs_workers st1) (ca_worker_id active) = None
    | None \<Rightarrow> False) rs"
  have turn: "expire_workers E ws rs st = expire_runs E (1 + length lost) expired st1"
    by (simp only: expire_workers_def lost_def st1_def expired_def Let_def)
  have act: "cs_active_runs st1 = cs_active_runs st" by (simp add: st1_def lose_workers_same)
  obtain rid where rid: "rid \<notin> set expired" "bt_get (cs_active_runs st) rid = Some a" "rid \<in> set rs"
    using assms(1,2,4) by (force simp: turn expire_runs_active act bt_values_def bt_retain_def bt_get_in)
  then have live: "al_now E 0 < ca_lease_deadline a" "bt_get (cs_workers st1) (ca_worker_id a) \<noteq> None"
    by (auto simp: expired_def act)
  then obtain w where w: "bt_get (cs_workers st1) (ca_worker_id a) = Some w" by auto
  then have "ca_worker_id a \<notin> set lost" "bt_get (cs_workers st) (ca_worker_id a) = Some w"
    by (auto simp: st1_def lose_workers_get split: if_splits)
  moreover have "ca_worker_id a \<in> set ws"
    using assms(3) bt_get_SomeD [OF calculation(2)] by force
  ultimately have "al_instant E 0 \<le> wi_lease_until w" by (auto simp: lost_def)
  then show ?thesis using live(1) w by (simp add: turn expire_runs_workers)
qed

text \<open>A turn of the scheduler serves every due timer.  Open the alpha cluster on any command log
  and let its leader serve any sequence of operations.  Unless a shutdown was requested, the next
  turn of the scheduler thread succeeds: every due timer of a worker task then has a run that is
  queued or executing, or has used up its attempts and is dead; and every run that is still
  executing has a lease in the future and a worker whose own lease has not passed.\<close>

theorem alpha_scheduler_serves:
  assumes "alpha_open E0 locked data_dir node_id http_addr raft_addr leader_id log = Inr en0"
    and "en = alpha_steps ops en0"
    and "cs_leader (en_state en)" "\<not> cs_shutting_down (en_state en)"
    and "set order = fst ` set (cs_next_runs (en_state en))" "set ws = fst ` set (cs_workers (en_state en))"
    and "set rs = fst ` set (cs_active_runs (en_state en))"
  shows "\<exists>en'. scheduler_turn E order ws rs en = Inr (Some en')
    \<and> (\<forall>tid at. bt_get (cs_next_runs (en_state en)) tid = Some at \<longrightarrow> at \<le> al_now E 0 \<longrightarrow> task_timer tid (en_state en)
         \<longrightarrow> served tid (en_state en'))
    \<and> (\<forall>a. a \<in> set (bt_values (cs_active_runs (en_state en'))) \<longrightarrow> al_now E 0 < ca_lease_deadline a
         \<and> (\<exists>w. bt_get (cs_workers (en_state en')) (ca_worker_id a) = Some w \<and> al_instant E 0 \<le> wi_lease_until w))"
proof -
  let ?due = "filter (\<lambda>tid. case bt_get (cs_next_runs (en_state en)) tid of Some at \<Rightarrow> at \<le> al_now E 0 | None \<Rightarrow> False) order"
  have sorted: "bt_sorted (cs_active_runs (en_state en))" using steps_sorted [OF assms(1)] assms(2) by simp
  have "bt_get (cs_next_runs (en_state en)) tid \<noteq> None" if "tid \<in> set ?due" for tid
    using that by (auto split: option.splits)
  from enqueue_loop_total [OF this] obtain st where st: "enqueue_loop E 0 ?due (en_state en) = Inr st"
      "\<forall>tid. tid \<in> set ?due \<longrightarrow> task_timer tid (en_state en) \<longrightarrow> outstanding_run tid st"
      "cs_timers st = cs_timers (en_state en)" "cs_workers st = cs_workers (en_state en)"
      "cs_active_runs st = cs_active_runs (en_state en)"
    by metis
  let ?en = "en\<lparr>en_state := expire_workers E ws rs st\<rparr>"
  have "served tid (en_state ?en)"
    if "bt_get (cs_next_runs (en_state en)) tid = Some at" "at \<le> al_now E 0" "task_timer tid (en_state en)" for tid at
  proof -
    have "tid \<in> set ?due" using that(1,2) bt_get_SomeD [OF that(1)] assms(5) by force
    then have "served tid st" using st(2) that(3) by (simp add: served_def)
    moreover have "task_timer tid st" using that(3) st(3) by (simp add: task_timer_def)
    ultimately show ?thesis using expire_workers_served st(5) sorted by simp
  qed
  moreover have "al_now E 0 < ca_lease_deadline a
      \<and> (\<exists>w. bt_get (cs_workers (en_state ?en)) (ca_worker_id a) = Some w \<and> al_instant E 0 \<le> wi_lease_until w)"
    if "a \<in> set (bt_values (cs_active_runs (en_state ?en)))" for a
    using expire_workers_leases [of st rs ws a E] that st(4,5) sorted assms(6,7) by simp
  moreover have "scheduler_turn E order ws rs en = Inr (Some ?en)"
    using st(1) assms(3,4) by (simp add: scheduler_turn_def enqueue_due_runs_def)
  ultimately show ?thesis by blast
qed

section \<open>Witness\<close>

text \<open>The timer of the sample two minutes later: the turn queues its run.\<close>

theorem alpha_scheduler_serves_witness:
  "\<exists>en. alpha_steps [(sample_alpha_env blank_codec 0, OpCreate sample_create_request)] fresh_engine = en
    \<and> (\<exists>en'. scheduler_turn (sample_alpha_env blank_codec 120000000000) [''digest''] [] [] en = Inr (Some en')
         \<and> served ''digest'' (en_state en'))"
proof -
  define en where "en = alpha_steps [(sample_alpha_env blank_codec 0, OpCreate sample_create_request)] fresh_engine"
  have en: "en = fresh_engine\<lparr>en_log := ''{}'' @ [LF], en_state := (en_state fresh_engine)\<lparr>
        cs_timers := [(''digest'', sample_alpha_spec 0)], cs_states := [(''digest'', Scheduled)],
        cs_next_runs := [(''digest'', 120000000000)],
        cs_history := [Object [(''type'', String ''TIMER_CREATED''), (''timer'', String ''digest''), (''ts'', Null)]]\<rparr>\<rparr>"
    using sample_created_alpha by (auto simp: en_def alpha_steps_def)
  have "cs_leader (en_state en)" "\<not> cs_shutting_down (en_state en)" "set [''digest''] = fst ` set (cs_next_runs (en_state en))"
    "set [] = fst ` set (cs_workers (en_state en))" "set [] = fst ` set (cs_active_runs (en_state en))"
    by (simp_all add: en fresh_engine_def new_cluster_state_def Let_def)
  note turn = alpha_scheduler_serves [OF alpha_open_fresh en_def this]
  have "bt_get (cs_next_runs (en_state en)) ''digest'' = Some 120000000000" "task_timer ''digest'' (en_state en)"
    by (simp_all add: en bt_get_def task_timer_def sample_alpha_spec_def spec_of_request_def fresh_engine_def)
  moreover have "120000000000 \<le> al_now (sample_alpha_env blank_codec 120000000000) 0" by (simp add: sample_alpha_env_def)
  ultimately show ?thesis using turn [of "sample_alpha_env blank_codec 120000000000"] en_def by blast
qed

end
