(* ===== verification/Kron_Cluster_Server.thy ===== *)
theory Kron_Cluster_Server
  imports Kron_Cluster_Http Kron_Cluster_Scheduler
begin

text \<open>
  The alpha server as a whole (\<open>serve_http\<close> of cluster.rs): the listener, a thread per connection and
  the scheduler thread on one engine.  The state of the engine is guarded by a mutex, so every
  operation is a step of its own; a poll, which sleeps between its attempts, sees the steps of
  the other threads in between.  Shown: whatever the threads do, a timer has at most one
  outstanding run as long as no claim is sent to the replication route, and after a shutdown the
  listener and the scheduler end.
\<close>

section \<open>The listener\<close>

text \<open>Before the loop: binding the address and writing the file \<open>kron.http\<close>, with their errors given.\<close>

definition serve_http_start :: "string option \<Rightarrow> string option \<Rightarrow> cluster_engine \<Rightarrow> string res" where
  "serve_http_start bind_io file_io en =
     (let addr = cc_http_addr (cs_config (en_state en))
      in case bind_io of
           Some err \<Rightarrow> Inl (Err (LogIo err))
         | None \<Rightarrow> (case file_io of Some err \<Rightarrow> Inl (Err (LogIo err)) | None \<Rightarrow> Inr (addr @ [LF])))"

datatype conn_outcome = ConnAccepted string | ConnWouldBlock | ConnError string

text \<open>A turn of the loop: the result when the loop ends, and the connection for which a thread is
  spawned.\<close>

definition serve_turn :: "conn_outcome \<Rightarrow> cluster_engine \<Rightarrow> unit res option \<times> string option" where
  "serve_turn outcome en =
     (if cs_shutting_down (en_state en) then (Some (Inr ()), None)
      else case outcome of
             ConnAccepted input \<Rightarrow> (None, Some input)
           | ConnWouldBlock \<Rightarrow> (None, None)
           | ConnError err \<Rightarrow> (Some (Inl (Err (LogIo err))), None))"

section \<open>The threads\<close>

text \<open>The operations of the threads: those of the engine, and commands that arrive on the replication
  route.\<close>

datatype server_op = Local alpha_op | Replicated raft_command

fun server_op_step :: "alpha_env \<Rightarrow> server_op \<Rightarrow> cluster_engine \<Rightarrow> cluster_engine" where
  "server_op_step E (Local op) en = alpha_step E op en"
| "server_op_step E (Replicated c) en = snd (apply_replicated_command E c en)"

definition server_ops :: "(alpha_env \<times> server_op) list \<Rightarrow> cluster_engine \<Rightarrow> cluster_engine" where
  "server_ops ops en = fold (\<lambda>(E, op). server_op_step E op) ops en"

fun is_claim :: "raft_command \<Rightarrow> bool" where
  "is_claim (ClaimRun _ _ _ _ _ _) \<longleftrightarrow> True"
| "is_claim _ \<longleftrightarrow> False"

fun claim_op :: "server_op \<Rightarrow> bool" where
  "claim_op (Replicated c) \<longleftrightarrow> is_claim c"
| "claim_op (Local _) \<longleftrightarrow> False"

text \<open>Whether a request is a claim that is sent to the replication route.  (The leaders of the
  repository replicate the creation of timers, the registration of workers and the joining of
  nodes only.)\<close>

definition routes_claim :: "http_env \<Rightarrow> string \<Rightarrow> string \<Rightarrow> string \<Rightarrow> bool" where
  "routes_claim H mtd path body \<longleftrightarrow> mtd = ''POST'' \<and> path_segments path = [''v1'', ''raft'', ''apply'']
     \<and> (case hj_command (he_json H) body of Inr c \<Rightarrow> is_claim c | Inl _ \<Rightarrow> False)"

definition sends_claim :: "http_env \<Rightarrow> string \<Rightarrow> bool" where
  "sends_claim H input \<longleftrightarrow>
     (case read_head [] input of
        Inl _ \<Rightarrow> False
      | Inr (head, rest) \<Rightarrow>
          let lines = read_lines head;
              parts = split_whitespace (case lines of [] \<Rightarrow> [] | l # _ \<Rightarrow> l);
              bytes = take (unwrap_or (find_map content_length_of (tl lines)) 0) rest
          in routes_claim H (parts ! 0) (parts ! 1) (if utf8_ok bytes then bytes else he_lossy H bytes))"

text \<open>The engine, the result of the listener once it has ended, the connections whose threads have
  not answered, whether the scheduler runs, and, to state the properties, whether a claim was
  sent to the replication route so far.\<close>

record alpha_server =
  sv_engine :: cluster_engine
  sv_result :: "unit res option"
  sv_connections :: "string list"
  sv_scheduler :: bool
  sv_claim_sent :: bool

text \<open>While a poll sleeps, the other threads may do any operations: \<open>ops k\<close> before its \<open>k\<close>-th attempt.\<close>

inductive server_step :: "string \<Rightarrow> alpha_server \<Rightarrow> alpha_server \<Rightarrow> bool" for token :: string where
  listen: "sv_result s = None \<Longrightarrow> serve_turn outcome (sv_engine s) = (r, conn) \<Longrightarrow>
     server_step token s (s\<lparr>sv_result := r, sv_connections := (case conn of None \<Rightarrow> [] | Some c \<Rightarrow> [c]) @ sv_connections s\<rparr>)"
| answer: "input \<in> set (sv_connections s) \<Longrightarrow> he_others H = (\<lambda>k. server_ops (ops k)) \<Longrightarrow>
     handle_http_stream H token input (sv_engine s) = (r, en) \<Longrightarrow>
     server_step token s (s\<lparr>sv_engine := en, sv_connections := remove1 input (sv_connections s),
       sv_claim_sent := sv_claim_sent s \<or> sends_claim H input \<or> (\<exists>k. list_ex (claim_op \<circ> snd) (ops k))\<rparr>)"
| schedule: "sv_scheduler s \<Longrightarrow> scheduler_turn E order ws rs (sv_engine s) = Inr (Some en) \<Longrightarrow>
     server_step token s (s\<lparr>sv_engine := en\<rparr>)"
| stop_scheduler: "sv_scheduler s \<Longrightarrow> scheduler_turn E order ws rs (sv_engine s) = Inr None \<Longrightarrow>
     server_step token s (s\<lparr>sv_scheduler := False\<rparr>)"

inductive server_reach :: "string \<Rightarrow> alpha_server \<Rightarrow> bool" for token :: string where
  started: "alpha_open E locked data_dir node_id http_addr raft_addr leader_id log = Inr en \<Longrightarrow>
     serve_http_start bind_io file_io en = Inr content \<Longrightarrow>
     server_reach token \<lparr>sv_engine = en, sv_result = None, sv_connections = [], sv_scheduler = True, sv_claim_sent = False\<rparr>"
| running: "server_reach token s \<Longrightarrow> server_step token s s' \<Longrightarrow> server_reach token s'"

section \<open>Requests are operations of the engine\<close>

text \<open>Changes by operations without a replicated claim.\<close>

definition by_operations :: "cluster_engine \<Rightarrow> cluster_engine \<Rightarrow> bool" where
  "by_operations en en' \<longleftrightarrow> (\<exists>ops. \<not> list_ex (claim_op \<circ> snd) ops \<and> en' = server_ops ops en)"

lemma by_operations_refl [simp]: "by_operations en en"
  by (auto simp: by_operations_def server_ops_def intro: exI [of _ "[]"])

lemma by_operations_trans: "by_operations a b \<Longrightarrow> by_operations b c \<Longrightarrow> by_operations a c"
proof -
  assume "by_operations a b" "by_operations b c"
  then obtain ops ops' where "c = server_ops (ops @ ops') a" "\<not> list_ex (claim_op \<circ> snd) (ops @ ops')"
    by (auto simp: by_operations_def server_ops_def)
  then show "by_operations a c" unfolding by_operations_def by blast
qed

lemma by_one: "by_operations en (alpha_step E op en)"
  unfolding by_operations_def by (rule exI [of _ "[(E, Local op)]"]) (simp add: server_ops_def)

lemma by_replicated: "\<not> is_claim c \<Longrightarrow> by_operations en (snd (apply_replicated_command E c en))"
  unfolding by_operations_def by (rule exI [of _ "[(E, Replicated c)]"]) (simp add: server_ops_def)

lemmas by_operation = by_one [of _ _ "OpCreate _", simplified] by_one [of _ _ "OpRegister _", simplified]
  by_one [of _ _ "OpHeartbeat _", simplified] by_one [of _ _ "OpClaim _ _", simplified]
  by_one [of _ _ "OpComplete _ _", simplified] by_one [of _ _ "OpFail _ _", simplified]
  by_one [of _ _ "OpJoin _", simplified] by_one [of _ _ "OpLeave _", simplified]
  by_one [of _ _ OpShutdown, simplified]

lemma attempt_by_operations:
  assumes "\<forall>k en. by_operations en (others k en)"
    and "claim_pending_for E worker tasks (others k en) = (r, en')"
  shows "by_operations en en'"
proof -
  have "by_operations en (others k en)" using assms(1) by simp
  moreover have "by_operations (others k en) en'"
    using by_operation(4) [of "others k en" E worker tasks] assms(2) by simp
  ultimately show ?thesis by (rule by_operations_trans)
qed

lemma poll_loop_by_operations:
  assumes "\<forall>k en. by_operations en (others k en)"
  shows "by_operations en (snd (alpha_poll_loop n Es others k worker tasks en))"
proof (induction n arbitrary: k en)
  case 0
  show ?case
    using attempt_by_operations [OF assms]
    by (subst alpha_poll_loop.simps) (auto split: prod.split sum.split option.split)
next
  case (Suc n)
  show ?case
    using attempt_by_operations [OF assms] by_operations_trans [OF _ Suc.IH]
    by (subst alpha_poll_loop.simps) (auto split: prod.split sum.split option.split)
qed

lemma poll_by_operations:
  assumes "\<forall>k en. by_operations en (others k en)"
  shows "by_operations en (snd (alpha_poll_worker n Es others E q en))"
  using by_operations_trans [OF by_operation(3) poll_loop_by_operations [OF assms]] by_operation(3)
  unfolding alpha_poll_worker_def by (auto split: prod.split sum.split) (metis snd_conv)+

lemma with_body_by_operations:
  assumes "\<And>q. parse body = Inr q \<Longrightarrow> by_operations en (snd (f q en))"
  shows "by_operations en (snd (with_body parse body f show_answer en))"
proof (cases "parse body")
  case (Inr q)
  obtain r en' where "f q en = (r, en')" by (metis prod.exhaust)
  then show ?thesis using assms [OF Inr] Inr by (cases r) (simp_all add: with_body_def)
qed (simp add: with_body_def case_prod_beta)

lemma if_by_operations:
  "by_operations en (snd x) \<Longrightarrow> by_operations en (snd y) \<Longrightarrow> by_operations en (snd (if b then x else y))"
  by simp

lemma answer_by_operations:
  "by_operations en (snd x) \<Longrightarrow> by_operations en (snd (case x of (Inl err, en1) \<Rightarrow> (Inl err, en1)
      | (Inr v, en1) \<Rightarrow> (Inr \<lparr>hr_status = 200, hr_body = v\<rparr>, en1)))"
  by (auto split: prod.splits sum.splits)

lemma route_by_operations:
  assumes others: "\<forall>k en. by_operations en (he_others H k en)" and "\<not> routes_claim H mtd path body"
  shows "by_operations en (snd (route_http H mtd path body en))"
proof (cases "mtd = ''POST'' \<and> path_segments path = [''v1'', ''raft'', ''apply'']")
  case True
  then have "by_operations en (snd (with_body (hj_command (he_json H)) body (apply_replicated_command (he_env H)) g en))" for g
    using assms(2) by (intro with_body_by_operations by_replicated) (auto simp: routes_claim_def)
  with True show ?thesis
    unfolding route_http_def Let_def by (simp add: answer_by_operations)
next
  case False
  have plain: "by_operations en (snd (r, en))" "by_operations en (snd (r, alpha_shutdown en))" for r :: "'a res"
    using by_operation(9) by simp_all
  show ?thesis
    unfolding route_http_def Let_def if_not_P [OF False]
    by (intro if_by_operations answer_by_operations)
       (rule plain with_body_by_operations by_operation poll_by_operations [OF others];
         (rule by_operation poll_by_operations [OF others])?)+
qed

lemma stream_by_operations:
  assumes "\<forall>k en. by_operations en (he_others H k en)" "\<not> sends_claim H input"
    and "handle_http_stream H token input en = (r, en')"
  shows "by_operations en en'"
proof -
  have "by_operations en e" if "route_http H mtd path body en = (x, e)" "\<not> routes_claim H mtd path body" for mtd path body x e
    using route_by_operations [OF assms(1) that(2), of en] that(1) by simp
  then show ?thesis using assms(2,3)
    by (auto simp: handle_http_stream_def sends_claim_def Let_def split: sum.splits prod.splits if_splits fault.splits)
qed

lemma turn_by_operations:
  assumes "scheduler_turn E order ws rs en = Inr (Some en')"
  shows "by_operations en en'"
proof -
  have "en' = alpha_step E (OpExpire ws rs) (alpha_step E (OpEnqueue order) en)"
    using assms by (auto simp: scheduler_turn_def on_state_def split: if_splits sum.splits)
  then show ?thesis using by_operations_trans [OF by_one by_one] by (simp only:)
qed

lemma server_step_by_operations:
  "server_step token s s' \<Longrightarrow> \<not> sv_claim_sent s' \<Longrightarrow>
     \<not> sv_claim_sent s \<and> by_operations (sv_engine s) (sv_engine s')"
proof (induction rule: server_step.induct)
  case (answer input s H ops r en)
  then have "\<forall>k en. by_operations en (he_others H k en)" by (auto simp: by_operations_def)
  with answer show ?case using stream_by_operations [of H input token] by auto
qed (auto intro: turn_by_operations)

lemma quiet_command:
  assumes "alpha_apply_command E k c st = Inr st'" "\<not> is_claim c"
  shows "\<exists>rid. run_ended rid st st'"
proof -
  have "cs_active_runs st' = cs_active_runs st \<or> (\<exists>rid. cs_active_runs st' = bt_remove rid (cs_active_runs st))"
    using assms
    by (cases c) (auto simp: alpha_apply_create_def alpha_reschedule_def alpha_apply_complete_def
      alpha_apply_fail_def push_event_def Let_def split: sum.splits option.splits fault.splits)
  then show ?thesis using apply_command_pending [OF assms(1)] by (auto simp: run_ended_def)
qed

lemma write_config_state: "en_state (snd (write_config E en)) = en_state en"
  by (auto simp: write_config_def split: option.split)

lemma replicated_state:
  assumes "apply_replicated_command E c en = (r, en')"
  shows "en_state en' = en_state en \<or> alpha_apply_command E 1 c (en_state en) = Inr (en_state en')"
proof -
  obtain r1 en1 where app: "append_command E 0 c en = (r1, en1)" by (metis prod.exhaust)
  note same = append_command_state [OF app]
  have stored: "en_state en' = st1" if "write_config E (en1\<lparr>en_state := st1\<rparr>) = (r, en')" for st1
    using write_config_state [of E "en1\<lparr>en_state := st1\<rparr>"] that by simp
  show ?thesis
  proof (cases "alpha_apply_command E 1 c (en_state en)")
    case (Inr st1)
    with assms app same stored show ?thesis
      by (cases r1) (auto simp: apply_replicated_command_def simp del: alpha_apply_command.simps split: raft_command.splits)
  qed (use assms app same in \<open>auto simp: apply_replicated_command_def simp del: alpha_apply_command.simps split: sum.splits\<close>)
qed

lemma server_op_runs:
  assumes "one_outstanding (en_state en)" "\<not> claim_op op"
  shows "one_outstanding (en_state (server_op_step E op en))"
proof (cases op)
  case (Local aop)
  then show ?thesis using step_runs [OF assms(1)] by simp
next
  case (Replicated c)
  obtain r en' where run: "apply_replicated_command E c en = (r, en')" by (metis prod.exhaust)
  from replicated_state [OF run] show ?thesis
    using Replicated assms run quiet_command run_ended_runs by fastforce
qed

lemma server_ops_runs:
  "one_outstanding (en_state en) \<Longrightarrow> \<not> list_ex (claim_op \<circ> snd) ops \<Longrightarrow> one_outstanding (en_state (server_ops ops en))"
  unfolding server_ops_def by (induction ops arbitrary: en) (auto simp: server_op_runs)

lemma operations_keep_one: "by_operations en en' \<Longrightarrow> one_outstanding (en_state en) \<Longrightarrow> one_outstanding (en_state en')"
  unfolding by_operations_def using server_ops_runs by blast

lemma server_one_outstanding:
  "server_reach token s \<Longrightarrow> \<not> sv_claim_sent s \<Longrightarrow> one_outstanding (en_state (sv_engine s))"
proof (induction rule: server_reach.induct)
  case (running s s')
  then show ?case using server_step_by_operations operations_keep_one by blast
qed (auto intro: open_runs)

text \<open>A claim on the replication route looks at the active runs only: if a run of the timer is queued, the
  timer has two outstanding runs afterwards.\<close>

lemma replicated_claim_adds_run:
  assumes "append_command E 0 (ClaimRun (TimerId t) rid worker fencing attempt deadline) en = (Inr (), en1)"
    and "\<exists>r \<in> set (cs_pending (en_state en)). wr_timer r = t"
    and "\<not> list_ex (\<lambda>r. ca_timer_id r = t) (bt_values (cs_active_runs (en_state en)))"
  shows "2 \<le> runs_of_timer t (en_state (snd (apply_replicated_command E
      (ClaimRun (TimerId t) rid worker fencing attempt deadline) en)))"
proof -
  let ?a = "\<lparr>ca_timer_id = t, ca_run_id = run_id_str rid, ca_worker_id = worker, ca_fencing_token = fencing,
    ca_attempt = attempt, ca_lease_deadline = deadline\<rparr>"
  let ?st = "en_state (snd (apply_replicated_command E (ClaimRun (TimerId t) rid worker fencing attempt deadline) en))"
  have st: "cs_pending ?st = cs_pending (en_state en)"
      "cs_active_runs ?st = bt_insert (run_id_str rid) ?a (cs_active_runs (en_state en))"
    using assms(1,3) append_command_state [OF assms(1)]
    by (simp_all add: apply_replicated_command_def alpha_apply_claim_def push_event_def)
  have "?a \<in> set (bt_values (cs_active_runs ?st))"
    unfolding st(2) bt_values_def by (metis bt_get_insert bt_get_def image_eqI list.set_map map_of_SomeD snd_conv)
  then have "0 < length (filter (\<lambda>r. ca_timer_id r = t) (bt_values (cs_active_runs ?st)))"
    by (force simp: filter_empty_conv)
  moreover have "0 < length (filter (\<lambda>r. wr_timer r = t) (cs_pending ?st))"
    using assms(2) by (auto simp: st(1) filter_empty_conv)
  ultimately show ?thesis unfolding runs_of_timer_def by linarith
qed

lemma server_result:
  "server_reach token s \<Longrightarrow> sv_result s \<noteq> None \<Longrightarrow>
     sv_result s = Some (Inr ()) \<or> (\<exists>err. sv_result s = Some (Inl (Err (LogIo err))))"
proof (induction rule: server_reach.induct)
  case (running s s')
  from running.hyps(2) show ?case
    using running.IH running.prems
    by (cases rule: server_step.cases) (auto simp: serve_turn_def split: if_splits conn_outcome.splits)
qed simp

section \<open>The server\<close>

text \<open>C31: the alpha server.  Open the alpha cluster on any command log and let it serve: connections
  arrive with any bytes, their threads answer in any order, polls sleep while other threads work,
  and the scheduler takes its turns.  In every state that is reached, as long as no request has sent
  a claim to the replication route \<open>/v1/raft/apply\<close>, a timer has at most one run that is queued or
  being executed; other replicated commands do no harm.  Once a shutdown was requested, the listener
  ends successfully at its next turn, whether or not another connection arrives, and the scheduler
  at its own.  (A claim on that route can give a timer a second run, see \<open>replicated_claim_adds_run\<close>;
  no leader sends one.)\<close>

theorem alpha_server_runs:
  assumes "server_reach token s"
  shows "(\<not> sv_claim_sent s \<longrightarrow> (\<forall>t. runs_of_timer t (en_state (sv_engine s)) \<le> 1))
    \<and> (cs_shutting_down (en_state (sv_engine s)) \<longrightarrow>
         serve_turn outcome (sv_engine s) = (Some (Inr ()), None)
         \<and> scheduler_turn E order ws rs (sv_engine s) = Inr None)"
  using server_one_outstanding [OF assms]
  by (simp add: one_outstanding_def serve_turn_def scheduler_turn_def)

section \<open>Witness\<close>

text \<open>A server with one connection that has not been answered, after a turn of its scheduler.\<close>

theorem alpha_server_runs_witness:
  "\<exists>s. server_reach ''secret'' s \<and> sv_connections s = [''GET''] \<and> \<not> sv_claim_sent s
    \<and> (\<forall>t. runs_of_timer t (en_state (sv_engine s)) \<le> 1)"
proof -
  let ?s = "\<lparr>sv_engine = fresh_engine, sv_result = None, sv_connections = [], sv_scheduler = True, sv_claim_sent = False\<rparr>"
  have "server_reach ''secret'' ?s"
    by (rule started [OF alpha_open_fresh [of blank_codec], of None None]) (simp add: serve_http_start_def)
  moreover obtain en where en: "scheduler_turn (sample_alpha_env blank_codec 0) [] [] [] fresh_engine = Inr (Some en)"
    "\<not> cs_shutting_down (en_state en)"
    by (simp add: scheduler_turn_def fresh_engine_def new_cluster_state_def enqueue_due_runs_def expire_workers_def Let_def)
  then have "server_step ''secret'' ?s (?s\<lparr>sv_engine := en\<rparr>)" by (intro schedule) simp_all
  ultimately have turned: "server_reach ''secret'' (?s\<lparr>sv_engine := en\<rparr>)" by (rule running)
  have "server_step ''secret'' (?s\<lparr>sv_engine := en\<rparr>) (?s\<lparr>sv_engine := en, sv_connections := [''GET'']\<rparr>)"
    using listen [of "?s\<lparr>sv_engine := en\<rparr>" "ConnAccepted ''GET''" None "Some ''GET''" "''secret''"] en(2)
    by (simp add: serve_turn_def)
  from running [OF turned this] have reach: "server_reach ''secret'' (?s\<lparr>sv_engine := en, sv_connections := [''GET'']\<rparr>)" .
  then show ?thesis using alpha_server_runs [OF reach]
    by (intro exI [of _ "?s\<lparr>sv_engine := en, sv_connections := [''GET'']\<rparr>"]) simp
qed

end
