(* ===== verification/Kron_Tenancy.thy ===== *)
theory Kron_Tenancy
  imports Kron_Runtime
begin

text \<open>
  What tokens scoped to a tenant can see and change through the operations of
  openraft_adapter/runtime.rs, and what happens to timers that are due or have failed.  Shown:
  answers hold only what belongs to the tenant, requests other than the creation of a timer
  leave the timers of other tenants alone, a due timer is handed to a polling worker, and two
  behaviours that contradict the documentation: names are shared by all tenants, and a failed
  timer is handed out again.
\<close>

section \<open>Requests leave the timers of other tenants alone\<close>

lemma tenant_matches_own: "t \<noteq> ''*'' \<Longrightarrow> tenant_matches (Some t) r \<longleftrightarrow> r = Some t"
  by (auto simp: tenant_matches_def)

text \<open>\<open>quiet\<close>: nobody else gets a command committed while the request is served.\<close>

definition quiet :: "request_env \<Rightarrow> bool" where
  "quiet R \<longleftrightarrow> (\<forall>k. rq_others R k = []) \<and> (\<forall>k before. rq_write R k = Committed before \<longrightarrow> before = [])"

lemma quiet_write:
  assumes "quiet R" "write_command R k c st = (r, st')"
  shows "st' = st \<or> apply_kron_command (rq_libs R) c st = Inr st'"
proof (cases "rq_write R k")
  case (Committed before)
  with assms(1) have "before = []" by (simp add: quiet_def)
  with assms(2) Committed show ?thesis by (auto simp: write_command_def split: sum.splits)
qed (use assms(2) in \<open>simp add: write_command_def\<close>)

lemma write_view:
  "quiet R \<Longrightarrow> write_command R k c st = (r, st') \<Longrightarrow> u \<notin> touched c st \<Longrightarrow>
     timer_view_of st' u = timer_view_of st u"
  using quiet_write command_view by metis

lemma write_view_plain:
  "quiet R \<Longrightarrow> write_command R k c st = (r, st') \<Longrightarrow> touched c st = {} \<Longrightarrow>
     timer_view_of st' u = timer_view_of st u"
  using write_view by simp

lemma heartbeat_view:
  "quiet R \<Longrightarrow> heartbeat_worker N R worker st = (r, st') \<Longrightarrow> timer_view_of st' u = timer_view_of st u"
  by (auto simp: heartbeat_worker_def split: sum.splits prod.splits dest: write_view_plain)

lemma register_view:
  "quiet R \<Longrightarrow> register_worker N R request st = (r, st') \<Longrightarrow> timer_view_of st' u = timer_view_of st u"
  by (auto simp: register_worker_def split: sum.splits prod.splits dest: write_view_plain)

lemma join_view:
  assumes "quiet R" "join N R request st = (r, st')"
  shows "timer_view_of st' u = timer_view_of st u"
  using assms(2) by (auto simp: join_def Let_def split: sum.splits prod.splits option.splits
      dest!: write_view_plain [OF assms(1), where u = u])

lemma leave_same: "leave N R request st = (r, st') \<Longrightarrow> st' = st"
  by (auto simp: leave_def Let_def split: sum.splits option.splits)

text \<open>A claim touches a timer of the tenant only.\<close>

lemma timer_tenant_view: "timer_view_of st' u = timer_view_of st u \<Longrightarrow> timer_tenant st' u = timer_tenant st u"
  by (simp add: timer_tenant_def timer_view_of_def)

lemma claimed_tenant:
  assumes "bt_sorted (psm_timers st)" "t \<noteq> ''*''"
    and "find_map (claim_candidate L (Some t) tasks now ulid ids) (bt_values (app_timers (app_state st))) = Some run"
  shows "timer_tenant st (wr_timer run) = Some t" "wr_tenant_id run = Some t"
proof -
  from find_mapD [OF assms(3)] obtain s where
    s: "s \<in> set (bt_values (app_timers (app_state st)))" "claim_candidate L (Some t) tasks now ulid ids s = Some run"
    by blast
  from app_timer_in [OF assms(1) s(1)] claim_candidateD(1-3) [OF s(2)] assms(2)
  show "timer_tenant st (wr_timer run) = Some t" "wr_tenant_id run = Some t"
    by (auto simp: tenant_matches_own timer_tenant_def)
qed

lemma try_claim_view:
  assumes "quiet R" "bt_sorted (psm_timers st)" "t \<noteq> ''*''" "timer_tenant st u \<noteq> Some t"
    and "try_claim R k worker tasks (Some t) st = (r, st')"
  shows "timer_view_of st' u = timer_view_of st u \<and> bt_sorted (psm_timers st')"
proof (cases "find_map (claim_candidate (rq_libs R) (Some t) tasks (rq_now R (2 * k + 1)) (rq_ulid R k)
    (map (\<lambda>r. timer_id_str (pa_timer_id r)) (bt_values (app_active_runs (app_state st)))))
    (bt_values (app_timers (app_state st)))")
  case (Some run)
  have "wr_timer run \<noteq> u" using claimed_tenant(1) [OF assms(2,3) Some] assms(4) by auto
  then show ?thesis
    using assms(1,2,5) Some
    by (auto simp: try_claim_def Let_def split: sum.splits prod.splits
        dest: write_view [where u = u] quiet_write command_timers_sorted)
qed (use assms in \<open>simp add: try_claim_def\<close>)

lemma poll_loop_view:
  "quiet R \<Longrightarrow> bt_sorted (psm_timers st) \<Longrightarrow> t \<noteq> ''*'' \<Longrightarrow> timer_tenant st u \<noteq> Some t \<Longrightarrow>
   poll_loop n R k worker tasks (Some t) st = (r, st') \<Longrightarrow> timer_view_of st' u = timer_view_of st u"
proof (induction n arbitrary: k st)
  case (Suc n)
  obtain r1 st1 where one: "try_claim R k worker tasks (Some t) st = (r1, st1)" by (metis prod.exhaust)
  note step = try_claim_view [OF Suc.prems(1-4) one]
  have "timer_tenant st1 u \<noteq> Some t" using timer_tenant_view step Suc.prems(4) by metis
  then show ?case
    using Suc.prems step one Suc.IH [of st1 "k + 1"]
    by (simp add: poll_loop.simps [of "Suc n"] poll_attempt_def quiet_def split: sum.splits option.splits)
next
  case 0
  obtain r1 st1 where one: "try_claim R k worker tasks (Some t) st = (r1, st1)" by (metis prod.exhaust)
  with try_claim_view [OF 0(1-4) one] 0 show ?case
    by (auto simp: poll_loop.simps [of 0] poll_attempt_def quiet_def split: sum.splits option.splits)
qed

text \<open>An outcome touches a timer of the tenant only.\<close>

lemma validated_tenant:
  assumes "validate_active_run rid worker token (Some t) st = Inr ()" "t \<noteq> ''*''"
  shows "\<exists>a. bt_get (psm_active_runs st) rid = Some a \<and> pa_worker_id a = worker \<and> pa_fencing_token a = token
    \<and> timer_tenant st (timer_id_str (pa_timer_id a)) = Some t"
  using assms
  by (auto simp: validate_active_run_def Let_def app_state_get tenant_matches_own timer_tenant_def
      split: option.splits if_splits) (auto split: Option.bind_splits)

lemma outcome_view:
  assumes "quiet R" "t \<noteq> ''*''" "timer_tenant st u \<noteq> Some t"
  shows "complete_run N R rid completion (Some t) st = (r, st') \<Longrightarrow> timer_view_of st' u = timer_view_of st u"
    "fail_run N R rid failure (Some t) st = (r, st') \<Longrightarrow> timer_view_of st' u = timer_view_of st u"
  using assms(2,3)
  by (auto simp: complete_run_def fail_run_def split: sum.splits prod.splits
      dest!: validated_tenant write_view [OF assms(1), where u = u])

lemma heartbeat_sorted:
  assumes "quiet R" "bt_sorted (psm_timers st)" "heartbeat_worker N R worker st = (r, st')"
  shows "bt_sorted (psm_timers st')"
  using assms(2,3)
  by (auto simp: heartbeat_worker_def split: sum.splits prod.splits
      dest!: quiet_write [OF assms(1)] dest: command_timers_sorted)

lemma poll_view:
  assumes "quiet R" "bt_sorted (psm_timers st)" "t \<noteq> ''*''" "timer_tenant st u \<noteq> Some t"
    and "poll_worker N R q (Some t) st = (r, st')"
  shows "timer_view_of st' u = timer_view_of st u"
proof -
  obtain r0 st0 where hb: "heartbeat_worker N R (wp_worker_id q) st = (r0, st0)" by (metis prod.exhaust)
  note view = heartbeat_view [OF assms(1) hb, of u]
  have "timer_tenant st0 u \<noteq> Some t" using timer_tenant_view [OF view] assms(4) by simp
  note loop = poll_loop_view [OF assms(1) heartbeat_sorted [OF assms(1,2) hb] assms(3) this]
  have "st' = st \<or> st' = st0
      \<or> (\<exists>r1. poll_loop (rq_polls R) R 0 (wp_worker_id q) (wp_tasks q) (Some t) st0 = (r1, st'))"
    using assms(5) hb by (auto simp: poll_worker_def split: sum.splits)
  then show ?thesis using loop view by auto
qed

lemma as_jsonD: "as_json f flag x = (r, st', flag') \<Longrightarrow> \<exists>r1. x = (r1, st')"
  by (auto simp: as_json_def split: prod.splits sum.splits)

text \<open>C24: a tenant cannot change the timers of another.  A request that is authenticated for one
  tenant, other than the creation of a timer, leaves specification, lifecycle state, fencing
  token and next run of every timer of another tenant (or of none) as they were, provided no
  command of another client is committed meanwhile.\<close>

theorem tenant_writes_confined:
  assumes "quiet R" "committed (rq_libs R) cs st"
    and "ac_tenant_id auth = Some t" "t \<noteq> ''*''" "timer_tenant st u \<noteq> Some t"
    and "\<forall>q. request \<noteq> ApiCreateTimer q"
    and "api_handler N R request auth (st, flag) = (r, st', flag')"
  shows "bt_get (psm_timers st') u = bt_get (psm_timers st) u
    \<and> bt_get (psm_next_runs st') u = bt_get (psm_next_runs st) u"
proof -
  have sorted: "bt_sorted (psm_timers st)" by (rule committedD(2) [OF assms(2)])
  have "timer_view_of st' u = timer_view_of st u"
  proof (cases request)
    case (ApiPollWorker q)
    then show ?thesis
      using assms(3,7) by (auto dest!: as_jsonD intro: poll_view [OF assms(1) sorted assms(4,5)])
  next
    case (ApiSucceedRun rid q)
    then show ?thesis using assms(3,7) by (auto dest!: as_jsonD intro: outcome_view [OF assms(1,4,5)])
  next
    case (ApiFailRun rid q)
    then show ?thesis using assms(3,7) by (auto dest!: as_jsonD intro: outcome_view [OF assms(1,4,5)])
  qed (use assms(6,7) in \<open>auto dest!: as_jsonD
      dest: register_view [OF assms(1)] heartbeat_view [OF assms(1)] join_view [OF assms(1)] leave_same\<close>)
  then show ?thesis by (simp add: timer_view_of_def)
qed

section \<open>Answers hold what belongs to the tenant\<close>

lemma try_claim_tenant:
  assumes "bt_sorted (psm_timers st)" "t \<noteq> ''*''" "try_claim R k worker tasks (Some t) st = (Inr (Some run), st')"
  shows "wr_tenant_id run = Some t"
proof -
  obtain s where s: "s \<in> set (bt_values (app_timers (app_state st)))"
    "claim_candidate (rq_libs R) (Some t) tasks (rq_now R (2 * k + 1)) (rq_ulid R k)
       (map (\<lambda>r. timer_id_str (pa_timer_id r)) (bt_values (psm_active_runs st))) s = Some run"
    using try_claimD [OF assms(3)] by metis
  from claim_candidateD(2,3) [OF s(2)] show ?thesis by (simp add: tenant_matches_own [OF assms(2)])
qed

lemma write_sorted:
  "write_command R k c st = (r, st') \<Longrightarrow> bt_sorted (psm_timers st) \<Longrightarrow> bt_sorted (psm_timers st')"
  by (auto simp: write_command_def split: write_outcome.splits sum.splits dest: commands_timers_sorted)

lemma try_claim_sorted:
  "try_claim R k worker tasks tenant st = (r, st') \<Longrightarrow> bt_sorted (psm_timers st) \<Longrightarrow> bt_sorted (psm_timers st')"
  by (auto simp: try_claim_def Let_def split: option.splits sum.splits prod.splits dest: write_sorted)

lemma poll_loop_tenant:
  "bt_sorted (psm_timers st) \<Longrightarrow> t \<noteq> ''*'' \<Longrightarrow>
   poll_loop n R k worker tasks (Some t) st = (Inr (Some run), st') \<Longrightarrow> wr_tenant_id run = Some t"
proof (induction n arbitrary: k st)
  case (Suc n)
  then show ?case
    by (auto simp: poll_loop.simps [of "Suc n"] poll_attempt_def split: sum.splits option.splits prod.splits
        dest: commands_timers_sorted try_claim_tenant try_claim_sorted)
next
  case 0
  then show ?case
    by (auto simp: poll_loop.simps [of 0] poll_attempt_def split: sum.splits option.splits prod.splits
        dest: commands_timers_sorted try_claim_tenant)
qed

text \<open>C25: a tenant is answered only with what is its own.  Whatever else happens in the cluster,
  every timer that a listing or a status request for a tenant returns, every history entry, and
  every run that a poll hands to a worker carries that tenant.\<close>

theorem tenant_reads_confined:
  assumes "committed (rq_libs R) cs st" "t \<noteq> ''*''"
  shows "(\<forall>s \<in> set (list_for_tenant (Some t) st). dsum_tenant_id s = Some t)
    \<and> (\<forall>name s. status_for_tenant name (Some t) st = Some s \<longrightarrow> dsum_tenant_id s = Some t)
    \<and> (\<forall>name. \<forall>entry \<in> set (history_for_tenant name (Some t) st). str_field entry ''tenant_id'' = Some t)
    \<and> (\<forall>q run st'. poll_worker N R q (Some t) st = (Inr (Some run), st') \<longrightarrow> wr_tenant_id run = Some t)"
proof (intro conjI allI impI)
  show "\<forall>s \<in> set (list_for_tenant (Some t) st). dsum_tenant_id s = Some t"
    by (simp add: list_for_tenant_def tenant_matches_own [OF assms(2)])
  show "dsum_tenant_id s = Some t" if "status_for_tenant name (Some t) st = Some s" for name s
    using that by (auto simp: status_for_tenant_def tenant_matches_own [OF assms(2)]
        split: Option.bind_splits if_splits)
  show "\<forall>entry \<in> set (history_for_tenant name (Some t) st). str_field entry ''tenant_id'' = Some t" for name
    by (simp add: history_for_tenant_def tenant_matches_own [OF assms(2)])
  show "wr_tenant_id run = Some t" if poll: "poll_worker N R q (Some t) st = (Inr (Some run), st')" for q run st'
  proof -
    have "bt_sorted (psm_timers st0)" if "heartbeat_worker N R (wp_worker_id q) st = (r0, st0)" for r0 st0
      using that committedD(2) [OF assms(1)]
      by (auto simp: heartbeat_worker_def split: sum.splits prod.splits dest: write_sorted)
    then show ?thesis
      using poll assms(2)
      by (auto simp: poll_worker_def split: sum.splits prod.splits dest: poll_loop_tenant)
  qed
qed

section \<open>What tenants do to each other by name\<close>

lemma created_view:
  "bt_get (psm_timers (apply_create_timer spec n st)) (timer_id_str (ds_id spec))
     = Some \<lparr>pt_spec = spec, pt_state = Scheduled, pt_fencing_token = 0\<rparr>"
  by (simp add: apply_create_timer_def Let_def set_next_run_def push_history_def)

text \<open>Timers of all tenants share one name space.  An operator whose token is scoped to one
  tenant and who creates a timer under a name that a timer of another tenant has, replaces that
  timer: the request succeeds, the name now belongs to the operator's tenant with fencing token
  0, and the other tenant no longer sees a timer of that name.\<close>

theorem create_timer_crosses_tenants:
  assumes "rv_linearizable (rq_view R)" "rq_write R 0 = Committed []"
    and "ac_tenant_id auth = Some t" "cr_tenant_id q = None" "u \<noteq> t" "u \<noteq> ''*''"
    and "timer_tenant st (cr_name q) = Some u"
    and "parse_request_schedule (rq_libs R) (rq_now R 0) (q\<lparr>cr_tenant_id := Some t\<rparr>) = Inr sched"
    and "next_run_after (rq_libs R) sched (rq_now R 1) (unwrap_or (cr_timezone q) ''UTC'') = Inr n"
  shows "\<exists>s st' timer. api_handler N R (ApiCreateTimer q) auth (st, flag) = (Inr (rq_summary_json R s), st', flag)
    \<and> bt_get (psm_timers st') (cr_name q) = Some timer \<and> ds_tenant_id (pt_spec timer) = Some t
    \<and> pt_fencing_token timer = 0
    \<and> status_for_tenant (cr_name q) (Some t) st' = Some s
    \<and> status_for_tenant (cr_name q) (Some u) st' = None"
proof -
  let ?q = "q\<lparr>cr_tenant_id := Some t\<rparr>"
  let ?spec = "spec_of_request ?q sched (rq_now R 1)"
  let ?st = "apply_create_timer ?spec n st"
  have get: "bt_get (psm_timers ?st) (cr_name q) = Some \<lparr>pt_spec = ?spec, pt_state = Scheduled, pt_fencing_token = 0\<rparr>"
    using created_view [of ?spec n st] by (simp add: spec_of_request_def)
  have ten: "ds_tenant_id ?spec = Some t" by (simp add: spec_of_request_def)
  obtain s where s: "timer_status (cr_name q) ?st = Some s" "dsum_tenant_id s = Some t"
    using timer_status_some [OF get] ten by auto
  have "create_timer N R q (Some t) st = (Inr s, ?st)"
    using assms s(1)
    by (simp add: create_timer_def ensure_leader_def scoped_request_def write_command_def Let_def)
      (simp add: spec_of_request_def write_command_def)
  then show ?thesis
    using get ten s assms(3,5,6) by (auto simp: as_json_def status_for_tenant_def tenant_matches_def)
qed

section \<open>A due timer is handed out\<close>

lemma find_map_some: "x \<in> set xs \<Longrightarrow> f x \<noteq> None \<Longrightarrow> \<exists>y. find_map f xs = Some y"
  by (induction xs) (auto split: option.split)

lemma due_candidate:
  assumes "bt_sorted (psm_timers st)" "bt_get (psm_timers st) x = Some timer"
    and "ds_target (pt_spec timer) = WorkerTask task payload" "task \<in> set tasks"
    and "tenant_matches tenant (ds_tenant_id (pt_spec timer))"
    and "bt_get (psm_next_runs st) x = Some due" "due \<le> now" "x \<notin> set ids"
  shows "\<exists>run. find_map (claim_candidate L tenant tasks now ulid ids) (bt_values (app_timers (app_state st))) = Some run"
proof (rule find_map_some)
  let ?s = "\<lparr>dsum_id = x, dsum_tenant_id = ds_tenant_id (pt_spec timer), dsum_state = pt_state timer,
    dsum_target = ds_target (pt_spec timer), dsum_next_run_at = bt_get (psm_next_runs st) x,
    dsum_last_status = last_status_of x (psm_history st), dsum_fencing_token = pt_fencing_token timer\<rparr>"
  have "(x, timer) \<in> set (psm_timers st)" using assms(1,2) by (simp add: bt_get_in)
  then show "?s \<in> set (bt_values (app_timers (app_state st)))"
    by (force simp: app_state_def bt_values_def)
  show "claim_candidate L tenant tasks now ulid ids ?s \<noteq> None"
    using assms(3-8) by (auto simp: claim_candidate_def list_ex_iff)
qed

lemma claim_succeeds:
  assumes "bt_sorted (psm_timers st)" "one_run (psm_active_runs st)" "rq_write R (k + 1) = Committed []"
    and "plus_seconds (rq_libs R) (rq_now R (2 * k + 2)) (worker_lease_seconds (rq_lease_var R)) = Inr deadline"
    and "find_map (claim_candidate (rq_libs R) tenant tasks (rq_now R (2 * k + 1)) (rq_ulid R k)
       (map (\<lambda>r. timer_id_str (pa_timer_id r)) (bt_values (psm_active_runs st))))
       (bt_values (app_timers (app_state st))) = Some run"
  shows "\<exists>st'. try_claim R k worker tasks tenant st = (Inr (Some run), st')"
proof -
  obtain s where s: "claim_candidate (rq_libs R) tenant tasks (rq_now R (2 * k + 1)) (rq_ulid R k)
       (map (\<lambda>r. timer_id_str (pa_timer_id r)) (bt_values (psm_active_runs st))) s = Some run"
    using find_mapD [OF assms(5)] by blast
  have "\<not> list_ex (\<lambda>r. pa_timer_id r = TimerId (wr_timer run)) (bt_values (psm_active_runs st))"
    using claim_candidateD(1,4) [OF s] by (force simp: list_ex_iff)
  then have "bt_get (psm_active_runs (apply_claim_run (TimerId (wr_timer run)) (RunId (wr_run_id run)) worker
      (wr_fencing_token run) (wr_attempt run) deadline st)) (wr_run_id run) = Some \<lparr>pa_timer_id = TimerId (wr_timer run),
      pa_run_id = RunId (wr_run_id run), pa_worker_id = worker, pa_fencing_token = wr_fencing_token run,
      pa_attempt = wr_attempt run, pa_lease_deadline = deadline\<rparr>"
    by (simp add: apply_claim_run_def Let_def)
  then show ?thesis
    using assms(3,4,5) by (simp add: try_claim_def app_state_get write_command_def Let_def)
qed

lemma idle_timer:
  "one_run m \<Longrightarrow> (\<And>i a. bt_get m i = Some a \<Longrightarrow> pa_timer_id a \<noteq> TimerId x) \<Longrightarrow>
     x \<notin> set (map (\<lambda>r. timer_id_str (pa_timer_id r)) (bt_values m))"
  by (auto simp: one_run_def bt_values_def bt_get_in [symmetric]) (metis timer_id.collapse)

text \<open>C26: a due timer does not wait.  If a timer is due whose task the worker offers, whose tenant the
  token covers and of which no run is active, then a poll of the leader returns a run at its
  first attempt (of this timer or of another one that is due), provided its two writes are
  committed without commands of others before them.\<close>

theorem due_timer_is_claimed:
  assumes "committed (rq_libs R) cs st" "rv_linearizable (rq_view R)"
    and "rq_write R 0 = Committed []" "rq_write R 1 = Committed []" "rq_others R 0 = []"
    and "plus_seconds (rq_libs R) (rq_now R 0) (worker_lease_seconds (rq_lease_var R)) = Inr lease"
    and "plus_seconds (rq_libs R) (rq_now R 2) (worker_lease_seconds (rq_lease_var R)) = Inr deadline"
    and "bt_get (psm_timers st) x = Some timer" "ds_target (pt_spec timer) = WorkerTask task payload"
    and "task \<in> set (wp_tasks q)" "tenant_matches tenant (ds_tenant_id (pt_spec timer))"
    and "bt_get (psm_next_runs st) x = Some due" "due \<le> rq_now R 1"
    and "\<forall>i a. bt_get (psm_active_runs st) i = Some a \<longrightarrow> pa_timer_id a \<noteq> TimerId x"
  shows "\<exists>run st'. poll_worker N R q tenant st = (Inr (Some run), st')"
proof -
  let ?st = "apply_heartbeat_worker (wp_worker_id q) lease st"
  have same: "psm_timers ?st = psm_timers st" "psm_next_runs ?st = psm_next_runs st"
    "psm_active_runs ?st = psm_active_runs st" by (simp_all add: apply_heartbeat_worker_def)
  have sorted: "bt_sorted (psm_timers ?st)" and one: "one_run (psm_active_runs ?st)"
    using committedD [OF assms(1)] by (simp_all add: same)
  have "x \<notin> set (map (\<lambda>r. timer_id_str (pa_timer_id r)) (bt_values (psm_active_runs ?st)))"
    using idle_timer [OF one] assms(14) by (simp add: same)
  then obtain run where run: "find_map (claim_candidate (rq_libs R) tenant (wp_tasks q) (rq_now R (2 * 0 + 1)) (rq_ulid R 0)
       (map (\<lambda>r. timer_id_str (pa_timer_id r)) (bt_values (psm_active_runs ?st))))
       (bt_values (app_timers (app_state ?st))) = Some run"
    using due_candidate [OF sorted, of x timer task payload "wp_tasks q" tenant due "rq_now R 1"] assms(8-13) same
    by (metis mult_0_right add_0)
  obtain st' where "try_claim R 0 (wp_worker_id q) (wp_tasks q) tenant ?st = (Inr (Some run), st')"
    using claim_succeeds [OF sorted one _ _ run, of deadline] assms(4,7) by (auto simp: numeral_2_eq_2)
  moreover have "heartbeat_worker N R (wp_worker_id q) st = (Inr (Object [(''ok'', Bool True)]), ?st)"
    using assms(2,3,6) by (simp add: heartbeat_worker_def ensure_leader_def write_command_def)
  ultimately show ?thesis
    using assms(2,5)
    by (simp add: poll_worker_def ensure_leader_def poll_loop.simps [of "rq_polls R"] poll_attempt_def)
qed

section \<open>Failed timers come back\<close>

lemma fail_run_view:
  assumes "bt_get (psm_active_runs st) (run_id_str rid) = Some a" "pa_worker_id a = worker" "pa_fencing_token a = token"
    and "bt_get (psm_timers st) (timer_id_str (pa_timer_id a)) = Some timer"
  shows "bt_get (psm_timers (apply_fail_run rid worker token err st)) (timer_id_str (pa_timer_id a))
      = Some (timer\<lparr>pt_state := Dead\<rparr>)"
    "psm_next_runs (apply_fail_run rid worker token err st) = psm_next_runs st"
    "psm_active_runs (apply_fail_run rid worker token err st) = bt_remove (run_id_str rid) (psm_active_runs st)"
  using assms
  by (simp_all add: apply_fail_run_def owned_run_def Let_def set_state_def drop_active_def push_history_def)

lemma claimed_task:
  assumes "bt_sorted (psm_timers st)"
    and "find_map (claim_candidate L tenant tasks now ulid ids) (bt_values (app_timers (app_state st))) = Some run"
  shows "\<exists>timer payload. bt_get (psm_timers st) (wr_timer run) = Some timer
    \<and> ds_target (pt_spec timer) = WorkerTask (wr_task run) payload \<and> wr_task run \<in> set tasks \<and> wr_attempt run = 1"
proof -
  from find_mapD [OF assms(2)] obtain s where
    s: "s \<in> set (bt_values (app_timers (app_state st)))" "claim_candidate L tenant tasks now ulid ids s = Some run"
    by blast
  have "wr_attempt run = 1"
    using s(2) by (auto simp: claim_candidate_def split: if_splits option.splits timer_target.splits)
  then show ?thesis using app_timer_in [OF assms(1) s(1)] claim_candidateD [OF s(2)] by auto
qed

text \<open>The failure of a run does not end its timer.  When a worker reports that the run of a timer
  failed, the timer is marked dead but keeps its next run, and a claim looks only at the next
  run: the next attempt to claim a run of its task gets the same timer again, as attempt 1,
  whatever the retry policy of the timer says about attempts.\<close>

theorem failed_timer_claimed_again:
  assumes "committed (rq_libs R) cs st"
    and "bt_get (psm_active_runs st) rid = Some a" "pa_timer_id a = TimerId x"
    and "bt_get (psm_timers st) x = Some timer" "ds_target (pt_spec timer) = WorkerTask task payload"
    and "\<forall>y tm p. bt_get (psm_timers st) y = Some tm \<longrightarrow> ds_target (pt_spec tm) = WorkerTask task p \<longrightarrow> y = x"
    and "bt_get (psm_next_runs st) x = Some due" "due \<le> rq_now R (2 * k + 1)"
    and "rq_write R (k + 1) = Committed []"
    and "plus_seconds (rq_libs R) (rq_now R (2 * k + 2)) (worker_lease_seconds (rq_lease_var R)) = Inr deadline"
    and "apply_kron_command (rq_libs R) (FailRun (RunId rid) (pa_worker_id a) (pa_fencing_token a) err failed_at) st = Inr st1"
  shows "map_option pt_state (bt_get (psm_timers st1) x) = Some Dead
    \<and> (\<exists>run st2. try_claim R k worker [task] None st1 = (Inr (Some run), st2)
         \<and> wr_timer run = x \<and> wr_attempt run = 1)"
proof -
  have st1: "st1 = apply_fail_run (RunId rid) (pa_worker_id a) (pa_fencing_token a) err st" using assms(11) by simp
  have act: "bt_get (psm_active_runs st) (run_id_str (RunId rid)) = Some a"
    and tm: "bt_get (psm_timers st) (timer_id_str (pa_timer_id a)) = Some timer" using assms(2-4) by simp_all
  note fv = fail_run_view [OF act refl refl tm, of err, folded st1]
  have com: "committed (rq_libs R) (cs @ [FailRun (RunId rid) (pa_worker_id a) (pa_fencing_token a) err failed_at]) st1"
    using committed_append [OF assms(1)] assms(11) by auto
  note inv = committedD [OF com]
  have dead: "bt_get (psm_timers st1) x = Some (timer\<lparr>pt_state := Dead\<rparr>)" using fv(1) assms(3) by simp
  have "pa_timer_id b \<noteq> TimerId x" if "bt_get (psm_active_runs st1) i = Some b" for i b
    using that fv(3) committedD(1) [OF assms(1)] assms(2,3) by (auto simp: one_run_def split: if_splits) 
  then have idle: "x \<notin> set (map (\<lambda>r. timer_id_str (pa_timer_id r)) (bt_values (psm_active_runs st1)))"
    by (rule idle_timer [OF inv(1)])
  have "\<exists>run. find_map (claim_candidate (rq_libs R) None [task] (rq_now R (2 * k + 1)) (rq_ulid R k)
       (map (\<lambda>r. timer_id_str (pa_timer_id r)) (bt_values (psm_active_runs st1))))
       (bt_values (app_timers (app_state st1))) = Some run"
    by (rule due_candidate [OF inv(2) dead _ _ _ _ assms(8) idle]) (simp_all add: assms fv tenant_matches_def)
  then obtain run where run: "find_map (claim_candidate (rq_libs R) None [task] (rq_now R (2 * k + 1)) (rq_ulid R k)
       (map (\<lambda>r. timer_id_str (pa_timer_id r)) (bt_values (psm_active_runs st1))))
       (bt_values (app_timers (app_state st1))) = Some run" ..
  obtain tm' p where tm': "bt_get (psm_timers st1) (wr_timer run) = Some tm'"
    "ds_target (pt_spec tm') = WorkerTask task p" "wr_attempt run = 1"
    using claimed_task [OF inv(2) run] by auto
  have "wr_timer run = x"
  proof (rule ccontr)
    assume ne: "wr_timer run \<noteq> x"
    then have "bt_get (psm_timers st) (wr_timer run) = Some tm'"
      using command_view [OF assms(11), of "wr_timer run"] tm'(1) assms(2,3) by (simp add: timer_view_of_def)
    with assms(6) tm'(2) ne show False by blast
  qed
  then show ?thesis
    using claim_succeeds [OF inv(2,1) assms(9,10) run, of worker] dead tm'(3) by auto
qed

section \<open>Witnesses\<close>

definition sample_auth :: "string \<Rightarrow> auth_context" where
  "sample_auth t = \<lparr>ac_actor = ''alice'', ac_role = Admin, ac_tenant_id = Some t\<rparr>"

definition sample_poll :: worker_poll_request where
  "sample_poll = \<lparr>wp_worker_id = ''w1'', wp_tenant_id = None, wp_tasks = [''mail'']\<rparr>"

definition sample_create :: create_timer_request where
  "sample_create = \<lparr>cr_name = ''digest'', cr_tenant_id = None, cr_cron = None, cr_every = Some (show_duration 2 Minutes),
     cr_after = None, cr_at = None, cr_timezone = None, cr_max_attempts = None, cr_task = ''mail'', cr_payload = None\<rparr>"

lemma sample_timer:
  "psm_timers sample_created = [(''digest'', \<lparr>pt_spec = sample_dspec, pt_state = Scheduled, pt_fencing_token = 0\<rparr>)]"
  "psm_next_runs sample_created = [(''digest'', 60000000000)]" "psm_active_runs sample_created = []"
  by (simp_all add: sample_created_def apply_create_timer_def default_state_machine_def sample_dspec_def
      push_history_def set_next_run_def Let_def)

lemma sample_timer_tenant: "timer_tenant sample_created ''digest'' = Some ''acme''"
  by (simp add: timer_tenant_def sample_timer bt_get_def sample_dspec_def)

lemma sample_env:
  "quiet sample_request_env" "rv_linearizable (rq_view sample_request_env)" "rq_libs sample_request_env = minute_libs"
  "rq_write sample_request_env k = Committed []" "rq_others sample_request_env k = []"
  "rq_now sample_request_env k = 61000000000"
  "plus_seconds minute_libs 61000000000 (worker_lease_seconds (rq_lease_var sample_request_env)) = Inr 91000000000"
  by (simp_all add: quiet_def sample_request_env_def worker_lease_seconds_def plus_seconds_def minute_libs_def nanos_per_sec_def)

lemma sample_committed_env:
  "committed (rq_libs sample_request_env) [CreateTimer sample_dspec (Some 60000000000)] sample_created"
  using sample_created_committed by (simp add: sample_env)

theorem tenant_writes_confined_witness:
  "\<exists>r st' flag'. api_handler sample_node sample_request_env (ApiPollWorker sample_poll) (sample_auth ''globex'')
       (sample_created, False) = (r, st', flag')
     \<and> bt_get (psm_timers st') ''digest'' = bt_get (psm_timers sample_created) ''digest''"
proof -
  obtain r st' flag' where run: "api_handler sample_node sample_request_env (ApiPollWorker sample_poll)
      (sample_auth ''globex'') (sample_created, False) = (r, st', flag')" by (metis prod.exhaust)
  have "bt_get (psm_timers st') ''digest'' = bt_get (psm_timers sample_created) ''digest''"
    using tenant_writes_confined [OF sample_env(1) sample_committed_env _ _ _ _ run, of "''globex''" "''digest''"]
    by (simp add: sample_auth_def sample_timer_tenant)
  with run show ?thesis by blast
qed

theorem tenant_reads_confined_witness:
  "\<exists>s. list_for_tenant (Some ''acme'') sample_created = [s] \<and> dsum_tenant_id s = Some ''acme''"
proof -
  obtain s where "list_for_tenant (Some ''acme'') sample_created = [s]"
    by (simp add: list_for_tenant_def list_all_timers_def app_state_def sample_timer bt_values_def
        sample_dspec_def tenant_matches_def)
  then show ?thesis using tenant_reads_confined [OF sample_committed_env, of "''acme''"] by simp
qed

theorem create_timer_crosses_tenants_witness:
  "\<exists>s st'. api_handler sample_node sample_request_env (ApiCreateTimer sample_create) (sample_auth ''globex'')
       (sample_created, False) = (Inr (rq_summary_json sample_request_env s), st', False)
     \<and> status_for_tenant ''digest'' (Some ''globex'') st' = Some s
     \<and> status_for_tenant ''digest'' (Some ''acme'') st' = None"
proof -
  have dur: "parse_duration_str (show_duration 2 Minutes) = Inr 120" by (simp add: parse_duration_shown)
  have "parse_request_schedule (rq_libs sample_request_env) (rq_now sample_request_env 0)
      (sample_create\<lparr>cr_tenant_id := Some ''globex''\<rparr>) = Inr (Every 120)"
    by (simp add: parse_request_schedule_def sample_create_def is_some_def dur)
  moreover have "next_run_after (rq_libs sample_request_env) (Every 120) (rq_now sample_request_env 1)
      (unwrap_or (cr_timezone sample_create) ''UTC'') = Inr (Some 181000000000)"
    by (simp add: sample_env sample_create_def unwrap_or_def next_run_after_def plus_seconds_def minute_libs_def
        nanos_per_sec_def)
  moreover have "ac_tenant_id (sample_auth ''globex'') = Some ''globex''" "cr_tenant_id sample_create = None"
    "cr_name sample_create = ''digest''" by (simp_all add: sample_auth_def sample_create_def)
  ultimately show ?thesis
    using create_timer_crosses_tenants [OF sample_env(2) sample_env(4) [of 0], of "sample_auth ''globex''" "''globex''"
        sample_create "''acme''" sample_created "Every 120" "Some 181000000000" sample_node False] sample_timer_tenant
    by auto
qed

theorem due_timer_is_claimed_witness:
  "\<exists>run st'. poll_worker sample_node sample_request_env sample_poll (Some ''acme'') sample_created = (Inr (Some run), st')"
  by (rule due_timer_is_claimed [OF sample_committed_env sample_env(2,4,4,5),
        where x = "''digest''" and task = "''mail''" and payload = Null and due = 60000000000
        and timer = "\<lparr>pt_spec = sample_dspec, pt_state = Scheduled, pt_fencing_token = 0\<rparr>"])
     (simp_all add: sample_env sample_timer bt_get_def sample_dspec_def sample_poll_def tenant_matches_def)

text \<open>The timer of the sample while its first run is active.\<close>

definition sample_running :: state_machine where
  "sample_running = apply_claim_run (TimerId ''digest'') (RunId ''r1'') ''w1'' 1 1 90000000000 sample_created"

lemma sample_running_parts:
  "psm_timers sample_running = [(''digest'', \<lparr>pt_spec = sample_dspec, pt_state = Running, pt_fencing_token = 1\<rparr>)]"
  "psm_next_runs sample_running = [(''digest'', 60000000000)]"
  "psm_active_runs sample_running = [(''r1'', \<lparr>pa_timer_id = TimerId ''digest'', pa_run_id = RunId ''r1'',
     pa_worker_id = ''w1'', pa_fencing_token = 1, pa_attempt = 1, pa_lease_deadline = 90000000000\<rparr>)]"
  by (simp_all add: sample_running_def apply_claim_run_def sample_timer bt_values_def push_history_def Let_def
      bt_modify_def)

theorem failed_timer_claimed_again_witness:
  "\<exists>st1 run st2. apply_kron_command minute_libs (FailRun (RunId ''r1'') ''w1'' 1 ''boom'' 61000000000) sample_running = Inr st1
    \<and> map_option pt_state (bt_get (psm_timers st1) ''digest'') = Some Dead
    \<and> try_claim sample_request_env 0 ''w1'' [''mail''] None st1 = (Inr (Some run), st2) \<and> wr_timer run = ''digest''
    \<and> wr_attempt run = 1"
proof -
  have com: "committed (rq_libs sample_request_env) [CreateTimer sample_dspec (Some 60000000000),
      ClaimRun (TimerId ''digest'') (RunId ''r1'') ''w1'' 1 1 90000000000] sample_running"
    by (simp add: committed_def sample_running_def sample_created_def)
  obtain st1 where st1: "apply_kron_command minute_libs (FailRun (RunId ''r1'') ''w1'' 1 ''boom'' 61000000000) sample_running = Inr st1"
    by simp
  have "map_option pt_state (bt_get (psm_timers st1) ''digest'') = Some Dead
    \<and> (\<exists>run st2. try_claim sample_request_env 0 ''w1'' [''mail''] None st1 = (Inr (Some run), st2)
         \<and> wr_timer run = ''digest'' \<and> wr_attempt run = 1)"
    by (rule failed_timer_claimed_again [OF com, where rid = "''r1''" and err = "''boom''"
        and failed_at = 61000000000 and payload = Null and due = 60000000000
        and timer = "\<lparr>pt_spec = sample_dspec, pt_state = Running, pt_fencing_token = 1\<rparr>"
        and a = "\<lparr>pa_timer_id = TimerId ''digest'', pa_run_id = RunId ''r1'',
          pa_worker_id = ''w1'', pa_fencing_token = 1, pa_attempt = 1, pa_lease_deadline = 90000000000\<rparr>"])
       (use st1 in \<open>simp_all add: sample_env sample_running_parts bt_get_def sample_dspec_def\<close>)
  with st1 show ?thesis by blast
qed

end
