(* ===== verification/Kron_Raft_Log.thy ===== *)
theory Kron_Raft_Log
  imports Kron_Cluster_Types
begin

unbundle bit_operations_syntax

text \<open>
  The byte format of the replicated log (openraft_adapter/file_store.rs): records with a
  header of magic, version, term, index, checksum and length in front of the JSON text of an
  entry, and the reader of a segment file.  The JSON library is the parameter \<open>J\<close>.  Shown:
  what is written reads back, a truncated tail costs only the record it cuts, and a single
  altered byte of a payload is always detected.
\<close>

section \<open>Errors and bytes\<close>

text \<open>\<open>StorageError::from_io_error\<close> with its subject, verb and message.\<close>

datatype error_subject = SubjectStore | SubjectSnapshot
datatype error_verb = VerbRead | VerbWrite
datatype store_error = StoreError error_subject error_verb string

type_synonym 'a store_res = "store_error + 'a"

definition corrupt_store :: "string \<Rightarrow> store_error" where
  "corrupt_store message = StoreError SubjectStore VerbRead message"

record 'a byte_codec =
  to_vec :: "'a \<Rightarrow> string + u8 list"
  from_slice :: "u8 list \<Rightarrow> string + 'a"

text \<open>\<open>to_le_bytes\<close> and \<open>from_le_bytes\<close>.\<close>

fun le_bytes :: "nat \<Rightarrow> nat \<Rightarrow> u8 list" where
  "le_bytes 0 n = []"
| "le_bytes (Suc k) n = of_nat n # le_bytes k (n div 256)"

fun le_val :: "u8 list \<Rightarrow> nat" where
  "le_val [] = 0"
| "le_val (b # bs) = unat b + 256 * le_val bs"

definition read_u32 :: "u8 list \<Rightarrow> nat \<Rightarrow> (u32 \<times> nat) store_res" where
  "read_u32 bytes offset =
     (if length bytes - offset < 4 then Inl (corrupt_store ''truncated u32'')
      else Inr (of_nat (le_val (take 4 (drop offset bytes))), offset + 4))"

definition read_u64 :: "u8 list \<Rightarrow> nat \<Rightarrow> (u64 \<times> nat) store_res" where
  "read_u64 bytes offset =
     (if length bytes - offset < 8 then Inl (corrupt_store ''truncated u64'')
      else Inr (of_nat (le_val (take 8 (drop offset bytes))), offset + 8))"

definition checksum_step :: "u32 \<Rightarrow> u8 \<Rightarrow> u32" where
  "checksum_step hash byte = (hash XOR ucast byte) * 0x01000193"

definition checksum32 :: "u8 list \<Rightarrow> u32" where
  "checksum32 bytes = foldl checksum_step 0x811c9dc5 bytes"

section \<open>Records\<close>

definition RAFT_FORMAT_VERSION :: u32 where
  "RAFT_FORMAT_VERSION = 1"

definition LOG_SEGMENT_MAX_BYTES :: u64 where
  "LOG_SEGMENT_MAX_BYTES = 64 * 1024 * 1024"

definition LOG_RECORD_MAGIC :: "u8 list" where
  "LOG_RECORD_MAGIC = [75, 82, 76, 79, 71, 48, 48, 49]"

definition LOG_RECORD_HEADER_BYTES :: nat where
  "LOG_RECORD_HEADER_BYTES = 8 + 4 + 8 + 8 + 4 + 8"

definition record_header :: "log_id \<Rightarrow> u8 list \<Rightarrow> u8 list" where
  "record_header lid payload =
     LOG_RECORD_MAGIC
     @ le_bytes 4 (unat RAFT_FORMAT_VERSION)
     @ le_bytes 8 (unat (lid_term lid))
     @ le_bytes 8 (unat (lid_index lid))
     @ le_bytes 4 (unat (checksum32 payload))
     @ le_bytes 8 (unat (of_nat (length payload) :: u64))"

definition encode_log_record :: "kron_entry byte_codec \<Rightarrow> kron_entry \<Rightarrow> u8 list store_res" where
  "encode_log_record J entry =
     (case to_vec J entry of
        Inl err \<Rightarrow> Inl (StoreError SubjectStore VerbWrite err)
      | Inr payload \<Rightarrow> Inr (record_header (ent_log_id entry) payload @ payload))"

text \<open>One turn of the loop of \<open>read_segment_file\<close>: an entry and the offset after it, or the
  message for a record that the end of the file cuts.\<close>

datatype record_read = Record kron_entry nat | Truncated string

definition read_payload ::
  "kron_entry byte_codec \<Rightarrow> u8 list \<Rightarrow> u64 \<Rightarrow> u64 \<Rightarrow> u32 \<Rightarrow> nat \<Rightarrow> nat \<Rightarrow> record_read store_res" where
  "read_payload J bytes term index checksum len offset =
     (if length bytes - offset < len then Inr (Truncated ''truncated raft log record payload'')
      else
        let payload = take len (drop offset bytes) in
        if checksum32 payload \<noteq> checksum
        then Inl (corrupt_store ''raft log record checksum mismatch'')
        else case from_slice J payload of
               Inl err \<Rightarrow> Inl (StoreError SubjectStore VerbRead err)
             | Inr entry \<Rightarrow>
                 if lid_index (ent_log_id entry) \<noteq> index \<or> lid_term (ent_log_id entry) \<noteq> term
                 then Inl (corrupt_store ''raft log record header does not match entry'')
                 else Inr (Record entry (offset + len)))"

definition read_header :: "u8 list \<Rightarrow> nat \<Rightarrow> (u64 \<times> u64 \<times> u32 \<times> nat \<times> nat) store_res" where
  "read_header bytes offset =
     (if take 8 (drop offset bytes) \<noteq> LOG_RECORD_MAGIC
      then Inl (corrupt_store ''invalid raft log record magic'')
      else case read_u32 bytes (offset + 8) of
        Inl err \<Rightarrow> Inl err
      | Inr (version, offset) \<Rightarrow>
      if version \<noteq> RAFT_FORMAT_VERSION
      then Inl (corrupt_store ''unsupported raft log record version'')
      else case read_u64 bytes offset of
        Inl err \<Rightarrow> Inl err
      | Inr (term, offset) \<Rightarrow>
      case read_u64 bytes offset of
        Inl err \<Rightarrow> Inl err
      | Inr (index, offset) \<Rightarrow>
      case read_u32 bytes offset of
        Inl err \<Rightarrow> Inl err
      | Inr (checksum, offset) \<Rightarrow>
      case read_u64 bytes offset of
        Inl err \<Rightarrow> Inl err
      | Inr (len, offset) \<Rightarrow> Inr (term, index, checksum, unat len, offset))"

definition read_record :: "kron_entry byte_codec \<Rightarrow> u8 list \<Rightarrow> nat \<Rightarrow> record_read store_res" where
  "read_record J bytes offset =
     (if length bytes - offset < LOG_RECORD_HEADER_BYTES
      then Inr (Truncated ''truncated raft log record header'')
      else case read_header bytes offset of
             Inl err \<Rightarrow> Inl err
           | Inr (term, index, checksum, len, offset') \<Rightarrow>
               read_payload J bytes term index checksum len offset')"

lemma read_word_offsets:
  "read_u32 bytes offset = Inr (v, offset') \<Longrightarrow> offset' = offset + 4"
  "read_u64 bytes offset = Inr (w, offset') \<Longrightarrow> offset' = offset + 8"
  by (auto simp: read_u32_def read_u64_def split: if_splits)

lemma read_header_offset:
  "read_header bytes offset = Inr (t, i, c, len, offset') \<Longrightarrow> offset' = offset + LOG_RECORD_HEADER_BYTES"
  by (auto simp: read_header_def LOG_RECORD_HEADER_BYTES_def split: if_splits sum.splits
      dest!: read_word_offsets)

lemma read_record_advances: "read_record J bytes offset = Inr (Record entry offset') \<Longrightarrow> offset < offset'"
  by (auto simp: read_record_def read_payload_def Let_def LOG_RECORD_HEADER_BYTES_def
      split: if_splits sum.splits dest!: read_header_offset)

text \<open>The loop ends because every record advances the offset.\<close>

function read_records ::
  "kron_entry byte_codec \<Rightarrow> u8 list \<Rightarrow> nat \<Rightarrow> kron_entry list \<Rightarrow> kron_entry list store_res" where
  "read_records J bytes offset entries =
     (if offset < length bytes
      then case read_record J bytes offset of
             Inl err \<Rightarrow> Inl err
           | Inr (Truncated message) \<Rightarrow>
               if entries = [] then Inl (corrupt_store message) else Inr entries
           | Inr (Record entry offset') \<Rightarrow>
               if offset = offset' then Inl (corrupt_store ''empty raft log record'')
               else read_records J bytes offset' (entries @ [entry])
      else Inr entries)"
  by pat_completeness auto
termination
  by (relation "measure (\<lambda>(J, bytes, offset, entries). length bytes - offset)")
     (auto dest!: read_record_advances)

declare read_records.simps [simp del]

definition read_segment_file :: "kron_entry byte_codec \<Rightarrow> u8 list \<Rightarrow> kron_entry list store_res" where
  "read_segment_file J bytes = read_records J bytes 0 []"

section \<open>Little-endian numbers\<close>

lemma length_le_bytes [simp]: "length (le_bytes k n) = k"
  by (induction k arbitrary: n) auto

lemma le_val_bytes: "n < 256 ^ k \<Longrightarrow> le_val (le_bytes k n) = n"
proof (induction k arbitrary: n)
  case (Suc k)
  then have "n div 256 < 256 ^ k" by (simp add: less_mult_imp_div_less mult.commute)
  then have "le_val (le_bytes k (n div 256)) = n div 256" by (rule Suc.IH)
  then show ?case by (simp add: unat_of_nat)
qed simp

lemma of_nat_le_val_u32: "of_nat (le_val (le_bytes 4 (unat (w :: u32)))) = w"
proof -
  have "unat w < 256 ^ 4" using unsigned_less [of w] by simp
  then show ?thesis by (simp add: le_val_bytes)
qed

lemma of_nat_le_val_u64: "of_nat (le_val (le_bytes 8 (unat (w :: u64)))) = w"
proof -
  have "unat w < 256 ^ 8" using unsigned_less [of w] by simp
  then show ?thesis by (simp add: le_val_bytes)
qed

lemma read_u32_at:
  "drop offset bytes = le_bytes 4 (unat w) @ rest \<Longrightarrow> read_u32 bytes offset = Inr (w, offset + 4)"
proof -
  assume d: "drop offset bytes = le_bytes 4 (unat w) @ rest"
  then have "length bytes - offset = 4 + length rest" using length_drop by (metis length_append length_le_bytes)
  with d show ?thesis by (simp add: read_u32_def of_nat_le_val_u32)
qed

lemma read_u64_at:
  "drop offset bytes = le_bytes 8 (unat w) @ rest \<Longrightarrow> read_u64 bytes offset = Inr (w, offset + 8)"
proof -
  assume d: "drop offset bytes = le_bytes 8 (unat w) @ rest"
  then have "length bytes - offset = 8 + length rest" using length_drop by (metis length_append length_le_bytes)
  with d show ?thesis by (simp add: read_u64_def of_nat_le_val_u64)
qed

section \<open>Reading one record\<close>

lemma drop_after: "drop offset bytes = a @ rest \<Longrightarrow> drop (offset + length a) bytes = rest"
  by (metis append_eq_conv_conj drop_drop add.commute)

lemma length_magic [simp]: "length LOG_RECORD_MAGIC = 8"
  by (simp add: LOG_RECORD_MAGIC_def)

lemma length_record_header: "length (record_header lid p) = LOG_RECORD_HEADER_BYTES"
  by (simp add: record_header_def LOG_RECORD_HEADER_BYTES_def LOG_RECORD_MAGIC_def)

lemma read_header_at:
  assumes "drop offset bytes = record_header lid p @ rest" "length p < 2 ^ 64"
  shows "read_header bytes offset =
    Inr (lid_term lid, lid_index lid, checksum32 p, length p, offset + LOG_RECORD_HEADER_BYTES)"
proof -
  let ?t = "le_bytes 8 (unat (lid_term lid))" and ?i = "le_bytes 8 (unat (lid_index lid))"
    and ?c = "le_bytes 4 (unat (checksum32 p))" and ?n = "le_bytes 8 (unat (of_nat (length p) :: u64))"
  have d0: "drop offset bytes = LOG_RECORD_MAGIC @ le_bytes 4 (unat RAFT_FORMAT_VERSION) @ ?t @ ?i @ ?c @ ?n @ rest"
    using assms(1) by (simp add: record_header_def)
  have magic: "take 8 (drop offset bytes) = LOG_RECORD_MAGIC"
    by (simp add: d0 LOG_RECORD_MAGIC_def)
  have d1: "drop (offset + 8) bytes = le_bytes 4 (unat RAFT_FORMAT_VERSION) @ ?t @ ?i @ ?c @ ?n @ rest"
    using drop_after [OF d0] by simp
  have d2: "drop (12 + offset) bytes = ?t @ ?i @ ?c @ ?n @ rest"
    using drop_after [OF d1] by simp
  have d3: "drop (20 + offset) bytes = ?i @ ?c @ ?n @ rest"
    using drop_after [OF d2] by simp
  have d4: "drop (28 + offset) bytes = ?c @ ?n @ rest"
    using drop_after [OF d3] by simp
  have d5: "drop (32 + offset) bytes = ?n @ rest"
    using drop_after [OF d4] by simp
  have "unat (of_nat (length p) :: u64) = length p"
    using assms(2) by (simp add: unat_of_nat)
  then show ?thesis
    by (simp add: read_header_def magic read_u32_at [OF d1] read_u64_at [OF d2] read_u64_at [OF d3]
        read_u32_at [OF d4] read_u64_at [OF d5] LOG_RECORD_HEADER_BYTES_def)
qed

text \<open>What the code relies on for an entry: its text reads back and its length fits.\<close>

definition wf_record :: "kron_entry byte_codec \<Rightarrow> kron_entry \<Rightarrow> bool" where
  "wf_record J e \<longleftrightarrow>
     (case to_vec J e of Inl _ \<Rightarrow> False | Inr p \<Rightarrow> from_slice J p = Inr e \<and> length p < 2 ^ 64)"

definition payload_of :: "kron_entry byte_codec \<Rightarrow> kron_entry \<Rightarrow> u8 list" where
  "payload_of J e = (case to_vec J e of Inl _ \<Rightarrow> [] | Inr p \<Rightarrow> p)"

definition record_bytes :: "kron_entry byte_codec \<Rightarrow> kron_entry \<Rightarrow> u8 list" where
  "record_bytes J e = record_header (ent_log_id e) (payload_of J e) @ payload_of J e"

lemma encode_wf: "wf_record J e \<Longrightarrow> encode_log_record J e = Inr (record_bytes J e)"
  by (auto simp: wf_record_def encode_log_record_def record_bytes_def payload_of_def split: sum.splits)

lemma wf_recordD:
  "wf_record J e \<Longrightarrow> from_slice J (payload_of J e) = Inr e \<and> length (payload_of J e) < 2 ^ 64"
  by (auto simp: wf_record_def payload_of_def split: sum.splits)

lemma length_record_bytes: "length (record_bytes J e) = LOG_RECORD_HEADER_BYTES + length (payload_of J e)"
  by (simp add: record_bytes_def length_record_header)

lemma record_bytes_nonempty [simp]: "record_bytes J e \<noteq> []"
  using length_record_bytes [of J e] by (auto simp: LOG_RECORD_HEADER_BYTES_def)

text \<open>A header in front of some payload bytes: what comes of it depends on the bytes there.\<close>

lemma read_record_header:
  assumes "drop offset bytes = record_header lid p @ rest" "length p < 2 ^ 64"
  shows "read_record J bytes offset =
    read_payload J bytes (lid_term lid) (lid_index lid) (checksum32 p) (length p)
      (offset + LOG_RECORD_HEADER_BYTES)"
proof -
  have "length bytes - offset = LOG_RECORD_HEADER_BYTES + length rest"
    using assms(1) length_drop [of offset bytes] by (simp add: length_record_header)
  then show ?thesis
    by (simp add: read_record_def read_header_at [OF assms])
qed

lemma read_record_at:
  assumes "drop offset bytes = record_bytes J e @ rest" "wf_record J e"
  shows "read_record J bytes offset = Inr (Record e (offset + length (record_bytes J e)))"
proof -
  let ?p = "payload_of J e"
  have d: "drop offset bytes = record_header (ent_log_id e) ?p @ (?p @ rest)"
    using assms(1) by (simp add: record_bytes_def)
  have d': "drop (offset + LOG_RECORD_HEADER_BYTES) bytes = ?p @ rest"
    using drop_after [OF d] by (simp add: length_record_header)
  have len: "length bytes - (offset + LOG_RECORD_HEADER_BYTES) = length ?p + length rest"
    using d' length_drop by (metis length_append)
  show ?thesis
    using wf_recordD [OF assms(2)] d' len read_record_header [OF d, of J]
    by (simp add: read_payload_def length_record_bytes)
qed

lemma read_record_cut:
  assumes "drop offset bytes = torn" "strict_prefix torn (record_bytes J e)" "wf_record J e"
  shows "\<exists>message. read_record J bytes offset = Inr (Truncated message)"
proof (cases "length torn < LOG_RECORD_HEADER_BYTES")
  case True
  then show ?thesis using assms(1) length_drop [of offset bytes] by (auto simp: read_record_def)
next
  case False
  let ?h = "record_header (ent_log_id e) (payload_of J e)"
  let ?n = "length torn - LOG_RECORD_HEADER_BYTES"
  define part where "part = take ?n (payload_of J e)"
  have "torn = take (length torn) (record_bytes J e)" and "length torn < length (record_bytes J e)"
    using assms(2) by (auto simp: strict_prefix_def prefix_def)
  with False have part: "torn = ?h @ part" "length part < length (payload_of J e)"
    by (auto simp: part_def record_bytes_def length_record_header)
  have d: "drop offset bytes = ?h @ part" using assms(1) part by simp
  have "length bytes - (offset + LOG_RECORD_HEADER_BYTES) = length part"
    using drop_after [OF d] length_drop by (metis length_record_header)
  then show ?thesis
    using part(2) read_record_header [OF d, of J] wf_recordD [OF assms(3)]
    by (simp add: read_payload_def)
qed

section \<open>Reading a segment\<close>

abbreviation segment_bytes :: "kron_entry byte_codec \<Rightarrow> kron_entry list \<Rightarrow> u8 list" where
  "segment_bytes J es \<equiv> concat (map (record_bytes J) es)"

lemma read_records_run:
  "drop offset bytes = segment_bytes J es @ rest \<Longrightarrow> list_all (wf_record J) es \<Longrightarrow>
     read_records J bytes offset acc =
       read_records J bytes (offset + length (segment_bytes J es)) (acc @ es)"
proof (induction es arbitrary: offset acc)
  case (Cons e es)
  let ?o = "offset + length (record_bytes J e)"
  have d: "drop offset bytes = record_bytes J e @ (segment_bytes J es @ rest)"
    using Cons.prems(1) by simp
  have "offset < length bytes" using d by (metis append_is_Nil_conv drop_all not_le record_bytes_nonempty)
  moreover have "read_record J bytes offset = Inr (Record e ?o)"
    using read_record_at [OF d] Cons.prems(2) by simp
  moreover have "read_records J bytes ?o (acc @ [e]) =
      read_records J bytes (?o + length (segment_bytes J es)) ((acc @ [e]) @ es)"
    using Cons.prems(2) drop_after [OF d] by (intro Cons.IH) simp_all
  ultimately show ?case
    by (subst read_records.simps) (simp add: add.assoc)
qed simp

lemma read_records_end: "length bytes \<le> offset \<Longrightarrow> read_records J bytes offset acc = Inr acc"
  by (subst read_records.simps) simp

lemma read_segment_run:
  "list_all (wf_record J) es \<Longrightarrow>
     read_segment_file J (segment_bytes J es @ rest) =
       read_records J (segment_bytes J es @ rest) (length (segment_bytes J es)) es"
  using read_records_run [of 0 "segment_bytes J es @ rest" J es rest "[]"]
  by (simp add: read_segment_file_def)

text \<open>The log survives a torn write.  A segment whose records were written completely
  reads back as its entries; if the file ends inside a further record, exactly the complete
  records are read, and only a segment without a single complete record is an error.\<close>

theorem read_segment_torn:
  assumes "list_all (wf_record J) es" "wf_record J e" "strict_prefix torn (record_bytes J e)"
  shows "read_segment_file J (segment_bytes J es) = Inr es
    \<and> (es \<noteq> [] \<longrightarrow> read_segment_file J (segment_bytes J es @ torn) = Inr es)
    \<and> (es = [] \<and> torn \<noteq> [] \<longrightarrow>
         (\<exists>message. read_segment_file J (segment_bytes J es @ torn) = Inl (corrupt_store message)))"
proof -
  let ?b = "segment_bytes J es @ torn" and ?o = "length (segment_bytes J es)"
  have full: "read_segment_file J (segment_bytes J es) = Inr es"
    using read_segment_run [OF assms(1), of "[]"] by (simp add: read_records_end)
  obtain message where "read_record J ?b ?o = Inr (Truncated message)"
    using read_record_cut [of ?o ?b torn J e] assms(2,3) by auto
  then have "read_records J ?b ?o es =
      (if torn = [] then Inr es else if es = [] then Inl (corrupt_store message) else Inr es)"
    by (subst read_records.simps) simp
  with full read_segment_run [OF assms(1), of torn] show ?thesis by auto
qed

section \<open>The checksum\<close>

text \<open>A step is injective in the state, because the multiplier has an inverse, and in the
  byte.\<close>

lemma prime_inverse: "(x * 0x01000193) * 0x359c449b = (x :: u32)"
proof -
  have one: "(0x01000193 :: u32) * 0x359c449b = 1" by simp
  show ?thesis by (simp only: mult.assoc one mult_1_right)
qed

lemma mult_prime_inj: "x * 0x01000193 = y * 0x01000193 \<Longrightarrow> x = (y :: u32)"
  by (metis prime_inverse)

lemma xor_cancel: "(a :: 'a::len word) XOR b = a XOR c \<longleftrightarrow> b = c"
  by (metis xor.assoc xor.left_neutral xor_self_eq)

lemma checksum_step_inj: "checksum_step h b = checksum_step h' b \<Longrightarrow> h = h'"
  unfolding checksum_step_def by (drule mult_prime_inj) (metis xor.commute xor_cancel)

lemma unat_ucast_u32: "unat (ucast (b :: u8) :: u32) = unat b"
proof -
  have "unat b < 2 ^ LENGTH(8)" by (rule unsigned_less)
  then have "unat b < 2 ^ 32" by simp
  then show ?thesis by (simp add: unsigned_ucast_eq take_bit_nat_eq_self)
qed

lemma checksum_byte_inj: "checksum_step h b = checksum_step h b' \<Longrightarrow> b = b'"
proof -
  assume "checksum_step h b = checksum_step h b'"
  then have "(ucast b :: u32) = ucast b'"
    unfolding checksum_step_def by (auto dest!: mult_prime_inj simp: xor_cancel)
  then have "unat (ucast b :: u32) = unat (ucast b' :: u32)" by simp
  then show "b = b'" by (simp add: unat_ucast_u32 word_unat_eq_iff)
qed

lemma checksum_foldl_inj: "foldl checksum_step h bs = foldl checksum_step h' bs \<Longrightarrow> h = h'"
  by (induction bs arbitrary: h h') (auto dest: checksum_step_inj)

lemma checksum_single_byte: "checksum32 (xs @ b # ys) = checksum32 (xs @ b' # ys) \<longleftrightarrow> b = b'"
  by (auto simp: checksum32_def dest!: checksum_foldl_inj checksum_byte_inj)

text \<open>C18: a single altered byte is always noticed.  If one byte of the payload of any record
  of a segment differs from what was written, whatever comes before and after it, the segment
  is refused with a checksum error.\<close>

theorem altered_byte_detected:
  assumes "list_all (wf_record J) es" "wf_record J e" "payload_of J e = xs @ b # ys" "b \<noteq> b'"
  shows "read_segment_file J (segment_bytes J es
      @ record_header (ent_log_id e) (payload_of J e) @ (xs @ b' # ys) @ rest)
    = Inl (corrupt_store ''raft log record checksum mismatch'')"
proof -
  let ?h = "record_header (ent_log_id e) (payload_of J e)"
  let ?q = "xs @ b' # ys" and ?o = "length (segment_bytes J es)"
  let ?bytes = "segment_bytes J es @ ?h @ ?q @ rest"
  have d: "drop ?o ?bytes = ?h @ ?q @ rest" by simp
  have len: "length ?q = length (payload_of J e)" using assms(3) by simp
  have "drop (?o + LOG_RECORD_HEADER_BYTES) ?bytes = ?q @ rest"
    using drop_after [OF d] by (simp add: length_record_header)
  moreover have "checksum32 ?q \<noteq> checksum32 (payload_of J e)"
    using assms(3,4) by (simp add: checksum_single_byte)
  ultimately have "read_record J ?bytes ?o = Inl (corrupt_store ''raft log record checksum mismatch'')"
    using read_record_header [OF d, of J] wf_recordD [OF assms(2)]
    by (simp add: read_payload_def length_record_header Let_def flip: len)
  then have "read_records J ?bytes ?o es = Inl (corrupt_store ''raft log record checksum mismatch'')"
    by (subst read_records.simps) simp
  then show ?thesis using read_segment_run [OF assms(1), of "?h @ ?q @ rest"] by simp
qed

section \<open>Witnesses\<close>

text \<open>Blank entries, and a library that writes the index of an entry as its text.\<close>

definition blank_entry :: "u64 \<Rightarrow> kron_entry" where
  "blank_entry i = \<lparr>ent_log_id = \<lparr>lid_term = 1, lid_node = 1, lid_index = i\<rparr>, ent_payload = Blank\<rparr>"

definition index_codec :: "kron_entry byte_codec" where
  "index_codec = \<lparr>to_vec = (\<lambda>e. Inr (le_bytes 8 (unat (lid_index (ent_log_id e))))),
     from_slice = (\<lambda>bs. Inr (blank_entry (of_nat (le_val bs))))\<rparr>"

lemma wf_blank: "wf_record index_codec (blank_entry i)"
  by (simp add: wf_record_def index_codec_def blank_entry_def of_nat_le_val_u64)

lemma payload_blank: "payload_of index_codec (blank_entry i) = le_bytes 8 (unat i)"
  by (simp add: payload_of_def index_codec_def blank_entry_def)

theorem read_segment_torn_witness:
  "read_segment_file index_codec
     (record_bytes index_codec (blank_entry 7) @ record_bytes index_codec (blank_entry 8) @ [75, 82])
   = Inr [blank_entry 7, blank_entry 8]"
proof -
  have "strict_prefix [75, 82] (record_bytes index_codec (blank_entry 9))"
    by (simp add: strict_prefix_def record_bytes_def record_header_def LOG_RECORD_MAGIC_def)
  then show ?thesis
    using read_segment_torn [of index_codec "[blank_entry 7, blank_entry 8]" "blank_entry 9" "[75, 82]"]
    by (simp add: wf_blank)
qed

theorem altered_byte_detected_witness:
  "read_segment_file index_codec
     (record_bytes index_codec (blank_entry 7)
      @ record_header (ent_log_id (blank_entry 8)) (le_bytes 8 8) @ [9, 0, 0, 0, 0, 0, 0, 0] @ [1])
   = Inl (corrupt_store ''raft log record checksum mismatch'')"
proof -
  have "le_bytes 8 8 = [] @ 8 # [0, 0, 0, 0, 0, 0, 0]" by code_simp
  moreover have "unat (8 :: u64) = 8" by simp
  ultimately have "payload_of index_codec (blank_entry 8) = [] @ 8 # [0, 0, 0, 0, 0, 0, 0]"
    by (simp add: payload_blank)
  then show ?thesis
    using altered_byte_detected [of index_codec "[blank_entry 7]" "blank_entry 8" "[]" 8
        "[0, 0, 0, 0, 0, 0, 0]" 9 "[1]"] payload_blank [of 8]
    by (simp add: wf_blank)
qed

end
