(* ===== verification/Kron_Raft_Store.thy ===== *)
theory Kron_Raft_Store
  imports Kron_Raft_State Kron_Raft_Log
begin

text \<open>
  \<open>KronRaftFileStore\<close> of openraft_adapter/file_store.rs: the store in memory, its files, the
  steps by which \<open>persist\<close> rewritten them, and the operations that the raft library calls.
  A JSON document that the store writes as a whole (vote, committed, state, manifest) is
  represented by its value; a file that cannot be parsed has an error message.  Paths in error
  messages are relative to the directory of the segments.  Shown: after
  any sequence of operations, opening the directory again gives the store that was in memory;
  the operations on the log have their map semantics; a snapshot carries everything a
  follower needs; an interrupted rewrite of the segments leaves a directory that does not
  open.
\<close>

section \<open>Data\<close>

record raft_store =
  prs_vote :: "vote option"
  prs_committed :: "log_id option"
  prs_last_purged_log_id :: "log_id option"
  prs_logs :: "(u64, kron_entry) btree_map"
  prs_state_machine :: state_machine

record segment_meta =
  seg_first_index :: u64
  seg_last_index :: u64
  seg_file :: string

record manifest =
  mf_format_version :: u32
  mf_active_snapshot :: "string option"
  mf_last_purged_log_id :: "log_id option"
  mf_segments :: "segment_meta list"

datatype 'a json_file = JsonValue 'a | JsonBad string

text \<open>The data directory: whether the store of the alpha version is there, the JSON documents,
  and the directory \<open>raft/log\<close>.\<close>

record raft_disk =
  rd_legacy :: bool
  rd_manifest :: "manifest json_file option"
  rd_vote :: "vote option json_file option"
  rd_committed :: "log_id option json_file option"
  rd_state :: "state_machine json_file option"
  rd_log :: "(string, u8 list) btree_map"

section \<open>Opening\<close>

definition read_json :: "'a json_file \<Rightarrow> 'a store_res" where
  "read_json f =
     (case f of JsonValue v \<Rightarrow> Inr v | JsonBad err \<Rightarrow> Inl (StoreError SubjectStore VerbRead err))"

definition read_json_optional :: "'a option json_file option \<Rightarrow> 'a option store_res" where
  "read_json_optional f = (case f of None \<Rightarrow> Inr None | Some g \<Rightarrow> read_json g)"

definition read_manifest :: "raft_disk \<Rightarrow> manifest store_res \<times> raft_disk" where
  "read_manifest d =
     (case rd_manifest d of
        None \<Rightarrow>
          let m = \<lparr>mf_format_version = RAFT_FORMAT_VERSION, mf_active_snapshot = None,
                   mf_last_purged_log_id = None, mf_segments = []\<rparr>
          in (Inr m, d\<lparr>rd_manifest := Some (JsonValue m)\<rparr>)
      | Some f \<Rightarrow>
          (case read_json f of
             Inl err \<Rightarrow> (Inl err, d)
           | Inr m \<Rightarrow>
               if mf_format_version m \<noteq> RAFT_FORMAT_VERSION
               then (Inl (StoreError SubjectStore VerbRead
                       (''unsupported raft storage format version ''
                        @ show_nat (unat (mf_format_version m)))), d)
               else (Inr m, d)))"

definition read_state :: "raft_disk \<Rightarrow> state_machine store_res" where
  "read_state d =
     (case rd_state d of None \<Rightarrow> Inr default_state_machine | Some f \<Rightarrow> read_json f)"

definition insert_entries ::
  "kron_entry list \<Rightarrow> (u64, kron_entry) btree_map \<Rightarrow> (u64, kron_entry) btree_map" where
  "insert_entries es logs = fold (\<lambda>e. bt_insert (lid_index (ent_log_id e)) e) es logs"

fun read_log_segments ::
  "kron_entry byte_codec \<Rightarrow> (string, u8 list) btree_map \<Rightarrow> segment_meta list
   \<Rightarrow> (u64, kron_entry) btree_map \<Rightarrow> (u64, kron_entry) btree_map store_res" where
  "read_log_segments J files [] logs = Inr logs"
| "read_log_segments J files (segment # segments) logs =
     (case bt_get files (seg_file segment) of
        None \<Rightarrow> Inl (StoreError SubjectStore VerbRead (''missing raft log segment '' @ seg_file segment))
      | Some bytes \<Rightarrow>
          (case read_segment_file J bytes of
             Inl err \<Rightarrow> Inl err
           | Inr es \<Rightarrow> read_log_segments J files segments (insert_entries es logs)))"

definition open_store :: "kron_entry byte_codec \<Rightarrow> raft_disk \<Rightarrow> raft_store store_res \<times> raft_disk" where
  "open_store J d =
     (if rd_legacy d
      then (Inl (StoreError SubjectStore VerbRead ''alpha JSON Raft storage requires manual migration''), d)
      else case read_manifest d of
        (Inl err, d1) \<Rightarrow> (Inl err, d1)
      | (Inr m, d1) \<Rightarrow>
          (case read_log_segments J (rd_log d1) (mf_segments m) [] of
             Inl err \<Rightarrow> (Inl err, d1)
           | Inr logs \<Rightarrow>
          (case read_state d1 of
             Inl err \<Rightarrow> (Inl err, d1)
           | Inr sm \<Rightarrow>
          (case read_json_optional (rd_vote d1) of
             Inl err \<Rightarrow> (Inl err, d1)
           | Inr v \<Rightarrow>
          (case read_json_optional (rd_committed d1) of
             Inl err \<Rightarrow> (Inl err, d1)
           | Inr c \<Rightarrow>
               (Inr \<lparr>prs_vote = v, prs_committed = c,
                     prs_last_purged_log_id = mf_last_purged_log_id m,
                     prs_logs = logs, prs_state_machine = sm\<rparr>, d1))))))"

section \<open>Persisting\<close>

definition hex16 :: "u64 \<Rightarrow> string" where
  "hex16 w = map (\<lambda>i. hex_digit ((unat w div 16 ^ i) mod 16)) (rev [0..<16])"

definition segment_file_name :: "u64 \<Rightarrow> u64 \<Rightarrow> string" where
  "segment_file_name first last_index = hex16 first @ ''-'' @ hex16 last_index @ ''.seg''"

definition has_seg_extension :: "string \<Rightarrow> bool" where
  "has_seg_extension name \<longleftrightarrow> 4 < length name \<and> drop (length name - 4) name = ''.seg''"

text \<open>The single file-system operations of \<open>persist\<close>; a crash can come between any two.\<close>

datatype disk_step =
    WriteVote "vote option"
  | WriteCommitted "log_id option"
  | WriteState state_machine
  | RemoveSegment string
  | OpenSegment string
  | AppendSegment string "u8 list"
  | RenameSegment string string
  | WriteManifest manifest

fun exec_step :: "disk_step \<Rightarrow> raft_disk \<Rightarrow> raft_disk" where
  "exec_step (WriteVote v) d = d\<lparr>rd_vote := Some (JsonValue v)\<rparr>"
| "exec_step (WriteCommitted c) d = d\<lparr>rd_committed := Some (JsonValue c)\<rparr>"
| "exec_step (WriteState sm) d = d\<lparr>rd_state := Some (JsonValue sm)\<rparr>"
| "exec_step (RemoveSegment name) d = d\<lparr>rd_log := bt_remove name (rd_log d)\<rparr>"
| "exec_step (OpenSegment name) d = d\<lparr>rd_log := bt_insert name [] (rd_log d)\<rparr>"
| "exec_step (AppendSegment name bytes) d =
     d\<lparr>rd_log := bt_modify name (\<lambda>content. content @ bytes) (rd_log d)\<rparr>"
| "exec_step (RenameSegment old_name new_name) d =
     (case bt_get (rd_log d) old_name of
        None \<Rightarrow> d
      | Some content \<Rightarrow> d\<lparr>rd_log := bt_insert new_name content (bt_remove old_name (rd_log d))\<rparr>)"
| "exec_step (WriteManifest m) d = d\<lparr>rd_manifest := Some (JsonValue m)\<rparr>"

definition exec_steps :: "disk_step list \<Rightarrow> raft_disk \<Rightarrow> raft_disk" where
  "exec_steps steps d = fold exec_step steps d"

text \<open>Closing the current segment: the file named after its first index gets its final name.\<close>

definition close_segment ::
  "(u64 \<times> u64 \<times> u64) option \<Rightarrow> disk_step list \<times> segment_meta list" where
  "close_segment current =
     (case current of
        None \<Rightarrow> ([], [])
      | Some (first, last_index, current_size) \<Rightarrow>
          let old_name = segment_file_name first first;
              final_name = segment_file_name first last_index
          in (if old_name \<noteq> final_name then [RenameSegment old_name final_name] else [],
              [\<lparr>seg_first_index = first, seg_last_index = last_index, seg_file = final_name\<rparr>]))"

text \<open>The loop of \<open>rewrite_log_segments\<close>.  \<open>current\<close> holds the first and last index and the size
  of the open segment.  A failing serialisation ends the loop.\<close>

fun segment_steps ::
  "kron_entry byte_codec \<Rightarrow> (u64 \<times> u64 \<times> u64) option \<Rightarrow> kron_entry list
   \<Rightarrow> disk_step list \<times> segment_meta list store_res" where
  "segment_steps J current [] =
     (let (steps, metas) = close_segment current in (steps, Inr metas))"
| "segment_steps J current (entry # entries) =
     (let index = lid_index (ent_log_id entry);
          (roll, metas, first, current_size) =
            (case current of
               Some (first, last_index, current_size) \<Rightarrow>
                 if LOG_SEGMENT_MAX_BYTES \<le> current_size
                 then (fst (close_segment current) @ [OpenSegment (segment_file_name index index)],
                       snd (close_segment current), index, 0)
                 else ([], [], first, current_size)
             | None \<Rightarrow> ([OpenSegment (segment_file_name index index)], [], index, 0))
      in case encode_log_record J entry of
           Inl err \<Rightarrow> (roll, Inl err)
         | Inr encoded \<Rightarrow>
             let (steps, result) = segment_steps J (Some (first, index, current_size + of_nat (length encoded))) entries
             in (roll @ [AppendSegment (segment_file_name first first) encoded] @ steps,
                 case result of Inl err \<Rightarrow> Inl err | Inr rest \<Rightarrow> Inr (metas @ rest)))"

definition rewrite_log_segments ::
  "kron_entry byte_codec \<Rightarrow> (u64, kron_entry) btree_map \<Rightarrow> log_id option \<Rightarrow> raft_disk
   \<Rightarrow> disk_step list \<times> unit store_res" where
  "rewrite_log_segments J logs last_purged d =
     (let removals = map RemoveSegment (filter has_seg_extension (map fst (rd_log d)));
          (steps, result) = segment_steps J None (bt_values logs)
      in case result of
           Inl err \<Rightarrow> (removals @ steps, Inl err)
         | Inr metas \<Rightarrow>
             (removals @ steps
              @ [WriteManifest \<lparr>mf_format_version = RAFT_FORMAT_VERSION, mf_active_snapshot = None,
                   mf_last_purged_log_id = last_purged, mf_segments = metas\<rparr>], Inr ()))"

definition persist_steps ::
  "kron_entry byte_codec \<Rightarrow> raft_store \<Rightarrow> raft_disk \<Rightarrow> disk_step list \<times> unit store_res" where
  "persist_steps J inner d =
     (let (steps, result) = rewrite_log_segments J (prs_logs inner) (prs_last_purged_log_id inner) d
      in ([WriteVote (prs_vote inner), WriteCommitted (prs_committed inner),
           WriteState (prs_state_machine inner)] @ steps, result))"

text \<open>The operations on files succeed, but for entries that cannot be encoded; a JSON document stands for
  the value it holds.\<close>

definition persist ::
  "kron_entry byte_codec \<Rightarrow> raft_store \<Rightarrow> raft_disk \<Rightarrow> unit store_res \<times> raft_disk" where
  "persist J inner d =
     (let (steps, result) = persist_steps J inner d in (result, exec_steps steps d))"

text \<open>The directory when the process dies after \<open>n\<close> of the steps.\<close>

definition persist_until ::
  "kron_entry byte_codec \<Rightarrow> nat \<Rightarrow> raft_store \<Rightarrow> raft_disk \<Rightarrow> raft_disk" where
  "persist_until J n inner d = exec_steps (take n (fst (persist_steps J inner d))) d"

section \<open>Operations of the raft library\<close>

type_synonym store_state = "raft_store \<times> raft_disk"

definition persisting ::
  "kron_entry byte_codec \<Rightarrow> raft_store \<Rightarrow> raft_disk \<Rightarrow> unit store_res \<times> store_state" where
  "persisting J inner d = (let (result, d1) = persist J inner d in (result, inner, d1))"

definition save_vote ::
  "kron_entry byte_codec \<Rightarrow> vote \<Rightarrow> store_state \<Rightarrow> unit store_res \<times> store_state" where
  "save_vote J v st = persisting J ((fst st)\<lparr>prs_vote := Some v\<rparr>) (snd st)"

definition save_committed ::
  "kron_entry byte_codec \<Rightarrow> log_id option \<Rightarrow> store_state \<Rightarrow> unit store_res \<times> store_state" where
  "save_committed J c st = persisting J ((fst st)\<lparr>prs_committed := c\<rparr>) (snd st)"

text \<open>\<open>append\<close> returns \<open>Ok\<close> and hands the result of the write to the callback; the result here
  is that of the callback.\<close>

definition append_entries ::
  "kron_entry byte_codec \<Rightarrow> kron_entry list \<Rightarrow> store_state \<Rightarrow> unit store_res \<times> store_state" where
  "append_entries J entries st =
     persisting J ((fst st)\<lparr>prs_logs := insert_entries entries (prs_logs (fst st))\<rparr>) (snd st)"

definition truncate_log ::
  "kron_entry byte_codec \<Rightarrow> log_id \<Rightarrow> store_state \<Rightarrow> unit store_res \<times> store_state" where
  "truncate_log J lid st =
     persisting J ((fst st)\<lparr>prs_logs := bt_retain (\<lambda>index. index < lid_index lid) (prs_logs (fst st))\<rparr>)
       (snd st)"

definition purge_log ::
  "kron_entry byte_codec \<Rightarrow> log_id \<Rightarrow> store_state \<Rightarrow> unit store_res \<times> store_state" where
  "purge_log J lid st =
     persisting J ((fst st)\<lparr>prs_logs := bt_retain (\<lambda>index. lid_index lid < index) (prs_logs (fst st)),
                           prs_last_purged_log_id := Some lid\<rparr>) (snd st)"

record log_state =
  ls_last_purged_log_id :: "log_id option"
  ls_last_log_id :: "log_id option"

definition get_log_state :: "raft_store \<Rightarrow> log_state" where
  "get_log_state inner = \<lparr>
     ls_last_purged_log_id = prs_last_purged_log_id inner,
     ls_last_log_id =
       (case bt_values (prs_logs inner) of
          [] \<Rightarrow> prs_last_purged_log_id inner
        | entries \<Rightarrow> Some (ent_log_id (last entries)))\<rparr>"

datatype range_bound = Included u64 | Excluded u64 | Unbounded

definition contains :: "range_bound \<Rightarrow> range_bound \<Rightarrow> u64 \<Rightarrow> bool" where
  "contains start_bound end_bound v \<longleftrightarrow>
     (case start_bound of Included s \<Rightarrow> s \<le> v | Excluded s \<Rightarrow> s < v | Unbounded \<Rightarrow> True)
     \<and> (case end_bound of Included e \<Rightarrow> v \<le> e | Excluded e \<Rightarrow> v < e | Unbounded \<Rightarrow> True)"

definition try_get_log_entries ::
  "range_bound \<Rightarrow> range_bound \<Rightarrow> raft_store \<Rightarrow> kron_entry list" where
  "try_get_log_entries start_bound end_bound inner =
     map snd (filter (\<lambda>(index, _). contains start_bound end_bound index) (prs_logs inner))"

definition applied_state :: "raft_store \<Rightarrow> log_id option \<times> stored_membership" where
  "applied_state inner =
     (psm_last_applied_log_id (prs_state_machine inner), psm_last_membership (prs_state_machine inner))"

definition apply_batch ::
  "kron_entry byte_codec \<Rightarrow> libs \<Rightarrow> kron_entry list \<Rightarrow> store_state
   \<Rightarrow> (fault + kron_raft_response list store_res) \<times> store_state" where
  "apply_batch J L entries st =
     (case apply_entries L entries (prs_state_machine (fst st)) of
        Inl f \<Rightarrow> (Inl f, st)
      | Inr sm \<Rightarrow>
          (case persisting J ((fst st)\<lparr>prs_state_machine := sm\<rparr>) (snd st) of
             (Inl err, st1) \<Rightarrow> (Inr (Inl err), st1)
           | (Inr _, st1) \<Rightarrow> (Inr (Inr (map (\<lambda>_. \<lparr>krs_applied = True\<rparr>) entries)), st1)))"

record snapshot_meta =
  sn_last_log_id :: "log_id option"
  sn_last_membership :: stored_membership
  sn_snapshot_id :: string

definition install_snapshot ::
  "kron_entry byte_codec \<Rightarrow> state_machine byte_codec \<Rightarrow> snapshot_meta \<Rightarrow> u8 list \<Rightarrow> store_state
   \<Rightarrow> unit store_res \<times> store_state" where
  "install_snapshot J S meta bytes st =
     (case from_slice S bytes of
        Inl err \<Rightarrow> (Inl (StoreError SubjectSnapshot VerbRead err), st)
      | Inr sm \<Rightarrow>
          persisting J ((fst st)\<lparr>prs_state_machine :=
              sm\<lparr>psm_last_applied_log_id := sn_last_log_id meta,
                 psm_last_membership := sn_last_membership meta\<rparr>\<rparr>) (snd st))"

definition get_current_snapshot ::
  "state_machine byte_codec \<Rightarrow> raft_store \<Rightarrow> (snapshot_meta \<times> u8 list) option store_res" where
  "get_current_snapshot S inner =
     (let sm = prs_state_machine inner;
          meta = \<lparr>sn_last_log_id = psm_last_applied_log_id sm,
                  sn_last_membership = psm_last_membership sm,
                  sn_snapshot_id = ''kron-'' @ show_nat (case psm_last_applied_log_id sm of
                     None \<Rightarrow> 0 | Some lid \<Rightarrow> unat (lid_index lid))\<rparr>
      in case to_vec S sm of
           Inl err \<Rightarrow> Inl (StoreError SubjectSnapshot VerbRead err)
         | Inr bytes \<Rightarrow> Inr (Some (meta, bytes)))"

definition build_snapshot ::
  "state_machine byte_codec \<Rightarrow> raft_store \<Rightarrow> (snapshot_meta \<times> u8 list) store_res" where
  "build_snapshot S inner =
     (case get_current_snapshot S inner of
        Inl err \<Rightarrow> Inl err
      | Inr None \<Rightarrow> Inl (StoreError SubjectSnapshot VerbRead ''snapshot missing'')
      | Inr (Some snapshot) \<Rightarrow> Inr snapshot)"

section \<open>Names of segments\<close>

lemma hex16_inj: "hex16 v = hex16 w \<Longrightarrow> v = w"
proof -
  assume eq: "hex16 v = hex16 w"
  have digits: "(unat v div 16 ^ i) mod 16 = (unat w div 16 ^ i) mod 16" if "i < 16" for i
  proof -
    have "hex_digit ((unat v div 16 ^ i) mod 16) = hex_digit ((unat w div 16 ^ i) mod 16)"
      using eq that by (auto simp: hex16_def)
    then show ?thesis by (rule hex_digit_inj [rotated 2]) simp_all
  qed
  have "unat v mod 16 ^ n = unat w mod 16 ^ n" if "n \<le> 16" for n
    using that
  proof (induction n)
    case (Suc n)
    have "x mod 16 ^ Suc n = 16 ^ n * (x div 16 ^ n mod 16) + x mod 16 ^ n" for x :: nat
      by (metis mod_mult2_eq mult.commute power_Suc)
    with Suc digits [of n] show ?case by simp
  qed simp
  from this [of 16] have "unat v mod 2 ^ 64 = unat w mod 2 ^ 64" by simp
  moreover have "unat x mod 2 ^ 64 = unat x" for x :: u64
    using unsigned_less [of x, where ?'a = nat] by simp
  ultimately show "v = w" by (simp add: word_unat_eq_iff)
qed

lemma length_hex16 [simp]: "length (hex16 w) = 16"
  by (simp add: hex16_def)

lemma segment_file_name_inj:
  "segment_file_name f l = segment_file_name f' l' \<longleftrightarrow> f = f' \<and> l = l'"
  by (auto simp: segment_file_name_def dest: hex16_inj)

lemma segment_has_extension: "has_seg_extension (segment_file_name f l)"
  by (simp add: has_seg_extension_def segment_file_name_def)

section \<open>Written segments read back\<close>

text \<open>Segment steps change the directory of the segments only.\<close>

fun log_step :: "disk_step \<Rightarrow> bool" where
  "log_step (RemoveSegment _) = True"
| "log_step (OpenSegment _) = True"
| "log_step (AppendSegment _ _) = True"
| "log_step (RenameSegment _ _) = True"
| "log_step _ = False"

lemma exec_steps_simps [simp]:
  "exec_steps [] d = d"
  "exec_steps (step # steps) d = exec_steps steps (exec_step step d)"
  "exec_steps (steps @ steps') d = exec_steps steps' (exec_steps steps d)"
  by (simp_all add: exec_steps_def)

lemma exec_log_step:
  "log_step step \<Longrightarrow> rd_legacy (exec_step step d) = rd_legacy d
     \<and> rd_manifest (exec_step step d) = rd_manifest d \<and> rd_vote (exec_step step d) = rd_vote d
     \<and> rd_committed (exec_step step d) = rd_committed d \<and> rd_state (exec_step step d) = rd_state d"
  by (cases step) (auto split: option.split)

lemma exec_log_steps:
  "list_all log_step steps \<Longrightarrow> rd_legacy (exec_steps steps d) = rd_legacy d
     \<and> rd_manifest (exec_steps steps d) = rd_manifest d \<and> rd_vote (exec_steps steps d) = rd_vote d
     \<and> rd_committed (exec_steps steps d) = rd_committed d \<and> rd_state (exec_steps steps d) = rd_state d"
  by (induction steps arbitrary: d) (simp_all add: exec_log_step)

lemma close_segment_steps: "list_all log_step (fst (close_segment current))"
  by (auto simp: close_segment_def Let_def split: option.split)

lemma segment_steps_log: "list_all log_step (fst (segment_steps J current es))"
proof (induction es arbitrary: current)
  case Nil
  then show ?case using close_segment_steps [of current] by (simp add: case_prod_beta)
next
  case (Cons e es)
  then show ?case
    using close_segment_steps [of current]
    by (auto simp: Let_def case_prod_beta split: option.split sum.split)
qed

abbreviation index_of :: "kron_entry \<Rightarrow> u64" where
  "index_of e \<equiv> lid_index (ent_log_id e)"

text \<open>Names of files that the steps for the entries of a segment do not concern.\<close>

definition unrelated :: "u64 set \<Rightarrow> string \<Rightarrow> bool" where
  "unrelated I n \<longleftrightarrow> (\<forall>i \<in> I. \<forall>l. n \<noteq> segment_file_name i l)"

lemma unrelated_name: "unrelated I (segment_file_name f l) \<longleftrightarrow> f \<notin> I"
  by (auto simp: unrelated_def segment_file_name_inj)

text \<open>Closing a segment: its content stands under its final name, other files stay.\<close>

lemma close_segment_run:
  assumes "bt_get (rd_log d) (segment_file_name f f) = Some content"
  shows "bt_get (rd_log (exec_steps (fst (close_segment (Some (f, l, n)))) d)) (segment_file_name f l) = Some content"
    and "unrelated {f} m \<Longrightarrow>
      bt_get (rd_log (exec_steps (fst (close_segment (Some (f, l, n)))) d)) m = bt_get (rd_log d) m"
  using assms by (auto simp: close_segment_def Let_def unrelated_def segment_file_name_inj)

text \<open>
  The invariant of the rewriting loop.  The open segment holds the records \<open>g\<close>; whatever
  entries follow, the segments listed at the end read back as \<open>g\<close> and those entries, and
  files of other segments are untouched.
\<close>

definition rewritten ::
  "kron_entry byte_codec \<Rightarrow> raft_disk \<Rightarrow> disk_step list \<times> segment_meta list store_res \<Rightarrow> kron_entry list \<Rightarrow> u64 set \<Rightarrow> bool" where
  "rewritten J d r es I \<longleftrightarrow> (\<exists>metas. snd r = Inr metas
     \<and> (\<forall>logs. read_log_segments J (rd_log (exec_steps (fst r) d)) metas logs = Inr (insert_entries es logs))
     \<and> (\<forall>m. unrelated I m \<longrightarrow> bt_get (rd_log (exec_steps (fst r) d)) m = bt_get (rd_log d) m))"

lemma read_segment_wf: "list_all (wf_record J) g \<Longrightarrow> read_segment_file J (segment_bytes J g) = Inr g"
  using read_segment_run [of J g "[]"] by (simp add: read_records_end)

text \<open>An entry that goes to the open segment.\<close>

lemma rewritten_same:
  assumes "encode_log_record J e = Inr b" "\<not> LOG_SEGMENT_MAX_BYTES \<le> n"
    and "rewritten J (exec_step (AppendSegment (segment_file_name f f) b) d)
      (segment_steps J (Some (f, index_of e, n + of_nat (length b))) es) gs (insert f I)"
  shows "rewritten J d (segment_steps J (Some (f, l, n)) (e # es)) gs (insert f (insert i I))"
proof -
  have "unrelated (insert f I) m" if "unrelated (insert f (insert i I)) m" for m
    using that by (auto simp: unrelated_def)
  moreover have "bt_get (rd_log (exec_step (AppendSegment (segment_file_name f f) b) d)) m = bt_get (rd_log d) m"
    if "unrelated (insert f I) m" for m
    using that by (auto simp: unrelated_def)
  ultimately show ?thesis using assms by (auto simp: rewritten_def Let_def split: prod.split)
qed

text \<open>An entry that opens a new segment.\<close>

lemma rewritten_roll:
  assumes "encode_log_record J e = Inr b" "LOG_SEGMENT_MAX_BYTES \<le> n"
    and open_segment: "bt_get (rd_log d) (segment_file_name f f) = Some (segment_bytes J g)" and "list_all (wf_record J) g"
    and "rewritten J (exec_step (AppendSegment (segment_file_name (index_of e) (index_of e)) b)
          (exec_step (OpenSegment (segment_file_name (index_of e) (index_of e))) (exec_steps (fst (close_segment (Some (f, l, n)))) d)))
      (segment_steps J (Some (index_of e, index_of e, of_nat (length b))) es) (e # es) (insert (index_of e) I)"
    and fresh: "f \<notin> insert (index_of e) I"
  shows "rewritten J d (segment_steps J (Some (f, l, n)) (e # es)) (g @ e # es) (insert f (insert (index_of e) I))"
proof -
  let ?i = "index_of e" and ?rest = "segment_steps J (Some (index_of e, index_of e, of_nat (length b))) es"
  let ?close = "fst (close_segment (Some (f, l, n)))" and ?open = "OpenSegment (segment_file_name (index_of e) (index_of e))"
  let ?d = "exec_step (AppendSegment (segment_file_name ?i ?i) b) (exec_step ?open (exec_steps ?close d))"
  obtain metas where metas: "snd ?rest = Inr metas"
    "\<forall>logs. read_log_segments J (rd_log (exec_steps (fst ?rest) ?d)) metas logs = Inr (insert_entries (e # es) logs)"
    "\<forall>m. unrelated (insert ?i I) m \<longrightarrow> bt_get (rd_log (exec_steps (fst ?rest) ?d)) m = bt_get (rd_log ?d) m"
    using assms(5) by (auto simp: rewritten_def)
  have frame: "bt_get (rd_log (exec_steps (fst ?rest) ?d)) m = bt_get (rd_log (exec_steps ?close d)) m"
    if "unrelated (insert ?i I) m" for m
    using metas(3) that by (auto simp: unrelated_def)
  have kept: "bt_get (rd_log (exec_steps (fst ?rest) ?d)) (segment_file_name f l) = Some (segment_bytes J g)"
    using frame close_segment_run(1) [OF open_segment] fresh by (simp add: unrelated_name)
  have outside: "bt_get (rd_log (exec_steps (fst ?rest) ?d)) m = bt_get (rd_log d) m"
    if "unrelated (insert f (insert ?i I)) m" for m
    using frame [of m] close_segment_run(2) [OF open_segment, of m] that by (simp add: unrelated_def)
  have steps: "fst (segment_steps J (Some (f, l, n)) (e # es)) =
      ?close @ [?open] @ [AppendSegment (segment_file_name ?i ?i) b] @ fst ?rest"
    and result: "snd (segment_steps J (Some (f, l, n)) (e # es)) =
      Inr (\<lparr>seg_first_index = f, seg_last_index = l, seg_file = segment_file_name f l\<rparr> # metas)"
    using assms(1,2) metas(1) by (simp_all add: Let_def close_segment_def case_prod_beta)
  show ?thesis
    unfolding rewritten_def steps result
    using metas(2) kept read_segment_wf [OF assms(4)] outside by (simp add: insert_entries_def)
qed

lemma segment_steps_run:
  assumes "bt_get (rd_log d) (segment_file_name f f) = Some (segment_bytes J g)"
    and "list_all (wf_record J) (g @ es)" and "distinct (f # map index_of es)"
  shows "rewritten J d (segment_steps J (Some (f, l, n)) es) (g @ es) (insert f (set (map index_of es)))"
  using assms
proof (induction es arbitrary: d f l n g)
  case Nil
  then show ?case
    using close_segment_run [OF Nil.prems(1), where l = l and n = n] read_segment_wf [of J g]
    by (cases "close_segment (Some (f, l, n))") (auto simp: rewritten_def close_segment_def Let_def)
next
  case (Cons e es)
  have enc: "encode_log_record J e = Inr (record_bytes J e)" using Cons.prems(2) by (simp add: encode_wf)
  show ?case
  proof (cases "LOG_SEGMENT_MAX_BYTES \<le> n")
    case False
    show ?thesis
      using rewritten_same [OF enc False Cons.IH [of _ f "g @ [e]"]] Cons.prems by simp
  next
    case True
    show ?thesis
      using rewritten_roll [OF enc True Cons.prems(1) _ Cons.IH [of _ "index_of e" "[e]", simplified]] Cons.prems(2,3) by simp
  qed
qed

section \<open>Reopening\<close>

text \<open>A store in memory that can be written: its log is a map from the index of each entry, and
  every entry can be serialised.\<close>

definition logs_ok :: "kron_entry byte_codec \<Rightarrow> (u64, kron_entry) btree_map \<Rightarrow> bool" where
  "logs_ok J logs \<longleftrightarrow> bt_sorted logs
     \<and> (\<forall>i e. (i, e) \<in> set logs \<longrightarrow> index_of e = i \<and> wf_record J e)"

definition store_ok :: "kron_entry byte_codec \<Rightarrow> raft_store \<Rightarrow> bool" where
  "store_ok J inner \<longleftrightarrow> logs_ok J (prs_logs inner)"

lemma insert_entries_bindings:
  "(\<forall>(i, e) \<in> set m. index_of e = i) \<Longrightarrow>
     insert_entries (bt_values m) logs = fold (\<lambda>(i, e). bt_insert i e) m logs"
  unfolding insert_entries_def bt_values_def
  by (induction m arbitrary: logs) auto

lemma insert_entries_values:
  assumes "store_ok J inner"
  shows "insert_entries (bt_values (prs_logs inner)) [] = prs_logs inner"
  using bt.rebuild [of "prs_logs inner"] insert_entries_bindings [of "prs_logs inner" "[]"] assms
  by (auto simp: store_ok_def logs_ok_def)

lemma store_ok_values:
  assumes "store_ok J inner"
  shows "list_all (wf_record J) (bt_values (prs_logs inner))"
    and "distinct (map index_of (bt_values (prs_logs inner)))"
proof -
  show "list_all (wf_record J) (bt_values (prs_logs inner))"
    using assms by (auto simp: store_ok_def logs_ok_def bt_values_def list_all_iff)
  have "map index_of (bt_values (prs_logs inner)) = map fst (prs_logs inner)"
    using assms by (auto simp: store_ok_def logs_ok_def bt_values_def)
  then show "distinct (map index_of (bt_values (prs_logs inner)))"
    using assms bt_sorted_distinct by (auto simp: store_ok_def logs_ok_def)
qed

text \<open>From no open segment on, the steps for any entries read back as those entries.\<close>

lemma segment_steps_read:
  assumes "list_all (wf_record J) es" "distinct (map index_of es)"
  shows "\<exists>metas. snd (segment_steps J None es) = Inr metas
    \<and> read_log_segments J (rd_log (exec_steps (fst (segment_steps J None es)) d)) metas []
      = Inr (insert_entries es [])"
proof (cases es)
  case Nil
  then show ?thesis by (simp add: close_segment_def insert_entries_def)
next
  case (Cons e rest)
  let ?i = "index_of e" and ?b = "record_bytes J e"
  let ?d = "exec_step (AppendSegment (segment_file_name ?i ?i) ?b)
              (exec_step (OpenSegment (segment_file_name ?i ?i)) d)"
  have "bt_get (rd_log ?d) (segment_file_name ?i ?i) = Some (segment_bytes J [e])" by simp
  then obtain metas where
    "snd (segment_steps J (Some (?i, ?i, of_nat (length ?b))) rest) = Inr metas"
    "read_log_segments J (rd_log (exec_steps (fst (segment_steps J (Some (?i, ?i, of_nat (length ?b))) rest)) ?d)) metas []
       = Inr (insert_entries ([e] @ rest) [])"
    using segment_steps_run [of ?d ?i J "[e]" rest ?i "of_nat (length ?b)"] assms Cons by (auto simp: rewritten_def)
  then show ?thesis
    using assms(1) Cons by (auto simp: encode_wf Let_def case_prod_beta)
qed

lemma removals_log: "list_all log_step (map RemoveSegment names)"
  by (induction names) auto

text \<open>What \<open>persist\<close> leaves on the disk opens as the store that was written.\<close>

lemma persist_reopens:
  assumes "store_ok J inner" "\<not> rd_legacy d" "persist J inner d = (result, d')"
  shows "result = Inr () \<and> open_store J d' = (Inr inner, d') \<and> \<not> rd_legacy d'"
proof -
  let ?es = "bt_values (prs_logs inner)"
  let ?seg = "segment_steps J None ?es"
  let ?rem = "map RemoveSegment (filter has_seg_extension (map fst (rd_log d)))"
  let ?pre = "[WriteVote (prs_vote inner), WriteCommitted (prs_committed inner),
               WriteState (prs_state_machine inner)] @ ?rem"
  obtain metas where metas: "snd ?seg = Inr metas"
    "read_log_segments J (rd_log (exec_steps (fst ?seg) (exec_steps ?pre d))) metas [] = Inr (prs_logs inner)"
    using segment_steps_read [OF store_ok_values [OF assms(1)]] insert_entries_values [OF assms(1)]
    by metis
  have d': "d' = exec_step (WriteManifest \<lparr>mf_format_version = RAFT_FORMAT_VERSION, mf_active_snapshot = None,
      mf_last_purged_log_id = prs_last_purged_log_id inner, mf_segments = metas\<rparr>)
      (exec_steps (fst ?seg) (exec_steps ?pre d))"
    and result: "result = Inr ()"
    using assms(3) metas(1)
    by (auto simp: persist_def persist_steps_def rewrite_log_segments_def Let_def case_prod_beta)
  have fields: "rd_vote d' = Some (JsonValue (prs_vote inner))"
    "rd_committed d' = Some (JsonValue (prs_committed inner))"
    "rd_state d' = Some (JsonValue (prs_state_machine inner))" "\<not> rd_legacy d'"
    using assms(2) exec_log_steps [OF segment_steps_log] exec_log_steps [OF removals_log]
    by (simp_all add: d')
  show ?thesis
    using metas(2) fields result
    by (simp add: open_store_def read_manifest_def read_json_def read_json_optional_def read_state_def d')
qed

section \<open>Sequences of operations\<close>

datatype store_op =
    SaveVote vote
  | SaveCommitted "log_id option"
  | AppendLog "kron_entry list"
  | TruncateLog log_id
  | PurgeLog log_id
  | ApplyLog "kron_entry list"
  | InstallSnapshot snapshot_meta "u8 list"

text \<open>One call of the library; \<open>None\<close> when the node dies of a panic.\<close>

fun run_op ::
  "kron_entry byte_codec \<Rightarrow> state_machine byte_codec \<Rightarrow> libs \<Rightarrow> store_op \<Rightarrow> store_state \<Rightarrow> store_state option" where
  "run_op J S L (SaveVote v) st = Some (snd (save_vote J v st))"
| "run_op J S L (SaveCommitted c) st = Some (snd (save_committed J c st))"
| "run_op J S L (AppendLog entries) st = Some (snd (append_entries J entries st))"
| "run_op J S L (TruncateLog lid) st = Some (snd (truncate_log J lid st))"
| "run_op J S L (PurgeLog lid) st = Some (snd (purge_log J lid st))"
| "run_op J S L (ApplyLog entries) st =
     (case apply_batch J L entries st of (Inl _, _) \<Rightarrow> None | (Inr _, st1) \<Rightarrow> Some st1)"
| "run_op J S L (InstallSnapshot meta bytes) st = Some (snd (install_snapshot J S meta bytes st))"

fun run_ops ::
  "kron_entry byte_codec \<Rightarrow> state_machine byte_codec \<Rightarrow> libs \<Rightarrow> store_op list \<Rightarrow> store_state \<Rightarrow> store_state option" where
  "run_ops J S L [] st = Some st"
| "run_ops J S L (op # ops) st = Option.bind (run_op J S L op st) (run_ops J S L ops)"

fun op_entries :: "store_op \<Rightarrow> kron_entry list" where
  "op_entries (AppendLog entries) = entries"
| "op_entries _ = []"

definition empty_raft_disk :: raft_disk where
  "empty_raft_disk = \<lparr>rd_legacy = False, rd_manifest = None, rd_vote = None, rd_committed = None,
     rd_state = None, rd_log = []\<rparr>"

text \<open>A state of the node is durable when its directory opens as what it has in memory.\<close>

definition durable :: "kron_entry byte_codec \<Rightarrow> store_state \<Rightarrow> bool" where
  "durable J st \<longleftrightarrow> store_ok J (fst st) \<and> \<not> rd_legacy (snd st)
     \<and> open_store J (snd st) = (Inr (fst st), snd st)"

lemma persisting_durable:
  assumes "store_ok J inner" "\<not> rd_legacy d"
  shows "durable J (snd (persisting J inner d)) \<and> fst (persisting J inner d) = Inr ()
    \<and> fst (snd (persisting J inner d)) = inner"
  using persist_reopens [OF assms, of "fst (persist J inner d)" "snd (persist J inner d)"] assms
  by (auto simp: persisting_def durable_def case_prod_beta)

lemma insert_entries_get:
  "bt_get (insert_entries es logs) i =
     (case List.find (\<lambda>e. index_of e = i) (rev es) of Some e \<Rightarrow> Some e | None \<Rightarrow> bt_get logs i)"
proof (induction es arbitrary: logs)
  case (Cons e es)
  have "List.find (\<lambda>e. index_of e = i) (rev (e # es)) =
      (case List.find (\<lambda>e. index_of e = i) (rev es) of
         Some x \<Rightarrow> Some x | None \<Rightarrow> if index_of e = i then Some e else None)"
    by (simp add: find_append split: option.split)
  with Cons.IH [of "bt_insert (index_of e) e logs"] show ?case
    by (auto simp: insert_entries_def split: option.split)
qed (simp add: insert_entries_def)

lemma logs_ok_insert: "logs_ok J logs \<Longrightarrow> wf_record J e \<Longrightarrow> logs_ok J (bt_insert (index_of e) e logs)"
  using set_bt_insert [of "index_of e" e logs] by (auto simp: logs_ok_def)

lemma insert_entries_ok: "logs_ok J logs \<Longrightarrow> list_all (wf_record J) es \<Longrightarrow> logs_ok J (insert_entries es logs)"
  unfolding insert_entries_def by (induction es arbitrary: logs) (simp_all add: logs_ok_insert)

lemma run_op_durable:
  assumes "durable J st" "list_all (wf_record J) (op_entries op)" "run_op J S L op st = Some st'"
  shows "durable J st'"
proof -
  have ok: "store_ok J (fst st)" and nl: "\<not> rd_legacy (snd st)"
    using assms(1) by (simp_all add: durable_def)
  have retain: "store_ok J ((fst st)\<lparr>prs_logs := bt_retain P (prs_logs (fst st))\<rparr>)" for P
    using ok by (auto simp: store_ok_def logs_ok_def bt_retain_def sorted_wrt_map_filter bt_sorted_def)
  show ?thesis
  proof (cases op)
    case (AppendLog es)
    have "store_ok J ((fst st)\<lparr>prs_logs := insert_entries es (prs_logs (fst st))\<rparr>)"
      using insert_entries_ok [of J "prs_logs (fst st)" es] ok assms(2) AppendLog
      by (simp add: store_ok_def)
    then show ?thesis
      using assms(3) AppendLog persisting_durable nl by (auto simp: append_entries_def)
  next
    case (TruncateLog lid)
    then show ?thesis using assms(3) persisting_durable [OF retain nl] by (auto simp: truncate_log_def)
  next
    case (PurgeLog lid)
    have "store_ok J ((fst st)\<lparr>prs_logs := bt_retain P (prs_logs (fst st)), prs_last_purged_log_id := x\<rparr>)" for P x
      using retain [of P] by (simp add: store_ok_def)
    then show ?thesis using PurgeLog assms(3) persisting_durable nl by (auto simp: purge_log_def)
  next
    case (ApplyLog es)
    obtain sm where sm: "apply_entries L es (prs_state_machine (fst st)) = Inr sm"
      using ApplyLog assms(3) by (cases "apply_entries L es (prs_state_machine (fst st))") (auto simp: apply_batch_def)
    have "store_ok J ((fst st)\<lparr>prs_state_machine := sm\<rparr>)" using ok by (simp add: store_ok_def)
    from persisting_durable [OF this nl] show ?thesis
      using ApplyLog assms(3) sm by (auto simp: apply_batch_def case_prod_beta split: prod.splits sum.splits)
  next
    case (InstallSnapshot meta bytes)
    have "store_ok J ((fst st)\<lparr>prs_state_machine := sm\<rparr>)" for sm using ok by (simp add: store_ok_def)
    then show ?thesis
      using InstallSnapshot assms(1,3) persisting_durable nl
      by (auto simp: install_snapshot_def split: sum.splits)
  qed (use ok nl assms(3) in \<open>auto simp: save_vote_def save_committed_def store_ok_def intro: persisting_durable [THEN conjunct1]\<close>)
qed

lemma run_ops_durable:
  "durable J st \<Longrightarrow> list_all (\<lambda>op. list_all (wf_record J) (op_entries op)) ops \<Longrightarrow>
     run_ops J S L ops st = Some st' \<Longrightarrow> durable J st'"
  by (induction ops arbitrary: st) (auto simp: bind_eq_Some_conv intro: run_op_durable)

lemma fresh_durable: "open_store J empty_raft_disk = (Inr inner, d) \<Longrightarrow> durable J (inner, d)"
  by (auto simp: open_store_def empty_raft_disk_def read_manifest_def Let_def read_state_def
      read_json_optional_def durable_def store_ok_def logs_ok_def read_json_def)

text \<open>The replicated store is durable.  Start on an empty directory and let the raft library
  call any sequence of operations (votes, commits, appends, truncations, purges, applications
  and installed snapshots).  If every appended entry can be serialised, then opening the
  directory afterwards gives back exactly the store that was in memory: vote, committed index,
  purge mark, every log entry in every segment, and the state machine.\<close>

theorem reopen_after_operations:
  assumes "open_store J empty_raft_disk = (Inr inner, d)"
    and "list_all (\<lambda>op. list_all (wf_record J) (op_entries op)) ops"
    and "run_ops J S L ops (inner, d) = Some (inner', d')"
  shows "open_store J d' = (Inr inner', d')"
  using run_ops_durable [OF fresh_durable [OF assms(1)] assms(2,3)] by (simp add: durable_def)

section \<open>The log as a map\<close>

text \<open>The log operations mean what the raft library expects.  After an append the log holds
  under each index the last appended entry with that index, or what was there before; after a
  truncation exactly the entries below the given index remain, after a purge exactly those
  above it, with the purge mark set; a range query returns exactly the entries in the range in
  ascending order of the index; the log state names the entry with the greatest index, or the
  purge mark when the log is empty.\<close>

theorem log_operations_correct:
  assumes "store_ok J (fst st)"
  shows "bt_get (prs_logs (fst (snd (append_entries J es st)))) i =
      (case List.find (\<lambda>e. lid_index (ent_log_id e) = i) (rev es) of
         Some e \<Rightarrow> Some e | None \<Rightarrow> bt_get (prs_logs (fst st)) i)
    \<and> bt_get (prs_logs (fst (snd (truncate_log J lid st)))) i =
        (if i < lid_index lid then bt_get (prs_logs (fst st)) i else None)
    \<and> bt_get (prs_logs (fst (snd (purge_log J lid st)))) i =
        (if lid_index lid < i then bt_get (prs_logs (fst st)) i else None)
    \<and> prs_last_purged_log_id (fst (snd (purge_log J lid st))) = Some lid
    \<and> set (try_get_log_entries lo hi (fst st)) =
        {e. \<exists>j. bt_get (prs_logs (fst st)) j = Some e \<and> contains lo hi j}
    \<and> sorted_wrt (<) (map (\<lambda>e. lid_index (ent_log_id e)) (try_get_log_entries lo hi (fst st)))
    \<and> (bt_get (prs_logs (fst st)) j = Some e \<longrightarrow>
         (\<exists>k e'. bt_get (prs_logs (fst st)) k = Some e' \<and> j \<le> k
            \<and> ls_last_log_id (get_log_state (fst st)) = Some (ent_log_id e')))
    \<and> (prs_logs (fst st) = [] \<longrightarrow>
         ls_last_log_id (get_log_state (fst st)) = prs_last_purged_log_id (fst st))"
proof -
  let ?logs = "prs_logs (fst st)"
  have sorted: "bt_sorted ?logs" and keys: "\<And>i e. (i, e) \<in> set ?logs \<Longrightarrow> index_of e = i"
    using assms by (auto simp: store_ok_def logs_ok_def)
  have range: "set (try_get_log_entries lo hi (fst st)) =
      {e. \<exists>j. bt_get ?logs j = Some e \<and> contains lo hi j}"
    by (force simp: try_get_log_entries_def bt_get_in [OF sorted])
  have "map index_of (try_get_log_entries lo hi (fst st)) =
      map fst (filter (\<lambda>(i, _). contains lo hi i) ?logs)"
    using keys by (auto simp: try_get_log_entries_def)
  then have ascending: "sorted_wrt (<) (map index_of (try_get_log_entries lo hi (fst st)))"
    using sorted by (simp add: bt_sorted_def sorted_wrt_map_filter)
  have last: "\<exists>k e'. bt_get ?logs k = Some e' \<and> j \<le> k
      \<and> ls_last_log_id (get_log_state (fst st)) = Some (ent_log_id e')"
    if "bt_get ?logs j = Some e"
  proof -
    have mem: "(j, e) \<in> set ?logs" using that by (rule bt_get_SomeD)
    then have ne: "?logs \<noteq> []" by auto
    obtain k e' where l: "last ?logs = (k, e')" by (cases "last ?logs")
    have "bt_get ?logs k = Some e'" using last_in_set [OF ne] l sorted by (simp add: bt_get_in)
    moreover have "j \<le> k" using last_bt_sorted [OF sorted ne mem] l by simp
    moreover have "bt_values ?logs \<noteq> []" "last (bt_values ?logs) = e'"
      using ne l by (simp_all add: bt_values_def last_map)
    then have "ls_last_log_id (get_log_state (fst st)) = Some (ent_log_id e')"
      by (cases "bt_values ?logs") (auto simp: get_log_state_def)
    ultimately show ?thesis by blast
  qed
  show ?thesis
    using range ascending last
    by (auto simp: append_entries_def truncate_log_def purge_log_def persisting_def case_prod_beta
        insert_entries_get bt_get_retain get_log_state_def bt_values_def)
qed

section \<open>Snapshots\<close>

text \<open>The state after a batch depends on the entries only, not on how they were grouped.\<close>

lemma apply_entries_append:
  "apply_entries L (es @ fs) st =
     (case apply_entries L es st of Inl err \<Rightarrow> Inl err | Inr st1 \<Rightarrow> apply_entries L fs st1)"
  by (induction es arbitrary: st) (auto split: sum.split)

text \<open>A snapshot carries everything.  When a follower installs the current snapshot of a node
  that has applied the entries \<open>es\<close>, and then applies the entries \<open>fs\<close>, it reaches the state of
  a node that applied them all one after the other; its vote and its log are untouched.\<close>

theorem snapshot_catch_up:
  assumes "apply_entries L es default_state_machine = Inr (prs_state_machine leader)"
    and "\<forall>bytes. to_vec S (prs_state_machine leader) = Inr bytes
           \<longrightarrow> from_slice S bytes = Inr (prs_state_machine leader)"
    and "get_current_snapshot S leader = Inr (Some (meta, bytes))"
    and "install_snapshot J S meta bytes (follower, d) = (result, follower', d')"
  shows "apply_entries L fs (prs_state_machine follower') = apply_entries L (es @ fs) default_state_machine
    \<and> applied_state follower' = applied_state leader
    \<and> prs_logs follower' = prs_logs follower \<and> prs_vote follower' = prs_vote follower"
proof -
  have meta: "sn_last_log_id meta = psm_last_applied_log_id (prs_state_machine leader)"
    "sn_last_membership meta = psm_last_membership (prs_state_machine leader)"
    and bytes: "from_slice S bytes = Inr (prs_state_machine leader)"
    using assms(2,3) by (auto simp: get_current_snapshot_def Let_def split: sum.splits)
  have "follower' = follower\<lparr>prs_state_machine := prs_state_machine leader\<rparr>"
    using assms(4) by (simp add: install_snapshot_def bytes meta persisting_def case_prod_beta)
  then show ?thesis
    using assms(1) by (simp add: apply_entries_append applied_state_def)
qed

section \<open>Interrupted writes\<close>

lemma exec_removals:
  "bt_get (rd_log (exec_steps (map RemoveSegment names) d)) n =
     (if n \<in> set names then None else bt_get (rd_log d) n)"
  by (induction names arbitrary: d) auto

text \<open>A rewrite of the segments that is interrupted leaves a store that does not open.  The
  segments of the old manifest are deleted before the new ones and the new manifest are
  written; if the node dies when the old segments are gone, opening the directory fails with
  a missing segment, although vote, committed index and state machine were already written.\<close>

theorem interrupted_persist_unopenable:
  assumes "\<not> rd_legacy d" "rd_manifest d = Some (JsonValue m)"
    and "mf_format_version m = RAFT_FORMAT_VERSION" "mf_segments m = segment # segments"
    and "has_seg_extension (seg_file segment)"
  shows "fst (open_store J (persist_until J
        (3 + length (filter has_seg_extension (map fst (rd_log d)))) inner d))
    = Inl (StoreError SubjectStore VerbRead (''missing raft log segment '' @ seg_file segment))"
proof -
  let ?names = "filter has_seg_extension (map fst (rd_log d))"
  let ?pre = "[WriteVote (prs_vote inner), WriteCommitted (prs_committed inner),
               WriteState (prs_state_machine inner)] @ map RemoveSegment ?names"
  have "take (3 + length ?names) (fst (persist_steps J inner d)) = ?pre"
    by (auto simp: persist_steps_def rewrite_log_segments_def Let_def case_prod_beta numeral_3_eq_3
        split: sum.split)
  then have d': "persist_until J (3 + length ?names) inner d = exec_steps ?pre d"
    by (simp add: persist_until_def)
  have "bt_get (rd_log (exec_steps ?pre d)) (seg_file segment) = None"
  proof (cases "bt_get (rd_log d) (seg_file segment)")
    case (Some content)
    then have "seg_file segment \<in> set ?names"
      using assms(5) by (auto dest!: bt_get_SomeD intro: image_eqI [where x = "(seg_file segment, content)"])
    then show ?thesis by (simp add: exec_removals)
  qed (simp add: exec_removals)
  then show ?thesis
    using assms exec_log_steps [OF removals_log [of ?names]]
    unfolding d' by (simp add: open_store_def read_manifest_def read_json_def)
qed

section \<open>Witnesses\<close>

definition no_snapshots :: "state_machine byte_codec" where
  "no_snapshots = \<lparr>to_vec = (\<lambda>_. Inl ''refused''), from_slice = (\<lambda>_. Inl ''refused'')\<rparr>"

definition fresh_store :: raft_store where
  "fresh_store = \<lparr>prs_vote = None, prs_committed = None, prs_last_purged_log_id = None,
     prs_logs = [], prs_state_machine = default_state_machine\<rparr>"

lemma open_empty: "\<exists>d. open_store J empty_raft_disk = (Inr fresh_store, d)"
  by (simp add: open_store_def empty_raft_disk_def read_manifest_def Let_def read_state_def
      read_json_optional_def fresh_store_def)

theorem reopen_after_operations_witness:
  "\<exists>d inner' d'. open_store index_codec empty_raft_disk = (Inr fresh_store, d)
    \<and> run_ops index_codec no_snapshots minute_libs
        [SaveVote \<lparr>vote_term = 1, vote_node = 1, vote_committed = True\<rparr>, AppendLog [blank_entry 1, blank_entry 2]]
        (fresh_store, d) = Some (inner', d')
    \<and> prs_logs inner' = [(1, blank_entry 1), (2, blank_entry 2)]
    \<and> open_store index_codec d' = (Inr inner', d')"
proof -
  let ?ops = "[SaveVote \<lparr>vote_term = 1, vote_node = 1, vote_committed = True\<rparr>, AppendLog [blank_entry 1, blank_entry 2]]"
  obtain d where d: "open_store index_codec empty_raft_disk = (Inr fresh_store, d)" using open_empty by blast
  have wf: "list_all (\<lambda>op. list_all (wf_record index_codec) (op_entries op)) ?ops" by (simp add: wf_blank)
  obtain inner' d' where run: "run_ops index_codec no_snapshots minute_libs ?ops (fresh_store, d) = Some (inner', d')"
    by (metis run_ops.simps run_op.simps(1,3) bind.bind_lunit prod.exhaust)
  have "prs_logs inner' = [(1, blank_entry 1), (2, blank_entry 2)]"
    using run by (auto simp: save_vote_def append_entries_def persisting_def case_prod_beta
        insert_entries_def fresh_store_def blank_entry_def)
  with d run reopen_after_operations [OF d wf run] show ?thesis by blast
qed

theorem log_operations_correct_witness:
  "bt_get (prs_logs (fst (snd (truncate_log index_codec (ent_log_id (blank_entry 2))
     (fresh_store\<lparr>prs_logs := [(1, blank_entry 1), (2, blank_entry 2)]\<rparr>, empty_raft_disk))))) 2 = None"
proof -
  have "store_ok index_codec (fst (fresh_store\<lparr>prs_logs := [(1, blank_entry 1), (2, blank_entry 2)]\<rparr>, empty_raft_disk))"
    by (auto simp: store_ok_def logs_ok_def bt_sorted_def wf_blank) (simp_all add: blank_entry_def)
  from log_operations_correct [OF this, where i = 2 and lid = "ent_log_id (blank_entry 2)"]
  show ?thesis by (simp add: blank_entry_def)
qed

definition sample_snapshots :: "state_machine byte_codec" where
  "sample_snapshots = \<lparr>to_vec = (\<lambda>_. Inr [1]), from_slice = (\<lambda>_. Inr sample_machine)\<rparr>"

theorem snapshot_catch_up_witness:
  "\<exists>meta follower' d'.
     get_current_snapshot sample_snapshots (fresh_store\<lparr>prs_state_machine := sample_machine\<rparr>) = Inr (Some (meta, [1]))
     \<and> snd (install_snapshot index_codec sample_snapshots meta [1] (fresh_store, empty_raft_disk)) = (follower', d')
     \<and> apply_entries minute_libs [blank_entry 4] (prs_state_machine follower')
       = apply_entries minute_libs (sample_claims @ [blank_entry 4]) default_state_machine"
proof -
  let ?leader = "fresh_store\<lparr>prs_state_machine := sample_machine\<rparr>"
  obtain meta where meta: "get_current_snapshot sample_snapshots ?leader = Inr (Some (meta, [1]))"
    by (simp add: get_current_snapshot_def sample_snapshots_def Let_def)
  obtain result follower' d' where inst:
    "install_snapshot index_codec sample_snapshots meta [1] (fresh_store, empty_raft_disk) = (result, follower', d')"
    by (metis prod.exhaust)
  have "apply_entries minute_libs sample_claims default_state_machine = Inr (prs_state_machine ?leader)"
    by (simp add: sample_applied)
  from snapshot_catch_up [OF this _ meta inst, of "[blank_entry 4]"] meta inst show ?thesis
    by (auto simp: sample_snapshots_def)
qed

definition one_segment_disk :: raft_disk where
  "one_segment_disk = empty_raft_disk\<lparr>
     rd_manifest := Some (JsonValue \<lparr>mf_format_version = RAFT_FORMAT_VERSION, mf_active_snapshot = None,
       mf_last_purged_log_id = None, mf_segments = [\<lparr>seg_first_index = 1, seg_last_index = 1,
         seg_file = segment_file_name 1 1\<rparr>]\<rparr>),
     rd_log := [(segment_file_name 1 1, record_bytes index_codec (blank_entry 1))]\<rparr>"

lemma one_segment_opens:
  "fst (open_store index_codec one_segment_disk) = Inr (fresh_store\<lparr>prs_logs := [(1, blank_entry 1)]\<rparr>)"
  using read_segment_run [of index_codec "[blank_entry 1]" "[]"]
  by (simp add: open_store_def one_segment_disk_def empty_raft_disk_def read_manifest_def read_json_def
      read_state_def read_json_optional_def fresh_store_def bt_get_def wf_blank read_records_end
      insert_entries_def) (simp add: blank_entry_def)

theorem interrupted_persist_unopenable_witness:
  "fst (open_store index_codec one_segment_disk) = Inr (fresh_store\<lparr>prs_logs := [(1, blank_entry 1)]\<rparr>)
    \<and> fst (open_store index_codec (persist_until index_codec 4
          (fresh_store\<lparr>prs_logs := [(1, blank_entry 1)]\<rparr>) one_segment_disk))
      = Inl (StoreError SubjectStore VerbRead (''missing raft log segment '' @ segment_file_name 1 1))"
  using interrupted_persist_unopenable [of one_segment_disk _ _ "[]" index_codec
      "fresh_store\<lparr>prs_logs := [(1, blank_entry 1)]\<rparr>"] one_segment_opens
  by (simp add: one_segment_disk_def empty_raft_disk_def segment_has_extension)

end
