(* ===== verification/Kron_Node.thy ===== *)
theory Kron_Node
  imports Kron_Tenancy Kron_Raft_Store
begin

text \<open>
  The life of a cluster node (openraft_adapter/runtime.rs): opening the data directory, the token
  of the cluster, the routes for the raft peers and the task that expires leases.  Shown: the
  lease task releases exactly the runs whose lease has passed, and a node restarts with the
  replicated store, the audit position and the token it stopped with.
\<close>

section \<open>The routes of the raft peers\<close>

text \<open>A call of the raft library with the body of the request; its error becomes an answer.\<close>

definition raft_call :: "('s \<Rightarrow> (string + json) \<times> 's) \<Rightarrow> auth_context \<Rightarrow> 's \<Rightarrow> json res \<times> 's" where
  "raft_call library _ s =
     (case library s of
        (Inl err, s1) \<Rightarrow> (Inl (Err (IpcUnavailable err)), s1)
      | (Inr v, s1) \<Rightarrow> (Inr v, s1))"

definition raft_append_entries where
  "raft_append_entries T E U library = authed T E U RaftRole ''raft.append_entries'' (raft_call library)"

definition raft_vote where
  "raft_vote T E U library = authed T E U RaftRole ''raft.vote'' (raft_call library)"

definition raft_install_snapshot where
  "raft_install_snapshot T E U library = authed T E U RaftRole ''raft.install_snapshot'' (raft_call library)"

section \<open>The token of the cluster\<close>

text \<open>The variable \<open>KRON_CLUSTER_TOKEN\<close>, the token file, and the random bytes of the system.\<close>

definition server_token :: "string option \<Rightarrow> string option \<Rightarrow> string + u8 list \<Rightarrow> string res" where
  "server_token var token_file random =
     (case var of
        Some token \<Rightarrow> Inr token
      | None \<Rightarrow> if token_file \<noteq> None then read_token token_file else generate_secret_token random)"

definition write_token_file :: "string \<Rightarrow> string option" where
  "write_token_file token = Some (token @ [LF])"

section \<open>Opening a node\<close>

text \<open>What opening depends on besides the files: whether the log of the alpha version is there,
  whether another process holds the lock, and the results of the raft library.\<close>

record open_env =
  oe_alpha_log :: bool
  oe_locked :: bool
  oe_config_error :: "string option"
  oe_raft_error :: "string option"
  oe_initialized :: "string + bool"
  oe_initialize :: "u64 \<Rightarrow> string \<Rightarrow> string option"
  oe_show :: "store_error \<Rightarrow> string"

record node =
  nd_conf :: node_conf
  nd_store :: raft_store
  nd_audit :: audit_state
  nd_shutdown :: bool

definition local_metadata :: "node_conf \<Rightarrow> json" where
  "local_metadata N = Object [(''node_id'', String (nc_node_name N)),
     (''raft_node_id'', json_u64 (nc_node_id N)), (''http_addr'', String (nc_http_addr N)),
     (''raft_addr'', String (nc_raft_addr N))]"

definition raft_started :: "open_env \<Rightarrow> u64 \<Rightarrow> string \<Rightarrow> bool \<Rightarrow> string option" where
  "raft_started OE i raft_addr bootstrap =
     (case oe_config_error OE of
        Some err \<Rightarrow> Some err
      | None \<Rightarrow>
      case oe_raft_error OE of
        Some err \<Rightarrow> Some err
      | None \<Rightarrow>
          if \<not> bootstrap then None
          else case oe_initialized OE of
                 Inl err \<Rightarrow> Some err
               | Inr initialized \<Rightarrow> if initialized then None else oe_initialize OE i raft_addr)"

text \<open>What the raft library does to the store once it has been created is not part of the opening: its
  calls of the store are the operations of \<open>run_op\<close>, from the store that is opened here.\<close>

definition open_node ::
  "open_env \<Rightarrow> audit_env \<Rightarrow> kron_entry byte_codec \<Rightarrow> string \<Rightarrow> string \<Rightarrow> string \<Rightarrow> string \<Rightarrow> bool
   \<Rightarrow> raft_disk \<Rightarrow> string option \<Rightarrow> node res \<times> raft_disk" where
  "open_node OE U J data_dir name http_addr raft_addr bootstrap d audit_file =
     (if oe_alpha_log OE
      then (Inl (Err (IpcUnavailable
             ''alpha cluster storage requires manual migration before starting OpenRaft'')), d)
      else if oe_locked OE then (Inl (Err (DataDirLocked (data_dir @ ''/kron.lock''))), d)
      else
        let i = parse_node_id name in
        case open_store J d of
          (Inl err, d1) \<Rightarrow> (Inl (Err (IpcUnavailable (oe_show OE err))), d1)
        | (Inr store, d1) \<Rightarrow>
            (case raft_started OE i raft_addr bootstrap of
               Some err \<Rightarrow> (Inl (Err (IpcUnavailable err)), d1)
             | None \<Rightarrow>
                 (case read_last_state (au_libs U) (au_hashing U) (au_codec U) audit_file of
                    Inl err \<Rightarrow> (Inl err, d1)
                  | Inr audit_state \<Rightarrow>
                      (Inr \<lparr>nd_conf = \<lparr>nc_node_id = i, nc_node_name = name, nc_http_addr = http_addr,
                                       nc_raft_addr = raft_addr\<rparr>,
                            nd_store = store, nd_audit = audit_state, nd_shutdown = False\<rparr>, d1))))"

section \<open>Serving\<close>

text \<open>\<open>serve\<close> up to its tasks: the two listeners, then the files that tell the command line the token and the
  address.  The errors of reading and binding an address and of writing the files are given.\<close>

record serve_env =
  se_addr :: "string \<Rightarrow> string option"
  se_bind :: "string \<Rightarrow> string option"
  se_token_io :: "string option"
  se_http_io :: "string option"

record node_files =
  nf_token :: "string option"
  nf_http :: "string option"

definition listen_on :: "serve_env \<Rightarrow> string \<Rightarrow> unit res" where
  "listen_on S addr =
     (case se_addr S addr of
        Some err \<Rightarrow> Inl (Err (IpcUnavailable (''invalid socket address '' @ addr @ '': '' @ err)))
      | None \<Rightarrow> (case se_bind S addr of Some err \<Rightarrow> Inl (Err (LogIo err)) | None \<Rightarrow> Inr ()))"

definition serve_node :: "serve_env \<Rightarrow> node_conf \<Rightarrow> string \<Rightarrow> node_files \<Rightarrow> unit res \<times> node_files" where
  "serve_node S N token F =
     (case listen_on S (nc_http_addr N) of
        Inl err \<Rightarrow> (Inl err, F)
      | Inr _ \<Rightarrow>
     (case listen_on S (nc_raft_addr N) of
        Inl err \<Rightarrow> (Inl err, F)
      | Inr _ \<Rightarrow>
     (case se_token_io S of
        Some err \<Rightarrow> (Inl (Err (LogIo err)), F)
      | None \<Rightarrow>
          let F1 = F\<lparr>nf_token := write_token_file token\<rparr>
          in (case se_http_io S of
                Some err \<Rightarrow> (Inl (Err (LogIo err)), F1)
              | None \<Rightarrow> (Inr (), F1\<lparr>nf_http := Some (nc_http_addr N @ [LF])\<rparr>)))))"

section \<open>The lease task\<close>

text \<open>\<open>serve\<close> expires leases every quarter of a second until the node stops: one environment per
  turn.  Errors of a turn are ignored.\<close>

fun lease_task :: "node_conf \<Rightarrow> request_env list \<Rightarrow> state_machine \<Rightarrow> state_machine" where
  "lease_task N [] st = st"
| "lease_task N (R # Rs) st = lease_task N Rs (snd (expire_active_leases N R st))"

section \<open>Expired leases are released\<close>

lemma bt_remove_absent: "bt_get m k = None \<Longrightarrow> bt_remove k m = m"
  by (induction m) (auto simp: bt_get_def bt_remove_def bt_retain_def split: if_splits)

lemma expire_active_runs:
  "psm_active_runs (apply_expire_run_lease rid replacement st) = bt_remove (run_id_str rid) (psm_active_runs st)"
  by (auto simp: apply_expire_run_lease_def drop_active_def push_history_def set_state_def Let_def
      bt_remove_absent split: option.split)

lemma expire_loop_runs:
  assumes "\<forall>k. rq_write R k = Committed []"
  shows "expire_loop R app k actives st = (r, st') \<Longrightarrow> r = Inr () \<and>
    psm_active_runs st' = filter (\<lambda>(i, a). i \<notin> (\<lambda>b. run_id_str (pa_run_id b)) `
      {b \<in> set actives. pa_lease_deadline b \<le> rq_now R 0}) (psm_active_runs st)"
proof (induction actives arbitrary: k st)
  case (Cons a actives)
  show ?case
  proof (cases "rq_now R 0 < pa_lease_deadline a")
    case True
    then have "{b \<in> set (a # actives). pa_lease_deadline b \<le> rq_now R 0} = {b \<in> set actives. pa_lease_deadline b \<le> rq_now R 0}"
      by auto
    with True Cons show ?thesis by simp
  next
    case False
    let ?st = "apply_expire_run_lease (pa_run_id a) (lease_replacement app a) st"
    have "expire_loop R app (k + 1) actives ?st = (r, st')"
      using Cons.prems False assms by (simp add: write_command_def)
    from Cons.IH [OF this] have ih: "r = Inr ()" "psm_active_runs st' = filter (\<lambda>(i, a). i \<notin> (\<lambda>b. run_id_str (pa_run_id b)) `
      {b \<in> set actives. pa_lease_deadline b \<le> rq_now R 0}) (bt_remove (run_id_str (pa_run_id a)) (psm_active_runs st))"
      by (simp_all add: expire_active_runs)
    have "{b \<in> set (a # actives). pa_lease_deadline b \<le> rq_now R 0} = insert a {b \<in> set actives. pa_lease_deadline b \<le> rq_now R 0}"
      using False by auto
    then show ?thesis using ih
      by (auto simp: bt_remove_def bt_retain_def case_prod_unfold intro!: filter_cong)
  qed
qed (simp add: case_prod_unfold)

text \<open>C27: expired leases are released.  One turn of the lease task on the leader, with its writes
  committed, ends exactly the runs whose lease has passed: they are no longer active, every
  other run is, and the timers of the ended runs are free to be claimed again.\<close>

theorem expired_leases_released:
  assumes "committed (rq_libs R) cs st" "rv_leader (rq_view R) = Some (nc_node_id N)"
    and "\<forall>k. rq_write R k = Committed []"
  shows "\<exists>st'. expire_active_leases N R st = (Inr (), st')
    \<and> (\<forall>i a. bt_get (psm_active_runs st') i = Some a
         \<longleftrightarrow> bt_get (psm_active_runs st) i = Some a \<and> rq_now R 0 < pa_lease_deadline a)"
proof -
  let ?m = "psm_active_runs st"
  let ?E = "(\<lambda>b. run_id_str (pa_run_id b)) ` {b \<in> set (bt_values ?m). pa_lease_deadline b \<le> rq_now R 0}"
  note one = committedD(1) [OF assms(1), unfolded one_run_def]
  obtain r st' where run: "expire_loop R (app_state st) 0 (bt_values ?m) st = (r, st')" by (metis prod.exhaust)
  note res = expire_loop_runs [OF assms(3) run]
  have kept: "bt_get (psm_active_runs st') i = Some a \<longleftrightarrow> bt_get ?m i = Some a \<and> i \<notin> ?E" for i a
    using res bt_get_retain [of "\<lambda>i. i \<notin> ?E" ?m] by (simp add: bt_retain_def case_prod_unfold)
  have live: "i \<notin> ?E \<longleftrightarrow> rq_now R 0 < pa_lease_deadline a" if "bt_get ?m i = Some a" for i a
  proof -
    have "b = a" if "b \<in> set (bt_values ?m)" "run_id_str (pa_run_id b) = i" for b
      using that one \<open>bt_get ?m i = Some a\<close> by (auto simp: bt_values_def bt_get_in [symmetric])
    moreover have "a \<in> set (bt_values ?m)" "run_id_str (pa_run_id a) = i"
      using that one by (force simp: bt_values_def bt_get_in)+
    ultimately show ?thesis by force
  qed
  have "bt_get (psm_active_runs st') i = Some a \<longleftrightarrow> bt_get ?m i = Some a \<and> rq_now R 0 < pa_lease_deadline a" for i a
    using kept [of i a] live [of i a] by argo
  moreover have "expire_active_leases N R st = (Inr (), st')"
    using run res assms(2) by (simp add: expire_active_leases_def app_state_get)
  ultimately show ?thesis by blast
qed

section \<open>Restarting a node\<close>

text \<open>C29: a node restarts where it stopped.  Start on an empty directory, let the raft library call
  any sequence of operations, and let the audit log hold any chain of records.  If the lock is
  free and the raft library starts, then opening the directory again gives a node whose store
  (vote, log, state machine) and audit position are exactly those it had, whose raft identifier
  is that of its name, and whose token is the one it served with.\<close>

theorem node_restart:
  assumes "open_store J empty_raft_disk = (Inr inner, d)"
    and "list_all (\<lambda>op. list_all (wf_record J) (op_entries op)) ops"
    and "run_ops J S L ops (inner, d) = Some (inner', d')"
    and "audit_holds U al rs" "al_file al \<noteq> None"
    and "\<not> oe_alpha_log OE" "\<not> oe_locked OE" "raft_started OE (parse_node_id name) raft_addr bootstrap = None"
    and "utf8_ok (token @ [LF])" "trim (token @ [LF]) = token"
  shows "\<exists>nd. open_node OE U J data_dir name http_addr raft_addr bootstrap d' (al_file al) = (Inr nd, d')
    \<and> nd_store nd = inner' \<and> nd_audit nd = al_state al \<and> nc_node_id (nd_conf nd) = parse_node_id name
    \<and> server_token None (write_token_file token) random = Inr token"
proof -
  have "open_store J d' = (Inr inner', d')"
    using run_ops_durable [OF fresh_durable [OF assms(1)] assms(2,3)] by (simp add: durable_def)
  moreover have "read_last_state (au_libs U) (au_hashing U) (au_codec U) (al_file al) = Inr (al_state al)"
    using assms(4,5) by (auto simp: audit_holds_def unwrap_or_def intro!: read_last_state_chain)
  moreover have "server_token None (write_token_file token) random = Inr token"
    using assms(9,10) by (simp add: server_token_def write_token_file_def read_token_def)
  ultimately show ?thesis using assms(6-8) by (simp add: open_node_def)
qed

section \<open>Witnesses\<close>

theorem expired_leases_released_witness:
  "\<exists>st'. expire_active_leases sample_node (sample_request_env\<lparr>rq_now := \<lambda>_. 95000000000\<rparr>) sample_running = (Inr (), st')
    \<and> bt_get (psm_active_runs sample_running) ''r1'' \<noteq> None \<and> bt_get (psm_active_runs st') ''r1'' = None"
proof -
  let ?R = "sample_request_env\<lparr>rq_now := \<lambda>_. 95000000000\<rparr>"
  have com: "committed (rq_libs ?R) [CreateTimer sample_dspec (Some 60000000000),
      ClaimRun (TimerId ''digest'') (RunId ''r1'') ''w1'' 1 1 90000000000] sample_running"
    by (simp add: committed_def sample_running_def sample_created_def)
  obtain st' where st': "expire_active_leases sample_node ?R sample_running = (Inr (), st')"
    "\<forall>i a. bt_get (psm_active_runs st') i = Some a
       \<longleftrightarrow> bt_get (psm_active_runs sample_running) i = Some a \<and> rq_now ?R 0 < pa_lease_deadline a"
    using expired_leases_released [OF com, of sample_node] by (auto simp: sample_request_env_def sample_node_def)
  have "bt_get (psm_active_runs st') ''r1'' = None"
    using st'(2) by (cases "bt_get (psm_active_runs st') ''r1''") (auto simp: sample_running_parts bt_get_def)
  with st'(1) show ?thesis by (simp add: sample_running_parts bt_get_def)
qed

text \<open>A raft library that always starts.\<close>

definition sample_open_env :: open_env where
  "sample_open_env = \<lparr>oe_alpha_log = False, oe_locked = False, oe_config_error = None, oe_raft_error = None,
     oe_initialized = Inr True, oe_initialize = (\<lambda>_ _. None), oe_show = (\<lambda>_. [])\<rparr>"

theorem node_restart_witness:
  "\<exists>d nd d'. open_store index_codec empty_raft_disk = (Inr fresh_store, d)
    \<and> run_ops index_codec no_snapshots minute_libs [AppendLog [blank_entry 1, blank_entry 2]] (fresh_store, d)
        = Some (nd_store nd, d')
    \<and> open_node sample_open_env sample_audit_env index_codec ''data'' ''node7'' ''h'' ''r'' True d' (Some []) = (Inr nd, d')
    \<and> nd_audit nd = \<lparr>as_seq = 0, as_hash = []\<rparr>"
proof -
  obtain d where d: "open_store index_codec empty_raft_disk = (Inr fresh_store, d)" using open_empty by blast
  let ?ops = "[AppendLog [blank_entry 1, blank_entry 2]]"
  have wf: "list_all (\<lambda>op. list_all (wf_record index_codec) (op_entries op)) ?ops" by (simp add: wf_blank)
  obtain inner' d' where run: "run_ops index_codec no_snapshots minute_libs ?ops (fresh_store, d) = Some (inner', d')"
    by (metis run_ops.simps run_op.simps(3) bind.bind_lunit prod.exhaust)
  let ?al = "\<lparr>al_state = \<lparr>as_seq = 0, as_hash = []\<rparr>, al_file = Some []\<rparr>"
  have al: "audit_holds sample_audit_env ?al []"
    by (simp add: audit_holds_def last_audit_state_def log_file_def)
  have st: "raft_started sample_open_env (parse_node_id ''node7'') ''r'' True = None"
    by (simp add: raft_started_def sample_open_env_def)
  have utf8: "utf8_ok (''ab'' @ [LF])" by (rule utf8_ascii) (simp add: ascii_def)
  have tok: "trim (''ab'' @ [LF]) = ''ab''" by (rule trim_LF) (simp_all add: graphic_def)
  have "\<exists>nd. open_node sample_open_env sample_audit_env index_codec ''data'' ''node7'' ''h'' ''r'' True d' (al_file ?al) = (Inr nd, d')
      \<and> nd_store nd = inner' \<and> nd_audit nd = al_state ?al \<and> nc_node_id (nd_conf nd) = parse_node_id ''node7''
      \<and> server_token None (write_token_file ''ab'') (Inl []) = Inr ''ab''"
    by (rule node_restart [OF d wf run al _ _ _ st utf8 tok]) (simp_all add: sample_open_env_def)
  with d run show ?thesis by auto
qed

end
