(* ===== verification/Kron_Raft_Cluster.thy ===== *)
theory Kron_Raft_Cluster
  imports Kron_Node
begin

text \<open>
  A cluster of nodes over one agreed log: every node has the store of file_store.rs, the raft
  library (openraft, outside the repository) decides which entries are committed and in which
  order and calls the store, snapshots travel between the nodes, and a node may be restarted
  from its directory at any time between two calls.  What the library promises is the form of
  the steps: the log is numbered from 0 and only grows, a node applies the entries that follow
  the last one it applied, and a node installs only snapshots that a node has built.  Shown: in
  every state that the cluster can reach, the nodes agree, and a node that is behind catches up through
  its own log.
\<close>

section \<open>Replicas of a numbered log\<close>

text \<open>The contract between a log and a machine that executes it: executing a list piece by piece
  is executing it whole, and the position of a machine is the number of the entry after the last
  one executed.\<close>

locale log_replica =
  fixes run :: "'e list \<Rightarrow> 's \<Rightarrow> 'f + 's"
    and start :: 's
    and pos :: "'s \<Rightarrow> nat"
    and num :: "'e \<Rightarrow> nat"
  assumes run_nil: "run [] s = Inr s"
    and run_append: "run (es @ fs) s = (case run es s of Inl f \<Rightarrow> Inl f | Inr t \<Rightarrow> run fs t)"
    and pos_start: "pos start = 0"
    and pos_run: "run es s = Inr t \<Longrightarrow> es \<noteq> [] \<Longrightarrow> pos t = Suc (num (last es))"
begin

definition numbered :: "'e list \<Rightarrow> bool" where
  "numbered log \<longleftrightarrow> (\<forall>k < length log. num (log ! k) = k)"

definition replica :: "'e list \<Rightarrow> 's \<Rightarrow> bool" where
  "replica log s \<longleftrightarrow> pos s \<le> length log \<and> run (take (pos s) log) start = Inr s"

lemma numbered_extend: "numbered log \<Longrightarrow> num e = length log \<Longrightarrow> numbered (log @ [e])"
  by (auto simp: numbered_def nth_append less_Suc_eq)

lemma replica_start: "replica log start"
  by (simp add: replica_def pos_start run_nil)

lemma replica_extend: "replica log s \<Longrightarrow> replica (log @ [e]) s"
  by (simp add: replica_def)

lemma replica_next:
  assumes "numbered log" "replica log s" "run (take k (drop (pos s) log)) s = Inr t"
  shows "replica log t \<and> pos t = min (pos s + k) (length log)"
proof (cases "take k (drop (pos s) log) = []")
  case True
  then show ?thesis using assms by (auto simp: run_nil replica_def)
next
  case False
  let ?es = "take k (drop (pos s) log)" and ?n = "min (pos s + k) (length log)"
  have split: "take ?n log = take (pos s) log @ ?es"
    using take_add [of "pos s" k log] by (simp add: min_def)
  have n: "0 < length ?es" "pos s + length ?es = ?n" using False assms(2) by (auto simp: replica_def)
  have "last ?es = log ! (?n - 1)" using n
    by (simp add: last_conv_nth) (subst nth_take, auto simp: min_def nth_drop)
  moreover have "num (log ! (?n - 1)) = ?n - 1" 
    using n assms(1) by (auto simp: numbered_def min_def)
  ultimately have "pos t = ?n" using pos_run [OF assms(3) False] n(1) unfolding n(2) [symmetric] by simp
  then show ?thesis using assms(2,3) by (simp add: replica_def split run_append)
qed

text \<open>Two replicas of one log differ by the entries between their positions, and by nothing
  else.\<close>

lemma replica_between:
  assumes "replica log s" "replica log t" "pos s \<le> pos t"
  shows "run (drop (pos s) (take (pos t) log)) s = Inr t"
proof -
  have "take (pos t) log = take (pos s) log @ drop (pos s) (take (pos t) log)"
    using assms(3) by (metis append_take_drop_id take_take min.absorb1)
  then have "run (take (pos t) log) start = run (drop (pos s) (take (pos t) log)) s"
    using assms(1) run_append [of "take (pos s) log" "drop (pos s) (take (pos t) log)" start]
    by (simp add: replica_def)
  then show ?thesis using assms(2) by (simp add: replica_def)
qed

end

section \<open>The state machine as a replica\<close>

text \<open>The number of entries a machine has applied, from the log identifier it keeps.\<close>

definition applied_count :: "state_machine \<Rightarrow> nat" where
  "applied_count sm = (case psm_last_applied_log_id sm of None \<Rightarrow> 0 | Some lid \<Rightarrow> Suc (unat (lid_index lid)))"

lemma applied_helpers [simp]:
  "psm_last_applied_log_id (push_history e st) = psm_last_applied_log_id st"
  "psm_last_applied_log_id (set_state tid ts st) = psm_last_applied_log_id st"
  "psm_last_applied_log_id (set_next_run k n st) = psm_last_applied_log_id st"
  "psm_last_applied_log_id (drop_active rid st) = psm_last_applied_log_id st"
  by (simp_all add: push_history_def set_state_def set_next_run_def drop_active_def)

lemma reschedule_applied:
  "reschedule_timer L tid after st = Inr st' \<Longrightarrow> psm_last_applied_log_id st' = psm_last_applied_log_id st"
  by (auto simp: reschedule_timer_def split: option.splits if_splits sum.splits fault.splits)

lemma command_keeps_applied:
  "apply_kron_command L c st = Inr st' \<Longrightarrow> psm_last_applied_log_id st' = psm_last_applied_log_id st"
  by (cases c)
    (auto simp: apply_create_timer_def apply_cancel_timer_def apply_pause_timer_def apply_resume_timer_def
       apply_claim_run_def apply_complete_run_def apply_fail_run_def apply_expire_run_lease_def
       apply_heartbeat_worker_def apply_register_worker_def Let_def
       split: option.splits if_splits sum.splits dest!: reschedule_applied)

lemma entry_applied: "apply_entry L e st = Inr st' \<Longrightarrow> psm_last_applied_log_id st' = Some (ent_log_id e)"
  by (cases "ent_payload e") (auto simp: apply_entry_def Let_def dest: command_keeps_applied)

lemma entries_applied:
  "apply_entries L es st = Inr st' \<Longrightarrow> es \<noteq> [] \<Longrightarrow> psm_last_applied_log_id st' = Some (ent_log_id (last es))"
  by (induction es arbitrary: st) (auto split: sum.splits dest: entry_applied)

interpretation sm: log_replica "apply_entries L" default_state_machine applied_count "\<lambda>e. unat (index_of e)" for L
  by unfold_locales
    (auto simp: apply_entries_append applied_count_def default_state_machine_def dest: entries_applied)

section \<open>The cluster\<close>

record raft_cluster =
  rc_log :: "kron_entry list"
  rc_nodes :: "u64 \<Rightarrow> store_state"
  rc_snapshots :: "(snapshot_meta \<times> u8 list) list"

definition machine :: "raft_cluster \<Rightarrow> u64 \<Rightarrow> state_machine" where
  "machine c i = prs_state_machine (fst (rc_nodes c i))"

definition set_node :: "u64 \<Rightarrow> store_state \<Rightarrow> raft_cluster \<Rightarrow> raft_cluster" where
  "set_node i st c = c\<lparr>rc_nodes := (rc_nodes c)(i := st)\<rparr>"

text \<open>The operations that only touch the vote, the committed mark and the log of a node.\<close>

fun log_only :: "store_op \<Rightarrow> bool" where
  "log_only (ApplyLog _) = False"
| "log_only (InstallSnapshot _ _) = False"
| "log_only _ = True"

inductive cluster_step ::
  "kron_entry byte_codec \<Rightarrow> state_machine byte_codec \<Rightarrow> libs \<Rightarrow> raft_cluster \<Rightarrow> raft_cluster \<Rightarrow> bool"
  for J :: "kron_entry byte_codec" and S :: "state_machine byte_codec" and L :: libs where
  commit: "unat (index_of e) = length (rc_log c) \<Longrightarrow>
     cluster_step J S L c (c\<lparr>rc_log := rc_log c @ [e]\<rparr>)"
| log: "log_only op \<Longrightarrow> list_all (wf_record J) (op_entries op) \<Longrightarrow>
     run_op J S L op (rc_nodes c i) = Some st \<Longrightarrow> cluster_step J S L c (set_node i st c)"
| execute: "run_op J S L (ApplyLog (take k (drop (applied_count (machine c i)) (rc_log c)))) (rc_nodes c i) = Some st \<Longrightarrow>
     cluster_step J S L c (set_node i st c)"
| build: "build_snapshot S (fst (rc_nodes c i)) = Inr snapshot \<Longrightarrow>
     cluster_step J S L c (c\<lparr>rc_snapshots := snapshot # rc_snapshots c\<rparr>)"
| install: "(meta, bytes) \<in> set (rc_snapshots c) \<Longrightarrow>
     run_op J S L (InstallSnapshot meta bytes) (rc_nodes c i) = Some st \<Longrightarrow>
     cluster_step J S L c (set_node i st c)"
| restart: "open_store J (snd (rc_nodes c i)) = (Inr inner, d) \<Longrightarrow>
     cluster_step J S L c (set_node i (inner, d) c)"

inductive cluster_reach ::
  "kron_entry byte_codec \<Rightarrow> state_machine byte_codec \<Rightarrow> libs \<Rightarrow> raft_cluster \<Rightarrow> bool"
  for J :: "kron_entry byte_codec" and S :: "state_machine byte_codec" and L :: libs where
  fresh: "\<forall>i. open_store J empty_raft_disk = (Inr (fst (nodes i)), snd (nodes i)) \<Longrightarrow>
     cluster_reach J S L \<lparr>rc_log = [], rc_nodes = nodes, rc_snapshots = []\<rparr>"
| step: "cluster_reach J S L c \<Longrightarrow> cluster_step J S L c c' \<Longrightarrow> cluster_reach J S L c'"

text \<open>What serde promises of the type of the state machine: what was serialised is read back.\<close>

definition reads_back :: "'a byte_codec \<Rightarrow> bool" where
  "reads_back S \<longleftrightarrow> (\<forall>v bytes. to_vec S v = Inr bytes \<longrightarrow> from_slice S bytes = Inr v)"

text \<open>The invariant: the log is numbered, every node is durable and a replica of the log, and
  every snapshot on the way holds a replica with its own position and membership.\<close>

definition snapshot_ok :: "state_machine byte_codec \<Rightarrow> libs \<Rightarrow> kron_entry list \<Rightarrow> snapshot_meta \<times> u8 list \<Rightarrow> bool" where
  "snapshot_ok S L es snapshot \<longleftrightarrow> (\<exists>sm. from_slice S (snd snapshot) = Inr sm \<and> sm.replica L es sm
     \<and> sn_last_log_id (fst snapshot) = psm_last_applied_log_id sm
     \<and> sn_last_membership (fst snapshot) = psm_last_membership sm)"

definition cluster_inv :: "kron_entry byte_codec \<Rightarrow> state_machine byte_codec \<Rightarrow> libs \<Rightarrow> raft_cluster \<Rightarrow> bool" where
  "cluster_inv J S L c \<longleftrightarrow> sm.numbered (rc_log c)
     \<and> (\<forall>i. durable J (rc_nodes c i) \<and> sm.replica L (rc_log c) (machine c i))
     \<and> (\<forall>s \<in> set (rc_snapshots c). snapshot_ok S L (rc_log c) s)"

lemma cluster_invD:
  assumes "cluster_inv J S L c"
  shows "sm.numbered (rc_log c)" "durable J (rc_nodes c i)" "sm.replica L (rc_log c) (machine c i)"
    "s \<in> set (rc_snapshots c) \<Longrightarrow> snapshot_ok S L (rc_log c) s"
  using assms by (auto simp: cluster_inv_def)

lemma set_node_inv:
  "cluster_inv J S L c \<Longrightarrow> durable J st \<Longrightarrow> sm.replica L (rc_log c) (prs_state_machine (fst st)) \<Longrightarrow>
     cluster_inv J S L (set_node i st c)"
  by (auto simp: cluster_inv_def set_node_def machine_def)

lemma log_only_machine:
  "log_only op \<Longrightarrow> run_op J S L op st = Some st' \<Longrightarrow> prs_state_machine (fst st') = prs_state_machine (fst st)"
  by (cases op) (auto simp: save_vote_def save_committed_def append_entries_def truncate_log_def
      purge_log_def persisting_def case_prod_beta)

lemma execute_machine:
  "run_op J S L (ApplyLog es) st = Some st' \<Longrightarrow>
     apply_entries L es (prs_state_machine (fst st)) = Inr (prs_state_machine (fst st'))"
  by (auto simp: apply_batch_def persisting_def case_prod_beta split: sum.splits prod.splits)

lemma build_ok:
  assumes "reads_back S" "build_snapshot S inner = Inr snapshot" "sm.replica L es (prs_state_machine inner)"
  shows "snapshot_ok S L es snapshot"
  using assms by (auto simp: build_snapshot_def get_current_snapshot_def Let_def reads_back_def snapshot_ok_def
      split: sum.splits option.splits)

lemma install_machine:
  assumes "snapshot_ok S L es (meta, bytes)" "run_op J S L (InstallSnapshot meta bytes) st = Some st'"
  shows "sm.replica L es (prs_state_machine (fst st'))"
  using assms by (auto simp: snapshot_ok_def install_snapshot_def persisting_def case_prod_beta)

lemma snapshot_extend: "snapshot_ok S L es s \<Longrightarrow> snapshot_ok S L (es @ [e]) s"
  unfolding snapshot_ok_def using sm.replica_extend by blast

lemma cluster_step_inv:
  assumes "reads_back S" "cluster_step J S L c c'" "cluster_inv J S L c"
  shows "cluster_inv J S L c'"
  using assms(2)
proof cases
  case (commit e)
  then show ?thesis using assms(3)
    by (auto simp: cluster_inv_def machine_def sm.numbered_extend sm.replica_extend snapshot_extend)
next
  case (log op i st)
  have "sm.replica L (rc_log c) (prs_state_machine (fst st))"
    using log_only_machine [OF log(2,4)] cluster_invD(3) [OF assms(3), of i] by (simp add: machine_def)
  with log run_op_durable [OF cluster_invD(2) [OF assms(3)] log(3,4)] assms(3) show ?thesis
    by (simp add: set_node_inv)
next
  case (execute k i st)
  have "sm.replica L (rc_log c) (prs_state_machine (fst st))"
    using sm.replica_next [OF cluster_invD(1,3) [OF assms(3)] execute_machine [OF execute(2), folded machine_def]]
    by (rule conjunct1)
  with execute run_op_durable [OF cluster_invD(2) [OF assms(3)] _ execute(2)] assms(3) show ?thesis
    by (simp add: set_node_inv)
next
  case (build i snapshot)
  then show ?thesis
    using build_ok [OF assms(1) build(2)] cluster_invD [OF assms(3)] assms(3)
    by (auto simp: cluster_inv_def machine_def)
next
  case (install meta bytes i st)
  with install_machine [OF cluster_invD(4) [OF assms(3) install(2)] install(3)]
    run_op_durable [OF cluster_invD(2) [OF assms(3)] _ install(3)] assms(3) show ?thesis
    by (simp add: set_node_inv)
next
  case (restart i inner d)
  have "(inner, d) = rc_nodes c i"
    using restart(2) cluster_invD(2) [OF assms(3), of i] by (auto simp: durable_def)
  with restart(1) cluster_invD(2,3) [OF assms(3)] assms(3) show ?thesis
    by (simp add: set_node_inv machine_def)
qed

lemma cluster_reach_inv: "cluster_reach J S L c \<Longrightarrow> reads_back S \<Longrightarrow> cluster_inv J S L c"
proof (induction rule: cluster_reach.induct)
  case (fresh nodes)
  then have "durable J (nodes i)" "prs_state_machine (fst (nodes i)) = default_state_machine" for i
    using fresh_durable [of J "fst (nodes i)" "snd (nodes i)"] open_empty [of J] by (auto simp: fresh_store_def)
  then show ?case by (simp add: cluster_inv_def machine_def sm.replica_start sm.numbered_def)
qed (rule cluster_step_inv)

section \<open>The nodes agree\<close>

text \<open>C6: the nodes of a cluster agree.  Whatever the nodes store, apply, snapshot and install, in
  whatever order and however often they are restarted, the state machine of every node is the
  result of applying a prefix of the agreed log to the empty machine; of two nodes, the one that
  is ahead is the other one after the entries in between, so nodes that have applied equally many
  entries have equal machines; and every directory opens as the store that its node has in
  memory.\<close>

theorem replicas_agree:
  assumes "cluster_reach J S L c" "reads_back S"
  shows "apply_entries L (take (applied_count (machine c i)) (rc_log c)) default_state_machine = Inr (machine c i)
    \<and> (applied_count (machine c i) \<le> applied_count (machine c j) \<longrightarrow>
         apply_entries L (drop (applied_count (machine c i)) (take (applied_count (machine c j)) (rc_log c))) (machine c i)
           = Inr (machine c j))
    \<and> (applied_count (machine c i) = applied_count (machine c j) \<longrightarrow> machine c i = machine c j)
    \<and> open_store J (snd (rc_nodes c i)) = (Inr (fst (rc_nodes c i)), snd (rc_nodes c i))"
proof -
  note inv = cluster_invD [OF cluster_reach_inv [OF assms]]
  note between = sm.replica_between [OF inv(3) inv(3)]
  have "machine c i = machine c j" if "applied_count (machine c i) = applied_count (machine c j)"
    using between [of i j] that by simp
  then show ?thesis using inv(2,3) between by (auto simp: durable_def sm.replica_def)
qed

section \<open>A node catches up\<close>

lemma execute_possible:
  assumes "durable J st" "apply_entries L es (prs_state_machine (fst st)) = Inr sm"
  shows "\<exists>st'. run_op J S L (ApplyLog es) st = Some st' \<and> prs_state_machine (fst st') = sm"
proof -
  have "store_ok J ((fst st)\<lparr>prs_state_machine := sm\<rparr>)" "\<not> rd_legacy (snd st)"
    using assms(1) by (simp_all add: durable_def store_ok_def)
  note p = persisting_durable [OF this]
  then show ?thesis using assms(2) by (auto simp: apply_batch_def case_prod_beta split: prod.splits)
qed

lemma strictly_sorted_unique:
  fixes f :: "'a \<Rightarrow> 'b::linorder"
  assumes "sorted_wrt (<) (map f xs)" "sorted_wrt (<) (map f ys)" "set xs = set ys"
  shows "xs = ys"
proof (rule map_inj_on)
  show "map f xs = map f ys" using strict_sorted_equal [OF assms(1,2)] assms(3) by simp
  show "inj_on f (set xs \<union> set ys)"
    using assms(1,3) by (metis Un_absorb distinct_map strict_sorted_iff)
qed

text \<open>The part of the log that a node has not applied is numbered upwards from its position.\<close>

lemma missing_sorted:
  assumes "sm.numbered es"
  shows "sorted_wrt (<) (map index_of (drop n es))"
    "e \<in> set (drop n es) \<Longrightarrow> index_of (hd (drop n es)) \<le> index_of e"
proof -
  have num: "unat (index_of (es ! k)) = k" if "k < length es" for k using assms that by (simp add: sm.numbered_def)
  show sorted: "sorted_wrt (<) (map index_of (drop n es))"
    by (auto simp: sorted_wrt_iff_nth_less num word_less_nat_alt)
  show "e \<in> set (drop n es) \<Longrightarrow> index_of (hd (drop n es)) \<le> index_of e"
    using sorted by (cases "drop n es") (auto intro: less_imp_le)
qed

lemma find_sorted_index:
  fixes f :: "'a \<Rightarrow> 'b::linorder"
  assumes "sorted_wrt (<) (map f es)"
  shows "List.find (\<lambda>e. f e = i) (rev es) = Some e \<longleftrightarrow> e \<in> set es \<and> f e = i"
  using assms
proof (induction es rule: rev_induct)
  case (snoc x es)
  then show ?case by (auto simp: sorted_wrt_append)
qed simp

text \<open>After the conflicting end of its log was cut off and the missing entries were appended, a node
  reads back exactly these entries.\<close>

lemma appended_read_back:
  assumes "durable J st" "sm.numbered es" "list_all (wf_record J) es" "drop n es \<noteq> []"
    and "run_op J S L (TruncateLog (ent_log_id (hd (drop n es)))) st = Some st1"
    and "run_op J S L (AppendLog (drop n es)) st1 = Some st2"
  shows "durable J st2" "prs_state_machine (fst st2) = prs_state_machine (fst st)"
    "try_get_log_entries (Included (index_of (hd (drop n es)))) Unbounded (fst st2) = drop n es"
proof -
  let ?es = "drop n es" and ?lo = "index_of (hd (drop n es))"
  have wf: "list_all (wf_record J) ?es" using assms(3) by (auto simp: list_all_iff dest: in_set_dropD)
  have st1: "durable J st1" by (rule run_op_durable [OF assms(1) _ assms(5)]) simp
  show st2: "durable J st2" by (rule run_op_durable [OF st1 _ assms(6)]) (simp add: wf)
  show "prs_state_machine (fst st2) = prs_state_machine (fst st)"
    using log_only_machine [OF _ assms(5)] log_only_machine [OF _ assms(6)] by simp
  note sorted = missing_sorted(1) [OF assms(2)]
  have ok: "store_ok J (fst st)" "store_ok J (fst st1)" "store_ok J (fst st2)"
    using assms(1) st1 st2 by (simp_all add: durable_def)
  have "bt_get (prs_logs (fst st2)) i = Some e \<longleftrightarrow> e \<in> set ?es \<and> index_of e = i" if "?lo \<le> i" for i e
  proof -
    have "bt_get (prs_logs (fst st1)) i = None"
      using log_operations_correct [OF ok(1), where lid = "ent_log_id (hd ?es)" and i = i] assms(5) that by auto
    then have "bt_get (prs_logs (fst st2)) i = List.find (\<lambda>e. index_of e = i) (rev ?es)"
      using log_operations_correct [OF ok(2), where es = ?es and i = i] assms(6) by (auto split: option.split)
    then show ?thesis using find_sorted_index [OF sorted] by simp
  qed
  moreover have "set (try_get_log_entries (Included ?lo) Unbounded (fst st2))
      = {e. \<exists>j. bt_get (prs_logs (fst st2)) j = Some e \<and> contains (Included ?lo) Unbounded j}"
    using log_operations_correct [OF ok(3), where lo = "Included ?lo" and hi = Unbounded] by blast
  ultimately have "set (try_get_log_entries (Included ?lo) Unbounded (fst st2)) = set ?es"
    using missing_sorted(2) [OF assms(2), of _ n] by (simp add: contains_def) blast
  moreover have "sorted_wrt (<) (map index_of (try_get_log_entries (Included ?lo) Unbounded (fst st2)))"
    using log_operations_correct [OF ok(3), where lo = "Included ?lo" and hi = Unbounded] by blast
  ultimately show "try_get_log_entries (Included ?lo) Unbounded (fst st2) = ?es"
    using strictly_sorted_unique sorted by blast
qed

text \<open>C28: a node that is behind catches up through its own log.  Take a state that the cluster can reach
  in which every entry of the agreed log can be serialised and the log executes without a panic, and a
  node that has not applied all of it, whatever its own log holds.  Let the raft library cut off the
  log of the node where the missing entries begin, append these and have the node apply what it then
  reads from its log: the node reads exactly the missing entries, also after a restart in between,
  its machine is then that of the whole agreed log, its directory opens as the store in memory, and
  the cluster is again in a reachable state.\<close>

theorem replica_catches_up:
  assumes "cluster_reach J S L c" "reads_back S" "list_all (wf_record J) (rc_log c)"
    and "apply_entries L (rc_log c) default_state_machine = Inr sm"
    and "missing = drop (applied_count (machine c i)) (rc_log c)" "missing \<noteq> []"
  shows "\<exists>st1 st2 st3. run_op J S L (TruncateLog (ent_log_id (hd missing))) (rc_nodes c i) = Some st1
    \<and> run_op J S L (AppendLog missing) st1 = Some st2
    \<and> open_store J (snd st2) = (Inr (fst st2), snd st2)
    \<and> try_get_log_entries (Included (index_of (hd missing))) Unbounded (fst st2) = missing
    \<and> run_op J S L (ApplyLog (try_get_log_entries (Included (index_of (hd missing))) Unbounded (fst st2))) st2 = Some st3
    \<and> prs_state_machine (fst st3) = sm
    \<and> open_store J (snd st3) = (Inr (fst st3), snd st3)
    \<and> cluster_reach J S L (set_node i st3 c)"
proof -
  note inv = cluster_invD [OF cluster_reach_inv [OF assms(1,2)]]
  obtain st1 where st1: "run_op J S L (TruncateLog (ent_log_id (hd missing))) (rc_nodes c i) = Some st1" by simp
  obtain st2 where st2: "run_op J S L (AppendLog missing) st1 = Some st2" by simp
  note again = appended_read_back [OF inv(2) inv(1) assms(3) _ st1 [unfolded assms(5)] st2 [unfolded assms(5)],
      folded assms(5), OF assms(6)]
  have "apply_entries L missing (machine c i) = Inr sm"
    using assms(4,5) inv(3) [of i] apply_entries_append [of L "take (applied_count (machine c i)) (rc_log c)" missing]
    by (simp add: sm.replica_def)
  then obtain st3 where st3: "run_op J S L (ApplyLog missing) st2 = Some st3" "prs_state_machine (fst st3) = sm"
    using execute_possible [OF again(1)] again(2) unfolding machine_def by metis
  have durable3: "durable J st3" by (rule run_op_durable [OF again(1) _ st3(1)]) simp
  have wf: "list_all (wf_record J) missing" using assms(3,5) by (auto simp: list_all_iff dest: in_set_dropD)
  let ?c1 = "set_node i st1 c" and ?c2 = "set_node i st2 (set_node i st1 c)"
  have "cluster_reach J S L ?c1" by (rule cluster_reach.step [OF assms(1) log [OF _ _ st1]]) simp_all
  moreover have "cluster_step J S L ?c1 ?c2"
    by (rule log [where op = "AppendLog missing"]) (use st2 wf in \<open>simp_all add: set_node_def\<close>)
  moreover have "cluster_step J S L ?c2 (set_node i st3 ?c2)"
    by (rule execute [where k = "length missing"])
      (use st3(1) again(2) assms(5) in \<open>simp add: set_node_def machine_def\<close>)
  ultimately have "cluster_reach J S L (set_node i st3 ?c2)" by (blast intro: cluster_reach.step)
  moreover have "set_node i st3 ?c2 = set_node i st3 c" by (simp add: set_node_def)
  ultimately have "cluster_reach J S L (set_node i st3 c)" by simp
  moreover have "open_store J (snd st2) = (Inr (fst st2), snd st2)" "open_store J (snd st3) = (Inr (fst st3), snd st3)"
    using again(1) durable3 by (simp_all add: durable_def)
  ultimately show ?thesis using st1 st2 st3
    by (intro exI [of _ st1] exI [of _ st2] exI [of _ st3]) (simp only: again(3) simp_thms)
qed

section \<open>The owner of a run\<close>

text \<open>The run that an entry claims.\<close>

definition entry_run :: "kron_entry \<Rightarrow> persisted_active_run option" where
  "entry_run e =
     (case ent_payload e of
        Normal request \<Rightarrow>
          (case krq_command request of
             ClaimRun tid rid worker token attempt deadline \<Rightarrow>
               Some \<lparr>pa_timer_id = tid, pa_run_id = rid, pa_worker_id = worker, pa_fencing_token = token,
                     pa_attempt = attempt, pa_lease_deadline = deadline\<rparr>
           | _ \<Rightarrow> None)
      | _ \<Rightarrow> None)"

lemma set_bt_remove: "set (bt_remove k m) \<subseteq> set m"
  by (auto simp: bt_remove_def bt_retain_def)

lemma command_runs:
  assumes "apply_kron_command L c st = Inr st'"
  shows "set (psm_active_runs st') \<subseteq> set (psm_active_runs st)
    \<or> (\<exists>tid rid worker token attempt deadline. c = ClaimRun tid rid worker token attempt deadline
         \<and> psm_active_runs st' = bt_insert (run_id_str rid) \<lparr>pa_timer_id = tid, pa_run_id = rid, pa_worker_id = worker,
             pa_fencing_token = token, pa_attempt = attempt, pa_lease_deadline = deadline\<rparr> (psm_active_runs st))"
proof (cases c)
  case (CompleteRun rid worker token now)
  then show ?thesis
    using assms
    by (auto simp: apply_complete_run_def Let_def split: option.splits sum.splits
        dest!: reschedule_runs dest: set_bt_remove [THEN subsetD])
next
  case (FailRun rid worker token err now)
  then show ?thesis using assms
    by (auto simp: apply_fail_run_def Let_def split: option.splits dest: set_bt_remove [THEN subsetD])
next
  case (ExpireRunLease rid replacement now)
  then show ?thesis using assms
    by (auto simp: apply_expire_run_lease_def Let_def split: option.splits dest: set_bt_remove [THEN subsetD])
next
  case (ClaimRun tid rid worker token attempt deadline)
  then show ?thesis
    using assms by (cases "list_ex (\<lambda>r. pa_timer_id r = tid) (bt_values (psm_active_runs st))")
      (auto simp: apply_claim_run_def Let_def)
qed (use assms in \<open>auto simp: apply_create_timer_def apply_cancel_timer_def apply_pause_timer_def
      apply_resume_timer_def apply_heartbeat_worker_def apply_register_worker_def Let_def\<close>)

lemma entry_runs:
  assumes "apply_entry L e st = Inr st'" "(k, a) \<in> set (psm_active_runs st')"
  shows "(k, a) \<in> set (psm_active_runs st) \<or> entry_run e = Some a"
proof (cases "ent_payload e")
  case (Normal request)
  with assms show ?thesis
    using command_runs [of L "krq_command request" "st\<lparr>psm_last_applied_log_id := Some (ent_log_id e)\<rparr>" st']
      set_bt_insert by (fastforce simp: apply_entry_def entry_run_def)
qed (use assms in \<open>auto simp: apply_entry_def\<close>)

lemma active_run_claimed:
  "apply_entries L es st = Inr st' \<Longrightarrow> (k, a) \<in> set (psm_active_runs st') \<Longrightarrow>
     (k, a) \<in> set (psm_active_runs st) \<or> (\<exists>e \<in> set es. entry_run e = Some a)"
  by (induction es arbitrary: st) (auto split: sum.splits dest: entry_runs)

lemma node_run_claimed:
  assumes "cluster_inv J S L c" "bt_get (psm_active_runs (machine c i)) k = Some a"
  shows "run_id_str (pa_run_id a) = k \<and> (\<exists>e \<in> set (rc_log c). entry_run e = Some a)"
proof -
  note run = cluster_invD(3) [OF assms(1), of i, unfolded sm.replica_def, THEN conjunct2]
  have "(k, a) \<in> set (psm_active_runs (machine c i))" using bt_get_SomeD [OF assms(2)] .
  then have "\<exists>e \<in> set (rc_log c). entry_run e = Some a"
    using active_run_claimed [OF run] set_take_subset by (fastforce simp: default_state_machine_def)
  moreover have "run_id_str (pa_run_id a) = k"
    using one.from_default [OF run] assms(2) by (auto simp: one_run_def)
  ultimately show ?thesis by blast
qed

text \<open>C17: the nodes never disagree on the owner of a run.  If every claim of the agreed log has a run
  identifier of its own, as generated identifiers have, then a run that is active on two nodes, at
  whatever positions of the log they are, has the same timer, worker, fencing token and lease
  there, namely those of the one claim of the log that names it; and two runs of one timer are
  never active on one node.\<close>

theorem run_owner_agreed:
  assumes "cluster_reach J S L c" "reads_back S"
    and "\<forall>e \<in> set (rc_log c). \<forall>e' \<in> set (rc_log c). \<forall>a a'. entry_run e = Some a \<longrightarrow> entry_run e' = Some a'
           \<longrightarrow> pa_run_id a = pa_run_id a' \<longrightarrow> a = a'"
    and "bt_get (psm_active_runs (machine c i)) k = Some a"
  shows "(\<exists>e \<in> set (rc_log c). entry_run e = Some a \<and> run_id_str (pa_run_id a) = k)
    \<and> (\<forall>b. bt_get (psm_active_runs (machine c j)) k = Some b \<longrightarrow> b = a)
    \<and> (\<forall>k' b. bt_get (psm_active_runs (machine c i)) k' = Some b \<longrightarrow> pa_timer_id b = pa_timer_id a \<longrightarrow> k' = k)"
proof -
  note inv = cluster_reach_inv [OF assms(1,2)]
  note a = node_run_claimed [OF inv assms(4)]
  have "b = a" if b: "bt_get (psm_active_runs (machine c j)) k = Some b" for b
  proof -
    have "pa_run_id b = pa_run_id a" using node_run_claimed [OF inv b] a by (metis run_id.expand)
    then show ?thesis using assms(3) node_run_claimed [OF inv b] a by metis
  qed
  moreover have "one_run (psm_active_runs (machine c i))"
    using one.from_default [OF cluster_invD(3) [OF inv, of i, unfolded sm.replica_def, THEN conjunct2]] by simp
  ultimately show ?thesis using a assms(4) by (auto simp: one_run_def)
qed

section \<open>Witnesses\<close>

text \<open>A codec for the machine of the sample entries alone, and a cluster that agreed on these
  entries, in which node 1 applied them all and node 2 installed its snapshot.\<close>

definition machine_codec :: "state_machine byte_codec" where
  "machine_codec = \<lparr>to_vec = (\<lambda>sm. if sm = sample_machine then Inr [1] else Inl ''refused''),
     from_slice = (\<lambda>_. Inr sample_machine)\<rparr>"

definition sample_log :: "kron_entry list" where
  "sample_log = blank_entry 0 # sample_claims"

lemma machine_codec_reads_back: "reads_back machine_codec"
  by (simp add: reads_back_def machine_codec_def)

lemma sample_log_applied: "apply_entries minute_libs sample_log default_state_machine = Inr sample_machine"
  using sample_applied
  by (simp add: sample_log_def sample_claims_def sample_entry_def blank_entry_def apply_entry_def
      default_state_machine_def)

lemma commit_all:
  "cluster_reach J S L c \<Longrightarrow> rc_log c = take n es \<Longrightarrow> n \<le> length es \<Longrightarrow>
     (\<forall>k < length es. unat (index_of (es ! k)) = k) \<Longrightarrow>
     cluster_reach J S L (c\<lparr>rc_log := es\<rparr>)"
proof (induction "length es - n" arbitrary: n c)
  case 0
  then have "c\<lparr>rc_log := es\<rparr> = c" by (cases c) simp
  with 0(2) show ?case by metis
next
  case (Suc m)
  then have "n < length es" by simp
  then have "cluster_step J S L c (c\<lparr>rc_log := rc_log c @ [es ! n]\<rparr>)"
    using Suc.prems by (intro commit) simp
  from Suc.hyps(1) [OF _ cluster_reach.step [OF Suc.prems(1) this], of "Suc n"] show ?case
    using Suc.hyps(2) Suc.prems \<open>n < length es\<close> by (simp add: take_Suc_conv_app_nth)
qed

lemma sample_committed:
  "\<exists>c. cluster_reach index_codec machine_codec minute_libs c \<and> rc_log c = sample_log
    \<and> (\<forall>i. machine c i = default_state_machine) \<and> (\<forall>i. durable index_codec (rc_nodes c i))"
proof -
  obtain d where d: "open_store index_codec empty_raft_disk = (Inr fresh_store, d)" using open_empty by blast
  let ?c = "\<lparr>rc_log = [], rc_nodes = \<lambda>_. (fresh_store, d), rc_snapshots = []\<rparr>"
  have "cluster_reach index_codec machine_codec minute_libs ?c" by (rule fresh) (simp add: d)
  moreover have "\<forall>k < length sample_log. unat (index_of (sample_log ! k)) = k"
    by (auto simp: sample_log_def sample_claims_def sample_entry_def blank_entry_def less_Suc_eq)
  ultimately have "cluster_reach index_codec machine_codec minute_libs (?c\<lparr>rc_log := sample_log\<rparr>)"
    using commit_all [of _ _ _ ?c 0] by simp
  then show ?thesis using fresh_durable [OF d] by (fastforce simp: machine_def fresh_store_def)
qed

lemma sample_cluster:
  "\<exists>c. cluster_reach index_codec machine_codec minute_libs c \<and> rc_log c = sample_log
    \<and> machine c 1 = sample_machine \<and> machine c 2 = sample_machine \<and> machine c 3 = default_state_machine"
proof -
  obtain c where c: "cluster_reach index_codec machine_codec minute_libs c" "rc_log c = sample_log"
    "\<forall>i. machine c i = default_state_machine" "\<forall>i. durable index_codec (rc_nodes c i)"
    using sample_committed by blast
  then obtain st where st: "run_op index_codec machine_codec minute_libs (ApplyLog sample_log) (rc_nodes c 1) = Some st"
    "prs_state_machine (fst st) = sample_machine"
    using execute_possible sample_log_applied unfolding machine_def by metis
  let ?c1 = "set_node 1 st c"
  have r1: "cluster_reach index_codec machine_codec minute_libs ?c1"
    by (rule cluster_reach.step [OF c(1) execute [where k = "length sample_log"]])
      (use c st(1) in \<open>simp add: applied_count_def default_state_machine_def\<close>)
  obtain meta where b: "build_snapshot machine_codec (fst (rc_nodes ?c1 1)) = Inr (meta, [1])"
    using st(2) by (auto simp: build_snapshot_def get_current_snapshot_def Let_def machine_codec_def set_node_def)
  let ?c2 = "?c1\<lparr>rc_snapshots := (meta, [1]) # rc_snapshots ?c1\<rparr>"
  have r2: "cluster_reach index_codec machine_codec minute_libs ?c2"
    by (rule cluster_reach.step [OF r1 build [OF b]])
  obtain st2 where st2: "run_op index_codec machine_codec minute_libs (InstallSnapshot meta [1]) (rc_nodes ?c2 2) = Some st2"
    by simp
  have r3: "cluster_reach index_codec machine_codec minute_libs (set_node 2 st2 ?c2)"
    by (rule cluster_reach.step [OF r2 install [OF _ st2]]) simp
  have "prs_state_machine (fst st2) = sample_machine"
    using st2 b st(2) by (auto simp: build_snapshot_def get_current_snapshot_def Let_def machine_codec_def set_node_def
        install_snapshot_def persisting_def case_prod_beta)
  with r3 st c show ?thesis by (intro exI [of _ "set_node 2 st2 ?c2"]) (simp add: set_node_def machine_def)
qed

theorem replicas_agree_witness:
  "\<exists>c. cluster_reach index_codec machine_codec minute_libs c \<and> reads_back machine_codec \<and> rc_log c = sample_log
    \<and> machine c 1 = machine c 2 \<and> machine c 3 \<noteq> machine c 1
    \<and> apply_entries minute_libs sample_log (machine c 3) = Inr (machine c 1)"
proof -
  obtain c where c: "cluster_reach index_codec machine_codec minute_libs c" "rc_log c = sample_log"
    "machine c 1 = sample_machine" "machine c 2 = sample_machine" "machine c 3 = default_state_machine"
    using sample_cluster by blast
  note agree = replicas_agree [OF c(1) machine_codec_reads_back]
  have "psm_active_runs sample_machine \<noteq> psm_active_runs default_state_machine"
    by (simp add: sample_machine_active default_state_machine_def)
  then have "sample_machine \<noteq> default_state_machine" by metis
  moreover have "machine c 1 = machine c 2" using agree [of 1 2] c by simp
  moreover have "apply_entries minute_libs (take (applied_count (machine c 1)) sample_log) (machine c 3) = Inr (machine c 1)"
    using agree [of 3 1] c(2,5) by (simp add: applied_count_def default_state_machine_def)
  moreover have "applied_count sample_machine = length sample_log"
    by (simp add: applied_count_def entries_applied [OF sample_applied] sample_claims_def sample_log_def sample_entry_def)
  ultimately show ?thesis using c machine_codec_reads_back by (intro exI [of _ c]) auto
qed

text \<open>A cluster that agreed on two blank entries; node 3 has applied none of them.\<close>

lemma blank_cluster:
  "\<exists>c. cluster_reach index_codec machine_codec minute_libs c \<and> rc_log c = [blank_entry 0, blank_entry 1]
    \<and> machine c 3 = default_state_machine"
proof -
  obtain d where d: "open_store index_codec empty_raft_disk = (Inr fresh_store, d)" using open_empty by blast
  let ?c = "\<lparr>rc_log = [], rc_nodes = \<lambda>_. (fresh_store, d), rc_snapshots = []\<rparr>"
  have "cluster_reach index_codec machine_codec minute_libs ?c" by (rule fresh) (simp add: d)
  then have "cluster_reach index_codec machine_codec minute_libs (?c\<lparr>rc_log := [blank_entry 0, blank_entry 1]\<rparr>)"
    using commit_all [of _ _ _ ?c 0 "[blank_entry 0, blank_entry 1]"] by (simp add: less_Suc_eq blank_entry_def)
  then show ?thesis by (fastforce simp: machine_def fresh_store_def)
qed

theorem replica_catches_up_witness:
  "\<exists>c st2 st3. cluster_reach index_codec machine_codec minute_libs c \<and> machine c 3 = default_state_machine
    \<and> try_get_log_entries (Included 0) Unbounded (fst st2) = [blank_entry 0, blank_entry 1]
    \<and> cluster_reach index_codec machine_codec minute_libs (set_node 3 st3 c)
    \<and> psm_last_applied_log_id (prs_state_machine (fst st3)) = Some (ent_log_id (blank_entry 1))"
proof -
  let ?es = "[blank_entry 0, blank_entry 1]"
  obtain c where c: "cluster_reach index_codec machine_codec minute_libs c" "rc_log c = ?es"
    "machine c 3 = default_state_machine"
    using blank_cluster by blast
  obtain sm where sm: "apply_entries minute_libs ?es default_state_machine = Inr sm"
    by (simp add: apply_entry_def blank_entry_def)
  have wf: "list_all (wf_record index_codec) (rc_log c)" by (simp add: c(2) wf_blank)
  have missing: "?es = drop (applied_count (machine c 3)) (rc_log c)"
    by (simp add: c applied_count_def default_state_machine_def)
  have "psm_last_applied_log_id sm = Some (ent_log_id (blank_entry 1))" using entries_applied [OF sm] by simp
  moreover have "index_of (blank_entry 0) = 0" by (simp add: blank_entry_def)
  ultimately show ?thesis
    using replica_catches_up [OF c(1) machine_codec_reads_back wf sm [folded c(2)] missing] c(1,3) by auto
qed

theorem run_owner_agreed_witness:
  "\<exists>c a. cluster_reach index_codec machine_codec minute_libs c \<and> rc_log c = sample_log
    \<and> bt_get (psm_active_runs (machine c 1)) ''r1'' = Some a \<and> bt_get (psm_active_runs (machine c 2)) ''r1'' = Some a
    \<and> pa_worker_id a = ''w1'' \<and> (\<exists>e \<in> set sample_log. entry_run e = Some a)"
proof -
  obtain c where c: "cluster_reach index_codec machine_codec minute_libs c" "rc_log c = sample_log"
    "machine c 1 = sample_machine" "machine c 2 = sample_machine"
    using sample_cluster by blast
  let ?a = "\<lparr>pa_timer_id = TimerId ''digest'', pa_run_id = RunId ''r1'', pa_worker_id = ''w1'',
    pa_fencing_token = 1, pa_attempt = 1, pa_lease_deadline = 90000000000\<rparr>"
  have active: "bt_get (psm_active_runs (machine c 1)) ''r1'' = Some ?a"
    by (simp add: c(3) sample_machine_active bt_get_def)
  have claimed: "a = ?a \<or> a = ?a\<lparr>pa_run_id := RunId ''r2'', pa_worker_id := ''w2''\<rparr>"
    if "e \<in> set sample_log" "entry_run e = Some a" for e a
  proof -
    have "e \<in> set [blank_entry 0, sample_entry 1 (CreateTimer sample_dspec (Some 60000000000)),
        sample_entry 2 (ClaimRun (TimerId ''digest'') (RunId ''r1'') ''w1'' 1 1 90000000000),
        sample_entry 3 (ClaimRun (TimerId ''digest'') (RunId ''r2'') ''w2'' 1 1 90000000000)]"
      using that(1) by (simp add: sample_log_def sample_claims_def)
    then show ?thesis
      using that(2) unfolding list.set insert_iff empty_iff
      by (elim disjE) (simp_all add: sample_entry_def blank_entry_def entry_run_def)
  qed
  have distinct: "\<forall>e \<in> set (rc_log c). \<forall>e' \<in> set (rc_log c). \<forall>a a'. entry_run e = Some a \<longrightarrow> entry_run e' = Some a'
      \<longrightarrow> pa_run_id a = pa_run_id a' \<longrightarrow> a = a'"
  proof (intro ballI allI impI)
    fix e e' a a' assume e: "e \<in> set (rc_log c)" "e' \<in> set (rc_log c)" "entry_run e = Some a" "entry_run e' = Some a'"
      "pa_run_id a = pa_run_id a'"
    have "e \<in> set sample_log" "e' \<in> set sample_log" using e(1,2) c(2) by simp_all
    from claimed [OF this(1) e(3)] claimed [OF this(2) e(4)] e(5) show "a = a'" by (elim disjE) simp_all
  qed
  have active2: "bt_get (psm_active_runs (machine c 2)) ''r1'' = Some ?a"
    by (simp add: c(4) sample_machine_active bt_get_def)
  have "\<exists>e \<in> set sample_log. entry_run e = Some ?a"
    using run_owner_agreed [OF c(1) machine_codec_reads_back distinct active, of 2] unfolding c(2) by blast
  then show ?thesis using c(1,2) active active2
    by (intro exI [of _ c] exI [of _ ?a] conjI) simp_all
qed

end
