(* ===== verification/Kron_Ipc_Channel.thy ===== *)
theory Kron_Ipc_Channel
  imports Kron_Ipc
begin

text \<open>
  The two ends of the control channel (ipc.rs): the start of the server with its files, the thread
  that accepts connections, and the client.  Sockets and the JSON library are parameters.  Shown:
  a client receives the answer of the engine to its request, unless the answer is longer than the
  limit that is meant for requests; and the thread of a channel ends when its file is gone.
\<close>

section \<open>The files of the channel\<close>

record ipc_files =
  if_token :: "string option"
  if_port :: "string option"
  if_socket :: bool

text \<open>
  What the start of a server meets: the error of preparing the directory, the random bytes, the
  environment variables, the outcome of binding the TCP port, with the local address, and of the
  three calls after it, and the outcome of binding the Unix socket and of the two calls after it.
\<close>

datatype unix_bind = UnixBound | PathTooLong | UnixBindError string

record ipc_setup =
  is_prepare :: "string option"
  is_random :: "string + u8 list"
  is_host :: "string option"
  is_unsafe :: "string option"
  is_port :: "string option"
  is_bind :: "string \<Rightarrow> u16 \<Rightarrow> string + string"
  is_tcp_nonblocking :: "string option"
  is_port_write :: "string option"
  is_port_mode :: "string option"
  is_unix :: unix_bind
  is_socket_mode :: "string option"
  is_unix_nonblocking :: "string option"

definition io_step :: "string option \<Rightarrow> unit res" where
  "io_step err = (case err of Some msg \<Rightarrow> Inl (Err (LogIo msg)) | None \<Rightarrow> Inr ())"

definition start_tcp_server :: "ipc_setup \<Rightarrow> ipc_files \<Rightarrow> unit res \<times> ipc_files" where
  "start_tcp_server S F =
     (case tcp_bind_address (is_host S) (is_unsafe S) (is_port S) of
        Inl err \<Rightarrow> (Inl err, F)
      | Inr (host, port) \<Rightarrow>
     (case is_bind S host port of
        Inl msg \<Rightarrow> (Inl (Err (LogIo msg)), F)
      | Inr addr \<Rightarrow>
     (case io_step (is_tcp_nonblocking S) of
        Inl err \<Rightarrow> (Inl err, F)
      | Inr _ \<Rightarrow>
     (case io_step (is_port_write S) of
        Inl err \<Rightarrow> (Inl err, F)
      | Inr _ \<Rightarrow> (io_step (is_port_mode S), F\<lparr>if_port := Some (addr @ [LF])\<rparr>)))))"

text \<open>\<open>start_server\<close>: the result, the files, and whether the thread of the TCP port runs, which holds the
  engine.\<close>

definition start_server :: "ipc_setup \<Rightarrow> ipc_files \<Rightarrow> unit res \<times> ipc_files \<times> bool" where
  "start_server S F =
     (case io_step (is_prepare S) of
        Inl err \<Rightarrow> (Inl err, F, False)
      | Inr _ \<Rightarrow>
     (case read_or_create_token (is_random S) (if_token F) of
        (Inl err, tf) \<Rightarrow> (Inl err, F\<lparr>if_token := tf\<rparr>, False)
      | (Inr _, tf) \<Rightarrow>
     (case start_tcp_server S (F\<lparr>if_token := tf\<rparr>) of
        (Inl err, F1) \<Rightarrow> (Inl err, F1, False)
      | (Inr _, F1) \<Rightarrow>
          let F2 = F1\<lparr>if_socket := False\<rparr> in
     (case is_unix S of
        PathTooLong \<Rightarrow> (Inr (), F2, True)
      | UnixBindError msg \<Rightarrow> (Inl (Err (LogIo msg)), F2, True)
      | UnixBound \<Rightarrow>
          let F3 = F2\<lparr>if_socket := True\<rparr> in
          (case io_step (is_socket_mode S) of
             Inl err \<Rightarrow> (Inl err, F3, True)
           | Inr _ \<Rightarrow> (io_step (is_unix_nonblocking S), F3, True))))))"

section \<open>The thread of a channel\<close>

text \<open>One call of \<open>accept\<close>, and whether the file of the channel exists at that time.\<close>

datatype accept_outcome = Accepted string | WouldBlock | AcceptError

text \<open>The connections for which the thread spawns a thread of their own, in the order in which it accepts
  them, and whether it ends, on the calls that are observed.  The spawned threads answer in any order.\<close>

fun accept_loop :: "(accept_outcome \<times> bool) list \<Rightarrow> string list \<times> bool" where
  "accept_loop [] = ([], False)"
| "accept_loop ((Accepted input, _) # obs) = (case accept_loop obs of (served, ended) \<Rightarrow> (input # served, ended))"
| "accept_loop ((WouldBlock, exists) # obs) = (if \<not> exists then ([], True) else accept_loop obs)"
| "accept_loop ((AcceptError, _) # obs) = ([], True)"

section \<open>The client\<close>

text \<open>\<open>ic_unix\<close> is nothing when the socket cannot be connected to; a connection maps the bytes sent to the
  bytes received.\<close>

record ipc_client =
  ic_clone :: "ipc_request \<Rightarrow> string + ipc_request"
  ic_encode :: "ipc_request \<Rightarrow> string + string"
  ic_decode :: "string \<Rightarrow> json_error + ipc_response"
  ic_unix :: "(string \<Rightarrow> string + string) option"
  ic_tcp :: "string \<Rightarrow> string + (string \<Rightarrow> string + string)"

definition read_tcp_endpoint :: "ipc_files \<Rightarrow> string res" where
  "read_tcp_endpoint F =
     (case if_port F of
        None \<Rightarrow> Inl (Err (LogIo ''No such file or directory''))
      | Some bytes \<Rightarrow>
          if \<not> utf8_ok bytes then Inl (Err (LogIo ''stream did not contain valid UTF-8''))
          else Inr (trim bytes))"

definition exchange_line :: "ipc_client \<Rightarrow> ipc_request \<Rightarrow> (string \<Rightarrow> string + string) \<Rightarrow> ipc_response res" where
  "exchange_line I req stream =
     (case ic_encode I req of
        Inl msg \<Rightarrow> Inl (Err (LogSerde msg))
      | Inr txt \<Rightarrow>
     (case stream (txt @ [LF]) of
        Inl msg \<Rightarrow> Inl (Err (LogIo msg))
      | Inr received \<Rightarrow>
     (case read_limited_line received of
        Inl err \<Rightarrow> Inl err
      | Inr line \<Rightarrow>
          (case ic_decode I line of Inl (msg, _) \<Rightarrow> Inl (Err (LogSerde msg)) | Inr response \<Rightarrow> Inr response))))"

definition ipc_call :: "ipc_client \<Rightarrow> ipc_request \<Rightarrow> ipc_files \<Rightarrow> ipc_response res" where
  "ipc_call I req F =
     (case read_token (if_token F) of
        Inl err \<Rightarrow> Inl err
      | Inr token \<Rightarrow>
     (case ic_clone I req of
        Inl msg \<Rightarrow> Inl (Err (LogSerde msg))
      | Inr inner \<Rightarrow>
     (case ic_unix I of
        Some stream \<Rightarrow> exchange_line I (Auth token inner) stream
      | None \<Rightarrow>
     (case read_tcp_endpoint F of
        Inl err \<Rightarrow> Inl err
      | Inr endpoint \<Rightarrow>
     (case ic_tcp I endpoint of
        Inl msg \<Rightarrow> Inl (Err (LogIo msg))
      | Inr stream \<Rightarrow> exchange_line I (Auth token inner) stream)))))"

section \<open>Client and server agree\<close>

lemma read_line_exact:
  assumes "utf8_ok (txt @ [LF])" "LF \<notin> set txt" "length txt < MAX_IPC_LINE_BYTES"
  shows "read_limited_line (txt @ [LF]) = Inr (txt @ [LF])"
proof -
  have "take (MAX_IPC_LINE_BYTES + 1) (txt @ [LF]) = txt @ [LF]" using assms(3) by simp
  moreover have "takeWhile (\<lambda>c. c \<noteq> LF) (txt @ [LF]) = txt" using assms(2) by (auto simp: takeWhile_append)
  ultimately show ?thesis using assms by (simp add: read_limited_line_def Let_def)
qed

lemma read_line_too_long:
  assumes "LF \<notin> set txt" "MAX_IPC_LINE_BYTES \<le> length txt" "utf8_ok (take (MAX_IPC_LINE_BYTES + 1) (txt @ [LF]))"
  shows "read_limited_line (txt @ [LF]) = Inl (Err (IpcUnavailable ''IPC request exceeded maximum line size''))"
proof -
  define line where "line = take (MAX_IPC_LINE_BYTES + 1) (txt @ [LF])"
  have "takeWhile (\<lambda>c. c \<noteq> LF) line @ (if LF \<in> set line then [LF] else []) = line"
  proof (cases "MAX_IPC_LINE_BYTES = length txt")
    case False
    then have "line = take (MAX_IPC_LINE_BYTES + 1) txt" using assms(2) by (simp add: line_def)
    then show ?thesis using assms(1) by (auto simp: takeWhile_eq_all_conv dest: in_set_takeD)
  qed (use assms(1) in \<open>auto simp: takeWhile_append line_def\<close>)
  moreover have "length line = MAX_IPC_LINE_BYTES + 1" using assms(2) by (simp add: line_def)
  ultimately show ?thesis
    using assms(3) unfolding read_limited_line_def Let_def line_def [symmetric] by simp
qed

text \<open>What the engine's side of a connection sends back.\<close>

definition channel_answer ::
  "(string \<Rightarrow> json_error + ipc_request) \<Rightarrow> (ipc_response \<Rightarrow> string) \<Rightarrow> (kron_error \<Rightarrow> string) \<Rightarrow> log_entry codec \<Rightarrow> string
   \<Rightarrow> timer_id list \<Rightarrow> datetime \<Rightarrow> (nat \<times> string) option \<Rightarrow> string \<Rightarrow> inner \<Rightarrow> string \<Rightarrow> string + string" where
  "channel_answer J text_of show_error C dir keys now fail_after token inn input =
     (case handle_stream J show_error C dir keys now fail_after input token inn of
        (Inr response, _) \<Rightarrow> Inr (text_of response @ [LF])
      | (Inl _, _) \<Rightarrow> Inr [])"

section \<open>What the channel guarantees\<close>

text \<open>C33: client and engine agree on the control channel.  The client finds the token of the directory, and the
  socket of the engine that was started with it.  Then the client returns the answer that the
  engine gives to exactly this request: the data, or the message of the error.  But an answer of
  more than a mebibyte does not reach the client: it reports an oversized request, although the
  engine has done what was asked.\<close>

theorem ipc_roundtrip:
  assumes "read_token (if_token F) = Inr token" "ic_clone I req = Inr req" "ic_encode I (Auth token req) = Inr txt"
    and "LF \<notin> set txt" "utf8_ok (txt @ [LF])" "length txt < MAX_IPC_LINE_BYTES" "J (txt @ [LF]) = Inr (Auth token req)"
    and "ic_unix I = Some (channel_answer J text_of show_error C dir keys now fail_after token inn)"
    and "handle_request C dir keys now fail_after req inn = (r, inn', stop)"
    and "response = (case r of Inr data \<Rightarrow> OkResponse data | Inl f \<Rightarrow> ErrorResponse (error_message show_error f))"
    and "LF \<notin> set (text_of response)" "utf8_ok (text_of response @ [LF])"
    and "ic_decode I (text_of response @ [LF]) = Inr response"
  shows "handle_stream J show_error C dir keys now fail_after (txt @ [LF]) token inn = (Inr response, inn', stop)
    \<and> (length (text_of response) < MAX_IPC_LINE_BYTES \<longrightarrow> ipc_call I req F = Inr response)
    \<and> (MAX_IPC_LINE_BYTES \<le> length (text_of response) \<longrightarrow> utf8_ok (take (MAX_IPC_LINE_BYTES + 1) (text_of response @ [LF]))
         \<longrightarrow> ipc_call I req F = Inl (Err (IpcUnavailable ''IPC request exceeded maximum line size'')))"
proof -
  have line: "read_limited_line (txt @ [LF]) = Inr (txt @ [LF])" by (rule read_line_exact [OF assms(5,4,6)])
  have hs: "handle_stream J show_error C dir keys now fail_after (txt @ [LF]) token inn = (Inr response, inn', stop)"
    using assms(7,9,10) by (simp add: handle_stream_def line secure_eq_iff split: sum.split)
  then have "ipc_call I req F = (case read_limited_line (text_of response @ [LF]) of
        Inl err \<Rightarrow> Inl err
      | Inr l \<Rightarrow> (case ic_decode I l of Inl (msg, _) \<Rightarrow> Inl (Err (LogSerde msg)) | Inr x \<Rightarrow> Inr x))"
    using assms(1-3,8) by (simp add: ipc_call_def exchange_line_def channel_answer_def)
  then show ?thesis
    using hs read_line_exact [OF assms(12,11)] read_line_too_long [OF assms(11)] assms(13) by auto
qed

text \<open>A token that a start created or found is the one that every client reads.\<close>

lemma start_tcp_token: "if_token (snd (start_tcp_server S F)) = if_token F"
  by (auto simp: start_tcp_server_def split: sum.split prod.split)

lemma started_token:
  assumes "start_server S F = (Inr (), F', tcp)" "is_random S = Inr bs" "bs \<noteq> []"
  shows "\<exists>token. fst (read_or_create_token (is_random S) (if_token F)) = Inr token \<and> read_token (if_token F') = Inr token"
proof -
  obtain token tf where rc: "read_or_create_token (is_random S) (if_token F) = (Inr token, tf)"
    using assms(1) by (auto simp: start_server_def split: sum.splits prod.splits)
  then have "if_token F' = tf"
    using assms(1) start_tcp_token [of S "F\<lparr>if_token := tf\<rparr>"]
    by (auto simp: start_server_def Let_def split: sum.splits prod.splits unix_bind.splits)
  moreover have "read_token tf = Inr token"
  proof (cases "if_token F")
    case None
    then show ?thesis using token_roundtrip [OF assms(3), of "Inr token" tf] rc assms(2) by auto
  next
    case (Some t)
    then show ?thesis using rc by (auto simp: read_or_create_token_def)
  qed
  ultimately show ?thesis using rc by simp
qed

text \<open>The thread ends when there is no connection waiting and the file is gone, or when \<open>accept\<close> fails.\<close>

lemma accept_loop_ended: "snd (accept_loop obs) \<longleftrightarrow> (\<exists>x \<in> set obs. x = (WouldBlock, False) \<or> fst x = AcceptError)"
  by (induction obs rule: accept_loop.induct) (auto split: prod.splits)

section \<open>Witnesses\<close>

definition sample_ipc_client :: "inner \<Rightarrow> ipc_client" where
  "sample_ipc_client inn = \<lparr>ic_clone = Inr, ic_encode = (\<lambda>_. Inr ''q''), ic_decode = (\<lambda>_. Inr (OkResponse ShutdownRequested)),
     ic_unix = Some (channel_answer (\<lambda>_. Inr (Auth ''s'' Shutdown)) (\<lambda>_. ''a'') (\<lambda>_. []) sample_codec ''d'' [] 0 None ''s'' inn),
     ic_tcp = (\<lambda>_. Inl ''refused'')\<rparr>"

definition sample_ipc_files :: ipc_files where
  "sample_ipc_files = \<lparr>if_token = Some ''s'', if_port = None, if_socket = True\<rparr>"

definition idle_inner :: inner where
  "idle_inner = \<lparr>i_state = new_state, i_heap = new_heap, i_disk = \<lparr>d_aof = Some [], d_aof_old = None, d_snapshot = None\<rparr>,
     i_handle = OnAof, i_registry = Map.empty, i_started = True, i_stopped = False, i_shutting_down = False, i_active_runs = 0\<rparr>"

theorem ipc_roundtrip_witness:
  "ipc_call (sample_ipc_client idle_inner) Shutdown sample_ipc_files = Inr (OkResponse ShutdownRequested)"
proof -
  let ?I = "sample_ipc_client idle_inner"
  have utf8: "utf8_ok [c, LF]" "utf8_ok [c]" if "c \<in> {CHR ''q'', CHR ''a'', CHR ''s''}" for c
    using utf8_ascii [of "[c, LF]"] utf8_ascii [of "[c]"] that by (auto simp: ascii_def)
  have token: "read_token (if_token sample_ipc_files) = Inr ''s''"
    using utf8 by (simp add: read_token_def sample_ipc_files_def trim_graphic graphic_def)
  have "handle_request sample_codec ''d'' [] 0 None Shutdown idle_inner = (Inr ShutdownRequested, idle_inner, True)"
    by (simp add: handle_request_def)
  from ipc_roundtrip [OF token _ _ _ _ _ _ _ this refl, of ?I "''q''" "\<lambda>_. Inr (Auth ''s'' Shutdown)" "\<lambda>_. ''a''" "\<lambda>_. []"]
  show ?thesis using utf8 by (simp add: sample_ipc_client_def MAX_IPC_LINE_BYTES_def)
qed

end
