(* ===== verification/Kron_Python.thy ===== *)
theory Kron_Python
  imports Kron_Ipc_Channel Kron_Node Kron_Engine_System
begin

text \<open>
  The Python module over the embedded engine (kron-py/src/lib.rs): the arguments of \<open>schedule\<close>, the
  registrations that wait for \<open>start\<close>, \<open>start\<close>, \<open>shutdown\<close>, \<open>status\<close> and \<open>list\<close>, and the call of a
  callback.  A Python object is what the binding can learn of it; the global lock makes the calls
  atomic.  Shown: it does not matter whether a timer is registered before or after the start; and
  three ways in which the module loses a timer or an engine without an error that says so.
\<close>

section \<open>Errors\<close>

text \<open>A Python exception: one that the binding raises, or one of Python itself.\<close>

datatype py_error = PyValueError string | PyRuntimeError string | PyRaised string

text \<open>\<open>Path::parent\<close> on the text of a path: separators and \<open>.\<close> at the end do not count.  The text is
  read from its end.\<close>

fun strip_tail_rev :: "string \<Rightarrow> string" where
  "strip_tail_rev (c # d # s) =
     (if c = CHR ''/'' then strip_tail_rev (d # s)
      else if c = CHR ''.'' \<and> d = CHR ''/'' then strip_tail_rev (d # s)
      else c # d # s)"
| "strip_tail_rev [c] = (if c = CHR ''/'' then [] else [c])"
| "strip_tail_rev [] = []"

definition path_parent :: "string \<Rightarrow> string option" where
  "path_parent path =
     (let t = strip_tail_rev (rev path)
      in if t = [] then None
         else let up = dropWhile (\<lambda>c. c \<noteq> CHR ''/'') t
              in if up = [] then Some []
                 else let u = strip_tail_rev up in Some (if u = [] then ''/'' else rev u))"

fun map_kron_error :: "(kron_error \<Rightarrow> string) \<Rightarrow> kron_error \<Rightarrow> py_error" where
  "map_kron_error show_error (InvalidCron msg) = PyValueError (show_error (InvalidCron msg))"
| "map_kron_error show_error (InvalidTimezone msg) = PyValueError (show_error (InvalidTimezone msg))"
| "map_kron_error show_error (DataDirLocked path) =
     PyRuntimeError (show_error (DataDirLocked path)
       @ (case path_parent path of
            Some parent \<Rightarrow> ''; another writer may be active; socket: '' @ socket_path parent
          | None \<Rightarrow> []))"
| "map_kron_error show_error err = PyRuntimeError (show_error err)"

text \<open>A panic surfaces in Python as an exception of its own.\<close>

definition py_fault :: "(kron_error \<Rightarrow> string) \<Rightarrow> fault \<Rightarrow> py_error" where
  "py_fault show_error f = (case f of Err e \<Rightarrow> map_kron_error show_error e | Panic msg \<Rightarrow> PyRaised msg)"

section \<open>Arguments\<close>

text \<open>What the binding can learn about a Python object.\<close>

record py_object =
  po_str :: "string option"
  po_utc :: "datetime option"
  po_u32 :: "u32 option"
  po_callable :: bool
  po_name :: string
  po_type :: string

type_synonym kwargs = "string \<rightharpoonup> py_object"

definition extract_as :: "(py_object \<Rightarrow> 'a option) \<Rightarrow> py_object \<Rightarrow> py_error + 'a" where
  "extract_as conv v = (case conv v of Some x \<Rightarrow> Inr x | None \<Rightarrow> Inl (PyRaised (''cannot convert '' @ po_type v)))"

definition get_optional :: "(py_object \<Rightarrow> 'a option) \<Rightarrow> kwargs \<Rightarrow> string \<Rightarrow> py_error + 'a option" where
  "get_optional conv kw key =
     (case kw key of
        None \<Rightarrow> Inr None
      | Some v \<Rightarrow> (case extract_as conv v of Inl e \<Rightarrow> Inl e | Inr x \<Rightarrow> Inr (Some x)))"

definition parse_overlap :: "kwargs \<Rightarrow> py_error + overlap_policy" where
  "parse_overlap kw =
     (case get_optional po_str kw ''overlap'' of
        Inl e \<Rightarrow> Inl e
      | Inr v \<Rightarrow>
          let value = unwrap_or v ''delay''
          in if value = ''delay'' then Inr Delay
             else if value = ''skip'' then Inr Skip
             else if value = ''allow'' then Inr Allow
             else Inl (PyValueError ''overlap must be one of: delay, skip, allow''))"

definition parse_at :: "libs \<Rightarrow> py_object \<Rightarrow> py_error + schedule" where
  "parse_at L at =
     (case po_utc at of
        Some t \<Rightarrow> Inr (At t)
      | None \<Rightarrow>
     (case po_str at of
        Some s \<Rightarrow>
          (case parse_rfc3339 L s of
             Inl err \<Rightarrow> Inl (PyValueError (''invalid at datetime: '' @ err))
           | Inr t \<Rightarrow> Inr (At t))
      | None \<Rightarrow>
          Inl (PyValueError (''at must be timezone-aware datetime or RFC3339 string, got '' @ po_type at))))"

definition parse_schedule :: "libs \<Rightarrow> (kron_error \<Rightarrow> string) \<Rightarrow> datetime \<Rightarrow> kwargs \<Rightarrow> py_error + schedule" where
  "parse_schedule L show_error now kw =
     (case get_optional po_str kw ''cron'' of
        Inl e \<Rightarrow> Inl e
      | Inr cron \<Rightarrow>
     (case get_optional po_str kw ''every'' of
        Inl e \<Rightarrow> Inl e
      | Inr every \<Rightarrow>
     (case get_optional po_str kw ''after'' of
        Inl e \<Rightarrow> Inl e
      | Inr after \<Rightarrow>
          let selected = length (filter (\<lambda>b. b) [cron \<noteq> None, every \<noteq> None, after \<noteq> None, kw ''at'' \<noteq> None])
          in if selected \<noteq> 1
             then Inl (PyValueError ''schedule() requires exactly one of cron, every, after, at'')
             else
             (case cron of
                Some e \<Rightarrow> Inr (Cron e)
              | None \<Rightarrow>
             (case every of
                Some s \<Rightarrow> (case parse_duration_str s of Inl f \<Rightarrow> Inl (py_fault show_error f) | Inr n \<Rightarrow> Inr (Every n))
              | None \<Rightarrow>
             (case after of
                Some s \<Rightarrow> (case parse_duration_str s of Inl f \<Rightarrow> Inl (py_fault show_error f) | Inr n \<Rightarrow> Inr (After n now))
              | None \<Rightarrow>
             (case kw ''at'' of
                Some at \<Rightarrow> parse_at L at
              | None \<Rightarrow> Inl (PyRaised ''checked selected at above''))))))))"

definition parse_registration ::
  "libs \<Rightarrow> (kron_error \<Rightarrow> string) \<Rightarrow> datetime \<Rightarrow> string \<Rightarrow> kwargs option \<Rightarrow> py_error + registration" where
  "parse_registration L show_error now name kwargs_opt =
     (case kwargs_opt of
        None \<Rightarrow> Inl (PyValueError ''schedule() requires keyword args'')
      | Some kw \<Rightarrow>
     (case kw ''fn'' of
        None \<Rightarrow> Inl (PyValueError ''schedule() requires fn=<callable>'')
      | Some callable \<Rightarrow>
          if \<not> po_callable callable then Inl (PyValueError ''fn must be callable'')
          else
     (case get_optional po_str kw ''timezone'' of
        Inl e \<Rightarrow> Inl e
      | Inr timezone \<Rightarrow>
     (case get_optional po_u32 kw ''max_attempts'' of
        Inl e \<Rightarrow> Inl e
      | Inr max_attempts_opt \<Rightarrow>
     (case parse_schedule L show_error now kw of
        Inl e \<Rightarrow> Inl e
      | Inr sched \<Rightarrow>
     (case parse_overlap kw of
        Inl e \<Rightarrow> Inl e
      | Inr overlap \<Rightarrow>
          Inr \<lparr>reg_id = name, reg_schedule = sched, reg_fn_name = po_name callable,
               reg_retry = Some (default_retry\<lparr>max_attempts := unwrap_or max_attempts_opt 3\<rparr>),
               reg_timezone = Some (unwrap_or timezone ''UTC''), reg_overlap = Some overlap\<rparr>))))))"

text \<open>A timeout in seconds: what the checks on a floating-point number see of it, and the duration
  in milliseconds otherwise; one that exceeds the range of \<open>Duration\<close> panics.\<close>

datatype py_timeout = NotFinite | Negative | TooLarge | Millis u64

fun seconds_to_duration :: "py_timeout \<Rightarrow> py_error + u64" where
  "seconds_to_duration (Millis ms) = Inr ms"
| "seconds_to_duration TooLarge = Inl (PyRaised ''can not convert float seconds to Duration'')"
| "seconds_to_duration _ = Inl (PyValueError ''timeout must be a non-negative number'')"

definition path_join :: "string \<Rightarrow> string \<Rightarrow> string" where
  "path_join dir name =
     (if dir = [] then name else if last dir = CHR ''/'' then dir @ name else dir @ ''/'' @ name)"

definition resolve_data_dir :: "string option \<Rightarrow> string option \<Rightarrow> string list option \<Rightarrow> string option \<Rightarrow> string" where
  "resolve_data_dir explicit kron_home argv home =
     (case explicit of
        Some path \<Rightarrow> path
      | None \<Rightarrow>
     (case kron_home of
        Some path \<Rightarrow> path
      | None \<Rightarrow>
          let script_dir = Option.bind argv (\<lambda>a. case a of [] \<Rightarrow> None | entry # _ \<Rightarrow> path_parent entry)
          in case script_dir of
               Some (c # s) \<Rightarrow> path_join (c # s) ''.kron''
             | _ \<Rightarrow> (case home of Some h \<Rightarrow> path_join h ''.kron'' | None \<Rightarrow> ''.kron'')))"

section \<open>The embedded engine\<close>

text \<open>
  The global state of the module and what it leaves behind: the engine that \<open>start\<close> created and its
  data directory, the registrations that wait for it, the engines that still run but that the
  module no longer knows, each with the data directory whose lock it holds, the files of every
  data directory when no engine has them open, and the files of its control channel.  Directories
  go by their paths.
\<close>

record py_world =
  pw_runtime :: "inner option"
  pw_dir :: string
  pw_pending :: "registration list"
  pw_detached :: "(string \<times> inner) list"
  pw_disk :: "string \<Rightarrow> disk"
  pw_channel :: "string \<Rightarrow> ipc_files"

text \<open>The clock at each call that reads it, the disk for each registration, the data directory, whether
  another process holds its lock, what the start of the control channel meets, and what the engine does while a
  shutdown waits.\<close>

record py_env =
  pe_libs :: libs
  pe_codec :: "log_entry codec"
  pe_show :: "kron_error \<Rightarrow> string"
  pe_now :: "nat \<Rightarrow> datetime"
  pe_io :: "nat \<Rightarrow> io_outcome"
  pe_dir :: string
  pe_locked :: bool
  pe_ipc :: ipc_setup
  pe_progress :: "inner \<Rightarrow> inner"

definition apply_registration :: "py_env \<Rightarrow> nat \<Rightarrow> registration \<Rightarrow> inner \<Rightarrow> (py_error + unit) \<times> inner" where
  "apply_registration P k reg inn =
     (case schedule_with_overlap (pe_libs P) (pe_codec P) (pe_now P k) reg (pe_io P k) inn of
        (Inl f, inn1) \<Rightarrow> (Inl (py_fault (pe_show P) f), inn1)
      | (Inr _, inn1) \<Rightarrow> (Inr (), inn1))"

fun apply_registrations :: "py_env \<Rightarrow> nat \<Rightarrow> registration list \<Rightarrow> inner \<Rightarrow> (py_error + unit) \<times> inner" where
  "apply_registrations P k [] inn = (Inr (), inn)"
| "apply_registrations P k (reg # regs) inn =
     (case apply_registration P k reg inn of
        (Inl e, inn1) \<Rightarrow> (Inl e, inn1)
      | (Inr _, inn1) \<Rightarrow> apply_registrations P (k + 1) regs inn1)"

definition py_schedule :: "py_env \<Rightarrow> nat \<Rightarrow> string \<Rightarrow> kwargs option \<Rightarrow> py_world \<Rightarrow> (py_error + unit) \<times> py_world" where
  "py_schedule P k name kw w =
     (case parse_registration (pe_libs P) (pe_show P) (pe_now P k) name kw of
        Inl e \<Rightarrow> (Inl e, w)
      | Inr reg \<Rightarrow>
     (case pw_runtime w of
        Some inn \<Rightarrow> (case apply_registration P (k + 1) reg inn of (r, inn1) \<Rightarrow> (r, w\<lparr>pw_runtime := Some inn1\<rparr>))
      | None \<Rightarrow> (Inr (), w\<lparr>pw_pending := pw_pending w @ [reg]\<rparr>)))"

text \<open>An engine that is dropped closes its files and frees the lock of its directory.  When a start
  fails after the TCP thread of the control channel was started, that thread keeps the engine.\<close>

definition drop_engine :: "string \<Rightarrow> inner \<Rightarrow> py_world \<Rightarrow> py_world" where
  "drop_engine dir inn w = w\<lparr>pw_disk := (pw_disk w)(dir := i_disk inn)\<rparr>"

definition set_channel :: "string \<Rightarrow> ipc_files \<Rightarrow> py_world \<Rightarrow> py_world" where
  "set_channel dir F w = w\<lparr>pw_channel := (pw_channel w)(dir := F)\<rparr>"

text \<open>The lock of a data directory is taken: by another process, or by an engine of this process that
  the module has let go.\<close>

definition dir_locked :: "py_env \<Rightarrow> py_world \<Rightarrow> bool" where
  "dir_locked P w \<longleftrightarrow> pe_locked P \<or> list_ex (\<lambda>(dir, _). dir = pe_dir P) (pw_detached w)"

text \<open>The second half of \<open>start\<close>: the control channel, and the thread that starts the engine.\<close>

definition py_launch :: "py_env \<Rightarrow> inner \<Rightarrow> py_world \<Rightarrow> (py_error + unit) \<times> py_world" where
  "py_launch P inn w =
     (case start_server (pe_ipc P) (pw_channel w (pe_dir P)) of
        (Inl f, F, tcp) \<Rightarrow>
          let w1 = set_channel (pe_dir P) F w
          in (Inl (py_fault (pe_show P) f),
              if tcp then w1\<lparr>pw_detached := (pe_dir P, inn) # pw_detached w1\<rparr> else drop_engine (pe_dir P) inn w1)
      | (Inr _, F, _) \<Rightarrow>
          let w1 = set_channel (pe_dir P) F w
          in case start inn of
               (Inl f, inn1) \<Rightarrow>
                 (Inl (PyRuntimeError (error_message (pe_show P) f)),
                  w1\<lparr>pw_detached := (pe_dir P, inn1) # pw_detached w1\<rparr>)
             | (Inr _, inn1) \<Rightarrow> (Inr (), w1\<lparr>pw_runtime := Some inn1, pw_dir := pe_dir P\<rparr>))"

definition py_start :: "py_env \<Rightarrow> py_world \<Rightarrow> (py_error + unit) \<times> py_world" where
  "py_start P w =
     (if pw_runtime w \<noteq> None then (Inl (map_kron_error (pe_show P) AlreadyStarted), w)
      else case open_engine (pe_codec P) (pe_dir P) (dir_locked P w) (pw_disk w (pe_dir P)) of
        (Inl f, D) \<Rightarrow> (Inl (py_fault (pe_show P) f), w\<lparr>pw_disk := (pw_disk w)(pe_dir P := D)\<rparr>)
      | (Inr inn, _) \<Rightarrow>
          let w1 = w\<lparr>pw_pending := []\<rparr>
          in case apply_registrations P 0 (pw_pending w) inn of
               (Inl e, inn1) \<Rightarrow> (Inl e, drop_engine (pe_dir P) inn1 w1)
             | (Inr _, inn1) \<Rightarrow> py_launch P inn1 w1)"

definition engine_shutdown :: "py_env \<Rightarrow> u64 \<Rightarrow> inner \<Rightarrow> unit res \<times> inner" where
  "engine_shutdown P ms inn =
     (case shutdown_request inn of
        (ShutdownDone, inn1) \<Rightarrow> (Inr (), inn1)
      | (ShutdownWaits, inn1) \<Rightarrow> shutdown_wait ms (pe_progress P inn1))"

definition py_shutdown :: "py_env \<Rightarrow> py_timeout \<Rightarrow> py_world \<Rightarrow> (py_error + unit) \<times> py_world" where
  "py_shutdown P timeout w =
     (case pw_runtime w of
        None \<Rightarrow> (Inr (), w)
      | Some inn \<Rightarrow>
          let w1 = w\<lparr>pw_runtime := None\<rparr>
          in case seconds_to_duration timeout of
               Inl e \<Rightarrow> (Inl e, w1\<lparr>pw_detached := (pw_dir w, inn) # pw_detached w\<rparr>)
             | Inr ms \<Rightarrow>
                 (case engine_shutdown P ms inn of
                    (Inl f, inn1) \<Rightarrow> (Inl (py_fault (pe_show P) f), w1\<lparr>pw_runtime := Some inn1\<rparr>)
                  | (Inr _, inn1) \<Rightarrow>
                      (Inr (), drop_engine (pw_dir w) inn1 (set_channel (pw_dir w)
                         ((pw_channel w (pw_dir w))\<lparr>if_socket := False, if_port := None\<rparr>) w1))))"

fun state_to_str :: "timer_state \<Rightarrow> string" where
  "state_to_str Scheduled = ''scheduled''"
| "state_to_str Running = ''running''"
| "state_to_str Retrying = ''retrying''"
| "state_to_str Dead = ''dead''"
| "state_to_str Orphaned = ''orphaned''"
| "state_to_str Paused = ''paused''"
| "state_to_str Cancelled = ''cancelled''"

definition summary_to_dict :: "libs \<Rightarrow> timer_summary \<Rightarrow> json" where
  "summary_to_dict L s = Object
     [(''id'', String (timer_id_str (sum_id s))), (''state'', String (state_to_str (sum_state s))),
      (''fn_name'', opt_string (sum_fn_name s)), (''last_run_at'', opt_string (map_option (rfc3339 L) (sum_last_run_at s))),
      (''last_duration_ms'', (case sum_last_duration_ms s of None \<Rightarrow> Null | Some ms \<Rightarrow> json_u64 ms)),
      (''last_status'', opt_string (sum_last_status s)),
      (''next_run_at'', opt_string (map_option (rfc3339 L) (sum_next_run_at s))),
      (''retries_last_7d'', json_u64 (ucast (sum_retries_last_7d s)))]"

definition py_status :: "py_env \<Rightarrow> string \<Rightarrow> py_world \<Rightarrow> json option" where
  "py_status P name w =
     Option.bind (pw_runtime w) (\<lambda>inn. map_option (summary_to_dict (pe_libs P)) (status name inn))"

definition py_list :: "py_env \<Rightarrow> timer_id list \<Rightarrow> py_world \<Rightarrow> json list" where
  "py_list P keys w =
     (case pw_runtime w of None \<Rightarrow> [] | Some inn \<Rightarrow> map (summary_to_dict (pe_libs P)) (list_timers keys inn))"

text \<open>How a callback is called: with a context when a parameter of its signature can take one by
  position.  \<open>kinds\<close> is nothing when the signature cannot be inspected.\<close>

definition callable_accepts_context :: "string list \<Rightarrow> bool" where
  "callable_accepts_context kinds =
     list_ex (\<lambda>k. k \<in> {''POSITIONAL_ONLY'', ''POSITIONAL_OR_KEYWORD'', ''VAR_POSITIONAL''}) kinds"

definition timer_fn_call ::
  "string list option \<Rightarrow> (json option \<Rightarrow> string + unit) \<Rightarrow> timer_id \<Rightarrow> run_id \<Rightarrow> string + unit" where
  "timer_fn_call kinds callable tid rid =
     (if unwrap_or (map_option callable_accepts_context kinds) False
      then callable (Some (Object [(''timer_id'', String (timer_id_str tid)), (''run_id'', String (run_id_str rid))]))
      else callable None)"

section \<open>Scheduling before and after the start\<close>

definition set_started :: "inner \<Rightarrow> inner" where
  "set_started inn = inn\<lparr>i_started := True\<rparr>"

lemma started_log [simp]: "log_bytes (set_started inn) = log_bytes inn"
  by (simp add: set_started_def log_bytes_def split: log_handle.split)

lemma started_set_log [simp]: "set_log_bytes f (set_started inn) = set_started (set_log_bytes f inn)"
  by (simp add: set_started_def set_log_bytes_def split: log_handle.split)

lemma started_append: "engine_append C now ev io (set_started inn) = apsnd set_started (engine_append C now ev io inn)"
  by (simp add: engine_append_def split: prod.split)

lemma started_fields [simp]:
  "i_state (set_started inn) = i_state inn" "i_registry (set_started inn) = i_registry inn"
  "i_shutting_down (set_started inn) = i_shutting_down inn" "i_stopped (set_started inn) = i_stopped inn"
  "i_heap (set_started inn) = i_heap inn"
  by (simp_all add: set_started_def)

lemma on_result_apsnd:
  "on_result (apsnd h r) f g = on_result r (\<lambda>e i. f e (h i)) (\<lambda>v i. g v (h i))"
  "apsnd h (on_result r f' g') = on_result r (\<lambda>e i. apsnd h (f' e i)) (\<lambda>v i. apsnd h (g' v i))"
  by (simp_all add: on_result_def split: prod.split sum.split)

lemma started_commute [simp]:
  "apply_to_inner ev (set_started inn) = set_started (apply_to_inner ev inn)"
  "unqueue tid (set_started inn) = set_started (unqueue tid inn)"
  "push_next tid t (set_started inn) = set_started (push_next tid t inn)"
  by (simp_all add: apply_to_inner_def unqueue_def remove_next_def push_next_def set_started_def)

lemma started_register_spec: "register_spec C now reg io (set_started inn) = apsnd set_started (register_spec C now reg io inn)"
  by (simp add: register_spec_def registered_spec_def started_append on_result_apsnd Let_def)

lemma started_bind: "bind_function L now reg (set_started inn) = apsnd set_started (bind_function L now reg inn)"
  by (simp add: bind_function_def push_next_def Let_def set_started_def split: option.split sum.split fault.split)

lemma started_schedule:
  "schedule_with_overlap L C now reg io (set_started inn) = apsnd set_started (schedule_with_overlap L C now reg io inn)"
  by (simp add: schedule_with_overlap_def started_register_spec started_bind on_result_apsnd)

lemma started_registrations:
  "apply_registrations P k regs (set_started inn) = apsnd set_started (apply_registrations P k regs inn)"
  by (induction regs arbitrary: k inn) (simp_all add: apply_registration_def started_schedule split: prod.split sum.split)

lemma start_fresh: "open_engine C dir locked D = (Inr inn, D') \<Longrightarrow>
    \<not> i_started inn \<and> \<not> i_stopped inn \<and> i_registry inn = Map.empty \<and> i_disk inn = D'"
  by (auto simp: open_engine_def Let_def split: if_splits prod.splits sum.splits)

lemma launch_cases:
  assumes "py_launch P inn w = (r, w')"
  shows "(\<exists>e. r = Inl e \<and> pw_pending w' = pw_pending w \<and> pw_runtime w' = pw_runtime w)
    \<or> (\<exists>F tcp. r = Inr () \<and> start_server (pe_ipc P) (pw_channel w (pe_dir P)) = (Inr (), F, tcp) \<and> start inn = (Inr (), set_started inn)
         \<and> w' = (set_channel (pe_dir P) F w)\<lparr>pw_runtime := Some (set_started inn), pw_dir := pe_dir P\<rparr>)"
proof -
  obtain c F tcp where c: "start_server (pe_ipc P) (pw_channel w (pe_dir P)) = (c, F, tcp)" by (metis prod_cases3)
  show ?thesis
  proof (cases c)
    case (Inl f)
    with assms c show ?thesis by (auto simp: py_launch_def drop_engine_def set_channel_def Let_def split: if_splits)
  next
    case (Inr u)
    with assms c show ?thesis by (auto simp: py_launch_def start_def set_started_def set_channel_def Let_def split: if_splits)
  qed
qed

text \<open>A start that does not fail at once opens the engine and makes the registrations.\<close>

lemma start_opened:
  assumes "pw_runtime w = None"
    and "open_engine (pe_codec P) (pe_dir P) (dir_locked P w) (pw_disk w (pe_dir P)) = (Inr inn, D)"
    and "apply_registrations P 0 (pw_pending w) inn = (r, inn1)"
  shows "py_start P w = (case r of
      Inl e \<Rightarrow> (Inl e, drop_engine (pe_dir P) inn1 (w\<lparr>pw_pending := []\<rparr>)) | Inr _ \<Rightarrow> py_launch P inn1 (w\<lparr>pw_pending := []\<rparr>))"
  using assms by (simp add: py_start_def Let_def)

lemma start_succeeds:
  assumes "py_start P w = (Inr (), w')"
  shows "\<exists>inn D inn1 F tcp. pw_runtime w = None
    \<and> open_engine (pe_codec P) (pe_dir P) (dir_locked P w) (pw_disk w (pe_dir P)) = (Inr inn, D)
    \<and> apply_registrations P 0 (pw_pending w) inn = (Inr (), inn1)
    \<and> start_server (pe_ipc P) (pw_channel w (pe_dir P)) = (Inr (), F, tcp)
    \<and> w' = (set_channel (pe_dir P) F (w\<lparr>pw_pending := []\<rparr>))\<lparr>pw_runtime := Some (set_started inn1), pw_dir := pe_dir P\<rparr>"
proof -
  have none: "pw_runtime w = None" using assms by (auto simp: py_start_def split: if_splits)
  obtain r D where op: "open_engine (pe_codec P) (pe_dir P) (dir_locked P w) (pw_disk w (pe_dir P)) = (r, D)"
    by fastforce
  obtain inn where r: "r = Inr inn" using assms none op by (cases r) (simp_all add: py_start_def)
  obtain q inn1 where regs: "apply_registrations P 0 (pw_pending w) inn = (q, inn1)" by fastforce
  note st = start_opened [OF none op [unfolded r] regs]
  obtain u where q: "q = Inr u" using assms st by (cases q) simp_all
  then have "py_launch P inn1 (w\<lparr>pw_pending := []\<rparr>) = (Inr (), w')" using assms st by simp
  from launch_cases [OF this] show ?thesis using none op r regs q by auto
qed

text \<open>C35: registrations made before the start are worth the same as those made after it.  If \<open>start\<close> succeeds
  with a list of waiting registrations, then with none waiting it succeeds as well, and making the
  same registrations afterwards, in the same order and with the same clock and disk, leads to
  exactly the same engine.\<close>

theorem schedule_before_start:
  assumes "py_start P w = (Inr (), w')"
  shows "\<exists>w0 inn. py_start P (w\<lparr>pw_pending := []\<rparr>) = (Inr (), w0) \<and> pw_runtime w0 = Some inn
    \<and> apply_registrations P 0 (pw_pending w) inn = (Inr (), the (pw_runtime w'))
    \<and> w' = w0\<lparr>pw_runtime := Some (the (pw_runtime w'))\<rparr>"
proof -
  obtain inn0 D inn1 F tcp where none: "pw_runtime w = None"
    and op: "open_engine (pe_codec P) (pe_dir P) (dir_locked P w) (pw_disk w (pe_dir P)) = (Inr inn0, D)"
    and regs: "apply_registrations P 0 (pw_pending w) inn0 = (Inr (), inn1)"
    and ipc: "start_server (pe_ipc P) (pw_channel w (pe_dir P)) = (Inr (), F, tcp)"
    and w': "w' = (set_channel (pe_dir P) F (w\<lparr>pw_pending := []\<rparr>))\<lparr>pw_runtime := Some (set_started inn1), pw_dir := pe_dir P\<rparr>"
    using start_succeeds [OF assms] by blast
  have "start inn0 = (Inr (), set_started inn0)" using start_fresh [OF op] by (simp add: start_def set_started_def)
  then have "py_start P (w\<lparr>pw_pending := []\<rparr>) = (Inr (),
      (set_channel (pe_dir P) F (w\<lparr>pw_pending := []\<rparr>))\<lparr>pw_runtime := Some (set_started inn0), pw_dir := pe_dir P\<rparr>)"
    using start_opened [of "w\<lparr>pw_pending := []\<rparr>" P inn0 D] op none ipc by (simp add: py_launch_def dir_locked_def Let_def)
  moreover have "apply_registrations P 0 (pw_pending w) (set_started inn0) = (Inr (), set_started inn1)"
    using regs by (simp add: started_registrations)
  ultimately show ?thesis unfolding w' by simp
qed

section \<open>What goes wrong\<close>

text \<open>A start that fails forgets the registrations.  If the engine opens but \<open>start\<close> fails, because a
  registration or the control channel fails, then no registration waits any more, not even those
  that were not reached; the next successful \<open>start\<close> knows no function at all, and every timer of
  the data directory stays orphaned.\<close>

theorem failed_start_forgets_registrations:
  assumes "py_start P w = (Inl e, w')" "pw_runtime w = None"
    and "fst (open_engine (pe_codec P) (pe_dir P) (dir_locked P w) (pw_disk w (pe_dir P))) = Inr inn0"
    and "py_start P' w' = (Inr (), w'')"
  shows "pw_pending w' = [] \<and> pw_runtime w' = None
    \<and> (\<exists>inn. pw_runtime w'' = Some inn \<and> i_registry inn = Map.empty
         \<and> (\<forall>tid. specs (i_state inn) tid \<noteq> None \<longrightarrow> states (i_state inn) tid = Some Orphaned))"
proof -
  obtain D where op: "open_engine (pe_codec P) (pe_dir P) (dir_locked P w) (pw_disk w (pe_dir P)) = (Inr inn0, D)"
    using assms(3) by (metis prod.collapse)
  obtain q inn' where regs: "apply_registrations P 0 (pw_pending w) inn0 = (q, inn')" by fastforce
  have w': "pw_pending w' = [] \<and> pw_runtime w' = None"
    using assms(1,2) start_opened [OF assms(2) op regs] launch_cases [of P inn' "w\<lparr>pw_pending := []\<rparr>"]
    by (cases q) (auto simp: drop_engine_def)
  obtain inn1 D1 where op1: "open_engine (pe_codec P') (pe_dir P') (dir_locked P' w') (pw_disk w' (pe_dir P')) = (Inr inn1, D1)"
    and run: "pw_runtime w'' = Some (set_started inn1)"
    using start_succeeds [OF assms(4)] w' by auto
  have "specs (i_state inn1) tid \<noteq> None \<Longrightarrow> states (i_state inn1) tid = Some Orphaned" for tid
    using op1 by (auto simp: open_engine_def Let_def split: if_splits prod.splits sum.splits)
  then show ?thesis using w' run start_fresh [OF op1] by auto
qed

text \<open>The engines that the module has let go stay where they are.\<close>

lemma start_keeps_detached: "set (pw_detached w) \<subseteq> set (pw_detached (snd (py_start P w)))"
  by (auto simp: py_start_def py_launch_def drop_engine_def set_channel_def Let_def split: prod.split sum.split)

text \<open>The result of a start depends on the engines that were let go through the lock only.\<close>

lemma start_result_cong:
  assumes "dir_locked P (w\<lparr>pw_detached := ds\<rparr>) = dir_locked P w"
  shows "fst (py_start P (w\<lparr>pw_detached := ds\<rparr>)) = fst (py_start P w)"
  using assms by (auto simp: py_start_def py_launch_def drop_engine_def set_channel_def Let_def split: prod.split sum.split)


text \<open>A start that fails because of the Unix socket, after the TCP thread was started, locks the data
  directory against every later start on it.\<close>

lemma socket_error_blocks_start:
  assumes "pw_runtime w = None" "apply_registrations P 0 (pw_pending w) inn0 = (Inr (), inn1)"
    and "open_engine (pe_codec P) (pe_dir P) (dir_locked P w) (pw_disk w (pe_dir P)) = (Inr inn0, D)"
    and "start_server (pe_ipc P) (pw_channel w (pe_dir P)) = (Inl f, F, True)"
  shows "\<exists>w'. py_start P w = (Inl (py_fault (pe_show P) f), w')
    \<and> (\<forall>P'. pe_dir P' = pe_dir P \<longrightarrow>
         fst (py_start P' w') = Inl (map_kron_error (pe_show P') (DataDirLocked (pe_dir P @ ''/kron.lock''))))"
proof -
  let ?w = "(set_channel (pe_dir P) F (w\<lparr>pw_pending := []\<rparr>))\<lparr>pw_detached := (pe_dir P, inn1) # pw_detached w\<rparr>"
  have "py_start P w = (Inl (py_fault (pe_show P) f), ?w)"
    using start_opened [OF assms(1,3,2)] assms(4) by (simp add: py_launch_def set_channel_def)
  moreover have "fst (py_start P' ?w) = Inl (map_kron_error (pe_show P') (DataDirLocked (pe_dir P @ ''/kron.lock'')))"
    if "pe_dir P' = pe_dir P" for P'
    using assms(1) that by (simp add: py_start_def open_engine_def py_fault_def dir_locked_def set_channel_def)
  ultimately show ?thesis by blast
qed

text \<open>A schedule that can never fire is accepted.  If the next run of the requested schedule cannot be
  computed, because the cron expression or the time zone is not valid, then \<open>schedule\<close> on a running
  engine registers the timer without an exception: it is logged and listed as scheduled, but it
  has no next run and is not queued.\<close>

theorem invalid_schedule_accepted:
  assumes "pw_runtime w = Some inn" "\<not> i_shutting_down inn" "\<not> i_stopped inn"
    and "parse_registration (pe_libs P) (pe_show P) (pe_now P k) name kw = Inr reg"
    and "next_run_after (pe_libs P) (reg_schedule reg) (pe_now P (k + 1)) (unwrap_or (reg_timezone reg) ''UTC'') = Inl (Err err)"
    and "specs (i_state inn) (TimerId name) = None" "next_runs (i_state inn) (TimerId name) = None"
    and "encode (pe_codec P) (new_log_entry (pe_now P (k + 1)) (TimerCreated (registered_spec (pe_now P (k + 1)) reg inn))) = Inr line"
    and "pe_io P (k + 1) = IoOk"
  shows "\<exists>inn'. py_schedule P k name kw w = (Inr (), w\<lparr>pw_runtime := Some inn'\<rparr>)
    \<and> states (i_state inn') (TimerId name) = Some Scheduled
    \<and> next_runs (i_state inn') (TimerId name) = None \<and> i_heap inn' = i_heap inn"
proof -
  have id: "reg_id reg = name"
    using assms(4) by (auto simp: parse_registration_def split: option.splits if_splits sum.splits)
  let ?spec = "registered_spec (pe_now P (k + 1)) reg inn"
  have spec: "ts_schedule ?spec = reg_schedule reg" "ts_timezone ?spec = unwrap_or (reg_timezone reg) ''UTC''" "ts_id ?spec = TimerId name"
    by (simp_all add: registered_spec_def id Let_def)
  obtain inn1 where app: "engine_append (pe_codec P) (pe_now P (k + 1)) (TimerCreated ?spec) IoOk inn = (Inr (), inn1)"
    and same: "i_state inn1 = i_state inn" "i_heap inn1 = i_heap inn"
    using assms(8) by (auto simp: engine_append_def append_log_def Let_def set_log_bytes_def split: log_handle.split)
  show ?thesis
    using assms spec app same id
    by (auto simp: py_schedule_def apply_registration_def schedule_with_overlap_def register_spec_def bind_function_def
        apply_to_inner_def on_result_def register_function_def Let_def)
qed

section \<open>Witnesses\<close>

definition sample_setup :: ipc_setup where
  "sample_setup = \<lparr>is_prepare = None, is_random = Inr [7], is_host = None, is_unsafe = None, is_port = None,
     is_bind = (\<lambda>_ _. Inr ''127.0.0.1:4000''), is_tcp_nonblocking = None, is_port_write = None, is_port_mode = None,
     is_unix = UnixBound, is_socket_mode = None, is_unix_nonblocking = None\<rparr>"

definition sample_py :: py_env where
  "sample_py = \<lparr>pe_libs = minute_libs, pe_codec = plain_codec, pe_show = (\<lambda>_. ''failed''), pe_now = (\<lambda>_. 0),
     pe_io = (\<lambda>_. IoOk), pe_dir = ''data'', pe_locked = False, pe_ipc = sample_setup, pe_progress = (\<lambda>inn. inn)\<rparr>"

definition waiting_world :: py_world where
  "waiting_world = \<lparr>pw_runtime = None, pw_dir = [], pw_pending = [minutely Skip], pw_detached = [], pw_disk = (\<lambda>_. empty_disk),
     pw_channel = (\<lambda>_. sample_ipc_files)\<rparr>"

definition running_world :: py_world where
  "running_world = waiting_world\<lparr>pw_runtime := Some fresh_inner, pw_dir := ''data'', pw_pending := []\<rparr>"

lemma sample_channel:
  "\<exists>F. start_server sample_setup sample_ipc_files = (Inr (), F, True)"
proof -
  have "read_token (Some ''s'') = Inr ''s''"
    using utf8_ascii [of "''s''"] by (simp add: read_token_def trim_graphic graphic_def ascii_def)
  then show ?thesis
    by (simp add: start_server_def sample_setup_def sample_ipc_files_def read_or_create_token_def start_tcp_server_def
        tcp_bind_address_def is_loopback_host_def io_step_def unwrap_or_def Let_def)
qed

text \<open>A start on a directory without entries, when the registrations succeed.\<close>

lemma open_bare:
  "D = empty_disk \<or> D = empty_disk\<lparr>d_aof := Some []\<rparr> \<Longrightarrow> open_engine C ''data'' False D = (Inr fresh_inner, empty_disk\<lparr>d_aof := Some []\<rparr>)"
  by (auto simp: open_engine_def open_log_def empty_disk_def load_state_def replay_log_def fresh_inner_def new_state_def Let_def)

lemma sample_start:
  assumes "pw_runtime w = None" "pw_detached w = []"
    and "pw_disk w ''data'' = empty_disk \<or> pw_disk w ''data'' = empty_disk\<lparr>d_aof := Some []\<rparr>"
    and "pw_channel w ''data'' = sample_ipc_files"
    and "apply_registrations sample_py 0 (pw_pending w) fresh_inner = (Inr (), inn)" "\<not> i_started inn" "\<not> i_stopped inn"
  shows "fst (py_start sample_py w) = Inr ()"
proof -
  have "open_engine (pe_codec sample_py) (pe_dir sample_py) (dir_locked sample_py w) (pw_disk w (pe_dir sample_py))
      = (Inr fresh_inner, empty_disk\<lparr>d_aof := Some []\<rparr>)"
    using open_bare [OF assms(3)] assms(2) by (simp add: sample_py_def dir_locked_def)
  from start_opened [OF assms(1) this assms(5)] show ?thesis
    using sample_channel assms(4,6,7) by (auto simp: py_launch_def sample_py_def start_def Let_def)
qed

lemma waiting_registered:
  "fst (apply_registrations sample_py 0 [minutely Skip] fresh_inner) = Inr ()"
  "\<not> i_started (snd (apply_registrations sample_py 0 [minutely Skip] fresh_inner))"
  "\<not> i_stopped (snd (apply_registrations sample_py 0 [minutely Skip] fresh_inner))"
  by code_simp+

lemma waiting_start: "fst (py_start sample_py waiting_world) = Inr ()"
  using waiting_registered
  by (intro sample_start [where inn = "snd (apply_registrations sample_py 0 [minutely Skip] fresh_inner)"])
     (simp_all add: waiting_world_def prod_eq_iff)

theorem schedule_before_start_witness:
  "\<exists>w0 inn. py_start sample_py (waiting_world\<lparr>pw_pending := []\<rparr>) = (Inr (), w0) \<and> pw_runtime w0 = Some inn
    \<and> fst (apply_registrations sample_py 0 [minutely Skip] inn) = Inr ()"
proof -
  have "py_start sample_py waiting_world = (Inr (), snd (py_start sample_py waiting_world))"
    using waiting_start by (metis prod.collapse)
  from schedule_before_start [OF this] show ?thesis by (auto simp: waiting_world_def)
qed

definition refused :: py_env where
  "refused = sample_py\<lparr>pe_io := (\<lambda>_. WriteFails 0 ''disk full'')\<rparr>"

lemma refused_start:
  "py_start refused waiting_world = (Inl (PyRuntimeError ''failed''),
     waiting_world\<lparr>pw_pending := [], pw_disk := (\<lambda>_. empty_disk)(''data'' := empty_disk\<lparr>d_aof := Some []\<rparr>)\<rparr>)"
proof -
  have op: "open_engine (pe_codec refused) (pe_dir refused) (dir_locked refused waiting_world) (pw_disk waiting_world (pe_dir refused))
      = (Inr fresh_inner, empty_disk\<lparr>d_aof := Some []\<rparr>)"
    by (simp add: open_bare refused_def sample_py_def waiting_world_def dir_locked_def)
  have "apply_registrations refused 0 (pw_pending waiting_world) fresh_inner = (Inl (PyRuntimeError ''failed''), fresh_inner)"
    by (simp add: apply_registration_def schedule_with_overlap_def register_spec_def engine_append_def append_log_def refused_def
        sample_py_def plain_codec_def waiting_world_def minutely_def fresh_inner_def new_state_def on_result_def py_fault_def
        set_log_bytes_def log_bytes_def empty_disk_def Let_def)
  from start_opened [OF _ op this] show ?thesis by (simp add: waiting_world_def drop_engine_def fresh_inner_def refused_def sample_py_def)
qed

theorem failed_start_forgets_registrations_witness:
  "pw_pending (snd (py_start refused waiting_world)) = []
   \<and> (\<exists>inn. pw_runtime (snd (py_start sample_py (snd (py_start refused waiting_world)))) = Some inn \<and> i_registry inn = Map.empty)"
proof -
  let ?w = "waiting_world\<lparr>pw_pending := [], pw_disk := (\<lambda>_. empty_disk)(''data'' := empty_disk\<lparr>d_aof := Some []\<rparr>)\<rparr>"
  have "fst (py_start sample_py ?w) = Inr ()"
    by (rule sample_start [where inn = fresh_inner]) (simp_all add: waiting_world_def fresh_inner_def)
  then have second: "py_start sample_py ?w = (Inr (), snd (py_start sample_py ?w))" by (metis prod.collapse)
  have opened: "fst (open_engine (pe_codec refused) (pe_dir refused) (dir_locked refused waiting_world) (pw_disk waiting_world (pe_dir refused)))
      = Inr fresh_inner"
    by (simp add: open_bare refused_def sample_py_def waiting_world_def dir_locked_def)
  have "pw_runtime waiting_world = None" by (simp add: waiting_world_def)
  from failed_start_forgets_registrations [OF refused_start this opened second] show ?thesis by (auto simp: refused_start)
qed


definition text_object :: "string \<Rightarrow> py_object" where
  "text_object s = \<lparr>po_str = Some s, po_utc = None, po_u32 = None, po_callable = False, po_name = [], po_type = ''str''\<rparr>"

definition bad_cron :: kwargs where
  "bad_cron = [''fn'' \<mapsto> (text_object [])\<lparr>po_callable := True, po_name := ''f''\<rparr>, ''cron'' \<mapsto> text_object ''nonsense'']"

theorem invalid_schedule_accepted_witness:
  "\<exists>inn'. py_schedule sample_py 0 ''t'' (Some bad_cron) running_world = (Inr (), running_world\<lparr>pw_runtime := Some inn'\<rparr>)
    \<and> next_runs (i_state inn') (TimerId ''t'') = None"
proof -
  let ?P = "sample_py"
  let ?reg = "\<lparr>reg_id = ''t'', reg_schedule = Cron ''nonsense'', reg_fn_name = ''f'', reg_retry = Some default_retry,
    reg_timezone = Some ''UTC'', reg_overlap = Some Delay\<rparr>"
  have parsed: "parse_registration (pe_libs ?P) (pe_show ?P) (pe_now ?P 0) ''t'' (Some bad_cron) = Inr ?reg"
    by (simp add: parse_registration_def parse_schedule_def parse_overlap_def get_optional_def extract_as_def
        bad_cron_def text_object_def default_retry_def Let_def unwrap_or_def)
  have never: "next_run_after (pe_libs ?P) (reg_schedule ?reg) (pe_now ?P (0 + 1)) (unwrap_or (reg_timezone ?reg) ''UTC'')
      = Inl (Err (InvalidCron ''bad expression''))"
    by (simp add: sample_py_def minute_libs_def next_run_after_def unwrap_or_def)
  have line: "encode (pe_codec ?P) (new_log_entry (pe_now ?P (0 + 1)) (TimerCreated (registered_spec (pe_now ?P (0 + 1)) ?reg fresh_inner))) = Inr ''{}''"
    by (simp add: sample_py_def plain_codec_def)
  have world: "pw_runtime running_world = Some fresh_inner" "\<not> i_shutting_down fresh_inner" "\<not> i_stopped fresh_inner"
    "specs (i_state fresh_inner) (TimerId ''t'') = None" "next_runs (i_state fresh_inner) (TimerId ''t'') = None" "pe_io ?P (0 + 1) = IoOk"
    by (simp_all add: running_world_def fresh_inner_def new_state_def sample_py_def)
  from invalid_schedule_accepted [OF world(1-3) parsed never world(4,5) line world(6)] show ?thesis by blast
qed

end
