(* ===== verification/Kron_Http_Client.thy ===== *)
theory Kron_Http_Client
  imports Kron_Cluster_Http
begin

text \<open>
  The HTTP client of the command line (kron-cli/src/commands/server.rs): addresses, the bytes of a
  request and of an answer, the redirection to the leader and the file \<open>kron.http\<close>.  The transport
  and the JSON library are parameters.  Shown: client and alpha server understand each other byte
  for byte, and a client that is sent to another node follows once and remembers the node.
\<close>

section \<open>Addresses of servers\<close>

text \<open>\<open>trim_start_matches\<close> removes a prefix as often as it occurs.\<close>

function strip_prefixes :: "string \<Rightarrow> string \<Rightarrow> string" where
  "strip_prefixes p s =
     (if p \<noteq> [] \<and> take (length p) s = p then strip_prefixes p (drop (length p) s) else s)"
  by pat_completeness auto
termination
proof (relation "measure (\<lambda>(p, s). length s)")
  fix p s :: string
  assume "p \<noteq> [] \<and> take (length p) s = p"
  moreover from this have "length p \<le> length s" by (metis length_take min.cobounded1)
  ultimately show "((p, drop (length p) s), (p, s)) \<in> measure (\<lambda>(p, s). length s)"
    by (cases p) auto
qed simp

declare strip_prefixes.simps [simp del]

definition trim_end_char :: "char \<Rightarrow> string \<Rightarrow> string" where
  "trim_end_char c s = rev (dropWhile (\<lambda>d. d = c) (rev s))"

definition normalize_endpoint :: "string \<Rightarrow> string" where
  "normalize_endpoint endpoint = trim_end_char CHR ''/'' (strip_prefixes ''http://'' (trim endpoint))"

section \<open>One exchange\<close>

text \<open>\<open>split_once\<close> at the first occurrence of a separator.\<close>

fun split_once_at :: "string \<Rightarrow> string \<Rightarrow> string \<Rightarrow> (string \<times> string) option" where
  "split_once_at sep pre [] = None"
| "split_once_at sep pre (c # s) =
     (if take (length sep) (c # s) = sep then Some (pre, drop (length sep) (c # s))
      else split_once_at sep (pre @ [c]) s)"

definition status_of_line :: "string \<Rightarrow> u16 option" where
  "status_of_line line =
     (case split_whitespace line of
        _ # code # _ \<Rightarrow> map_option of_nat (parse_unsigned 16 code)
      | _ \<Rightarrow> None)"

definition parse_response :: "string \<Rightarrow> string + u16 \<times> string" where
  "parse_response response =
     (case split_once_at (crlf @ crlf) [] response of
        None \<Rightarrow> Inl ''invalid HTTP response''
      | Some (head, body) \<Rightarrow>
          (case Option.bind (case read_lines head of [] \<Rightarrow> None | line # _ \<Rightarrow> Some line) status_of_line of
             None \<Rightarrow> Inl ''invalid HTTP status line''
           | Some code \<Rightarrow> Inr (code, body)))"

text \<open>
  What a client sees of the world: the JSON library, and for its \<open>k\<close>-th connection what the
  server at an address answers to the bytes of a request.
\<close>

record client_env =
  cx_text :: "json \<Rightarrow> string + string"
  cx_parse :: "string \<Rightarrow> string + json"
  cx_exchange :: "nat \<Rightarrow> string \<Rightarrow> string \<Rightarrow> string + string"

definition body_text :: "client_env \<Rightarrow> json \<Rightarrow> string + string" where
  "body_text X body = (if body = Null then Inr [] else cx_text X body)"

definition request_once ::
  "client_env \<Rightarrow> nat \<Rightarrow> string \<Rightarrow> string \<Rightarrow> string \<Rightarrow> string \<Rightarrow> json \<Rightarrow> string + u16 \<times> json" where
  "request_once X k endpoint token mtd path body =
     (case body_text X body of
        Inl err \<Rightarrow> Inl err
      | Inr txt \<Rightarrow>
          let endpoint1 = normalize_endpoint endpoint
          in case cx_exchange X k endpoint1 (request_text mtd path endpoint1 token txt) of
               Inl err \<Rightarrow> Inl err
             | Inr response \<Rightarrow>
                 if \<not> utf8_ok response then Inl ''stream did not contain valid UTF-8''
                 else case parse_response response of
                        Inl err \<Rightarrow> Inl err
                      | Inr (code, answer) \<Rightarrow>
                          (case cx_parse X answer of Inl err \<Rightarrow> Inl err | Inr v \<Rightarrow> Inr (code, v)))"

section \<open>Following the leader\<close>

definition is_success :: "u16 \<Rightarrow> bool" where
  "is_success code \<longleftrightarrow> 200 \<le> code \<and> code < 300"

text \<open>Where an answer sends the client.\<close>

definition redirect_target :: "json \<Rightarrow> string option" where
  "redirect_target v =
     (if str_field v ''error'' = Some ''not_leader''
      then case str_field v ''leader_http'' of
             Some leader_http \<Rightarrow> if trim leader_http \<noteq> [] then Some (normalize_endpoint leader_http) else None
           | None \<Rightarrow> None
      else None)"

definition error_message_of :: "string \<Rightarrow> json \<Rightarrow> string" where
  "error_message_of def v =
     unwrap_or (Option.bind (case json_get v ''error'' of Some x \<Rightarrow> Some x | None \<Rightarrow> json_get v ''message'') as_str) def"

text \<open>The attempts \<open>0..=1\<close>; the value of a success comes with the endpoint that gave it.\<close>

fun request_loop ::
  "client_env \<Rightarrow> nat list \<Rightarrow> string \<Rightarrow> string \<Rightarrow> string \<Rightarrow> json \<Rightarrow> string \<Rightarrow> string + json \<times> string" where
  "request_loop X [] token mtd path body endpoint = Inl ''leader redirect retry failed''"
| "request_loop X (attempt # rest) token mtd path body endpoint =
     (case request_once X attempt endpoint token mtd path body of
        Inl err \<Rightarrow> Inl err
      | Inr (code, v) \<Rightarrow>
          if is_success code then Inr (v, endpoint)
          else case (if attempt = 0 then redirect_target v else None) of
                 Some leader \<Rightarrow> request_loop X rest token mtd path body leader
               | None \<Rightarrow> Inl (''HTTP '' @ show_nat (unat code) @ '': '' @ error_message_of ''server request failed'' v))"

text \<open>
  \<open>server::request\<close> with the file \<open>kron.http\<close>: the answer, and the file afterwards.  \<open>stored\<close> is the
  content of the file, or nothing if it cannot be read; \<open>write_fails\<close> tells whether a new endpoint
  cannot be stored, which is only a warning.
\<close>

definition server_request ::
  "client_env \<Rightarrow> bool \<Rightarrow> string + string \<Rightarrow> string \<Rightarrow> string \<Rightarrow> json \<Rightarrow> string option
   \<Rightarrow> (string + json) \<times> string option" where
  "server_request X write_fails token_choice mtd path body stored =
     (case stored of
        None \<Rightarrow> (Inl ''server endpoint not found; is `kron server start` running?'', None)
      | Some content \<Rightarrow>
     (case token_choice of
        Inl err \<Rightarrow> (Inl err, stored)
      | Inr token \<Rightarrow>
          let endpoint = trim content; original_endpoint = normalize_endpoint endpoint
          in case request_loop X [0, 1] (trim token) mtd path body endpoint of
               Inl err \<Rightarrow> (Inl err, stored)
             | Inr (v, answered) \<Rightarrow>
                 let normalized = normalize_endpoint answered
                 in (Inr v, if normalized \<noteq> original_endpoint \<and> \<not> write_fails
                            then Some (normalized @ [LF]) else stored)))"

section \<open>Addresses are normalized once\<close>

lemma strip_prefixes_suffix: "suffix (strip_prefixes p s) s"
proof (induction p s rule: strip_prefixes.induct)
  case (1 p s)
  show ?case
  proof (cases "p \<noteq> [] \<and> take (length p) s = p")
    case True
    then have "strip_prefixes p s = strip_prefixes p (drop (length p) s)" by (subst strip_prefixes.simps) simp
    then show ?thesis using 1 True suffix_order.trans suffix_drop by metis
  next
    case False
    then have "strip_prefixes p s = s" by (subst strip_prefixes.simps) auto
    then show ?thesis by simp
  qed
qed

lemma strip_prefixes_stripped: "p \<noteq> [] \<Longrightarrow> take (length p) (strip_prefixes p s) \<noteq> p"
proof (induction p s rule: strip_prefixes.induct)
  case (1 p s)
  show ?case
  proof (cases "take (length p) s = p")
    case True
    then have "strip_prefixes p s = strip_prefixes p (drop (length p) s)"
      using "1.prems" by (subst strip_prefixes.simps) simp
    then show ?thesis using 1 True by simp
  next
    case False
    then have "strip_prefixes p s = s" by (subst strip_prefixes.simps) simp
    then show ?thesis using False by simp
  qed
qed

lemma strip_prefixes_id: "take (length p) s \<noteq> p \<Longrightarrow> strip_prefixes p s = s"
  by (subst strip_prefixes.simps) simp

lemma trim_end_char_prefix: "prefix (trim_end_char c s) s"
  using suffix_dropWhile [of "\<lambda>d. d = c" "rev s"] by (simp add: trim_end_char_def suffix_to_prefix)

lemma trim_end_char_twice: "trim_end_char c (trim_end_char c s) = trim_end_char c s"
  by (simp add: trim_end_char_def dropWhile_idem)

lemma take_prefix_neq: "prefix t s \<Longrightarrow> take (length p) s \<noteq> p \<Longrightarrow> take (length p) t \<noteq> p"
  by (auto simp: prefix_def)

lemma graphic_sub: "set t \<subseteq> set s \<Longrightarrow> list_all graphic s \<Longrightarrow> list_all graphic t"
  by (auto simp: list_all_iff)

lemma trim_all_graphic: "list_all graphic s \<Longrightarrow> trim s = s"
  by (intro trim_graphic) (cases s; auto simp: list_all_iff)

lemma normalize_graphic:
  assumes "list_all graphic e"
  shows "list_all graphic (normalize_endpoint e)"
proof (rule graphic_sub [OF _ assms])
  show "set (normalize_endpoint e) \<subseteq> set e"
    using set_mono_prefix [OF trim_end_char_prefix] set_mono_suffix [OF strip_prefixes_suffix]
    by (fastforce simp: normalize_endpoint_def trim_all_graphic [OF assms])
qed

lemma normalize_twice:
  assumes "list_all graphic e"
  shows "normalize_endpoint (normalize_endpoint e) = normalize_endpoint e"
proof -
  define p where "p = ''http://''"
  let ?r = "strip_prefixes p e"
  have "take (length p) ?r \<noteq> p" by (rule strip_prefixes_stripped) (simp add: p_def)
  then have "strip_prefixes p (trim_end_char CHR ''/'' ?r) = trim_end_char CHR ''/'' ?r"
    by (intro strip_prefixes_id take_prefix_neq [OF trim_end_char_prefix])
  moreover have e: "normalize_endpoint e = trim_end_char CHR ''/'' ?r"
    by (simp add: normalize_endpoint_def trim_all_graphic [OF assms] p_def)
  moreover have "trim (normalize_endpoint e) = normalize_endpoint e"
    by (rule trim_all_graphic [OF normalize_graphic [OF assms]])
  ultimately show ?thesis
    unfolding normalize_endpoint_def [of "normalize_endpoint e"] by (simp add: trim_end_char_twice flip: p_def)
qed

section \<open>What a server answers, a client reads\<close>

lemma utf8_ascii_append: "ascii a \<Longrightarrow> utf8_ok (a @ b) = utf8_ok b"
  unfolding utf8_ok_def by (induction a) (auto simp: ascii_def utf8_follow_def)

lemma split_once_line:
  assumes "CR \<notin> set l" "rest \<noteq> []" "hd rest \<noteq> CR"
  shows "split_once_at (crlf @ crlf) pre (l @ crlf @ rest) = split_once_at (crlf @ crlf) (pre @ l @ crlf) rest"
  using assms(1)
proof (induction l arbitrary: pre)
  case Nil
  show ?case using assms(2,3) by (cases rest) (auto simp: crlf_def)
next
  case (Cons c l)
  then have "take (length (crlf @ crlf)) (c # l @ crlf @ rest) \<noteq> crlf @ crlf" by (auto simp: crlf_def)
  then show ?case using Cons by simp
qed

lemma split_once_end:
  "CR \<notin> set l \<Longrightarrow> split_once_at (crlf @ crlf) pre (l @ crlf @ crlf @ body) = Some (pre @ l, body)"
proof (induction l arbitrary: pre)
  case (Cons c l)
  then have "take (length (crlf @ crlf)) (c # l @ crlf @ crlf @ body) \<noteq> crlf @ crlf" by (auto simp: crlf_def)
  then show ?case using Cons by simp
qed (simp add: crlf_def)

lemma show_nat_graphic: "list_all graphic (show_nat n)"
  using show_nat_digits graphic_digit unfolding list_all_iff by metis

lemma show_nat_no_CR: "CR \<notin> set (show_nat n)"
  using show_nat_graphic [of n] by (auto simp: list_all_iff graphic_def)

lemma status_reason_words: "list_all (\<lambda>c. graphic c \<or> c = CHR '' '') (status_reason code)"
  by (simp add: status_reason_def graphic_def)

lemma status_line_read:
  "status_of_line (''HTTP/1.1 '' @ show_nat (unat (code :: u16)) @ '' '' @ reason) = Some code"
proof -
  have "split_words [] (''HTTP/1.1 '' @ show_nat (unat code) @ '' '' @ reason)
      = ''HTTP/1.1'' # show_nat (unat code) # split_words [] reason"
    using split_words_graphic [of "''HTTP/1.1''" "[]" "'' '' @ show_nat (unat code) @ '' '' @ reason"]
      split_words_graphic [OF show_nat_graphic, of "[]" "unat code" "'' '' @ reason"]
    by (simp add: split_words_space graphic_def del: split_words.simps(2))
  moreover have "parse_unsigned 16 (show_nat (unat code)) = Some (unat code)"
    using unsigned_less [of code] by (intro parse_show) simp
  ultimately show ?thesis by (simp add: status_of_line_def split_whitespace_def)
qed

lemma parse_written: "parse_response (write_json code body) = Inr (code, body)"
proof -
  define status where "status = ''HTTP/1.1 '' @ show_nat (unat code) @ '' '' @ status_reason code"
  define ctype where "ctype = ''Content-Type: application/json''"
  define len where "len = ''Content-Length: '' @ show_nat (length body)"
  define conn where "conn = ''Connection: close''"
  have cr: "CR \<notin> set status" "CR \<notin> set ctype" "CR \<notin> set len" "CR \<notin> set conn"
    using status_reason_words [of code]
    by (auto simp: show_nat_no_CR list_all_iff graphic_def status_def ctype_def len_def conn_def)
  have start: "\<And>s. hd (ctype @ s) \<noteq> CR" "\<And>s. hd (len @ s) \<noteq> CR" "\<And>s. hd (conn @ s) \<noteq> CR"
    by (simp_all add: ctype_def len_def conn_def)
  have lf: "LF \<notin> set status"
    using status_reason_words [of code] show_nat_graphic [of "unat code"]
    by (auto simp: list_all_iff graphic_def status_def)
  let ?tail = "ctype @ crlf @ len @ crlf @ conn"
  have ne: "\<And>s. ctype @ s \<noteq> []" "\<And>s. len @ s \<noteq> []" "\<And>s. conn @ s \<noteq> []" by (simp_all add: ctype_def len_def conn_def)
  have "write_json code body = status @ crlf @ ctype @ crlf @ len @ crlf @ conn @ crlf @ crlf @ body"
    by (simp add: write_json_def status_def ctype_def len_def conn_def)
  then have "split_once_at (crlf @ crlf) [] (write_json code body) = Some (status @ crlf @ ?tail, body)"
    using split_once_line [OF cr(1) ne(1) start(1)] split_once_line [OF cr(2) ne(2) start(2)]
      split_once_line [OF cr(3) ne(3) start(3)] split_once_end [OF cr(4)]
    by (simp only: append_Nil append_assoc)
  moreover have "read_lines (status @ crlf @ ?tail) = status # read_lines ?tail"
    by (rule read_lines_crlf [OF lf])
  ultimately show ?thesis
    using status_line_read [of code "status_reason code", folded status_def] by (simp add: parse_response_def)
qed

text \<open>What the alpha server sends back on a connection: nothing when it drops the connection.\<close>

definition alpha_answer :: "http_env \<Rightarrow> string \<Rightarrow> (json \<Rightarrow> string) \<Rightarrow> cluster_engine \<Rightarrow> string \<Rightarrow> string + string" where
  "alpha_answer H token text_of en req =
     (case fst (handle_http_stream H token req en) of
        Inr response \<Rightarrow> Inr (write_json (hr_status response) (text_of (hr_body response)))
      | Inl _ \<Rightarrow> Inr [])"

lemma write_json_utf8: "utf8_ok body \<Longrightarrow> utf8_ok (write_json code body)"
proof -
  assume body: "utf8_ok body"
  have "ascii (show_nat n)" for n using show_nat_graphic [of n] by (auto simp: ascii_def list_all_iff graphic_def)
  moreover have "ascii (status_reason code)"
    using status_reason_words [of code] by (auto simp: ascii_def list_all_iff graphic_def)
  ultimately have "ascii (''HTTP/1.1 '' @ show_nat (unat code) @ '' '' @ status_reason code @ crlf
     @ ''Content-Type: application/json'' @ crlf @ ''Content-Length: '' @ show_nat (length body) @ crlf
     @ ''Connection: close'' @ crlf @ crlf)"
    by (auto simp: ascii_def crlf_def)
  from utf8_ascii_append [OF this, of body] body show ?thesis by (simp add: write_json_def)
qed

lemma alpha_once:
  assumes "list_all graphic endpoint" "list_all graphic token" "token \<noteq> []"
    and "list_all graphic mtd" "mtd \<noteq> []" "list_all graphic path" "path \<noteq> []"
    and "body_text X body = Inr txt" "utf8_ok txt" "length txt \<le> 1024 * 1024"
    and "cx_exchange X k (normalize_endpoint endpoint) = alpha_answer H token text_of en"
    and "route_http H mtd path txt en = (r, en')"
    and "r = Inr response \<or> (\<exists>err. r = Inl (Err err) \<and> response = json_answer 400 (he_show H err))"
    and "cx_parse X (text_of (hr_body response)) = Inr (hr_body response)" "utf8_ok (text_of (hr_body response))"
  shows "request_once X k endpoint token mtd path body = Inr (hr_status response, hr_body response)
    \<and> snd (handle_http_stream H token (request_text mtd path (normalize_endpoint endpoint) token txt) en) = en'"
proof -
  have addr: "ascii (normalize_endpoint endpoint)" "LF \<notin> set (normalize_endpoint endpoint)"
    using normalize_graphic [OF assms(1)] by (auto simp: ascii_def list_all_iff graphic_def)
  have "handle_http_stream H token (request_text mtd path (normalize_endpoint endpoint) token txt) en = (Inr response, en')"
    using request_delivered [OF addr assms(2-7,9,10), of H en] assms(12,13) by auto
  then show ?thesis
    using assms(8,11,14,15)
    by (simp add: request_once_def alpha_answer_def parse_written write_json_utf8 Let_def)
qed


section \<open>A client finds the leader\<close>

text \<open>
  The contract of the two clients of the repository, the command line and the Python binding:
  a success is returned with the endpoint that gave it, and a redirection at the first attempt
  is followed once.
\<close>

locale leader_redirect =
  fixes once :: "nat \<Rightarrow> string \<Rightarrow> 'e + u16 \<times> json"
    and ask :: "string \<Rightarrow> 'r"
    and answered :: "json \<Rightarrow> string \<Rightarrow> 'r"
  assumes direct: "once 0 e = Inr (code, v) \<Longrightarrow> is_success code \<Longrightarrow> ask e = answered v e"
    and redirected: "once 0 e = Inr (code, v) \<Longrightarrow> \<not> is_success code \<Longrightarrow> redirect_target v = Some l \<Longrightarrow>
      once 1 l = Inr (code', v') \<Longrightarrow> is_success code' \<Longrightarrow> ask e = answered v' l"
begin

lemma reaches_leader:
  assumes "e \<noteq> leader \<Longrightarrow> \<exists>code v. once 0 e = Inr (code, v) \<and> \<not> is_success code \<and> redirect_target v = Some leader"
    and "\<And>k. once k leader = Inr (code, answer)" "is_success code"
  shows "ask e = answered answer leader"
  using assms direct [of leader] redirected [of e] by (cases "e = leader") metis+

end

interpretation cli: leader_redirect
  "\<lambda>k e. request_once X k e token mtd path body"
  "request_loop X [0, 1] token mtd path body"
  "\<lambda>v e. Inr (v, e)"
  for X token mtd path body
  by unfold_locales simp_all

lemma request_once_normal:
  "normalize_endpoint e = normalize_endpoint e' \<Longrightarrow> request_once X k e token mtd path body = request_once X k e' token mtd path body"
  by (simp only: request_once_def)

lemma endpoint_file: "list_all graphic a \<Longrightarrow> a \<noteq> [] \<Longrightarrow> trim (a @ [LF]) = a"
  by (rule trim_LF) (simp_all add: list_all_iff)

text \<open>A request whose stored endpoint is a name of the leader.\<close>

lemma request_at_leader:
  assumes "normalize_endpoint (trim content) = normalize_endpoint leader"
    and "request_once X 0 leader (trim token) mtd path body = Inr (code, answer)" "is_success code"
  shows "server_request X fails (Inr token) mtd path body (Some content) = (Inr answer, Some content)"
  using assms request_once_normal [OF assms(1)] by (simp add: server_request_def Let_def)

text \<open>A request whose stored endpoint names the leader, or a node that sends the client there: the answer
  of the leader is returned, the file names the leader from then on, and a further request that
  the leader answers is answered at its first connection.\<close>

lemma request_redirected:
  assumes "list_all graphic leader" "normalize_endpoint leader \<noteq> []"
    and "normalize_endpoint (trim content) \<noteq> normalize_endpoint leader \<Longrightarrow>
      \<exists>code v. request_once X 0 (trim content) (trim token) mtd path body = Inr (code, v) \<and> \<not> is_success code
        \<and> redirect_target v = Some (normalize_endpoint leader)"
    and "\<And>k. request_once X k leader (trim token) mtd path body = Inr (code, answer)" "is_success code"
  shows "\<exists>content'. server_request X False (Inr token) mtd path body (Some content) = (Inr answer, Some content')
    \<and> normalize_endpoint (trim content') = normalize_endpoint leader"
proof -
  let ?l = "normalize_endpoint leader"
  have twice: "normalize_endpoint ?l = ?l" by (rule normalize_twice [OF assms(1)])
  show ?thesis
  proof (cases "normalize_endpoint (trim content) = ?l")
    case True
    from request_at_leader [OF this assms(4,5)] True show ?thesis by blast
  next
    case False
    from assms(3) [OF False] obtain code0 v where v: "request_once X 0 (trim content) (trim token) mtd path body = Inr (code0, v)"
        "\<not> is_success code0" "redirect_target v = Some ?l" by blast
    have "request_once X 1 ?l (trim token) mtd path body = Inr (code, answer)"
      using request_once_normal [OF twice] assms(4) by simp
    from cli.redirected [OF v this assms(5)]
    have "server_request X False (Inr token) mtd path body (Some content) = (Inr answer, Some (?l @ [LF]))"
      using False twice by (simp add: server_request_def Let_def)
    moreover have "trim (?l @ [LF]) = ?l" using endpoint_file normalize_graphic [OF assms(1)] assms(2) by blast
    ultimately show ?thesis using twice by auto
  qed
qed

section \<open>Witnesses\<close>

definition sample_client :: client_env where
  "sample_client = \<lparr>cx_text = (\<lambda>_. Inr ''{}''), cx_parse = (\<lambda>_. Inr (Object [(''shutdown'', String ''requested'')])),
     cx_exchange = (\<lambda>_ _. alpha_answer sample_http_env ''s'' (\<lambda>_. ''{}'') fresh_engine)\<rparr>"


end
