(* ===== verification/Kron_Python_Worker.thy ===== *)
theory Kron_Python_Worker
  imports Kron_Python Kron_Http_Client "HOL-Library.AList"
begin

text \<open>
  The HTTP side of the Python module (kron-py/src/lib.rs): \<open>Client\<close> and \<open>Worker\<close>, the requests they send
  and how they follow the leader.  The transport, the JSON library and the callbacks are
  parameters; a Python value stands for the JSON value that Python's own library maps it to.  Shown:
  the binding and the command line speak the same protocol, the binding finds the leader as the
  command line does, and a worker that has claimed a run of the alpha server reports an outcome
  that the server accepts, byte for byte.
\<close>

section \<open>Requests to a server\<close>

definition normalize_server :: "string \<Rightarrow> string" where
  "normalize_server server = trim_end_char CHR ''/'' (strip_prefixes ''http://'' (trim server))"

text \<open>The \<open>k\<close>-th connection of a request; \<open>resolve\<close> gives the addresses of a server.  The exchange with an
  address, with the timeouts set on it, is a parameter.\<close>

record py_http =
  ph_client :: client_env
  ph_resolve :: "string \<Rightarrow> string + string list"

definition http_request_once ::
  "py_http \<Rightarrow> nat \<Rightarrow> string \<Rightarrow> string \<Rightarrow> string \<Rightarrow> string \<Rightarrow> json \<Rightarrow> py_error + u16 \<times> json" where
  "http_request_once H k server0 token mtd path body =
     (let server = normalize_server server0; X = ph_client H
      in case body_text X body of
           Inl err \<Rightarrow> Inl (PyRuntimeError err)
         | Inr txt \<Rightarrow>
        (case ph_resolve H server of
           Inl err \<Rightarrow> Inl (PyRuntimeError err)
         | Inr [] \<Rightarrow> Inl (PyRuntimeError (''could not resolve server '' @ server))
         | Inr (addr # _) \<Rightarrow>
        (case cx_exchange X k addr (request_text mtd path server token txt) of
           Inl err \<Rightarrow> Inl (PyRuntimeError err)
         | Inr response \<Rightarrow>
             if \<not> utf8_ok response then Inl (PyRuntimeError ''stream did not contain valid UTF-8'')
             else case parse_response response of
                    Inl err \<Rightarrow> Inl (PyRuntimeError err)
                  | Inr (code, answer) \<Rightarrow>
                      (case cx_parse X answer of Inl err \<Rightarrow> Inl (PyRuntimeError err) | Inr v \<Rightarrow> Inr (code, v)))))"

text \<open>The result and the server that \<open>resolved\<close> names afterwards.\<close>

fun follow_redirect_loop ::
  "py_http \<Rightarrow> nat list \<Rightarrow> string \<Rightarrow> string \<Rightarrow> string \<Rightarrow> json \<Rightarrow> string \<Rightarrow> string \<Rightarrow> (py_error + json) \<times> string" where
  "follow_redirect_loop H [] token mtd path body current resolved =
     (Inl (PyRuntimeError ''leader redirect retry failed''), resolved)"
| "follow_redirect_loop H (attempt # rest) token mtd path body current resolved =
     (case http_request_once H attempt current token mtd path body of
        Inl e \<Rightarrow> (Inl e, resolved)
      | Inr (code, v) \<Rightarrow>
          if is_success code then (Inr v, resolved)
          else case (if attempt = 0 then redirect_target v else None) of
                 Some leader \<Rightarrow> follow_redirect_loop H rest token mtd path body leader leader
               | None \<Rightarrow>
                   (Inl (PyRuntimeError (''HTTP '' @ show_nat (unat code) @ '' from '' @ current @ '': ''
                           @ error_message_of ''HTTP request failed'' v)), resolved))"

definition http_request_follow_redirect ::
  "py_http \<Rightarrow> string \<Rightarrow> string \<Rightarrow> string \<Rightarrow> json \<Rightarrow> string \<Rightarrow> (py_error + json) \<times> string" where
  "http_request_follow_redirect H token mtd path body server =
     follow_redirect_loop H [0, 1] token mtd path body (normalize_server server) server"

text \<open>A request through the cached address of the server: the result and the cache afterwards.\<close>

definition http_request_cached ::
  "py_http \<Rightarrow> string \<Rightarrow> string \<Rightarrow> string \<Rightarrow> json \<Rightarrow> string \<Rightarrow> (py_error + json) \<times> string" where
  "http_request_cached H token mtd path body server =
     (case http_request_follow_redirect H token mtd path body server of
        (Inl e, _) \<Rightarrow> (Inl e, server)
      | (Inr v, resolved) \<Rightarrow> (Inr v, resolved))"

section \<open>Clients and workers\<close>

text \<open>A call of a method of \<open>Client\<close>, as method, path and body.\<close>

definition client_schedule_call ::
  "string \<Rightarrow> string \<Rightarrow> json option \<Rightarrow> string option \<Rightarrow> string option \<Rightarrow> string option \<Rightarrow> string option \<Rightarrow> string option
   \<Rightarrow> u32 \<Rightarrow> string \<times> string \<times> json" where
  "client_schedule_call name task payload cron every after at timezone attempts =
     (''POST'', ''/v1/timers'', Object
        [(''name'', String name), (''task'', String task), (''payload'', unwrap_or payload Null),
         (''cron'', opt_string cron), (''every'', opt_string every), (''after'', opt_string after), (''at'', opt_string at),
         (''timezone'', String (unwrap_or timezone ''UTC'')), (''max_attempts'', json_u64 (ucast attempts))])"

definition client_list_call :: "string \<times> string \<times> json" where
  "client_list_call = (''GET'', ''/v1/timers'', Null)"

definition client_status_call :: "string \<Rightarrow> string \<times> string \<times> json" where
  "client_status_call name = (''GET'', ''/v1/timers/'' @ name, Null)"

definition client_history_call :: "string \<Rightarrow> string \<times> string \<times> json" where
  "client_history_call name = (''GET'', ''/v1/timers/'' @ name @ ''/history'', Null)"

record py_client =
  pc_server :: string
  pc_token :: string

definition new_py_client :: "string \<Rightarrow> string \<Rightarrow> py_client" where
  "new_py_client server token = \<lparr>pc_server = normalize_server server, pc_token = token\<rparr>"

definition client_request :: "py_http \<Rightarrow> string \<times> string \<times> json \<Rightarrow> py_client \<Rightarrow> (py_error + json) \<times> py_client" where
  "client_request H call c =
     (case call of (mtd, path, body) \<Rightarrow>
        (case http_request_cached H (pc_token c) mtd path body (pc_server c) of
           (r, server) \<Rightarrow> (r, c\<lparr>pc_server := server\<rparr>)))"

text \<open>The list of tasks stands in the order of the hash map.\<close>

record py_worker =
  wk_server :: string
  wk_token :: string
  wk_id :: string
  wk_tasks :: "(string \<times> (json \<Rightarrow> string + unit)) list"

definition new_worker :: "string \<Rightarrow> string \<Rightarrow> string option \<Rightarrow> string \<Rightarrow> py_worker" where
  "new_worker server token worker_id nanos =
     \<lparr>wk_server = normalize_server server, wk_token = token, wk_id = unwrap_or worker_id (''worker_'' @ nanos), wk_tasks = []\<rparr>"

text \<open>The decorator of \<open>Worker.task\<close>: a later function replaces an earlier one of the same name.\<close>

definition add_task :: "string \<Rightarrow> (json \<Rightarrow> string + unit) \<Rightarrow> py_worker \<Rightarrow> py_worker" where
  "add_task name f w = w\<lparr>wk_tasks := AList.update name f (wk_tasks w)\<rparr>"

text \<open>
  Requests of a worker go through \<open>send\<close>, for the \<open>k\<close>-th request of a call: the method, the path and the
  body give the answer and the cached server.  The log of the requests comes with the result.
\<close>

type_synonym sender = "nat \<Rightarrow> string \<Rightarrow> string \<Rightarrow> json \<Rightarrow> string \<Rightarrow> (py_error + json) \<times> string"
type_synonym request_log = "(string \<times> string \<times> json) list"

definition register_body :: "py_worker \<Rightarrow> json" where
  "register_body w = Object [(''worker_id'', String (wk_id w)), (''tasks'', Array (map (String \<circ> fst) (wk_tasks w))),
     (''lease_seconds'', json_u64 30)]"

definition poll_body :: "py_worker \<Rightarrow> json" where
  "poll_body w = Object [(''worker_id'', String (wk_id w)), (''tasks'', Array (map (String \<circ> fst) (wk_tasks w)))]"

fun as_u64 :: "json \<Rightarrow> u64 option" where
  "as_u64 (Number (PosInt n)) = Some n"
| "as_u64 _ = None"

definition outcome_body :: "py_worker \<Rightarrow> u64 \<Rightarrow> string + unit \<Rightarrow> json" where
  "outcome_body w fencing_token result =
     Object ([(''worker_id'', String (wk_id w)), (''fencing_token'', json_u64 fencing_token)]
       @ (case result of Inl err \<Rightarrow> [(''error'', String err)] | Inr _ \<Rightarrow> []))"

definition execute_run :: "sender \<Rightarrow> nat \<Rightarrow> json \<Rightarrow> py_worker \<Rightarrow> (py_error + unit) \<times> py_worker \<times> request_log" where
  "execute_run send k run w =
     (let task = unwrap_or (str_field run ''task'') [];
          rid = unwrap_or (str_field run ''run_id'') [];
          fencing_token = unwrap_or (Option.bind (json_get run ''fencing_token'') as_u64) 0;
          payload = unwrap_or (json_get run ''payload'') Null
      in case map_of (wk_tasks w) task of
           None \<Rightarrow> (Inl (PyRuntimeError (''task '' @ task @ '' is not registered'')), w, [])
         | Some callable \<Rightarrow>
             let result = callable payload;
                 path = ''/v1/runs/'' @ rid @ (case result of Inr _ \<Rightarrow> ''/succeed'' | Inl _ \<Rightarrow> ''/fail'');
                 body = outcome_body w fencing_token result
             in case send k ''POST'' path body (wk_server w) of
                  (Inl e, server) \<Rightarrow> (Inl e, w\<lparr>wk_server := server\<rparr>, [(''POST'', path, body)])
                | (Inr _, server) \<Rightarrow> (Inr (), w\<lparr>wk_server := server\<rparr>, [(''POST'', path, body)]))"

definition run_once :: "sender \<Rightarrow> py_timeout \<Rightarrow> py_worker \<Rightarrow> (py_error + bool) \<times> py_worker \<times> request_log" where
  "run_once send timeout w =
     (case seconds_to_duration timeout of
        Inl e \<Rightarrow> (Inl e, w, [])
      | Inr _ \<Rightarrow>
          let reg = (''POST'', ''/v1/workers/register'', register_body w)
          in case send 0 ''POST'' ''/v1/workers/register'' (register_body w) (wk_server w) of
               (Inl e, server) \<Rightarrow> (Inl e, w\<lparr>wk_server := server\<rparr>, [reg])
             | (Inr _, server) \<Rightarrow>
                 let w1 = w\<lparr>wk_server := server\<rparr>; poll = (''POST'', ''/v1/workers/poll'', poll_body w1)
                 in case send 1 ''POST'' ''/v1/workers/poll'' (poll_body w1) (wk_server w1) of
                      (Inl e, server1) \<Rightarrow> (Inl e, w1\<lparr>wk_server := server1\<rparr>, [reg, poll])
                    | (Inr response, server1) \<Rightarrow>
                        let w2 = w1\<lparr>wk_server := server1\<rparr>
                        in if response = Null then (Inr False, w2, [reg, poll])
                           else (case execute_run send 2 response w2 of
                                   (Inl e, w3, log) \<Rightarrow> (Inl e, w3, [reg, poll] @ log)
                                 | (Inr _, w3, log) \<Rightarrow> (Inr True, w3, [reg, poll] @ log)))"

text \<open>\<open>Worker.run\<close>: turns until one raises; \<open>sends\<close> gives the environment of each turn that is observed.\<close>

fun worker_run_loop :: "sender list \<Rightarrow> py_worker \<Rightarrow> py_error option \<times> py_worker \<times> request_log" where
  "worker_run_loop [] w = (None, w, [])"
| "worker_run_loop (send # sends) w =
     (case run_once send (Millis 20000) w of
        (Inl e, w1, log) \<Rightarrow> (Some e, w1, log)
      | (Inr _, w1, log) \<Rightarrow> (case worker_run_loop sends w1 of (e, w2, logs) \<Rightarrow> (e, w2, log @ logs)))"

section \<open>The two clients agree\<close>

text \<open>Up to the resolution of the address and the type of its errors, an exchange of the binding is
  one of the command line.\<close>

lemma normalize_server_eq: "normalize_server = normalize_endpoint"
  by (simp add: fun_eq_iff normalize_server_def normalize_endpoint_def)

definition at_address :: "string \<Rightarrow> client_env \<Rightarrow> client_env" where
  "at_address addr X = X\<lparr>cx_exchange := (\<lambda>k _. cx_exchange X k addr)\<rparr>"

lemma at_address_fields [simp]:
  "body_text (at_address addr X) = body_text X" "cx_parse (at_address addr X) = cx_parse X"
  "cx_exchange (at_address addr X) k e = cx_exchange X k addr"
  by (simp_all add: at_address_def body_text_def fun_eq_iff)

lemma py_once_as_cli:
  "ph_resolve H (normalize_server server) = Inr (addr # others) \<Longrightarrow>
     http_request_once H k server token mtd path body
       = map_sum PyRuntimeError (\<lambda>x. x) (request_once (at_address addr (ph_client H)) k server token mtd path body)"
  by (simp add: http_request_once_def request_once_def normalize_server_eq Let_def split: sum.split)

interpretation py: leader_redirect
  "\<lambda>k e. http_request_once H k e token mtd path body"
  "\<lambda>e. case follow_redirect_loop H [0, 1] token mtd path body e e of
         (Inr v, resolved) \<Rightarrow> Inr (v, resolved) | (Inl err, _) \<Rightarrow> Inl err"
  "\<lambda>v e. Inr (v, e)"
  for H token mtd path body
  by unfold_locales simp_all

lemma py_redirected:
  assumes "normalize_server server = server"
    and "server \<noteq> normalize_server leader \<Longrightarrow>
      \<exists>code v. http_request_once H 0 server token mtd path body = Inr (code, v) \<and> \<not> is_success code
        \<and> redirect_target v = Some (normalize_server leader)"
    and "\<And>k. http_request_once H k (normalize_server leader) token mtd path body = Inr (code, answer)" "is_success code"
  shows "http_request_cached H token mtd path body server = (Inr answer, normalize_server leader)"
  using py.reaches_leader [OF assms(2-4)]
  by (auto simp: http_request_cached_def http_request_follow_redirect_def assms(1) split: prod.splits sum.splits)

section \<open>A worker and its server\<close>

text \<open>The JSON of a run has the fields of the structure, with their names.\<close>

definition run_fields :: "worker_run \<Rightarrow> json \<Rightarrow> bool" where
  "run_fields run v \<longleftrightarrow>
     str_field v ''task'' = Some (wr_task run) \<and> str_field v ''run_id'' = Some (wr_run_id run)
     \<and> json_get v ''fencing_token'' = Some (json_u64 (wr_fencing_token run))
     \<and> json_get v ''payload'' = Some (wr_payload run)"

lemma split_at_char_plain: "d \<notin> set a \<Longrightarrow> split_at_char d p (a @ s) = split_at_char d (p @ a) s"
  by (induction a arbitrary: p) auto

lemma run_path_segments:
  assumes "CHR ''/'' \<notin> set rid" "rid \<noteq> []" "CHR ''/'' \<notin> set verb" "verb \<noteq> []"
  shows "path_segments (''/v1/runs/'' @ rid @ CHR ''/'' # verb) = [''v1'', ''runs'', rid, verb]"
proof -
  obtain v c where verb: "verb = v @ [c]" using assms(4) by (metis rev_exhaust)
  then have c: "c \<noteq> CHR ''/''" using assms(3) by auto
  have "dropWhile (\<lambda>c. c = CHR ''/'') (''/v1/runs/'' @ rid @ CHR ''/'' # verb) = ''v1/runs/'' @ rid @ CHR ''/'' # verb" by simp
  moreover have "rev (dropWhile (\<lambda>c. c = CHR ''/'') (rev (''v1/runs/'' @ rid @ CHR ''/'' # verb))) = ''v1/runs/'' @ rid @ CHR ''/'' # verb"
    by (simp add: verb c)
  ultimately show ?thesis
    using split_at_char_plain [OF assms(1), of "[]" "CHR ''/'' # verb"] split_at_char_plain [OF assms(3), of "[]" "[]"]
    by (simp add: path_segments_def)
qed

lemma outcome_fields [simp]: "json_u64 n = Number (PosInt n)"
  by (simp add: json_u64_def)

text \<open>The run is over for the server, and the last event of its history tells how.\<close>

definition outcome_recorded :: "string \<Rightarrow> bool \<Rightarrow> cluster_engine \<Rightarrow> cluster_engine \<Rightarrow> bool" where
  "outcome_recorded rid success en en' \<longleftrightarrow>
     bt_get (cs_active_runs (en_state en')) rid = None
     \<and> (\<exists>e. cs_history (en_state en') = cs_history (en_state en) @ [e] \<and> str_field e ''run_id'' = Some rid
          \<and> str_field e ''type'' = Some (if success then ''RUN_SUCCEEDED'' else ''RUN_FAILED''))"

text \<open>The server can write its log, and computing the next run of a timer does not overflow.\<close>

definition server_healthy :: "alpha_env \<Rightarrow> string \<Rightarrow> bool" where
  "server_healthy E tid \<longleftrightarrow> al_io E = IoOk \<and> (\<forall>c. \<exists>line. encode (al_codec E) c = Inr line)
     \<and> (\<forall>st. \<exists>st'. alpha_reschedule E 3 tid st = Inr st')"

lemma healthy_append: "server_healthy E tid \<Longrightarrow> \<exists>log. append_command E k c en = (Inr (), en\<lparr>en_log := log\<rparr>)"
proof -
  assume "server_healthy E tid"
  then obtain line where "encode (al_codec E) \<lparr>cmd_v = 1, cmd_ts = al_now E k, cmd_command = c\<rparr> = Inr line" "al_io E = IoOk"
    unfolding server_healthy_def by blast
  then show ?thesis by (auto simp: append_command_def)
qed

lemma reschedule_keeps:
  "alpha_reschedule E k tid st = Inr st' \<Longrightarrow> cs_active_runs st' = cs_active_runs st \<and> cs_history st' = cs_history st"
  by (auto simp: alpha_reschedule_def split: option.splits sum.splits fault.splits)

lemma finish_active_run:
  assumes "server_healthy E (ca_timer_id a)" "cs_leader (en_state en)"
    and "bt_get (cs_active_runs (en_state en)) rid = Some a" "ca_worker_id a = worker" "ca_fencing_token a = token"
  shows "\<exists>en'. alpha_complete_run E rid \<lparr>rc_worker_id = worker, rc_fencing_token = token\<rparr> en = (Inr ok_json, en')
      \<and> outcome_recorded rid True en en'"
    and "\<exists>en'. alpha_fail_run E rid \<lparr>rf_worker_id = worker, rf_fencing_token = token, rf_error = err\<rparr> en = (Inr ok_json, en')
      \<and> outcome_recorded rid False en en'"
proof -
  obtain log where log: "append_command E 1 (CompleteRun (RunId rid) worker token (al_now E 0)) en = (Inr (), en\<lparr>en_log := log\<rparr>)"
    using healthy_append [OF assms(1)] by blast
  have "alpha_reschedule E 3 (ca_timer_id a) st \<noteq> Inl f" for st f
    using assms(1) unfolding server_healthy_def by (metis Inl_Inr_False)
  then show "\<exists>en'. alpha_complete_run E rid \<lparr>rc_worker_id = worker, rc_fencing_token = token\<rparr> en = (Inr ok_json, en')
      \<and> outcome_recorded rid True en en'"
    using assms log
    by (auto simp: alpha_complete_run_def alpha_ensure_leader_def alpha_validate_active_run_def outcome_recorded_def
        str_field_def push_event_def Let_def split: sum.split dest!: reschedule_keeps)
  obtain log' where log': "append_command E 1 (FailRun (RunId rid) worker token err (al_now E 0)) en = (Inr (), en\<lparr>en_log := log'\<rparr>)"
    using healthy_append [OF assms(1)] by blast
  then show "\<exists>en'. alpha_fail_run E rid \<lparr>rf_worker_id = worker, rf_fencing_token = token, rf_error = err\<rparr> en = (Inr ok_json, en')
      \<and> outcome_recorded rid False en en'"
    using assms
    by (simp add: alpha_fail_run_def alpha_ensure_leader_def alpha_validate_active_run_def outcome_recorded_def
        str_field_def push_event_def on_state_def)
qed

text \<open>The server runs the route of the outcome on the run that it names.\<close>

lemma outcome_route:
  assumes "server_healthy (he_env H) (ca_timer_id a)" "cs_leader (en_state en)"
    and "bt_get (cs_active_runs (en_state en)) rid = Some a" "ca_worker_id a = worker" "ca_fencing_token a = token"
    and "CHR ''/'' \<notin> set rid" "rid \<noteq> []"
    and "case result of
           Inr _ \<Rightarrow> hj_complete (he_json H) txt = Inr \<lparr>rc_worker_id = worker, rc_fencing_token = token\<rparr>
         | Inl err \<Rightarrow> hj_fail (he_json H) txt = Inr \<lparr>rf_worker_id = worker, rf_fencing_token = token, rf_error = err\<rparr>"
  shows "\<exists>en'. route_http H ''POST'' (''/v1/runs/'' @ rid @ (case result of Inr _ \<Rightarrow> ''/succeed'' | Inl _ \<Rightarrow> ''/fail'')) txt en
      = (Inr \<lparr>hr_status = 200, hr_body = ok_json\<rparr>, en') \<and> outcome_recorded rid (\<not> isl result) en en'"
proof (cases result)
  case (Inr u)
  have "path_segments (''/v1/runs/'' @ rid @ ''/succeed'') = [''v1'', ''runs'', rid, ''succeed'']"
    using run_path_segments [OF assms(6,7), of "''succeed''"] by simp
  then show ?thesis
    using finish_active_run(1) [OF assms(1-5)] assms(8) Inr
    by (auto simp: route_http_def with_body_def Let_def)
next
  case (Inl err)
  have "path_segments (''/v1/runs/'' @ rid @ ''/fail'') = [''v1'', ''runs'', rid, ''fail'']"
    using run_path_segments [OF assms(6,7), of "''fail''"] by simp
  then show ?thesis
    using finish_active_run(2) [OF assms(1-5), of err] assms(8) Inl
    by (auto simp: route_http_def with_body_def Let_def)
qed

lemma claimed_run_active:
  assumes "claim_pending_for E worker tasks en = (Inr (Some run), en')"
  shows "\<exists>a. bt_get (cs_active_runs (en_state en')) (wr_run_id run) = Some a \<and> ca_worker_id a = worker
    \<and> ca_fencing_token a = wr_fencing_token run \<and> ca_timer_id a = wr_timer run"
  using assms
  by (auto simp: claim_pending_for_def on_state_def push_event_def Let_def append_command_state
      split: option.splits sum.splits prod.splits)

lemma claim_keeps_leader:
  "claim_pending_for E worker tasks en = (r, en') \<Longrightarrow> cs_leader (en_state en') = cs_leader (en_state en)"
  by (auto simp: claim_pending_for_def on_state_def push_event_def Let_def dest: append_command_state
      split: option.splits sum.splits prod.splits)

text \<open>An exchange with the alpha server at its address, through the cached address of the client.\<close>

lemma alpha_cached:
  assumes "list_all graphic server" "normalize_server server = server" "list_all graphic token" "token \<noteq> []"
    and "list_all graphic path" "path \<noteq> []"
    and "body_text (ph_client K) body = Inr txt" "utf8_ok txt" "length txt \<le> 1024 * 1024"
    and "ph_resolve K server = Inr (addr # others)" "cx_exchange (ph_client K) 0 addr = alpha_answer H token text_of en"
    and "route_http H ''POST'' path txt en = (Inr response, en')" "hr_status response = 200"
    and "cx_parse (ph_client K) (text_of (hr_body response)) = Inr (hr_body response)" "utf8_ok (text_of (hr_body response))"
  shows "http_request_cached K token ''POST'' path body server = (Inr (hr_body response), server)"
    and "snd (handle_http_stream H token (request_text ''POST'' path server token txt) en) = en'"
proof -
  let ?X = "at_address addr (ph_client K)"
  have "list_all graphic ''POST''" "''POST'' \<noteq> []" by (simp_all add: graphic_def)
  note once = alpha_once [OF assms(1,3,4) this assms(5,6) _ assms(8,9) _ assms(12) disjI1 [OF refl], of ?X body 0 text_of]
  have e: "normalize_endpoint server = server" using assms(2) normalize_server_eq by simp
  have "request_once ?X 0 server token ''POST'' path body = Inr (200, hr_body response)"
    using once assms(7,11,13-15) by simp
  then have "http_request_once K 0 server token ''POST'' path body = Inr (200, hr_body response)"
    using py_once_as_cli [of K server addr others] assms(2,10) by simp
  then show "http_request_cached K token ''POST'' path body server = (Inr (hr_body response), server)"
    using assms(2) by (simp add: http_request_cached_def http_request_follow_redirect_def is_success_def)
  show "snd (handle_http_stream H token (request_text ''POST'' path server token txt) en) = en'"
    using once assms(7,11,13-15) e by simp
qed

text \<open>What a worker was given, it reports, and the server takes it.  The server lets a worker claim a
  run; the answer of the poll has the fields of the run, and the worker knows the task.  Then the
  worker calls the function of the task and sends exactly one request, whose bytes the server
  reads as the outcome of that run under its fencing token: the call succeeds, the run is over,
  and the history of the server ends with the success or the failure of the function.\<close>

theorem worker_outcome_accepted:
  assumes "claim_pending_for E (wk_id w) tasks en0 = (Inr (Some run), en)" "cs_leader (en_state en0)"
    and "server_healthy (he_env H) (wr_timer run)"
    and "run_fields run v" "map_of (wk_tasks w) (wr_task run) = Some f"
    and "list_all graphic (wk_server w)" "normalize_server (wk_server w) = wk_server w"
    and "list_all graphic (wk_token w)" "wk_token w \<noteq> []"
    and "list_all graphic (wr_run_id run)" "CHR ''/'' \<notin> set (wr_run_id run)" "wr_run_id run \<noteq> []"
    and "body_text (ph_client (K k)) (outcome_body w (wr_fencing_token run) (f (wr_payload run))) = Inr txt"
    and "utf8_ok txt" "length txt \<le> 1024 * 1024"
    and "case f (wr_payload run) of
           Inr _ \<Rightarrow> hj_complete (he_json H) txt = Inr \<lparr>rc_worker_id = wk_id w, rc_fencing_token = wr_fencing_token run\<rparr>
         | Inl err \<Rightarrow> hj_fail (he_json H) txt = Inr \<lparr>rf_worker_id = wk_id w, rf_fencing_token = wr_fencing_token run, rf_error = err\<rparr>"
    and "ph_resolve (K k) (wk_server w) = Inr (addr # others)"
    and "cx_exchange (ph_client (K k)) 0 addr = alpha_answer H (wk_token w) text_of en"
    and "cx_parse (ph_client (K k)) (text_of ok_json) = Inr ok_json" "utf8_ok (text_of ok_json)"
  shows "\<exists>path body. execute_run (\<lambda>i. http_request_cached (K i) (wk_token w)) k v w = (Inr (), w, [(''POST'', path, body)])
    \<and> body_text (ph_client (K k)) body = Inr txt
    \<and> outcome_recorded (wr_run_id run) (\<not> isl (f (wr_payload run))) en
        (snd (handle_http_stream H (wk_token w) (request_text ''POST'' path (wk_server w) (wk_token w) txt) en))"
proof -
  let ?r = "f (wr_payload run)" and ?rid = "wr_run_id run"
  let ?path = "''/v1/runs/'' @ ?rid @ (case ?r of Inr _ \<Rightarrow> ''/succeed'' | Inl _ \<Rightarrow> ''/fail'')"
  let ?body = "outcome_body w (wr_fencing_token run) ?r"
  obtain a where a: "bt_get (cs_active_runs (en_state en)) ?rid = Some a" "ca_worker_id a = wk_id w"
    "ca_fencing_token a = wr_fencing_token run" "ca_timer_id a = wr_timer run"
    using claimed_run_active [OF assms(1)] by blast
  have "cs_leader (en_state en)" using claim_keeps_leader [OF assms(1)] assms(2) by simp
  then obtain en' where route: "route_http H ''POST'' ?path txt en = (Inr \<lparr>hr_status = 200, hr_body = ok_json\<rparr>, en')"
    and over: "outcome_recorded ?rid (\<not> isl ?r) en en'"
    using outcome_route [OF _ _ a(1-3) assms(11,12,16)] assms(3) a(4) by auto
  have path: "list_all graphic ?path" "?path \<noteq> []" using assms(10) by (auto simp: graphic_def split: sum.split)
  note sent = alpha_cached [OF assms(6-9) path assms(13-15,17,18) route, unfolded http_response.simps, OF refl assms(19,20)]
  have "execute_run (\<lambda>i. http_request_cached (K i) (wk_token w)) k v w = (Inr (), w, [(''POST'', ?path, ?body)])"
    using assms(4,5) sent(1) by (auto simp: execute_run_def run_fields_def unwrap_or_def Let_def split: sum.split)
  then show ?thesis using sent(2) over assms(13) by auto
qed

section \<open>Witness\<close>

definition endless_env :: alpha_env where
  "endless_env = (sample_alpha_env blank_codec 0)\<lparr>al_libs :=
     minute_libs\<lparr>add_seconds := (\<lambda>t n. Some (t + n * nanos_per_sec))\<rparr>\<rparr>"

definition queued_run :: worker_run where
  "queued_run = \<lparr>wr_timer = ''t'', wr_tenant_id = None, wr_run_id = ''r1'', wr_task = ''mail'', wr_payload = Null,
     wr_attempt = 1, wr_fencing_token = 7, wr_idempotency_key = ''k''\<rparr>"

definition queued_engine :: cluster_engine where
  "queued_engine = on_state (\<lambda>st. st\<lparr>cs_pending := [queued_run]\<rparr>) fresh_engine"

definition mail_worker :: py_worker where
  "mail_worker = add_task ''mail'' (\<lambda>_. Inl ''no server'') (new_worker ''http://h:1/'' ''s'' (Some ''w1'') [])"

definition failing_http :: http_env where
  "failing_http = sample_http_env\<lparr>he_env := endless_env, he_json := (he_json sample_http_env)\<lparr>hj_fail :=
     (\<lambda>_. Inr \<lparr>rf_worker_id = ''w1'', rf_fencing_token = 7, rf_error = ''no server''\<rparr>)\<rparr>\<rparr>"

definition polled_run :: json where
  "polled_run = Object [(''task'', String ''mail''), (''run_id'', String ''r1''), (''fencing_token'', json_u64 7), (''payload'', Null)]"

definition claimed_engine :: cluster_engine where
  "claimed_engine = snd (claim_pending_for endless_env ''w1'' [''mail''] queued_engine)"

definition mail_network :: "nat \<Rightarrow> py_http" where
  "mail_network _ = \<lparr>ph_client = \<lparr>cx_text = (\<lambda>_. Inr ''{}''), cx_parse = (\<lambda>_. Inr ok_json),
     cx_exchange = (\<lambda>_ _. alpha_answer failing_http ''s'' (\<lambda>_. ''{}'') claimed_engine)\<rparr>, ph_resolve = (\<lambda>s. Inr [s])\<rparr>"

lemma endless_next_run: "next_run_after (al_libs endless_env) s t tz \<noteq> Inl (Panic msg)"
  by (auto simp: next_run_after_def endless_env_def sample_alpha_env_def plus_seconds_def Let_def
      split: schedule.split option.split)

lemma endless_healthy: "server_healthy endless_env tid"
proof -
  have "alpha_reschedule endless_env 3 tid st \<noteq> Inl f" for st f
    using endless_next_run by (auto simp: alpha_reschedule_def split: option.split sum.split fault.split)
  then have "\<exists>st'. alpha_reschedule endless_env 3 tid st = Inr st'" for st
    by (metis sum.exhaust)
  then show ?thesis by (simp add: server_healthy_def endless_env_def sample_alpha_env_def blank_codec_def)
qed

lemma mail_worker_fields:
  "wk_server mail_worker = ''h:1''" "wk_token mail_worker = ''s''" "wk_id mail_worker = ''w1''"
  "map_of (wk_tasks mail_worker) ''mail'' = Some (\<lambda>_. Inl ''no server'')" "normalize_server ''h:1'' = ''h:1''"
  by (simp_all add: mail_worker_def add_task_def new_worker_def normalize_server_def trim_graphic graphic_def
      strip_prefixes.simps trim_end_char_def)

lemma queued_claim: "claim_pending_for endless_env ''w1'' [''mail''] queued_engine = (Inr (Some queued_run), claimed_engine)"
proof -
  have "fst (claim_pending_for endless_env ''w1'' [''mail''] queued_engine) = Inr (Some queued_run)"
    by (simp add: claim_pending_for_def queued_engine_def on_state_def fresh_engine_def new_cluster_state_def claimable_def
        queued_run_def endless_env_def sample_alpha_env_def append_command_def blank_codec_def plus_seconds_def Let_def)
  then show ?thesis by (simp add: claimed_engine_def prod_eq_iff)
qed

lemma queued_leader: "cs_leader (en_state queued_engine)"
  by (simp add: queued_engine_def on_state_def fresh_engine_def new_cluster_state_def Let_def)

theorem worker_outcome_accepted_witness:
  "\<exists>path body en'. execute_run (\<lambda>i. http_request_cached (mail_network i) ''s'') 2 polled_run mail_worker
      = (Inr (), mail_worker, [(''POST'', path, body)])
    \<and> outcome_recorded ''r1'' False claimed_engine en'"
proof -
  have claim: "claim_pending_for endless_env (wk_id mail_worker) [''mail''] queued_engine = (Inr (Some queued_run), claimed_engine)"
    "cs_leader (en_state queued_engine)" "server_healthy (he_env failing_http) (wr_timer queued_run)"
    by (simp_all add: mail_worker_fields queued_claim endless_healthy queued_leader failing_http_def)
  have run: "run_fields queued_run polled_run" "map_of (wk_tasks mail_worker) (wr_task queued_run) = Some (\<lambda>_. Inl ''no server'')"
    by (simp_all add: run_fields_def queued_run_def polled_run_def str_field_def mail_worker_fields)
  have words: "list_all graphic (wk_server mail_worker)" "normalize_server (wk_server mail_worker) = wk_server mail_worker"
    "list_all graphic (wk_token mail_worker)" "wk_token mail_worker \<noteq> []" "list_all graphic (wr_run_id queued_run)"
    "CHR ''/'' \<notin> set (wr_run_id queued_run)" "wr_run_id queued_run \<noteq> []"
    by (simp_all add: mail_worker_fields graphic_def queued_run_def)
  have body: "body_text (ph_client (mail_network 2)) (outcome_body mail_worker (wr_fencing_token queued_run) (Inl ''no server'')) = Inr ''{}''"
    "utf8_ok ''{}''" "length ''{}'' \<le> 1024 * 1024"
    using utf8_ascii [of "''{}''"] by (simp_all add: body_text_def mail_network_def outcome_body_def ascii_def)
  have json: "case Inl ''no server'' of
      Inr _ \<Rightarrow> hj_complete (he_json failing_http) ''{}'' = Inr \<lparr>rc_worker_id = wk_id mail_worker, rc_fencing_token = wr_fencing_token queued_run\<rparr>
    | Inl err \<Rightarrow> hj_fail (he_json failing_http) ''{}''
        = Inr \<lparr>rf_worker_id = wk_id mail_worker, rf_fencing_token = wr_fencing_token queued_run, rf_error = err\<rparr>"
    by (simp add: failing_http_def mail_worker_fields queued_run_def)
  have net: "ph_resolve (mail_network 2) (wk_server mail_worker) = Inr [''h:1'']"
    "cx_exchange (ph_client (mail_network 2)) 0 ''h:1'' = alpha_answer failing_http (wk_token mail_worker) (\<lambda>_. ''{}'') claimed_engine"
    "cx_parse (ph_client (mail_network 2)) ''{}'' = Inr ok_json"
    by (simp_all add: mail_network_def mail_worker_fields)
  from worker_outcome_accepted [where K = mail_network and k = 2 and text_of = "\<lambda>_. ''{}''", OF claim run words body json net body(2)] show ?thesis
    by (auto simp: mail_worker_fields queued_run_def)
qed

end
