(* ===== verification/Kron_Raft_Network.thy ===== *)
theory Kron_Raft_Network
  imports Kron_Node Kron_Http_Client
begin

text \<open>
  The calls between the raft nodes (openraft_adapter/network.rs) and the router that receives them.
  The HTTP library and the raft library are parameters; a body that the framework cannot read is
  refused with a client error, for which 422 stands.  Shown: a node counts a reply only if the raft
  library of the peer gave it to an authenticated sender.
\<close>

section \<open>The network of a node\<close>

record raft_network =
  rn_target :: u64
  rn_addr :: string
  rn_token :: string

text \<open>The factory carries the token of the cluster.\<close>

definition new_client :: "string \<Rightarrow> u64 \<Rightarrow> string \<Rightarrow> raft_network" where
  "new_client token target addr = \<lparr>rn_target = target, rn_addr = addr, rn_token = token\<rparr>"

text \<open>
  The HTTP library: the text of a body, or the error of its serialization, the answer to a post with
  a bearer token, status and bytes, the text of a status, and the value of the bytes.
\<close>

record ('q, 'r) http_lib =
  hl_text :: "'q \<Rightarrow> string + string"
  hl_send :: "string \<Rightarrow> string \<Rightarrow> string \<Rightarrow> string + u16 \<times> string"
  hl_status :: "u16 \<Rightarrow> string"
  hl_value :: "string \<Rightarrow> string + 'r"

datatype rpc_error = Unreachable string

definition raft_post :: "('q, 'r) http_lib \<Rightarrow> raft_network \<Rightarrow> string \<Rightarrow> 'q \<Rightarrow> rpc_error + 'r" where
  "raft_post H N path body =
     (let url = ''http://'' @ rn_addr N @ path
      in case hl_text H body of
           Inl err \<Rightarrow> Inl (Unreachable err)
         | Inr txt \<Rightarrow>
        (case hl_send H url (rn_token N) txt of
           Inl err \<Rightarrow> Inl (Unreachable err)
         | Inr (code, answer) \<Rightarrow>
             if \<not> is_success code
             then Inl (Unreachable (''raft peer '' @ show_nat (unat (rn_target N)) @ '' returned '' @ hl_status H code))
             else (case hl_value H answer of Inl err \<Rightarrow> Inl (Unreachable err) | Inr v \<Rightarrow> Inr v)))"

definition rpc_append_entries :: "('q, 'r) http_lib \<Rightarrow> raft_network \<Rightarrow> 'q \<Rightarrow> rpc_error + 'r" where
  "rpc_append_entries H N rpc = raft_post H N ''/__kron/raft/append_entries'' rpc"

definition rpc_install_snapshot :: "('q, 'r) http_lib \<Rightarrow> raft_network \<Rightarrow> 'q \<Rightarrow> rpc_error + 'r" where
  "rpc_install_snapshot H N rpc = raft_post H N ''/__kron/raft/install_snapshot'' rpc"

definition rpc_vote :: "('q, 'r) http_lib \<Rightarrow> raft_network \<Rightarrow> 'q \<Rightarrow> rpc_error + 'r" where
  "rpc_vote H N rpc = raft_post H N ''/__kron/raft/vote'' rpc"

section \<open>A peer\<close>

text \<open>
  \<open>raft_router\<close>: the path selects the handler, and \<open>libraries\<close> gives the call of the raft library for the
  text of a body, or nothing when the text is not a request, which the extractor answers with 422.
\<close>

record 's raft_libraries =
  rl_append :: "string \<Rightarrow> ('s \<Rightarrow> (string + json) \<times> 's) option"
  rl_vote :: "string \<Rightarrow> ('s \<Rightarrow> (string + json) \<times> 's) option"
  rl_snapshot :: "string \<Rightarrow> ('s \<Rightarrow> (string + json) \<times> 's) option"

definition with_request ::
  "('s \<Rightarrow> (string + json) \<times> 's) option \<Rightarrow> (('s \<Rightarrow> (string + json) \<times> 's) \<Rightarrow> 's \<times> audit_log \<Rightarrow> http_response res \<times> 's \<times> audit_log)
   \<Rightarrow> 's \<times> audit_log \<Rightarrow> http_response res \<times> 's \<times> audit_log" where
  "with_request library handler sal =
     (case library of
        None \<Rightarrow> (Inr \<lparr>hr_status = 422, hr_body = Null\<rparr>, sal)
      | Some call \<Rightarrow> handler call sal)"

definition raft_router ::
  "error_text \<Rightarrow> auth_env \<Rightarrow> audit_env \<Rightarrow> 's raft_libraries \<Rightarrow> string \<Rightarrow> string \<Rightarrow> 's \<times> audit_log
   \<Rightarrow> http_response res \<times> 's \<times> audit_log" where
  "raft_router T E U R path body sal =
     (if path = ''/__kron/raft/append_entries'' then with_request (rl_append R body) (raft_append_entries T E U) sal
      else if path = ''/__kron/raft/vote'' then with_request (rl_vote R body) (raft_vote T E U) sal
      else if path = ''/__kron/raft/install_snapshot'' then with_request (rl_snapshot R body) (raft_install_snapshot T E U) sal
      else (Inr \<lparr>hr_status = 404, hr_body = Null\<rparr>, sal))"

text \<open>What a peer sends back for a request with a bearer token.\<close>

definition peer_answer ::
  "error_text \<Rightarrow> auth_env \<Rightarrow> audit_env \<Rightarrow> 's raft_libraries \<Rightarrow> (json \<Rightarrow> string) \<Rightarrow> 's \<times> audit_log \<Rightarrow> string \<Rightarrow> string \<Rightarrow> string
   \<Rightarrow> string + u16 \<times> string" where
  "peer_answer T E U R text_of sal path token body =
     (case raft_router T (E\<lparr>ae_header := Some (''Bearer '' @ token)\<rparr>) U R path body sal of
        (Inr response, _) \<Rightarrow> Inr (hr_status response, text_of (hr_body response))
      | (Inl _, _) \<Rightarrow> Inl ''connection closed'')"

section \<open>What an answer means\<close>

text \<open>A value that the raft library of the sender may count: the peer has authenticated the sender with a
  role that may speak for a raft node, and its own raft library has answered the request with
  that value.\<close>

definition authentic_reply ::
  "('q, 'r) http_lib \<Rightarrow> auth_env \<Rightarrow> (json \<Rightarrow> string) \<Rightarrow> string \<Rightarrow> (string \<Rightarrow> ('s \<Rightarrow> (string + json) \<times> 's) option) \<Rightarrow> 's \<Rightarrow> 'q \<Rightarrow> 'r \<Rightarrow> bool" where
  "authentic_reply H E text_of token library s q v \<longleftrightarrow>
     (\<exists>txt auth call w s'. hl_text H q = Inr txt \<and> authenticate (E\<lparr>ae_header := Some (''Bearer '' @ token)\<rparr>) = Inr auth
        \<and> allows (ac_role auth) RaftRole \<and> library txt = Some call \<and> call s = (Inr w, s') \<and> hl_value H (text_of w) = Inr v)"

text \<open>The three calls differ in their path and in the call of the library only.\<close>

locale raft_rpc =
  fixes path :: string
    and action :: string
    and select :: "'s raft_libraries \<Rightarrow> string \<Rightarrow> ('s \<Rightarrow> (string + json) \<times> 's) option"
  assumes routed: "raft_router T E U R path body sal =
    with_request (select R body) (\<lambda>call. authed T E U RaftRole action (raft_call call)) sal"
begin

lemma answer_success:
  assumes "peer_answer T E U R text_of (s, al) path token txt = Inr (code, answer)" "is_success code"
  shows "\<exists>auth call w s'. authenticate (E\<lparr>ae_header := Some (''Bearer '' @ token)\<rparr>) = Inr auth \<and> allows (ac_role auth) RaftRole
    \<and> select R txt = Some call \<and> call s = (Inr w, s') \<and> answer = text_of w"
proof -
  let ?E = "E\<lparr>ae_header := Some (''Bearer '' @ token)\<rparr>"
  obtain call where call: "select R txt = Some call"
    using assms by (cases "select R txt") (auto simp: peer_answer_def routed with_request_def is_success_def)
  then obtain response sal' where a: "authed T ?E U RaftRole action (raft_call call) (s, al) = (Inr response, sal')"
    "code = hr_status response" "answer = text_of (hr_body response)"
    using assms(1) by (auto simp: peer_answer_def routed with_request_def split: prod.splits sum.splits)
  then show ?thesis
    using assms(2) call
    by (auto simp: authed_def audited_def audit_error_def error_status_def is_success_def raft_call_def Let_def
        split: sum.splits if_splits fault.splits prod.splits)
qed

lemma reply_authentic:
  assumes "\<And>p txt. hl_send H (''http://'' @ addr @ p) token txt = peer_answer T E U R text_of (s, al) p token txt"
    and "raft_post H (new_client token target addr) path q = Inr v"
  shows "authentic_reply H E text_of token (select R) s q v"
proof -
  obtain req code answer where p: "hl_text H q = Inr req" "peer_answer T E U R text_of (s, al) path token req = Inr (code, answer)"
    "is_success code" "hl_value H answer = Inr v"
    using assms by (auto simp: raft_post_def new_client_def Let_def split: sum.splits if_splits)
  from answer_success [OF p(2,3)] p(1,4) show ?thesis by (auto simp: authentic_reply_def)
qed

lemma delivered:
  assumes "\<And>p txt. hl_send H (''http://'' @ addr @ p) token txt = peer_answer T E U R text_of (s, al) p token txt"
    and "authentic_reply H E text_of token (select R) s q v"
    and "\<And>auth. \<exists>al'. audit U (Some auth) action ''ok'' 200 None al = (Inr (), al')"
  shows "raft_post H (new_client token target addr) path q = Inr v"
proof -
  obtain req auth call w s' where r: "hl_text H q = Inr req" "authenticate (E\<lparr>ae_header := Some (''Bearer '' @ token)\<rparr>) = Inr auth"
    "allows (ac_role auth) RaftRole" "select R req = Some call" "call s = (Inr w, s')" "hl_value H (text_of w) = Inr v"
    using assms(2) by (auto simp: authentic_reply_def)
  obtain al' where "audit U (Some auth) action ''ok'' 200 None al = (Inr (), al')" using assms(3) by blast
  then have "peer_answer T E U R text_of (s, al) path token req = Inr (200, text_of w)"
    using r by (simp add: peer_answer_def routed with_request_def authed_def raft_call_def audited_def)
  then show ?thesis using assms(1) r(1,6) by (simp add: raft_post_def new_client_def is_success_def)
qed

end

interpretation append_rpc: raft_rpc "''/__kron/raft/append_entries''" "''raft.append_entries''" rl_append
  by unfold_locales (simp add: raft_router_def raft_append_entries_def [abs_def])

interpretation vote_rpc: raft_rpc "''/__kron/raft/vote''" "''raft.vote''" rl_vote
  by unfold_locales (simp add: raft_router_def raft_vote_def [abs_def])

interpretation snapshot_rpc: raft_rpc "''/__kron/raft/install_snapshot''" "''raft.install_snapshot''" rl_snapshot
  by unfold_locales (simp add: raft_router_def raft_install_snapshot_def [abs_def])

text \<open>C32: a node counts a reply only if its peer's raft library gave it.  Whenever a vote, an append or the
  installation of a snapshot over HTTP returns a value, the peer has accepted the token of the
  sender for the role of a raft node, has passed exactly the text of this request to its raft
  library, and the value is the answer of the library.  Every refusal and every error reaches
  the sender as an unreachable peer.\<close>

theorem raft_reply_authentic:
  assumes "\<And>p txt. hl_send H (''http://'' @ addr @ p) token txt = peer_answer T E U R text_of (s, al) p token txt"
  shows "(rpc_append_entries H (new_client token target addr) q = Inr v \<longrightarrow> authentic_reply H E text_of token (rl_append R) s q v)
    \<and> (rpc_vote H (new_client token target addr) q = Inr v \<longrightarrow> authentic_reply H E text_of token (rl_vote R) s q v)
    \<and> (rpc_install_snapshot H (new_client token target addr) q = Inr v \<longrightarrow> authentic_reply H E text_of token (rl_snapshot R) s q v)"
  using append_rpc.reply_authentic [OF assms] vote_rpc.reply_authentic [OF assms] snapshot_rpc.reply_authentic [OF assms]
  by (simp add: rpc_append_entries_def rpc_vote_def rpc_install_snapshot_def)

section \<open>Witness\<close>

definition sample_raft_libraries :: "nat raft_libraries" where
  "sample_raft_libraries = \<lparr>rl_append = (\<lambda>_. None), rl_vote = (\<lambda>_. Some (\<lambda>n. (Inr (Bool True), n + 1))), rl_snapshot = (\<lambda>_. None)\<rparr>"

definition sample_raft_http :: "(unit, bool) http_lib" where
  "sample_raft_http = \<lparr>hl_text = (\<lambda>_. Inr ''{}''), hl_send = (\<lambda>url token txt. peer_answer sample_error_text sample_auth_env sample_audit_env
       sample_raft_libraries (\<lambda>_. ''true'') (0, empty_audit) (drop (length ''http://p:1'') url) token txt),
     hl_status = (\<lambda>_. ''error''), hl_value = (\<lambda>_. Inr True)\<rparr>"

theorem raft_reply_authentic_witness:
  "rpc_vote sample_raft_http (new_client ''secret'' 2 ''p:1'') () = Inr True
   \<and> authentic_reply sample_raft_http sample_auth_env (\<lambda>_. ''true'') ''secret'' (rl_vote sample_raft_libraries) 0 () True"
proof -
  have send: "hl_send sample_raft_http (''http://'' @ ''p:1'' @ p) token q = peer_answer sample_error_text sample_auth_env sample_audit_env
      sample_raft_libraries (\<lambda>_. ''true'') (0, empty_audit) p token q" for p token q
    by (simp add: sample_raft_http_def)
  have "sample_auth_env\<lparr>ae_header := Some (''Bearer '' @ ''secret'')\<rparr> = sample_auth_env" by (simp add: sample_auth_env_def)
  then have "authentic_reply sample_raft_http sample_auth_env (\<lambda>_. ''true'') ''secret'' (rl_vote sample_raft_libraries) 0 () True"
    using sample_authenticated by (simp add: authentic_reply_def sample_raft_http_def sample_raft_libraries_def allows_def)
  moreover have "\<exists>al'. audit sample_audit_env (Some auth) ''raft.vote'' ''ok'' 200 None empty_audit = (Inr (), al')" for auth
    by (simp add: audit_def sample_audit_env_def number_encode Let_def)
  ultimately have "rpc_vote sample_raft_http (new_client ''secret'' 2 ''p:1'') () = Inr True"
    unfolding rpc_vote_def by (intro vote_rpc.delivered [OF send])
  then show ?thesis using raft_reply_authentic [where target = 2 and q = "()" and v = True and token = "''secret''", OF send] by simp
qed

end
