(* ===== verification/Kron_Cli.thy ===== *)
theory Kron_Cli
  imports Kron_Http_Client Kron_Node
begin

text \<open>
  The command line (kron-cli): its commands as functions from what they read to the lines they
  print, the result, and the files they leave.  Argument parsing, pretty-printed JSON, date
  formats and the transport are parameters.  Shown: queries of the audit log are exact, lists of
  timers do not depend on the order of a hash map, offline compaction keeps the recovered
  state, and the token that the command line picks is rejected once a token file exists.
\<close>

section \<open>What a command prints\<close>

text \<open>The lines printed and the result: an error is printed by \<open>main\<close> and ends the process with status 1.\<close>

type_synonym cli_output = "string list \<times> (string + unit)"

fun print_all :: "('a \<Rightarrow> string + string) \<Rightarrow> 'a list \<Rightarrow> cli_output" where
  "print_all f [] = ([], Inr ())"
| "print_all f (x # xs) =
     (case f x of
        Inl err \<Rightarrow> ([], Inl err)
      | Inr line \<Rightarrow> (case print_all f xs of (lines, r) \<Rightarrow> (line # lines, r)))"

definition main_data_dir :: "string option \<Rightarrow> string option \<Rightarrow> string" where
  "main_data_dir option_dir kron_home =
     (case option_dir of Some d \<Rightarrow> d | None \<Rightarrow> (case kron_home of Some d \<Rightarrow> d | None \<Rightarrow> ''.kron''))"

definition exit_status :: "cli_output \<Rightarrow> nat" where
  "exit_status r = (case snd r of Inl _ \<Rightarrow> 1 | Inr _ \<Rightarrow> 0)"

section \<open>The audit log\<close>

fun read_records_loop :: "audit_record codec \<Rightarrow> string list \<Rightarrow> string + audit_record list" where
  "read_records_loop C [] = Inr []"
| "read_records_loop C (line # rest) =
     (if \<not> utf8_ok line then Inl ''stream did not contain valid UTF-8''
      else if trim line = [] then read_records_loop C rest
      else case decode C line of
             Inl (msg, _) \<Rightarrow> Inl msg
           | Inr r \<Rightarrow> (case read_records_loop C rest of Inl err \<Rightarrow> Inl err | Inr rs \<Rightarrow> Inr (r # rs)))"

definition audit_records :: "audit_record codec \<Rightarrow> string option \<Rightarrow> string + audit_record list" where
  "audit_records C audit_file =
     (case audit_file of None \<Rightarrow> Inr [] | Some bytes \<Rightarrow> read_records_loop C (read_lines bytes))"

text \<open>\<open>date_of\<close> is \<open>NaiveDate::parse_from_str\<close> with the midnight of the date.\<close>

definition parse_bound ::
  "libs \<Rightarrow> (string \<Rightarrow> string + datetime) \<Rightarrow> string option \<Rightarrow> bool \<Rightarrow> string + datetime option" where
  "parse_bound L date_of v end_of_day =
     (case v of
        None \<Rightarrow> Inr None
      | Some s \<Rightarrow>
          (case parse_rfc3339 L s of
             Inr t \<Rightarrow> Inr (Some t)
           | Inl _ \<Rightarrow>
               (case date_of s of
                  Inl err \<Rightarrow> Inl (''invalid date `'' @ s @ ''`: '' @ err)
                | Inr midnight \<Rightarrow>
                    Inr (Some (if end_of_day then midnight + (23 * 3600 + 59 * 60 + 59) * nanos_per_sec else midnight)))))"

record audit_filter =
  af_actor :: "string option"
  af_action :: "string option"
  af_from :: "datetime option"
  af_to :: "datetime option"

definition selected_record :: "audit_filter \<Rightarrow> audit_record \<Rightarrow> bool" where
  "selected_record F r =
     (if (case af_actor F of Some v \<Rightarrow> ar_actor r \<noteq> v | None \<Rightarrow> False) then False
      else if (case af_action F of Some v \<Rightarrow> ar_action r \<noteq> v | None \<Rightarrow> False) then False
      else if (case af_from F of Some t \<Rightarrow> ar_ts r < t | None \<Rightarrow> False) then False
      else if (case af_to F of Some t \<Rightarrow> t < ar_ts r | None \<Rightarrow> False) then False
      else True)"

definition audit_query ::
  "libs \<Rightarrow> (string \<Rightarrow> string + datetime) \<Rightarrow> audit_record codec \<Rightarrow> string option \<Rightarrow> string option \<Rightarrow> string option
   \<Rightarrow> string option \<Rightarrow> string option \<Rightarrow> cli_output" where
  "audit_query L date_of C actor action from_bound to_bound audit_file =
     (case parse_bound L date_of from_bound False of
        Inl err \<Rightarrow> ([], Inl err)
      | Inr lo \<Rightarrow>
     (case parse_bound L date_of to_bound True of
        Inl err \<Rightarrow> ([], Inl err)
      | Inr hi \<Rightarrow>
     (case audit_records C audit_file of
        Inl err \<Rightarrow> ([], Inl err)
      | Inr rs \<Rightarrow>
          print_all (encode C)
            (filter (selected_record \<lparr>af_actor = actor, af_action = action, af_from = lo, af_to = hi\<rparr>) rs))))"

text \<open>\<open>tail\<close>; with \<open>follow\<close> it goes on with what \<open>read_line\<close> returns from the end of the file, one text per
  successful read.\<close>

definition follow_lines :: "audit_record codec \<Rightarrow> string list \<Rightarrow> audit_record list" where
  "follow_lines C reads =
     List.map_filter (\<lambda>line. case decode C line of Inr r \<Rightarrow> Some r | Inl _ \<Rightarrow> None) reads"

definition audit_tail ::
  "audit_record codec \<Rightarrow> nat \<Rightarrow> bool \<Rightarrow> string list \<Rightarrow> string option \<Rightarrow> cli_output \<times> string option" where
  "audit_tail C limit follow reads audit_file =
     (case audit_records C audit_file of
        Inl err \<Rightarrow> (([], Inl err), audit_file)
      | Inr rs \<Rightarrow>
          (case print_all (encode C) (drop (length rs - limit) rs) of
             (lines, Inl err) \<Rightarrow> ((lines, Inl err), audit_file)
           | (lines, Inr _) \<Rightarrow>
               if \<not> follow then ((lines, Inr ()), audit_file)
               else (case print_all (encode C) (follow_lines C reads) of
                       (followed, r) \<Rightarrow> ((lines @ followed, r), Some (unwrap_or audit_file [])))))"

definition audit_verify :: "libs \<Rightarrow> hashing \<Rightarrow> audit_record codec \<Rightarrow> string option \<Rightarrow> cli_output" where
  "audit_verify L A C audit_file =
     (case verify L A C audit_file of
        Inl err \<Rightarrow> ([], Inl err)
      | Inr n \<Rightarrow> ([''Audit chain verified: '' @ show_nat (unat n) @ '' records OK''], Inr ()))"

datatype audit_command =
    AuditVerify
  | AuditTail nat bool
  | AuditQuery "string option" "string option" "string option" "string option"

fun audit_run ::
  "libs \<Rightarrow> hashing \<Rightarrow> (string \<Rightarrow> string + datetime) \<Rightarrow> audit_record codec \<Rightarrow> string list \<Rightarrow> audit_command \<Rightarrow> string option
   \<Rightarrow> cli_output \<times> string option" where
  "audit_run L A date_of C reads AuditVerify audit_file = (audit_verify L A C audit_file, audit_file)"
| "audit_run L A date_of C reads (AuditTail limit no_follow) audit_file = audit_tail C limit (\<not> no_follow) reads audit_file"
| "audit_run L A date_of C reads (AuditQuery actor action from_bound to_bound) audit_file =
     (audit_query L date_of C actor action from_bound to_bound audit_file, audit_file)"

section \<open>The token of a request\<close>

text \<open>\<open>var\<close> is the variable \<open>KRON_TOKEN\<close>, \<open>legacy\<close> the file \<open>kron.token\<close>, \<open>tokens\<close> the file
  \<open>kron.tokens.json\<close>; \<open>parse\<close> reads its entries, as tokens with their roles.\<close>

definition server_request_token ::
  "(string \<Rightarrow> string + (string \<times> string) list) \<Rightarrow> string option \<Rightarrow> string option \<Rightarrow> string option \<Rightarrow> string + string" where
  "server_request_token parse var legacy tokens =
     (if (case var of Some token \<Rightarrow> trim token \<noteq> [] | None \<Rightarrow> False) then Inr (unwrap_or var [])
      else case legacy of
        Some content \<Rightarrow> if utf8_ok content then Inr (trim content) else Inl ''server token not found''
      | None \<Rightarrow>
     (case tokens of
        None \<Rightarrow> Inl ''server token not found; set KRON_TOKEN or create kron.token/kron.tokens.json''
      | Some content \<Rightarrow>
     (case parse content of
        Inl err \<Rightarrow> Inl (''invalid kron.tokens.json: '' @ err)
      | Inr entries \<Rightarrow>
          (case find_map (\<lambda>role. map_option fst (List.find (\<lambda>entry. snd entry = role) entries))
                  [''admin'', ''operator'', ''reader'', ''worker'', ''raft''] of
             Some token \<Rightarrow> Inr token
           | None \<Rightarrow> Inl ''kron.tokens.json does not contain a usable token''))))"

section \<open>Timers\<close>

fun format_state :: "timer_state \<Rightarrow> string" where
  "format_state Scheduled = ''scheduled''"
| "format_state Running = ''running''"
| "format_state Retrying = ''retrying''"
| "format_state Dead = ''dead''"
| "format_state Orphaned = ''orphaned''"
| "format_state Paused = ''paused''"
| "format_state Cancelled = ''cancelled''"

text \<open>The width of \<open>{:<n}\<close> counts characters: bytes that do not continue one.\<close>

definition char_count :: "string \<Rightarrow> nat" where
  "char_count s = length (filter (\<lambda>c. \<not> cont_byte 0x80 0xBF c) s)"

definition pad_right :: "nat \<Rightarrow> string \<Rightarrow> string" where
  "pad_right n s = s @ replicate (n - char_count s) CHR '' ''"

text \<open>\<open>fmt\<close> is \<open>DateTime::format\<close> of chrono.\<close>

definition list_row :: "(string \<Rightarrow> datetime \<Rightarrow> string) \<Rightarrow> timer_summary \<Rightarrow> string" where
  "list_row fmt s =
     pad_right 30 (timer_id_str (sum_id s)) @ '' '' @ pad_right 12 (format_state (sum_state s)) @ '' ''
     @ (case sum_next_run_at s of Some t \<Rightarrow> fmt ''%Y-%m-%d %H:%M UTC'' t | None \<Rightarrow> ''-'')"

definition print_list :: "(string \<Rightarrow> datetime \<Rightarrow> string) \<Rightarrow> timer_summary list \<Rightarrow> string list" where
  "print_list fmt summaries =
     (if summaries = [] then [''(no timers registered)'']
      else [pad_right 30 ''TIMER'' @ '' '' @ pad_right 12 ''STATUS'' @ '' NEXT RUN'', replicate 70 CHR ''-'']
           @ map (list_row fmt) (sort_key (\<lambda>s. timer_id_str (sum_id s)) summaries))"

definition print_status :: "(string \<Rightarrow> datetime \<Rightarrow> string) \<Rightarrow> timer_summary \<Rightarrow> string list" where
  "print_status fmt s =
     [''timer:       '' @ timer_id_str (sum_id s), ''status:      '' @ format_state (sum_state s),
      ''fn:          '' @ (case sum_fn_name s of Some name \<Rightarrow> name @ '' (registered)'' | None \<Rightarrow> ''- (not registered)'')]
     @ (case sum_last_run_at s of Some t \<Rightarrow> [''last_run:    '' @ fmt ''%Y-%m-%d %H:%M:%S UTC'' t] | None \<Rightarrow> [])
     @ (case sum_last_duration_ms s of Some ms \<Rightarrow> [''duration:    '' @ show_nat (unat ms) @ ''ms''] | None \<Rightarrow> [])
     @ (case sum_last_status s of Some st \<Rightarrow> [''last_status: '' @ st] | None \<Rightarrow> [])
     @ (case sum_next_run_at s of Some t \<Rightarrow> [''next_run:    '' @ fmt ''%Y-%m-%d %H:%M:%S UTC'' t] | None \<Rightarrow> [])
     @ [''retries_7d:  '' @ show_nat (unat (sum_retries_last_7d s))]"

text \<open>
  What a command sees: the answer of the HTTP server when \<open>kron.http\<close> exists (already printed
  values are given by \<open>ce_pretty\<close>), the answer of the runtime on the control channel, the files of
  the data directory, the order in which the timers are iterated, and the libraries.
\<close>

record cli_env =
  ce_http :: "(string \<Rightarrow> string \<Rightarrow> json \<Rightarrow> string + json) option"
  ce_pretty :: "json \<Rightarrow> string + string"
  ce_ipc :: "ipc_request \<Rightarrow> kron_error + ipc_response"
  ce_data_pretty :: "ipc_data \<Rightarrow> string + string"
  ce_entry_pretty :: "log_entry \<Rightarrow> string + string"
  ce_mismatch :: string
  ce_codec :: "log_entry codec"
  ce_data_dir :: string
  ce_keys :: "timer_id list"
  ce_fmt :: "string \<Rightarrow> datetime \<Rightarrow> string"
  ce_show :: "kron_error \<Rightarrow> string"
  ce_now :: datetime
  ce_locked :: bool

definition ask_server :: "cli_env \<Rightarrow> (string \<Rightarrow> string \<Rightarrow> json \<Rightarrow> string + json) \<Rightarrow> string \<Rightarrow> string \<Rightarrow> json \<Rightarrow> cli_output" where
  "ask_server E http mtd path body =
     (case http mtd path body of
        Inl err \<Rightarrow> ([], Inl err)
      | Inr v \<Rightarrow> print_all (ce_pretty E) [v])"

definition cli_load_state :: "cli_env \<Rightarrow> disk \<Rightarrow> (string + engine_state) \<times> disk" where
  "cli_load_state E D =
     (case load_state (ce_codec E) (ce_data_dir E) D of
        (Inl f, D1) \<Rightarrow> (Inl (error_message (ce_show E) f), D1)
      | (Inr s, D1) \<Rightarrow> (Inr s, D1))"

definition job_list :: "cli_env \<Rightarrow> disk \<Rightarrow> cli_output \<times> disk" where
  "job_list E D =
     (case ce_http E of
        Some http \<Rightarrow> (ask_server E http ''GET'' ''/v1/timers'' Null, D)
      | None \<Rightarrow>
     (case ce_ipc E ListTimers of
        Inr (OkResponse (ListData summaries)) \<Rightarrow> ((print_list (ce_fmt E) summaries, Inr ()), D)
      | Inr (OkResponse _) \<Rightarrow> (([], Inl (ce_mismatch E)), D)
      | _ \<Rightarrow>
     (case cli_load_state E D of
        (Inl err, D1) \<Rightarrow> (([], Inl err), D1)
      | (Inr s, D1) \<Rightarrow> ((print_list (ce_fmt E) (List.map_filter (summary s) (ce_keys E)), Inr ()), D1))))"

definition job_status :: "cli_env \<Rightarrow> string \<Rightarrow> disk \<Rightarrow> cli_output \<times> disk" where
  "job_status E timer D =
     (let offline =
        (case cli_load_state E D of
           (Inl err, D1) \<Rightarrow> (([], Inl err), D1)
         | (Inr s, D1) \<Rightarrow>
             (case summary s (TimerId timer) of
                None \<Rightarrow> (([], Inl (''timer '' @ quoted timer @ '' not found'')), D1)
              | Some x \<Rightarrow> ((print_status (ce_fmt E) x, Inr ()), D1)))
      in case ce_http E of
           Some http \<Rightarrow> (ask_server E http ''GET'' (''/v1/timers/'' @ timer) Null, D)
         | None \<Rightarrow>
        (case ce_ipc E (Status timer) of
           Inr (OkResponse (StatusData (Some x))) \<Rightarrow> ((print_status (ce_fmt E) x, Inr ()), D)
         | Inr (OkResponse (StatusData None)) \<Rightarrow> offline
         | Inr (OkResponse _) \<Rightarrow> (([], Inl (ce_mismatch E)), D)
         | _ \<Rightarrow> offline))"

definition job_history :: "cli_env \<Rightarrow> string \<Rightarrow> nat option \<Rightarrow> disk \<Rightarrow> cli_output \<times> disk" where
  "job_history E timer limit D =
     (case ce_http E of
        Some http \<Rightarrow> (ask_server E http ''GET'' (''/v1/timers/'' @ timer @ ''/history'') Null, D)
      | None \<Rightarrow>
     (case ce_ipc E (History timer limit) of
        Inr (OkResponse (HistoryData entries)) \<Rightarrow> (print_all (ce_entry_pretty E) entries, D)
      | Inr (OkResponse _) \<Rightarrow> (([], Inl (ce_mismatch E)), D)
      | _ \<Rightarrow>
     (case ipc_history (ce_codec E) (ce_data_dir E) timer limit D of
        (Inl f, D1) \<Rightarrow> (([], Inl (error_message (ce_show E) f)), D1)
      | (Inr entries, D1) \<Rightarrow> (print_all (ce_entry_pretty E) entries, D1))))"

datatype job_command = JobList | JobStatus string | JobHistory string "nat option"

fun job_run :: "cli_env \<Rightarrow> job_command \<Rightarrow> disk \<Rightarrow> cli_output \<times> disk" where
  "job_run E JobList D = job_list E D"
| "job_run E (JobStatus timer) D = job_status E timer D"
| "job_run E (JobHistory timer limit) D = job_history E timer limit D"

section \<open>The runtime and its files\<close>

definition log_compact :: "cli_env \<Rightarrow> disk \<Rightarrow> cli_output \<times> disk" where
  "log_compact E D =
     (case ce_ipc E Compact of
        Inr (OkResponse _) \<Rightarrow> (([''compacted via active runtime''], Inr ()), D)
      | Inr (ErrorResponse message) \<Rightarrow> (([], Inl message), D)
      | Inl _ \<Rightarrow>
     (case try_compaction_lock (ce_data_dir E) (ce_locked E) of
        Inl f \<Rightarrow> (([], Inl (error_message (ce_show E) f)), D)
      | Inr _ \<Rightarrow>
     (case compact_read_only (ce_codec E) (ce_data_dir E) (ce_now E) D of
        (Inl f, D1) \<Rightarrow> (([], Inl (error_message (ce_show E) f)), D1)
      | (Inr _, D1) \<Rightarrow> (([''compacted''], Inr ()), D1))))"

definition runtime_command :: "cli_env \<Rightarrow> bool \<Rightarrow> cli_output" where
  "runtime_command E shutdown =
     (case ce_ipc E (if shutdown then Shutdown else RuntimeStatus) of
        Inl err \<Rightarrow> ([], Inl (ce_show E err))
      | Inr (OkResponse data) \<Rightarrow> print_all (ce_data_pretty E) [data]
      | Inr (ErrorResponse message) \<Rightarrow> ([], Inl message))"

definition show_bool :: "bool \<Rightarrow> string" where
  "show_bool b = (if b then ''true'' else ''false'')"

definition doctor :: "cli_env \<Rightarrow> disk \<Rightarrow> cli_output \<times> disk" where
  "doctor E D =
     (case ce_ipc E Doctor of
        Inr (OkResponse data) \<Rightarrow> (print_all (ce_data_pretty E) [data], D)
      | Inr (ErrorResponse message) \<Rightarrow> (([], Inl message), D)
      | Inl _ \<Rightarrow>
     (case cli_load_state E D of
        (Inl err, D1) \<Rightarrow> (([], Inl err), D1)
      | (Inr s, D1) \<Rightarrow>
          (([''runtime: inactive'', ''data_dir: '' @ ce_data_dir E,
             ''timers: '' @ show_nat (length (filter (\<lambda>tid. specs s tid \<noteq> None) (ce_keys E))),
             ''snapshot: '' @ show_bool (d_snapshot D1 \<noteq> None), ''aof: '' @ show_bool (d_aof D1 \<noteq> None)], Inr ()), D1)))"

section \<open>The server\<close>

datatype server_command = ServerStatus | ServerShutdown | ServerJoin string string string | ServerLeave string

text \<open>The commands that only ask a server.\<close>

fun server_call :: "server_command \<Rightarrow> string \<times> string \<times> json" where
  "server_call ServerStatus = (''GET'', ''/v1/cluster/status'', Null)"
| "server_call ServerShutdown = (''POST'', ''/v1/runtime/shutdown'', Object [])"
| "server_call (ServerJoin node_id http raft) =
     (''POST'', ''/v1/cluster/join'', Object [(''node_id'', String node_id), (''http_addr'', String http), (''raft_addr'', String raft)])"
| "server_call (ServerLeave node_id) = (''POST'', ''/v1/cluster/leave'', Object [(''node_id'', String node_id)])"

definition run_server_command ::
  "client_env \<Rightarrow> (json \<Rightarrow> string + string) \<Rightarrow> bool \<Rightarrow> string + string \<Rightarrow> server_command \<Rightarrow> string option
   \<Rightarrow> cli_output \<times> string option" where
  "run_server_command X pretty write_fails token_choice c stored =
     (case server_call c of
        (mtd, path, body) \<Rightarrow>
          (case server_request X write_fails token_choice mtd path body stored of
             (Inl err, stored1) \<Rightarrow> (([], Inl err), stored1)
           | (Inr v, stored1) \<Rightarrow> (print_all pretty [v], stored1)))"

text \<open>\<open>kron server start\<close>: whether the node bootstraps a cluster of its own, and its token.\<close>

definition bootstraps :: "string \<Rightarrow> string option \<Rightarrow> bool" where
  "bootstraps node_id leader_id = (case leader_id of Some leader \<Rightarrow> leader = node_id | None \<Rightarrow> True)"

definition start_token :: "string option \<Rightarrow> string res \<Rightarrow> string res" where
  "start_token cluster_token fallback = (case cluster_token of Some token \<Rightarrow> Inr token | None \<Rightarrow> fallback)"

definition start_server_node ::
  "open_env \<Rightarrow> audit_env \<Rightarrow> kron_entry byte_codec \<Rightarrow> (kron_error \<Rightarrow> string) \<Rightarrow> string \<Rightarrow> string \<Rightarrow> string \<Rightarrow> string
   \<Rightarrow> string option \<Rightarrow> string option \<Rightarrow> string res \<Rightarrow> raft_disk \<Rightarrow> string option
   \<Rightarrow> string list \<times> (string + node) \<times> raft_disk" where
  "start_server_node OE U J show_error data_dir node_id http raft leader_id cluster_token fallback d audit_file =
     (case start_token cluster_token fallback of
        Inl f \<Rightarrow> ([], Inl (error_message show_error f), d)
      | Inr _ \<Rightarrow>
          let printed = [''kron server listening on http://'' @ http, ''token: '' @ data_dir @ ''/kron.token'']
          in case open_node OE U J data_dir node_id http raft (bootstraps node_id leader_id) d audit_file of
               (Inl f, d1) \<Rightarrow> (printed, Inl (error_message show_error f), d1)
             | (Inr nd, d1) \<Rightarrow> (printed, Inr nd, d1))"

section \<open>The process\<close>

datatype log_command = LogCompact

fun log_run :: "cli_env \<Rightarrow> log_command \<Rightarrow> disk \<Rightarrow> cli_output \<times> disk" where
  "log_run E LogCompact D = log_compact E D"

text \<open>The commands of \<open>main\<close>; \<open>kron server start\<close>, which serves until it is stopped, is \<open>start_server_node\<close>.\<close>

datatype cli_command =
    CmdJob job_command
  | CmdLog log_command
  | CmdRuntime bool
  | CmdServer server_command
  | CmdAudit audit_command
  | CmdDoctor

text \<open>What the commands read besides their files, and the files: the directory of the engine, the audit
  log, and the address of the server.\<close>

record cli_world =
  cw_env :: "string \<Rightarrow> cli_env"
  cw_libs :: libs
  cw_hashing :: hashing
  cw_dates :: "string \<Rightarrow> string + datetime"
  cw_records :: "audit_record codec"
  cw_reads :: "string list"
  cw_client :: client_env
  cw_write_fails :: bool
  cw_token :: "string + string"

record cli_files =
  cf_disk :: disk
  cf_audit :: "string option"
  cf_endpoint :: "string option"

fun run_command :: "cli_world \<Rightarrow> string \<Rightarrow> cli_command \<Rightarrow> cli_files \<Rightarrow> cli_output \<times> cli_files" where
  "run_command W data_dir (CmdJob c) F =
     (case job_run (cw_env W data_dir) c (cf_disk F) of (r, D) \<Rightarrow> (r, F\<lparr>cf_disk := D\<rparr>))"
| "run_command W data_dir (CmdLog c) F =
     (case log_run (cw_env W data_dir) c (cf_disk F) of (r, D) \<Rightarrow> (r, F\<lparr>cf_disk := D\<rparr>))"
| "run_command W data_dir (CmdRuntime shutdown) F = (runtime_command (cw_env W data_dir) shutdown, F)"
| "run_command W data_dir (CmdServer c) F =
     (case run_server_command (cw_client W) (ce_pretty (cw_env W data_dir)) (cw_write_fails W) (cw_token W) c (cf_endpoint F) of
        (r, stored) \<Rightarrow> (r, F\<lparr>cf_endpoint := stored\<rparr>))"
| "run_command W data_dir (CmdAudit c) F =
     (case audit_run (cw_libs W) (cw_hashing W) (cw_dates W) (cw_records W) (cw_reads W) c (cf_audit F) of
        (r, audit_file) \<Rightarrow> (r, F\<lparr>cf_audit := audit_file\<rparr>))"
| "run_command W data_dir CmdDoctor F =
     (case doctor (cw_env W data_dir) (cf_disk F) of (r, D) \<Rightarrow> (r, F\<lparr>cf_disk := D\<rparr>))"

text \<open>The lines on the standard output and on the error output, the status, and the files.\<close>

definition kron_main ::
  "cli_world \<Rightarrow> string option \<Rightarrow> string option \<Rightarrow> cli_command \<Rightarrow> cli_files \<Rightarrow> (string list \<times> string list \<times> nat) \<times> cli_files" where
  "kron_main W option_dir kron_home c F =
     (case run_command W (main_data_dir option_dir kron_home) c F of
        (r, F1) \<Rightarrow> ((fst r, (case snd r of Inl err \<Rightarrow> [''kron: '' @ err] | Inr _ \<Rightarrow> []), exit_status r), F1))"

lemma main_status:
  "kron_main W option_dir kron_home c F = ((out, err, code), F1) \<Longrightarrow> (code = 0 \<longleftrightarrow> err = []) \<and> code \<le> 1"
  by (auto simp: kron_main_def exit_status_def split: prod.splits sum.splits)

text \<open>Only job, log and doctor commands touch the directory of the engine.\<close>

lemma main_frame:
  assumes "kron_main W option_dir kron_home c F = (r, F1)"
  shows "cf_disk F1 \<noteq> cf_disk F \<Longrightarrow> (\<exists>j. c = CmdJob j) \<or> (\<exists>l. c = CmdLog l) \<or> c = CmdDoctor"
    and "cf_endpoint F1 \<noteq> cf_endpoint F \<Longrightarrow> \<exists>s. c = CmdServer s"
  using assms by (cases c; auto simp: kron_main_def split: prod.splits)+

section \<open>Queries of the audit log\<close>

lemma print_all_ok: "(\<And>x. x \<in> set xs \<Longrightarrow> f x = Inr (g x)) \<Longrightarrow> print_all f xs = (map g xs, Inr ())"
  by (induction xs) auto

lemma read_records_texts:
  "list_all (wf_entry C) rs \<Longrightarrow> read_records_loop C (map (entry_text C) rs) = Inr rs"
proof (induction rs)
  case (Cons r rs)
  then have wf: "wf_entry C r" and rest: "read_records_loop C (map (entry_text C) rs) = Inr rs" by simp_all
  have "utf8_ok (entry_text C r)" "trim (entry_text C r) \<noteq> []"
    using wf_entryD(2,4) [OF wf] by (simp_all add: json_line_def)
  then show ?case using rest wf_entryD(3) [OF wf] by simp
qed simp

lemma audit_records_file: "list_all (wf_entry C) rs \<Longrightarrow> audit_records C (Some (log_file C rs)) = Inr rs"
  using read_log_file [of C rs "[]"] by (simp add: audit_records_def read_records_texts)

text \<open>C39: a query of the audit log prints exactly what it asks for.  On a log of well-formed records it
  prints, in their order and as they stand in the file, the records of the given actor and
  action between the two bounds, both included; a bound that is a date stands for its first or
  its last second.\<close>

theorem audit_query_exact:
  assumes "list_all (wf_entry C) rs"
    and "parse_bound L date_of from_bound False = Inr lo" "parse_bound L date_of to_bound True = Inr hi"
  shows "audit_query L date_of C actor action from_bound to_bound (Some (log_file C rs)) =
      (map (entry_text C) (filter (\<lambda>r. actor \<in> {None, Some (ar_actor r)} \<and> action \<in> {None, Some (ar_action r)}
         \<and> (\<forall>t. lo = Some t \<longrightarrow> t \<le> ar_ts r) \<and> (\<forall>t. hi = Some t \<longrightarrow> ar_ts r \<le> t)) rs), Inr ())
    \<and> (from_bound = None \<longrightarrow> lo = None) \<and> (to_bound = None \<longrightarrow> hi = None)
    \<and> (\<forall>d t m. parse_rfc3339 L d = Inl m \<longrightarrow> date_of d = Inr t \<longrightarrow>
         (from_bound = Some d \<longrightarrow> lo = Some t) \<and> (to_bound = Some d \<longrightarrow> hi = Some (t + 86399 * nanos_per_sec)))"
proof -
  let ?F = "\<lparr>af_actor = actor, af_action = action, af_from = lo, af_to = hi\<rparr>"
  have "selected_record ?F r \<longleftrightarrow> actor \<in> {None, Some (ar_actor r)} \<and> action \<in> {None, Some (ar_action r)}
      \<and> (\<forall>t. lo = Some t \<longrightarrow> t \<le> ar_ts r) \<and> (\<forall>t. hi = Some t \<longrightarrow> ar_ts r \<le> t)" for r
    by (auto simp: selected_record_def not_less split: option.splits)
  moreover have "print_all (encode C) (filter (selected_record ?F) rs) = (map (entry_text C) (filter (selected_record ?F) rs), Inr ())"
    using assms(1) by (intro print_all_ok) (auto simp: list_all_iff wf_entryD(1))
  moreover have "audit_query L date_of C actor action from_bound to_bound (Some (log_file C rs)) =
      print_all (encode C) (filter (selected_record ?F) rs)"
    using assms by (simp add: audit_query_def audit_records_file)
  moreover have "from_bound = None \<longrightarrow> lo = None" "to_bound = None \<longrightarrow> hi = None"
    "\<forall>d t m. parse_rfc3339 L d = Inl m \<longrightarrow> date_of d = Inr t \<longrightarrow>
       (from_bound = Some d \<longrightarrow> lo = Some t) \<and> (to_bound = Some d \<longrightarrow> hi = Some (t + 86399 * nanos_per_sec))"
    using assms(2,3) by (auto simp: parse_bound_def)
  ultimately show ?thesis by presburger
qed

text \<open>A record of the last second of the day is not found by a query up to that day.\<close>

lemma audit_query_last_second:
  assumes "list_all (wf_entry C) rs" "r \<in> set rs" "parse_rfc3339 L d = Inl m" "date_of d = Inr midnight"
    and "midnight + 86399 * nanos_per_sec < ar_ts r" "ar_ts r < midnight + 86400 * nanos_per_sec"
  shows "entry_text C r \<notin> set (fst (audit_query L date_of C actor action None (Some d) (Some (log_file C rs))))"
proof
  let ?F = "\<lparr>af_actor = actor, af_action = action, af_from = None, af_to = Some (midnight + 86399 * nanos_per_sec)\<rparr>"
  have q: "audit_query L date_of C actor action None (Some d) (Some (log_file C rs)) = print_all (encode C) (filter (selected_record ?F) rs)"
    using assms(1,3,4) by (simp add: audit_query_def audit_records_file parse_bound_def)
  have "print_all (encode C) (filter (selected_record ?F) rs) = (map (entry_text C) (filter (selected_record ?F) rs), Inr ())"
    using assms(1) by (intro print_all_ok) (auto simp: list_all_iff wf_entryD(1))
  moreover assume "entry_text C r \<in> set (fst (audit_query L date_of C actor action None (Some d) (Some (log_file C rs))))"
  ultimately obtain r' where r': "r' \<in> set rs" "selected_record ?F r'" "entry_text C r' = entry_text C r"
    unfolding q by auto
  then have "r' = r" using assms(1,2) wf_entryD(3) by (metis list_all_iff sum.inject(2))
  with r'(2) assms(5) show False by (auto simp: selected_record_def split: if_splits)
qed

section \<open>Lists of timers\<close>

lemma sort_key_eq_Nil: "sort_key f xs = [] \<longleftrightarrow> xs = []"
  by (metis length_0_conv length_sort)

lemma distinct_map_sort: "distinct (map f (sort_key g xs)) = distinct (map f xs)"
  by (rule mset_eq_imp_distinct_iff) simp

lemma summary_id: "summary s tid = Some x \<Longrightarrow> sum_id x = tid"
  by (auto simp: summary_def Let_def split: option.splits)

lemma summaries_ids:
  "map sum_id (List.map_filter (summary s) keys) = filter (\<lambda>tid. summary s tid \<noteq> None) keys"
  by (induction keys) (auto simp: map_filter_simps summary_id split: option.split)

lemma summary_known: "summary s tid = None \<longleftrightarrow> states s tid = None"
  by (auto simp: summary_def Let_def split: option.splits)

text \<open>The list of timers does not depend on the order of a hash map.  When no runtime answers,
  \<open>kron job list\<close> prints, whatever the order in which the timers of the recovered state are
  iterated, one row for each of them with a lifecycle state, sorted by name, or a note when there
  is none.\<close>

theorem job_list_sorted:
  assumes "ce_http E = None" "ce_ipc E ListTimers = Inl err"
    and "load_state (ce_codec E) (ce_data_dir E) D = (Inr s, D1)"
    and "distinct (ce_keys E)" "set (ce_keys E) = dom (specs s)"
  shows "\<exists>names. sorted names \<and> distinct names \<and> set names = {timer_id_str tid |tid. specs s tid \<noteq> None \<and> states s tid \<noteq> None}
    \<and> job_list E D = ((if names = [] then [''(no timers registered)'']
         else [pad_right 30 ''TIMER'' @ '' '' @ pad_right 12 ''STATUS'' @ '' NEXT RUN'', replicate 70 CHR ''-'']
              @ map (\<lambda>name. list_row (ce_fmt E) (the (summary s (TimerId name)))) names, Inr ()), D1)"
proof -
  let ?sums = "List.map_filter (summary s) (ce_keys E)"
  let ?sorted = "sort_key (\<lambda>x. timer_id_str (sum_id x)) ?sums"
  let ?names = "map (\<lambda>x. timer_id_str (sum_id x)) ?sorted"
  have ids: "map (\<lambda>x. timer_id_str (sum_id x)) ?sums = map timer_id_str (filter (\<lambda>tid. summary s tid \<noteq> None) (ce_keys E))"
    using arg_cong [OF summaries_ids, of "map timer_id_str" s "ce_keys E"] by (simp add: comp_def)
  have inj: "inj timer_id_str" by (auto intro!: injI timer_id.expand)
  have dist: "distinct ?names"
  proof -
    have "distinct (map (\<lambda>x. timer_id_str (sum_id x)) ?sums)"
      unfolding ids using assms(4) inj by (simp add: distinct_map inj_on_def)
    then show ?thesis by (simp add: distinct_map_sort)
  qed
  have set: "set ?names = {timer_id_str tid |tid. specs s tid \<noteq> None \<and> states s tid \<noteq> None}"
    using arg_cong [OF ids, of set] assms(5) by (simp only: set_map set_sort set_filter summary_known) blast
  have row: "list_row (ce_fmt E) (the (summary s (TimerId (timer_id_str (sum_id x))))) = list_row (ce_fmt E) x"
    if "x \<in> set ?sums" for x
  proof -
    have "\<exists>tid. summary s tid = Some x" using that by (auto simp: List.map_filter_def)
    then show ?thesis using summary_id by fastforce
  qed
  have job: "job_list E D = ((print_list (ce_fmt E) ?sums, Inr ()), D1)"
    using assms(1-3) by (simp add: job_list_def cli_load_state_def)
  have lines: "print_list (ce_fmt E) ?sums = (if ?names = [] then [''(no timers registered)'']
         else [pad_right 30 ''TIMER'' @ '' '' @ pad_right 12 ''STATUS'' @ '' NEXT RUN'', replicate 70 CHR ''-'']
              @ map (\<lambda>name. list_row (ce_fmt E) (the (summary s (TimerId name)))) ?names)"
    using row by (simp add: print_list_def sort_key_eq_Nil)
  have sorted: "sorted ?names" by simp
  show ?thesis
    by (rule exI [of _ ?names], intro conjI) (fact sorted, fact dist, fact set, simp only: job lines)
qed

section \<open>Offline compaction\<close>

text \<open>Compaction from the command line keeps the recovered state.  When a runtime answers, the command
  touches no file itself; when none answers but another process holds the lock of the directory,
  the command fails and touches no file; otherwise, if the directory can be recovered, it can be
  recovered afterwards, to the same state, and the log is empty.\<close>

theorem log_compact_safe:
  assumes "log_compact E D = (r, D')"
  shows "(\<forall>answer. ce_ipc E Compact = Inr answer \<longrightarrow> D' = D)
    \<and> (\<forall>err. ce_ipc E Compact = Inl err \<longrightarrow> ce_locked E \<longrightarrow> D' = D \<and> (\<exists>msg. r = ([], Inl msg)))
    \<and> (\<forall>err s D1. ce_ipc E Compact = Inl err \<longrightarrow> \<not> ce_locked E \<longrightarrow>
         load_state (ce_codec E) (ce_data_dir E) D = (Inr s, D1) \<longrightarrow> metadata_len (d_aof D1) < 2 ^ 64 \<longrightarrow>
         r = ([''compacted''], Inr ()) \<and> d_aof D' = Some []
         \<and> fst (load_state (ce_codec E) (ce_data_dir E) D') = Inr (forget_fns s))"
proof -
  have empty: "d_aof (compact now s D1) = Some []" for now s D1
    by (simp add: compact_def compact_steps_def write_snapshot_atomic_def Let_def)
  have "fst (load_state C data_dir (compact now s D1)) = Inr (forget_fns s)" if "metadata_len (d_aof D1) < 2 ^ 64" for C data_dir now s D1
  proof -
    have "compact now s D1 = compact_until (length (compact_steps now s D1)) now s D1"
      by (simp add: compact_def compact_until_def)
    moreover have "0 < length (compact_steps now s D1)" by (simp add: compact_steps_def Let_def)
    ultimately show ?thesis using compact_until_safe [OF that] by simp
  qed
  then show ?thesis
    using assms empty
    by (auto simp: log_compact_def try_compaction_lock_def compact_read_only_def split: sum.splits ipc_response.splits prod.splits if_splits)
qed

section \<open>The files of a server are those that the command line reads\<close>

lemma served_files_found:
  assumes "serve_node S N token F = (Inr (), F')" "list_all graphic (nc_http_addr N)" "nc_http_addr N \<noteq> []"
    and "list_all (\<lambda>c. 32 < (of_char c :: nat) \<and> (of_char c :: nat) < 127) token" "token \<noteq> []"
  shows "map_option trim (nf_http F') = Some (nc_http_addr N)" "server_request_token parse None (nf_token F') tokens = Inr token"
proof -
  have F': "nf_http F' = Some (nc_http_addr N @ [LF])" "nf_token F' = write_token_file token"
    using assms(1) by (auto simp: serve_node_def Let_def split: sum.splits option.splits)
  then show "map_option trim (nf_http F') = Some (nc_http_addr N)" using endpoint_file [OF assms(2,3)] by simp
  have "list_all graphic token" using assms(4) by (auto simp: list_all_iff graphic_def)
  moreover have "utf8_ok (token @ [LF])" using assms(4) by (intro utf8_ascii) (auto simp: ascii_def list_all_iff graphic_def)
  ultimately show "server_request_token parse None (nf_token F') tokens = Inr token"
    using endpoint_file assms(5) F'(2) by (simp add: server_request_token_def write_token_file_def)
qed

section \<open>A token that the server rejects\<close>

text \<open>The token of the data directory is useless once a token file exists.  A node writes its token to
  \<open>kron.token\<close> when it starts, and the command line prefers that file to \<open>kron.tokens.json\<close>.  If
  the token file of the node is valid and no entry matches the token of the cluster, the node
  rejects the token that the command line sends, whatever tokens the file grants.\<close>

theorem cli_token_rejected:
  assumes "list_all (\<lambda>c. 32 < (of_char c :: nat) \<and> (of_char c :: nat) < 127) token" "token \<noteq> []"
    and "ae_tokens_file A = Some (Inr content)" "ae_parse_tokens A content = Inr entries" "validate_tokens entries = Inr ()"
    and "\<not> list_ex (\<lambda>entry. token_entry_matches (ae_sha A) entry token (ae_now A)) entries"
    and "ae_header A = Some (''Bearer '' @ sent)"
    and "server_request_token parse None (write_token_file token) tokens_json = Inr sent"
  shows "sent = token \<and> authenticate A = Inl ''unknown token''"
proof -
  have graphic: "list_all graphic token" using assms(1) by (auto simp: list_all_iff graphic_def)
  have "utf8_ok (token @ [LF])" using assms(1) by (intro utf8_ascii) (auto simp: ascii_def list_all_iff graphic_def)
  then have sent: "sent = token"
    using assms(8) endpoint_file [OF graphic assms(2)] by (simp add: server_request_token_def write_token_file_def)
  have "header_to_str (''Bearer '' @ token) = Some (''Bearer '' @ token)"
    using assms(1) by (fastforce simp: header_to_str_def list_all_iff)
  then have "bearer_of (ae_header A) = Some token" using assms(7) sent by (simp add: bearer_of_def strip_prefix_def)
  moreover have "List.find (\<lambda>entry. token_entry_matches (ae_sha A) entry token (ae_now A)) entries = None"
    using assms(6) by (auto simp: find_None_iff list_ex_iff)
  ultimately show ?thesis using sent assms(3-5) by (simp add: authenticate_def)
qed

section \<open>Witnesses\<close>

theorem audit_query_exact_witness:
  "audit_query minute_libs (\<lambda>_. Inr 0) sample_audit_codec (Some ''worker'') None None (Some ''1970-01-01'')
     (Some (log_file sample_audit_codec [sample_record])) = ([entry_text sample_audit_codec sample_record], Inr ())"
proof -
  have "parse_bound minute_libs (\<lambda>_. Inr 0) None False = Inr None"
    "parse_bound minute_libs (\<lambda>_. Inr 0) (Some ''1970-01-01'') True = Inr (Some (86399 * nanos_per_sec))"
    by (simp_all add: parse_bound_def minute_libs_def)
  from audit_query_exact [OF sample_audit_wf(1) this, of "Some ''worker''" None]
  show ?thesis by (simp add: sample_record_def Let_def nanos_per_sec_def)
qed

definition sample_recovered :: engine_state where
  "sample_recovered = new_state\<lparr>specs := [TimerId ''digest'' \<mapsto> \<lparr>ts_id = TimerId ''digest'', ts_schedule = Every 60,
       ts_retry = default_retry, ts_timezone = ''UTC'', ts_created_at = 0, ts_overlap = Delay\<rparr>],
     states := [TimerId ''digest'' \<mapsto> Orphaned]\<rparr>"

definition sample_cli :: cli_env where
  "sample_cli = \<lparr>ce_http = None, ce_pretty = (\<lambda>_. Inr []), ce_ipc = (\<lambda>_. Inl (IpcUnavailable ''no socket'')),
     ce_data_pretty = (\<lambda>_. Inr []), ce_entry_pretty = (\<lambda>_. Inr []), ce_mismatch = [], ce_codec = sample_codec,
     ce_data_dir = ''data'', ce_keys = [TimerId ''digest''], ce_fmt = (\<lambda>_ _. []), ce_show = (\<lambda>_. ''error''),
     ce_now = 0, ce_locked = False\<rparr>"

definition sample_directory :: disk where
  "sample_directory = \<lparr>d_aof = Some [], d_aof_old = None, d_snapshot = Some (Parsed (from_state 0 sample_recovered 0))\<rparr>"

lemma sample_directory_load: "load_state sample_codec ''data'' sample_directory = (Inr sample_recovered, sample_directory)"
proof -
  have "forget_fns sample_recovered = sample_recovered"
    by (simp add: forget_fns_def sample_recovered_def new_state_def)
  then have "fst (load_state sample_codec ''data'' sample_directory) = Inr sample_recovered"
    using load_at_offset [of sample_directory 0 sample_recovered 0] by (simp add: sample_directory_def metadata_len_def)
  moreover have "snd (load_state sample_codec ''data'' sample_directory) = sample_directory"
    by (simp add: load_state_def sample_directory_def open_log_def Let_def split: sum.split)
  ultimately show ?thesis by (metis prod.collapse)
qed

theorem job_list_sorted_witness:
  "\<exists>row. job_list sample_cli sample_directory =
     (([pad_right 30 ''TIMER'' @ '' '' @ pad_right 12 ''STATUS'' @ '' NEXT RUN'', replicate 70 CHR ''-'', row], Inr ()), sample_directory)"
proof -
  have env: "ce_http sample_cli = None" "ce_ipc sample_cli ListTimers = Inl (IpcUnavailable ''no socket'')"
    "load_state (ce_codec sample_cli) (ce_data_dir sample_cli) sample_directory = (Inr sample_recovered, sample_directory)"
    "distinct (ce_keys sample_cli)" "set (ce_keys sample_cli) = dom (specs sample_recovered)"
    by (simp_all add: sample_cli_def sample_directory_load) (simp add: sample_recovered_def)
  have "{timer_id_str tid |tid. specs sample_recovered tid \<noteq> None \<and> states sample_recovered tid \<noteq> None} = {''digest''}"
    by (auto simp: sample_recovered_def split: if_splits)
  note printed = job_list_sorted [OF env, unfolded this]
  then obtain names where n: "distinct names" "set names = {''digest''}"
    and out: "job_list sample_cli sample_directory = ((if names = [] then [''(no timers registered)'']
         else [pad_right 30 ''TIMER'' @ '' '' @ pad_right 12 ''STATUS'' @ '' NEXT RUN'', replicate 70 CHR ''-'']
              @ map (\<lambda>name. list_row (ce_fmt sample_cli) (the (summary sample_recovered (TimerId name)))) names, Inr ()), sample_directory)"
    by blast
  have "length names = 1" using n distinct_card [OF n(1)] by simp
  then obtain name where "names = [name]" by (auto simp: length_Suc_conv)
  then show ?thesis using out by simp
qed

theorem log_compact_safe_witness:
  "\<exists>D'. log_compact sample_cli sample_directory = (([''compacted''], Inr ()), D')
    \<and> fst (load_state sample_codec ''data'' D') = Inr (forget_fns sample_recovered)"
proof -
  obtain r D' where run: "log_compact sample_cli sample_directory = (r, D')" by (metis prod.exhaust)
  have "ce_ipc sample_cli Compact = Inl (IpcUnavailable ''no socket'')" "\<not> ce_locked sample_cli"
    "load_state (ce_codec sample_cli) (ce_data_dir sample_cli) sample_directory = (Inr sample_recovered, sample_directory)"
    "metadata_len (d_aof sample_directory) < 2 ^ 64"
    by (simp_all add: sample_cli_def sample_directory_load) (simp add: sample_directory_def metadata_len_def)
  with log_compact_safe [OF run] have "r = ([''compacted''], Inr ())"
    "fst (load_state (ce_codec sample_cli) (ce_data_dir sample_cli) D') = Inr (forget_fns sample_recovered)" by blast+
  with run show ?thesis by (simp add: sample_cli_def)
qed

text \<open>A token file as security.md recommends it: an administrator known by a hash.\<close>

definition hashed_admin :: token_entry where
  "hashed_admin = \<lparr>te_name = ''admin'', te_token = [], te_token_sha256 = Some (replicate 64 CHR ''a''), te_role = Admin,
     te_tenant_id = None, te_not_before = None, te_expires_at = None\<rparr>"

definition hashed_auth_env :: "string \<Rightarrow> auth_env" where
  "hashed_auth_env sent = \<lparr>ae_sha = (\<lambda>b. if b = as_bytes ''new'' then replicate 64 CHR ''a'' else replicate 64 CHR ''b''),
     ae_parse_tokens = (\<lambda>_. Inr [hashed_admin]), ae_header = Some (''Bearer '' @ sent), ae_tokens_file = Some (Inr ''{}''),
     ae_cluster_token = ''old'', ae_now = 0\<rparr>"

theorem cli_token_rejected_witness:
  "\<exists>sent. server_request_token (\<lambda>_. Inr []) None (write_token_file ''old'') None = Inr sent
    \<and> authenticate (hashed_auth_env sent) = Inl ''unknown token''
    \<and> authenticate (hashed_auth_env ''new'') = Inr (context_of hashed_admin)"
proof -
  have tok: "list_all (\<lambda>c. 32 < (of_char c :: nat) \<and> (of_char c :: nat) < 127) ''old''" "''old'' \<noteq> []" by simp_all
  obtain sent where sent: "server_request_token (\<lambda>_. Inr []) None (write_token_file ''old'') None = Inr sent"
    using utf8_ascii [of "''old'' @ [LF]"] by (auto simp: server_request_token_def write_token_file_def ascii_def)
  have rep: "replicate 64 CHR ''a'' \<noteq> replicate 64 CHR ''b''" by (simp add: eval_nat_numeral)
  have env: "ae_tokens_file (hashed_auth_env sent) = Some (Inr ''{}'')"
    "ae_parse_tokens (hashed_auth_env sent) ''{}'' = Inr [hashed_admin]" "validate_tokens [hashed_admin] = Inr ()"
    "\<not> list_ex (\<lambda>entry. token_entry_matches (ae_sha (hashed_auth_env sent)) entry ''old'' (ae_now (hashed_auth_env sent))) [hashed_admin]"
    "ae_header (hashed_auth_env sent) = Some (''Bearer '' @ sent)"
    using rep by (simp_all add: hashed_auth_env_def hashed_admin_def token_entry_matches_def is_sha256_hex_def is_ascii_hexdigit_def
        as_bytes_inj secure_eq_iff list_all_iff)
  have "authenticate (hashed_auth_env ''new'') = Inr (context_of hashed_admin)"
    by (simp add: authenticate_def hashed_auth_env_def bearer_of_def header_to_str_def strip_prefix_def hashed_admin_def
        token_entry_matches_def is_sha256_hex_def is_ascii_hexdigit_def secure_eq_iff list_all_iff)
  with cli_token_rejected [OF tok env sent] sent show ?thesis by blast
qed

end
