(* ===== verification/Kron_Raft_Api.thy ===== *)
theory Kron_Raft_Api
  imports Kron_Python_Worker Kron_Raft_Network Kron_Cli
begin

text \<open>
  The public HTTP interface of a cluster node end to end: \<open>public_router\<close> of openraft_adapter/runtime.rs
  with the handlers behind it, and its clients, the Python module and the command line.  The web
  framework (axum) is a parameter: how a pattern of a path matches a path, and how a body is read.
  Shown: exactly which calls of the clients reach the handler they are meant for, that the outcome
  which a worker reports of a claimed run is accepted, which requests are sent on to the leader, and
  that a claim that was chosen before the run of another worker repeats that run under its fencing
  token.
\<close>

section \<open>The table of routes\<close>

text \<open>One route per handler of the public router.\<close>

datatype route =
    RouteCreate | RouteList | RouteStatus | RouteHistory | RouteRegister | RouteHeartbeat | RoutePoll
  | RouteSucceed | RouteFail | RouteClusterStatus | RouteJoin | RouteLeave | RouteShutdown

definition public_routes :: "(string \<times> (string \<times> route) list) list" where
  "public_routes =
     [(''/v1/timers'', [(''POST'', RouteCreate), (''GET'', RouteList)]),
      (''/v1/timers/:name'', [(''GET'', RouteStatus)]),
      (''/v1/timers/:name/history'', [(''GET'', RouteHistory)]),
      (''/v1/workers/register'', [(''POST'', RouteRegister)]),
      (''/v1/workers/heartbeat'', [(''POST'', RouteHeartbeat)]),
      (''/v1/workers/poll'', [(''POST'', RoutePoll)]),
      (''/v1/runs/:run_id/succeed'', [(''POST'', RouteSucceed)]),
      (''/v1/runs/:run_id/fail'', [(''POST'', RouteFail)]),
      (''/v1/cluster/status'', [(''GET'', RouteClusterStatus)]),
      (''/v1/cluster/join'', [(''POST'', RouteJoin)]),
      (''/v1/cluster/leave'', [(''POST'', RouteLeave)]),
      (''/v1/runtime/shutdown'', [(''POST'', RouteShutdown)])]"

text \<open>The framework: the parameters of a path that a pattern captures, and the readers of bodies.\<close>

record axum =
  ax_capture :: "string \<Rightarrow> string \<Rightarrow> string list option"
  ax_json :: http_json

text \<open>The arguments that a handler extracts: the parameter of the path and the value of the body.\<close>

definition extract_json :: "('e + 'a) \<Rightarrow> ('a \<Rightarrow> api_request) \<Rightarrow> api_request option" where
  "extract_json r f = (case r of Inl _ \<Rightarrow> None | Inr v \<Rightarrow> Some (f v))"

fun route_request :: "http_json \<Rightarrow> route \<Rightarrow> string \<Rightarrow> string \<Rightarrow> api_request option" where
  "route_request J RouteCreate p body = extract_json (hj_create J body) ApiCreateTimer"
| "route_request J RouteList p body = Some ApiListTimers"
| "route_request J RouteStatus p body = Some (ApiStatusTimer p)"
| "route_request J RouteHistory p body = Some (ApiHistoryTimer p)"
| "route_request J RouteRegister p body = extract_json (hj_register J body) ApiRegisterWorker"
| "route_request J RouteHeartbeat p body = extract_json (hj_value J body) ApiHeartbeatWorker"
| "route_request J RoutePoll p body = extract_json (hj_poll J body) ApiPollWorker"
| "route_request J RouteSucceed p body = extract_json (hj_complete J body) (ApiSucceedRun p)"
| "route_request J RouteFail p body = extract_json (hj_fail J body) (ApiFailRun p)"
| "route_request J RouteClusterStatus p body = Some ApiClusterStatus"
| "route_request J RouteJoin p body = extract_json (hj_join J body) ApiJoin"
| "route_request J RouteLeave p body = extract_json (hj_leave J body) ApiLeave"
| "route_request J RouteShutdown p body = Some ApiShutdown"

text \<open>The routes whose pattern matches, with the captured parameters.\<close>

definition matching :: "axum \<Rightarrow> string \<Rightarrow> (string list \<times> (string \<times> route) list) list" where
  "matching A path = List.map_filter (\<lambda>(pattern, methods).
     map_option (\<lambda>ps. (ps, methods)) (ax_capture A pattern path)) public_routes"

text \<open>Patterns are matched on the path of the request target: the framework cuts off the query, which
  begins at a question mark, and a fragment.  A request that the framework refuses itself is answered with 404 when no pattern matches, with
  405 when the path has no handler for the method, and with a client error, for which 422 stands,
  when the body cannot be read, before the caller is authenticated; these answers have no JSON body.
  (The framework also answers \<open>HEAD\<close> by the handler of \<open>GET\<close>; no client of the repository sends it.)\<close>

definition target_path :: "string \<Rightarrow> string" where
  "target_path target = takeWhile (\<lambda>c. c \<noteq> CHR ''?'' \<and> c \<noteq> CHR ''#'') target"

definition public_router :: "axum \<Rightarrow> string \<Rightarrow> string \<Rightarrow> string \<Rightarrow> u16 + api_request" where
  "public_router A mtd target body =
     (case matching A (target_path target) of
        [] \<Rightarrow> Inl 404
      | (ps, methods) # _ \<Rightarrow>
          (case map_of methods mtd of
             None \<Rightarrow> Inl 405
           | Some route \<Rightarrow>
               (case route_request (ax_json A) route (concat (take 1 ps)) body of
                  None \<Rightarrow> Inl 422
                | Some request \<Rightarrow> Inr request)))"

definition serve_public ::
  "axum \<Rightarrow> error_text \<Rightarrow> auth_env \<Rightarrow> audit_env \<Rightarrow> node_conf \<Rightarrow> request_env \<Rightarrow> string \<Rightarrow> string \<Rightarrow> string
   \<Rightarrow> node_state \<times> audit_log \<Rightarrow> http_response res \<times> node_state \<times> audit_log" where
  "serve_public A T E U N R mtd path body sal =
     (case public_router A mtd path body of
        Inl code \<Rightarrow> (Inr \<lparr>hr_status = code, hr_body = Null\<rparr>, sal)
      | Inr request \<Rightarrow> handle_api T E U N R request sal)"

section \<open>The framework's patterns\<close>

text \<open>What the framework documents of patterns: a path without escapes is compared with a pattern
  segment by segment, and a segment of the pattern that begins with a colon matches every segment
  that is not empty and captures it.\<close>

fun split_slash :: "string \<Rightarrow> string \<Rightarrow> string list" where
  "split_slash acc [] = [acc]"
| "split_slash acc (c # s) = (if c = CHR ''/'' then acc # split_slash [] s else split_slash (acc @ [c]) s)"

fun capture_segments :: "string list \<Rightarrow> string list \<Rightarrow> string list option" where
  "capture_segments [] [] = Some []"
| "capture_segments (p # ps) (s # ss) =
     (if p \<noteq> [] \<and> hd p = CHR '':'' then (if s = [] then None else map_option (\<lambda>cs. s # cs) (capture_segments ps ss))
      else if p = s then capture_segments ps ss
      else None)"
| "capture_segments _ _ = None"

definition segment_capture :: "string \<Rightarrow> string \<Rightarrow> string list option" where
  "segment_capture pattern path = capture_segments (split_slash [] pattern) (split_slash [] path)"

definition captures_segments :: "axum \<Rightarrow> bool" where
  "captures_segments A \<longleftrightarrow> (\<forall>pattern path. CHR ''%'' \<notin> set path \<longrightarrow> ax_capture A pattern path = segment_capture pattern path)"

lemma split_slash_plain: "CHR ''/'' \<notin> set s \<Longrightarrow> split_slash acc (s @ t) = split_slash (acc @ s) t"
  by (induction s arbitrary: acc) auto

text \<open>Words that a path can hold as one segment without an escape.\<close>

definition plain_word :: "string \<Rightarrow> bool" where
  "plain_word s \<longleftrightarrow> s \<noteq> [] \<and> CHR ''/'' \<notin> set s \<and> CHR ''%'' \<notin> set s \<and> CHR ''?'' \<notin> set s \<and> CHR ''#'' \<notin> set s"

lemma target_path_plain: "CHR ''?'' \<notin> set s \<Longrightarrow> CHR ''#'' \<notin> set s \<Longrightarrow> target_path (s @ t) = s @ target_path t"
  unfolding target_path_def by (rule takeWhile_append2) auto

lemma target_path_word: "plain_word s \<Longrightarrow> target_path (s @ t) = s @ target_path t"
  by (rule target_path_plain) (simp_all add: plain_word_def)

lemma target_path_Nil [simp]: "target_path [] = []" "target_path (CHR ''?'' # s) = []" "target_path (CHR ''#'' # s) = []"
  by (simp_all add: target_path_def)

lemma split_slash_word:
  assumes "plain_word s"
  shows "split_slash [] s = [s]" "split_slash [] (s @ CHR ''/'' # t) = s # split_slash [] t"
  using assms split_slash_plain [of s "[]" "[]"] split_slash_plain [of s "[]" "CHR ''/'' # t"]
  by (simp_all add: plain_word_def)

lemma matching_segments:
  "captures_segments A \<Longrightarrow> CHR ''%'' \<notin> set path \<Longrightarrow>
     matching A path = List.map_filter (\<lambda>(pattern, methods).
       map_option (\<lambda>ps. (ps, methods)) (capture_segments (split_slash [] pattern) (split_slash [] path))) public_routes"
  by (simp add: matching_def captures_segments_def segment_capture_def)

lemma matching_named:
  assumes "captures_segments A" "plain_word s"
  shows "matching A (''/v1/timers/'' @ s) = [([s], [(''GET'', RouteStatus)])]"
    "matching A (''/v1/timers/'' @ s @ ''/history'') = [([s], [(''GET'', RouteHistory)])]"
    "matching A (''/v1/runs/'' @ s @ ''/succeed'') = [([s], [(''POST'', RouteSucceed)])]"
    "matching A (''/v1/runs/'' @ s @ ''/fail'') = [([s], [(''POST'', RouteFail)])]"
  using assms(2)
  by (simp_all add: matching_segments [OF assms(1)] split_slash_word [OF assms(2)] plain_word_def public_routes_def
      List.map_filter_def)

lemma matching_fixed:
  assumes "captures_segments A"
  shows "matching A ''/v1/timers'' = [([], [(''POST'', RouteCreate), (''GET'', RouteList)])]"
    "matching A ''/v1/workers/register'' = [([], [(''POST'', RouteRegister)])]"
    "matching A ''/v1/workers/poll'' = [([], [(''POST'', RoutePoll)])]"
    "matching A ''/v1/cluster/status'' = [([], [(''GET'', RouteClusterStatus)])]"
    "matching A ''/v1/cluster/join'' = [([], [(''POST'', RouteJoin)])]"
    "matching A ''/v1/cluster/leave'' = [([], [(''POST'', RouteLeave)])]"
    "matching A ''/v1/runtime/shutdown'' = [([], [(''POST'', RouteShutdown)])]"
  by (simp_all add: matching_segments [OF assms] public_routes_def List.map_filter_def)

lemma target_path_fixed:
  "target_path ''/v1/timers'' = ''/v1/timers''" "target_path ''/v1/workers/register'' = ''/v1/workers/register''"
  "target_path ''/v1/workers/poll'' = ''/v1/workers/poll''" "target_path ''/v1/cluster/status'' = ''/v1/cluster/status''"
  "target_path ''/v1/cluster/join'' = ''/v1/cluster/join''" "target_path ''/v1/cluster/leave'' = ''/v1/cluster/leave''"
  "target_path ''/v1/runtime/shutdown'' = ''/v1/runtime/shutdown''"
  by (simp_all add: target_path_def)

section \<open>The calls of the clients\<close>

definition routed_to :: "axum \<Rightarrow> string \<times> string \<times> json \<Rightarrow> string \<Rightarrow> u16 + api_request" where
  "routed_to A call body = (case call of (mtd, path, _) \<Rightarrow> public_router A mtd path body)"

text \<open>What a handler gets as its parameter is one whole segment of the path.\<close>

lemma split_slash_segments:
  "seg \<in> set (split_slash acc s) \<Longrightarrow> CHR ''/'' \<notin> set acc \<Longrightarrow> CHR ''/'' \<notin> set seg \<and> set seg \<subseteq> set acc \<union> set s"
proof (induction s arbitrary: acc)
  case (Cons c s)
  show ?case
  proof (cases "c = CHR ''/''")
    case True
    with Cons.prems Cons.IH [of "[]"] show ?thesis by auto
  next
    case False
    with Cons.prems Cons.IH [of "acc @ [c]"] show ?thesis by auto
  qed
qed simp

lemma capture_segments_Some:
  "capture_segments ps ss = Some cs \<Longrightarrow>
     set cs \<subseteq> set ss - {[]} \<and> length cs = length (filter (\<lambda>p. p \<noteq> [] \<and> hd p = CHR '':'') ps)"
  by (induction ps ss arbitrary: cs rule: capture_segments.induct) (auto split: if_splits)

definition named_routes :: "route set" where
  "named_routes = {RouteStatus, RouteHistory, RouteSucceed, RouteFail}"

lemma named_patterns:
  "(pattern, methods) \<in> set public_routes \<Longrightarrow> route \<in> snd ` set methods \<Longrightarrow> route \<in> named_routes
     \<Longrightarrow> length (filter (\<lambda>p. p \<noteq> [] \<and> hd p = CHR '':'') (split_slash [] pattern)) = 1"
  by (auto simp: public_routes_def named_routes_def)

lemma target_path_chars: "set (target_path target) \<subseteq> set target - {CHR ''?'', CHR ''#''}"
  unfolding target_path_def by (auto dest: set_takeWhileD)

lemma routed_parameter:
  assumes "captures_segments A" "CHR ''%'' \<notin> set target"
    and "matching A (target_path target) = (ps, methods) # rest" "map_of methods mtd = Some route" "route \<in> named_routes"
  shows "plain_word (concat (take 1 ps))"
proof -
  let ?path = "target_path target"
  have chars: "set ?path \<subseteq> set target - {CHR ''?'', CHR ''#''}" by (rule target_path_chars)
  have "(ps, methods) \<in> set (matching A ?path)" using assms(3) by simp
  then obtain pattern where p: "(pattern, methods) \<in> set public_routes" "ax_capture A pattern ?path = Some ps"
    by (auto simp: matching_def List.map_filter_def)
  moreover have "CHR ''%'' \<notin> set ?path" using assms(2) chars by auto
  ultimately have cap: "capture_segments (split_slash [] pattern) (split_slash [] ?path) = Some ps"
    using assms(1) by (simp add: captures_segments_def segment_capture_def)
  have "route \<in> snd ` set methods" using map_of_SomeD [OF assms(4)] by force
  with capture_segments_Some [OF cap] named_patterns [OF p(1) _ assms(5)]
  obtain seg where seg: "ps = [seg]" "seg \<noteq> []" "seg \<in> set (split_slash [] ?path)"
    by (cases ps) auto
  from split_slash_segments [OF seg(3)] seg(1,2) chars assms(2) show ?thesis by (auto simp: plain_word_def)
qed

lemma named_request_plain:
  assumes "captures_segments A" "CHR ''%'' \<notin> set target"
    and "public_router A mtd target body = Inr (ApiStatusTimer n) \<or> public_router A mtd target body = Inr (ApiHistoryTimer n)"
  shows "plain_word n"
proof -
  from assms(3) obtain ps methods rest route
    where r: "matching A (target_path target) = (ps, methods) # rest" "map_of methods mtd = Some route"
      "route_request (ax_json A) route (concat (take 1 ps)) body \<in> {Some (ApiStatusTimer n), Some (ApiHistoryTimer n)}"
    by (auto simp: public_router_def split: list.splits option.splits prod.splits)
  then have "route \<in> named_routes \<and> n = concat (take 1 ps)"
    by (cases route) (auto simp: named_routes_def extract_json_def split: sum.splits)
  with routed_parameter [OF assms(1,2) r(1,2)] show ?thesis by simp
qed

text \<open>The characters that a request target may hold as they are, except the percent sign: those that
  URIs allow in a path, with the question mark and the hash sign that end it.\<close>

definition uri_char :: "char \<Rightarrow> bool" where
  "uri_char c \<longleftrightarrow> graphic c \<and> c \<notin> {CHR 0x22, CHR ''%'', CHR ''<'', CHR ''>'', CHR ''['', CHR 0x5C, CHR '']'', CHR ''^'',
     CHR 0x60, CHR ''{'', CHR ''|'', CHR ''}''}"

lemma uri_no_percent: "list_all uri_char s \<Longrightarrow> CHR ''%'' \<notin> set s"
  unfolding uri_char_def list_all_iff by blast

lemma timer_targets:
  assumes "plain_word s"
  shows "target_path (''/v1/timers/'' @ s @ t) = ''/v1/timers/'' @ s @ target_path t"
proof -
  have "target_path (''/v1/timers/'' @ s @ t) = ''/v1/timers/'' @ target_path (s @ t)"
    by (rule target_path_plain) simp_all
  then show ?thesis by (simp only: target_path_word [OF assms])
qed

lemma router_finds:
  assumes "matching A (target_path target) = [(ps, methods)]" "map_of methods mtd = Some route"
    and "route_request (ax_json A) route (concat (take 1 ps)) body = Some q"
  shows "public_router A mtd target body = Inr q"
  using assms by (simp add: public_router_def)

lemma timer_requests:
  assumes "captures_segments A" "plain_word s"
  shows "public_router A ''GET'' (''/v1/timers/'' @ s) body = Inr (ApiStatusTimer s)"
    "public_router A ''GET'' (''/v1/timers/'' @ s @ ''/history'') body = Inr (ApiHistoryTimer s)"
    "public_router A ''GET'' (''/v1/timers/'' @ s @ CHR ''?'' # y) body = Inr (ApiStatusTimer s)"
    "public_router A ''GET'' (''/v1/timers/'' @ s @ (CHR ''?'' # y) @ ''/history'') body = Inr (ApiStatusTimer s)"
proof -
  note targets = timer_targets [OF assms(2)] and found = matching_named [OF assms]
  have "target_path ''/history'' = ''/history''" by (simp add: target_path_def)
  then have paths: "target_path (''/v1/timers/'' @ s) = ''/v1/timers/'' @ s"
    "target_path (''/v1/timers/'' @ s @ ''/history'') = ''/v1/timers/'' @ s @ ''/history''"
    "target_path (''/v1/timers/'' @ s @ CHR ''?'' # y) = ''/v1/timers/'' @ s" for y
    using targets [of "[]"] targets [of "''/history''"] targets [of "CHR ''?'' # y"]
    by (simp_all only: target_path_Nil append_Nil2)
  show "public_router A ''GET'' (''/v1/timers/'' @ s) body = Inr (ApiStatusTimer s)"
    by (rule router_finds [OF trans [OF arg_cong [where f = "matching A", OF paths(1)] found(1)]]) (simp, simp)
  show "public_router A ''GET'' (''/v1/timers/'' @ s @ ''/history'') body = Inr (ApiHistoryTimer s)"
    by (rule router_finds [OF trans [OF arg_cong [where f = "matching A", OF paths(2)] found(2)]]) (simp, simp)
  show query: "public_router A ''GET'' (''/v1/timers/'' @ s @ CHR ''?'' # y) body = Inr (ApiStatusTimer s)" for y
    by (rule router_finds [OF trans [OF arg_cong [where f = "matching A", OF paths(3)] found(1)]]) (simp, simp)
  show "public_router A ''GET'' (''/v1/timers/'' @ s @ (CHR ''?'' # y) @ ''/history'') body = Inr (ApiStatusTimer s)"
    using query [of "y @ ''/history''"] by (simp only: append_Cons)
qed

lemma fixed_requests:
  assumes "captures_segments A"
  shows "public_router A ''GET'' ''/v1/timers'' body = Inr ApiListTimers"
    "public_router A ''GET'' ''/v1/cluster/status'' body = Inr ApiClusterStatus"
    "public_router A ''POST'' ''/v1/runtime/shutdown'' body = Inr ApiShutdown"
    "hj_create (ax_json A) body = Inr qc \<Longrightarrow> public_router A ''POST'' ''/v1/timers'' body = Inr (ApiCreateTimer qc)"
    "hj_join (ax_json A) body = Inr qj \<Longrightarrow> public_router A ''POST'' ''/v1/cluster/join'' body = Inr (ApiJoin qj)"
    "hj_leave (ax_json A) body = Inr ql \<Longrightarrow> public_router A ''POST'' ''/v1/cluster/leave'' body = Inr (ApiLeave ql)"
    "hj_register (ax_json A) body = Inr qr \<Longrightarrow> public_router A ''POST'' ''/v1/workers/register'' body = Inr (ApiRegisterWorker qr)"
    "hj_poll (ax_json A) body = Inr qp \<Longrightarrow> public_router A ''POST'' ''/v1/workers/poll'' body = Inr (ApiPollWorker qp)"
  by (simp_all add: public_router_def target_path_fixed matching_fixed [OF assms] extract_json_def)


section \<open>The outcome of a claimed run\<close>

text \<open>The next run of one timer after one instant can be computed: the date arithmetic of chrono
  does not overflow there.\<close>

definition next_run_in_range :: "libs \<Rightarrow> string \<Rightarrow> datetime \<Rightarrow> state_machine \<Rightarrow> bool" where
  "next_run_in_range L timer after st \<longleftrightarrow>
     (case bt_get (psm_timers st) timer of
        None \<Rightarrow> True
      | Some t \<Rightarrow> (case next_run_after L (ds_schedule (pt_spec t)) after (ds_timezone (pt_spec t)) of
                     Inl (Panic _) \<Rightarrow> False | _ \<Rightarrow> True))"

lemma reschedule_in_range:
  "next_run_in_range L (timer_id_str tid) after st \<Longrightarrow> \<exists>st'. reschedule_timer L tid after st = Inr st'"
  by (auto simp: reschedule_timer_def next_run_in_range_def split: option.splits sum.splits fault.splits)

lemma in_range_kept:
  "next_run_in_range L timer after (set_state tid s (drop_active rid st)) = next_run_in_range L timer after st"
  by (auto simp: next_run_in_range_def set_state_def drop_active_def bt_get_modify split: option.split)

text \<open>The run is over for the cluster, and the last entry of the history tells how.\<close>

definition run_reported :: "worker_run \<Rightarrow> string \<Rightarrow> bool \<Rightarrow> state_machine \<Rightarrow> state_machine \<Rightarrow> bool" where
  "run_reported run worker success st st' \<longleftrightarrow>
     bt_get (psm_active_runs st') (wr_run_id run) = None
     \<and> (\<exists>tenant extra. psm_history st' = psm_history st
          @ [run_entry (if success then ''RUN_SUCCEEDED'' else ''RUN_FAILED'') (wr_timer run) tenant (wr_run_id run)
               worker extra (wr_fencing_token run)])"

lemma report_applied:
  assumes "next_run_in_range L (wr_timer run) now st"
    and "bt_get (psm_active_runs st) (wr_run_id run) = Some a" "pa_timer_id a = TimerId (wr_timer run)"
    and "pa_worker_id a = worker" "pa_fencing_token a = wr_fencing_token run"
  shows "\<exists>st'. apply_complete_run L (RunId (wr_run_id run)) worker (wr_fencing_token run) now st = Inr st'
      \<and> run_reported run worker True st st'"
    and "run_reported run worker False st (apply_fail_run (RunId (wr_run_id run)) worker (wr_fencing_token run) err st)"
proof -
  have own: "owned_run (RunId (wr_run_id run)) worker (wr_fencing_token run) st = Some a"
    using assms by (simp add: owned_run_def)
  obtain st1 where st1: "reschedule_timer L (pa_timer_id a) now
      (set_state (pa_timer_id a) Scheduled (drop_active (RunId (wr_run_id run)) st)) = Inr st1"
    using reschedule_in_range [of L "pa_timer_id a" now] assms(1,3) in_range_kept
    by (metis timer_id.sel)
  show "\<exists>st'. apply_complete_run L (RunId (wr_run_id run)) worker (wr_fencing_token run) now st = Inr st'
      \<and> run_reported run worker True st st'"
    using own st1 reschedule_runs [OF st1] assms(3,5)
    by (auto simp: apply_complete_run_def run_reported_def Let_def)
  show "run_reported run worker False st (apply_fail_run (RunId (wr_run_id run)) worker (wr_fencing_token run) err st)"
    using own assms(3,5) by (auto simp: apply_fail_run_def run_reported_def Let_def)
qed

text \<open>A claim that was committed at once leaves the run active, with the tenant of the poll.\<close>

lemma fresh_claim:
  assumes "committed (rq_libs R) cs st0" "rq_write R (k + 1) = Committed []"
    and "try_claim R k worker tasks tenant st0 = (Inr (Some run), st)"
  shows "\<exists>a. bt_get (psm_active_runs st) (wr_run_id run) = Some a \<and> pa_timer_id a = TimerId (wr_timer run)
      \<and> pa_worker_id a = worker \<and> pa_fencing_token a = wr_fencing_token run"
    and "tenant_matches tenant (timer_tenant st (wr_timer run))"
proof -
  obtain s deadline where c: "s \<in> set (bt_values (app_timers (app_state st0)))"
    "claim_candidate (rq_libs R) tenant tasks (rq_now R (2 * k + 1)) (rq_ulid R k)
       (map (\<lambda>r. timer_id_str (pa_timer_id r)) (bt_values (psm_active_runs st0))) s = Some run"
    "st = apply_claim_run (TimerId (wr_timer run)) (RunId (wr_run_id run)) worker (wr_fencing_token run)
       (wr_attempt run) deadline st0"
    using try_claimD [OF assms(3)] assms(2) by (metis write_outcome.inject(1) apply_commands.simps(1) sum.inject(2))
  note cand = claim_candidateD [OF c(2)]
  have free: "\<not> list_ex (\<lambda>r. pa_timer_id r = TimerId (wr_timer run)) (bt_values (psm_active_runs st0))"
    using cand(1,4) by (force simp: list_ex_iff)
  then show "\<exists>a. bt_get (psm_active_runs st) (wr_run_id run) = Some a \<and> pa_timer_id a = TimerId (wr_timer run)
      \<and> pa_worker_id a = worker \<and> pa_fencing_token a = wr_fencing_token run"
    by (simp add: c(3) apply_claim_run_def Let_def)
  have "timer_tenant st (wr_timer run) = timer_tenant st0 (wr_timer run)"
    using free by (cases "bt_get (psm_timers st0) (wr_timer run)")
      (simp_all add: c(3) apply_claim_run_def Let_def timer_tenant_def)
  then show "tenant_matches tenant (timer_tenant st (wr_timer run))"
    using app_timer_in [OF committedD(2) [OF assms(1)] c(1)] cand(1,3) by (auto simp: timer_tenant_def)
qed

text \<open>The handlers of the outcomes, on a leader whose writes are committed at once.\<close>

lemma outcome_handled:
  assumes "bt_get (psm_active_runs st) (wr_run_id run) = Some a" "pa_timer_id a = TimerId (wr_timer run)"
    and "pa_worker_id a = worker" "pa_fencing_token a = wr_fencing_token run"
    and "tenant_matches tenant (timer_tenant st (wr_timer run))"
    and "rv_linearizable (rq_view R)" "rq_write R 0 = Committed []"
      "next_run_in_range (rq_libs R) (wr_timer run) (rq_now R 0) st"
  shows "\<exists>st'. complete_run N R (wr_run_id run) \<lparr>rc_worker_id = worker, rc_fencing_token = wr_fencing_token run\<rparr> tenant st
        = (Inr ok_json, st') \<and> run_reported run worker True st st'"
    and "\<exists>st'. fail_run N R (wr_run_id run)
          \<lparr>rf_worker_id = worker, rf_fencing_token = wr_fencing_token run, rf_error = err\<rparr> tenant st
        = (Inr ok_json, st') \<and> run_reported run worker False st st'"
proof -
  have valid: "validate_active_run (wr_run_id run) worker (wr_fencing_token run) tenant st = Inr ()"
    using assms(1-5)
    by (cases "bt_get (psm_timers st) (wr_timer run)")
      (simp_all add: validate_active_run_def app_state_get timer_tenant_def)
  have leader: "ensure_leader N R st = Inr ()" using assms(6) by (simp add: ensure_leader_def)
  note report = report_applied [OF assms(8,1-4)]
  show "\<exists>st'. complete_run N R (wr_run_id run) \<lparr>rc_worker_id = worker, rc_fencing_token = wr_fencing_token run\<rparr> tenant st
      = (Inr ok_json, st') \<and> run_reported run worker True st st'"
    using valid leader report(1) assms(7) by (auto simp: complete_run_def write_command_def)
  show "\<exists>st'. fail_run N R (wr_run_id run)
        \<lparr>rf_worker_id = worker, rf_fencing_token = wr_fencing_token run, rf_error = err\<rparr> tenant st
      = (Inr ok_json, st') \<and> run_reported run worker False st st'"
    using valid leader report(2) assms(7) by (auto simp: fail_run_def write_command_def)
qed

text \<open>Every request can be recorded.\<close>

definition audit_works :: "audit_env \<Rightarrow> bool" where
  "audit_works U \<longleftrightarrow> au_io U = IoOk \<and> (\<forall>r. \<exists>line. encode (au_codec U) r = Inr line)"

lemma api_accepts:
  assumes "audit_works U" "authenticate E = Inr auth" "allows (ac_role auth) (api_role q)"
    and "api_handler N R q auth s = (Inr v, s')"
  shows "\<exists>al'. handle_api T E U N R q (s, al) = (Inr \<lparr>hr_status = 200, hr_body = v\<rparr>, s', al')"
proof -
  obtain line where "encode (au_codec U) (audit_entry U (Some auth) (api_action q) ''ok'' 200 None (al_state al)) = Inr line"
    using assms(1) unfolding audit_works_def by blast
  then show ?thesis using assms by (simp add: handle_api_def authed_def audited_def audit_def audit_works_def Let_def)
qed

lemma run_requests:
  assumes "captures_segments A" "plain_word s"
  shows "hj_complete (ax_json A) body = Inr qs \<Longrightarrow>
      public_router A ''POST'' (''/v1/runs/'' @ s @ ''/succeed'') body = Inr (ApiSucceedRun s qs)"
    "hj_fail (ax_json A) body = Inr qf \<Longrightarrow>
      public_router A ''POST'' (''/v1/runs/'' @ s @ ''/fail'') body = Inr (ApiFailRun s qf)"
proof -
  have "target_path (''/v1/runs/'' @ s @ t) = ''/v1/runs/'' @ s @ t" if "CHR ''?'' \<notin> set t" "CHR ''#'' \<notin> set t" for t
    using target_path_plain [of "''/v1/runs/'' @ s @ t" "[]"] assms(2) that by (simp add: plain_word_def)
  then have paths: "target_path (''/v1/runs/'' @ s @ ''/succeed'') = ''/v1/runs/'' @ s @ ''/succeed''"
    "target_path (''/v1/runs/'' @ s @ ''/fail'') = ''/v1/runs/'' @ s @ ''/fail''" by simp_all
  note found = matching_named [OF assms]
  show "hj_complete (ax_json A) body = Inr qs \<Longrightarrow>
      public_router A ''POST'' (''/v1/runs/'' @ s @ ''/succeed'') body = Inr (ApiSucceedRun s qs)"
    by (rule router_finds [OF trans [OF arg_cong [where f = "matching A", OF paths(1)] found(3)]])
       (simp, simp add: extract_json_def)
  show "hj_fail (ax_json A) body = Inr qf \<Longrightarrow>
      public_router A ''POST'' (''/v1/runs/'' @ s @ ''/fail'') body = Inr (ApiFailRun s qf)"
    by (rule router_finds [OF trans [OF arg_cong [where f = "matching A", OF paths(2)] found(4)]])
       (simp, simp add: extract_json_def)
qed

lemma outcome_served:
  assumes "captures_segments A" "plain_word (wr_run_id run)" "audit_works U"
    and "authenticate E = Inr auth" "allows (ac_role auth) Worker"
    and "case result of
           Inr _ \<Rightarrow> hj_complete (ax_json A) body = Inr \<lparr>rc_worker_id = worker, rc_fencing_token = wr_fencing_token run\<rparr>
         | Inl err \<Rightarrow> hj_fail (ax_json A) body = Inr \<lparr>rf_worker_id = worker, rf_fencing_token = wr_fencing_token run, rf_error = err\<rparr>"
    and active: "bt_get (psm_active_runs st) (wr_run_id run) = Some a" "pa_timer_id a = TimerId (wr_timer run)"
      "pa_worker_id a = worker" "pa_fencing_token a = wr_fencing_token run"
      "tenant_matches (ac_tenant_id auth) (timer_tenant st (wr_timer run))"
    and healthy: "rv_linearizable (rq_view R)" "rq_write R 0 = Committed []"
      "next_run_in_range (rq_libs R) (wr_timer run) (rq_now R 0) st"
  shows "\<exists>st' al'. serve_public A T E U N R ''POST''
      (''/v1/runs/'' @ wr_run_id run @ (case result of Inr _ \<Rightarrow> ''/succeed'' | Inl _ \<Rightarrow> ''/fail'')) body ((st, flag), al)
      = (Inr \<lparr>hr_status = 200, hr_body = ok_json\<rparr>, (st', flag), al') \<and> run_reported run worker (\<not> isl result) st st'"
proof (cases result)
  case (Inr u)
  obtain st' where st': "complete_run N R (wr_run_id run) \<lparr>rc_worker_id = worker, rc_fencing_token = wr_fencing_token run\<rparr>
      (ac_tenant_id auth) st = (Inr ok_json, st')" "run_reported run worker True st st'"
    using outcome_handled(1) [OF active healthy] by blast
  let ?q = "ApiSucceedRun (wr_run_id run) \<lparr>rc_worker_id = worker, rc_fencing_token = wr_fencing_token run\<rparr>"
  have "api_handler N R ?q auth (st, flag) = (Inr ok_json, st', flag)" using st'(1) by (simp add: as_json_def)
  from api_accepts [OF assms(3,4) _ this, of T al] show ?thesis
    using Inr assms(5,6) st'(2) run_requests(1) [OF assms(1,2), of body] by (auto simp: serve_public_def)
next
  case (Inl err)
  let ?r = "\<lparr>rf_worker_id = worker, rf_fencing_token = wr_fencing_token run, rf_error = err\<rparr>"
  obtain st' where st': "fail_run N R (wr_run_id run) ?r (ac_tenant_id auth) st = (Inr ok_json, st')"
    "run_reported run worker False st st'"
    using outcome_handled(2) [OF active healthy] by blast
  have "api_handler N R (ApiFailRun (wr_run_id run) ?r) auth (st, flag) = (Inr ok_json, st', flag)"
    using st'(1) by (simp add: as_json_def)
  from api_accepts [OF assms(3,4) _ this, of T al] show ?thesis
    using Inl assms(5,6) st'(2) run_requests(2) [OF assms(1,2), of body] by (auto simp: serve_public_def)
qed

text \<open>What the client makes of the answer of a node.\<close>

definition node_reply :: "http_response res \<Rightarrow> py_error + json" where
  "node_reply r =
     (case r of
        Inr response \<Rightarrow> if is_success (hr_status response) then Inr (hr_body response)
                        else Inl (PyRuntimeError (error_message_of ''HTTP request failed'' (hr_body response)))
      | Inl _ \<Rightarrow> Inl (PyRuntimeError ''connection closed''))"

text \<open>C22: what a worker was given, it reports, and the cluster takes it.  A poll of the leader gives
  a run to a worker of the Python module.  If its token may work for the tenant of the poll, the
  task is known to the worker, and the requests arrive at the leader, then the worker calls the
  function of the task and sends exactly one request.  If the leader commits at once and the next run
  of that timer can be computed at that moment, the node routes the request to the outcome of that
  run, authenticates and records it, and answers with success; the run is no longer active, and
  the replicated history ends with the success or the failure of the function under the fencing
  token of the claim.\<close>

theorem raft_outcome_accepted:
  assumes "committed (rq_libs R0) cs st0" "rq_write R0 (k0 + 1) = Committed []"
    and "try_claim R0 k0 (wk_id w) tasks (ac_tenant_id auth) st0 = (Inr (Some run), st)"
    and "run_fields run v" "map_of (wk_tasks w) (wr_task run) = Some f" "plain_word (wr_run_id run)"
    and "captures_segments A" "audit_works U" "authenticate E = Inr auth" "allows (ac_role auth) Worker"
    and "case f (wr_payload run) of
           Inr _ \<Rightarrow> hj_complete (ax_json A) body = Inr \<lparr>rc_worker_id = wk_id w, rc_fencing_token = wr_fencing_token run\<rparr>
         | Inl err \<Rightarrow> hj_fail (ax_json A) body
             = Inr \<lparr>rf_worker_id = wk_id w, rf_fencing_token = wr_fencing_token run, rf_error = err\<rparr>"
    and "rv_linearizable (rq_view R)" "rq_write R 0 = Committed []"
      "next_run_in_range (rq_libs R) (wr_timer run) (rq_now R 0) st"
    and "\<forall>path. send k ''POST'' path (outcome_body w (wr_fencing_token run) (f (wr_payload run))) (wk_server w)
      = (node_reply (fst (serve_public A T E U N R ''POST'' path body ((st, flag), al))), wk_server w)"
  shows "\<exists>path st' al'.
      execute_run send k v w = (Inr (), w, [(''POST'', path, outcome_body w (wr_fencing_token run) (f (wr_payload run)))])
    \<and> serve_public A T E U N R ''POST'' path body ((st, flag), al)
        = (Inr \<lparr>hr_status = 200, hr_body = ok_json\<rparr>, (st', flag), al')
    \<and> run_reported run (wk_id w) (\<not> isl (f (wr_payload run))) st st'"
proof -
  let ?r = "f (wr_payload run)"
  let ?path = "''/v1/runs/'' @ wr_run_id run @ (case ?r of Inr _ \<Rightarrow> ''/succeed'' | Inl _ \<Rightarrow> ''/fail'')"
  obtain a where a: "bt_get (psm_active_runs st) (wr_run_id run) = Some a" "pa_timer_id a = TimerId (wr_timer run)"
    "pa_worker_id a = wk_id w" "pa_fencing_token a = wr_fencing_token run"
    using fresh_claim(1) [OF assms(1-3)] by blast
  obtain st' al' where served: "serve_public A T E U N R ''POST'' ?path body ((st, flag), al)
      = (Inr \<lparr>hr_status = 200, hr_body = ok_json\<rparr>, (st', flag), al')" "run_reported run (wk_id w) (\<not> isl ?r) st st'"
    using outcome_served [OF assms(7,6,8-11) a fresh_claim(2) [OF assms(1-3)] assms(12-14)] by blast
  have "execute_run send k v w = (Inr (), w, [(''POST'', ?path, outcome_body w (wr_fencing_token run) ?r)])"
    using assms(4,5) assms(15) [rule_format, of ?path] served(1)
    by (auto simp: execute_run_def run_fields_def unwrap_or_def Let_def node_reply_def is_success_def split: sum.split)
  with served show ?thesis by blast
qed

section \<open>A client finds the leader\<close>

text \<open>A node with what it answers requests from: the texts of errors, its tokens, its audit log, its
  configuration, its view of the cluster and its state.\<close>

record api_node =
  an_text :: error_text
  an_auth :: auth_env
  an_audit :: audit_env
  an_conf :: node_conf
  an_env :: request_env
  an_state :: "node_state \<times> audit_log"

definition node_serves :: "axum \<Rightarrow> api_node \<Rightarrow> string \<Rightarrow> string \<Rightarrow> string \<Rightarrow> http_response res \<times> node_state \<times> audit_log" where
  "node_serves A n mtd target txt =
     serve_public A (an_text n) (an_auth n) (an_audit n) (an_conf n) (an_env n) mtd target txt (an_state n)"

text \<open>The status and the value that the answer of a node carries to a client.\<close>

definition received :: "http_response res \<Rightarrow> string + u16 \<times> json" where
  "received r = (case r of Inr response \<Rightarrow> Inr (hr_status response, hr_body response) | Inl _ \<Rightarrow> Inl ''invalid HTTP response'')"

text \<open>The requests whose handlers ask for the leader; the other handlers answer from the state of the
  node itself.\<close>

fun leader_only :: "api_request \<Rightarrow> bool" where
  "leader_only ApiListTimers \<longleftrightarrow> False"
| "leader_only (ApiStatusTimer _) \<longleftrightarrow> False"
| "leader_only (ApiHistoryTimer _) \<longleftrightarrow> False"
| "leader_only ApiClusterStatus \<longleftrightarrow> False"
| "leader_only ApiShutdown \<longleftrightarrow> False"
| "leader_only _ \<longleftrightarrow> True"

text \<open>The caller may make the request, and the node can record it.\<close>

definition admits :: "api_node \<Rightarrow> api_request \<Rightarrow> bool" where
  "admits n q \<longleftrightarrow> audit_works (an_audit n)
     \<and> (case authenticate (an_auth n) of Inl _ \<Rightarrow> False | Inr auth \<Rightarrow> allows (ac_role auth) (api_role q))"

text \<open>A node that is not the leader and knows the address of the leader.\<close>

definition follows :: "api_node \<Rightarrow> string \<Rightarrow> bool" where
  "follows n leader \<longleftrightarrow>
     \<not> rv_linearizable (rq_view (an_env n))
     \<and> (case rv_leader (rq_view (an_env n)) of
          None \<Rightarrow> False
        | Some i \<Rightarrow> i \<noteq> nc_node_id (an_conf n)
            \<and> map_option ni_http_addr (List.find (\<lambda>node. parse_node_id (ni_node_id node) = i)
                (bt_values (app_nodes (app_state (fst (fst (an_state n))))))) = Some leader)"

text \<open>What the code relies on in the texts of errors: the message of the error variant as error.rs
  declares it, and that the JSON library prints an object with a brace first and reads back what
  it has printed.\<close>

definition prints_not_leader :: "api_node \<Rightarrow> bool" where
  "prints_not_leader n \<longleftrightarrow>
     (let v = not_leader_response (an_conf n) (rq_view (an_env n)) (fst (fst (an_state n))); printed = rq_text (an_env n) v
      in et_show (an_text n) (IpcUnavailable printed) = ''IPC unavailable: '' @ printed
         \<and> printed \<noteq> [] \<and> hd printed = CHR ''{'' \<and> et_parse (an_text n) printed = Inr v)"

lemma follower_handler:
  "leader_only q \<Longrightarrow> \<not> rv_linearizable (rq_view R) \<Longrightarrow>
     api_handler N R q auth (st, flag) = (Inl (Err (IpcUnavailable (rq_text R (not_leader_response N (rq_view R) st)))), st, flag)"
  by (cases q) (simp_all add: create_timer_def register_worker_def heartbeat_worker_def poll_worker_def complete_run_def
      fail_run_def join_def leave_def ensure_leader_def as_json_def)

lemma reader_handler:
  "\<not> leader_only q \<Longrightarrow> \<exists>v flag'. api_handler N R q auth (st, flag) = (Inr v, st, flag')"
  by (cases q) auto

lemma error_value_json:
  assumes "et_show T err = pre @ printed" "CHR ''{'' \<notin> set pre" "printed \<noteq> []" "hd printed = CHR ''{''"
    and "et_parse T printed = Inr v"
  shows "error_value T err = v"
proof -
  have "dropWhile (\<lambda>c. c \<noteq> CHR ''{'') (pre @ printed) = dropWhile (\<lambda>c. c \<noteq> CHR ''{'') printed"
    using assms(2) by (intro dropWhile_append2) auto
  also have "\<dots> = printed" using assms(3,4) by (cases printed) simp_all
  finally show ?thesis using assms(1,3,5) by (simp add: error_value_def Let_def del: dropWhile_eq_Nil_conv)
qed

lemma error_value_not_leader:
  assumes "prints_not_leader n"
  shows "error_value (an_text n) (IpcUnavailable (rq_text (an_env n)
      (not_leader_response (an_conf n) (rq_view (an_env n)) (fst (fst (an_state n))))))
    = not_leader_response (an_conf n) (rq_view (an_env n)) (fst (fst (an_state n)))"
  using assms unfolding prints_not_leader_def Let_def
  by (elim conjE) (rule error_value_json [where pre = "''IPC unavailable: ''"], assumption, simp)

text \<open>The answer of a follower to a request for the leader, and the answer of any node to the others.\<close>

lemma follower_serves:
  assumes "public_router A mtd target txt = Inr q" "leader_only q" "admits n q" "follows n leader" "prints_not_leader n"
  shows "\<exists>al. node_serves A n mtd target txt = (Inr \<lparr>hr_status = 409,
      hr_body = not_leader_response (an_conf n) (rq_view (an_env n)) (fst (fst (an_state n)))\<rparr>, fst (an_state n), al)"
proof -
  let ?v = "not_leader_response (an_conf n) (rq_view (an_env n)) (fst (fst (an_state n)))"
  obtain st flag al where s: "an_state n = ((st, flag), al)" by (metis prod.exhaust)
  obtain auth where auth: "authenticate (an_auth n) = Inr auth" "allows (ac_role auth) (api_role q)"
    using assms(3) by (auto simp: admits_def split: sum.splits)
  have "error_status ?v = 409" by (simp add: error_status_def not_leader_response_def str_field_def Let_def)
  moreover obtain line where "encode (au_codec (an_audit n))
      (audit_entry (an_audit n) (Some auth) (api_action q) ''error'' 409 (str_field ?v ''error'') (al_state al)) = Inr line"
    using assms(3) unfolding admits_def audit_works_def by blast
  ultimately show ?thesis
    using follower_handler [OF assms(2), of "an_env n" "an_conf n" auth st flag] error_value_not_leader [OF assms(5)]
      assms(1,3,4) auth
    by (simp add: node_serves_def serve_public_def handle_api_def authed_def audited_def audit_def s follows_def admits_def
        audit_works_def Let_def)
qed

lemma reader_serves:
  assumes "public_router A mtd target txt = Inr q" "\<not> leader_only q" "admits n q"
  shows "\<exists>v flag al. node_serves A n mtd target txt = (Inr \<lparr>hr_status = 200, hr_body = v\<rparr>, (fst (fst (an_state n)), flag), al)
    \<and> (\<exists>auth. authenticate (an_auth n) = Inr auth
          \<and> fst (api_handler (an_conf n) (an_env n) q auth (fst (an_state n))) = Inr v)"
proof -
  obtain st flag al where s: "an_state n = ((st, flag), al)" by (metis prod.exhaust)
  obtain auth where auth: "authenticate (an_auth n) = Inr auth" "allows (ac_role auth) (api_role q)" "audit_works (an_audit n)"
    using assms(3) by (auto simp: admits_def split: sum.splits)
  obtain v flag' where v: "api_handler (an_conf n) (an_env n) q auth (st, flag) = (Inr v, st, flag')"
    using reader_handler [OF assms(2)] by blast
  from api_accepts [OF auth(3,1,2) v] v auth(1) assms(1) show ?thesis
    by (fastforce simp: node_serves_def serve_public_def s)
qed

lemma not_leader_redirects:
  assumes "follows n leader" "trim leader \<noteq> []"
  shows "redirect_target (not_leader_response (an_conf n) (rq_view (an_env n)) (fst (fst (an_state n))))
    = Some (normalize_endpoint leader)"
  using assms
  by (auto simp: follows_def not_leader_response_def redirect_target_def str_field_def opt_string_def Let_def
      split: option.splits)

text \<open>C34: the command line and the leader.  The file \<open>kron.http\<close> names some node of the cluster, and the
  exchange with a node delivers what the node answers to the request.  For a request whose handler
  asks for the leader (\<open>create\<close>, the requests of workers, \<open>join\<close> and \<open>leave\<close>): if the named node is a
  follower that knows the leader, it answers with status 409 and the address of the leader and
  changes nothing, the client sends the request again to the leader, returns the answer of the
  leader, and the file names the leader from then on.  For the other requests (lists, status,
  histories, the status of the cluster and the shutdown) the client returns what the named node
  answers from its own state, leader or not, and the file stays as it is.\<close>

theorem cli_finds_leader:
  assumes "public_router A mtd target txt = Inr q" "admits contacted q"
    and "request_once X 0 (trim content) (trim token) mtd target body = received (fst (node_serves A contacted mtd target txt))"
  shows "(leader_only q \<and> follows contacted address \<and> prints_not_leader contacted
      \<and> list_all graphic address \<and> normalize_endpoint address \<noteq> []
      \<and> normalize_endpoint (trim content) \<noteq> normalize_endpoint address
      \<and> (\<forall>k. request_once X k address (trim token) mtd target body = received (fst (node_serves A leader mtd target txt)))
      \<and> fst (node_serves A leader mtd target txt) = Inr \<lparr>hr_status = 200, hr_body = answer\<rparr> \<longrightarrow>
        fst (snd (node_serves A contacted mtd target txt)) = fst (an_state contacted)
        \<and> (\<exists>content'. server_request X False (Inr token) mtd target body (Some content) = (Inr answer, Some content')
             \<and> normalize_endpoint (trim content') = normalize_endpoint address))
    \<and> (\<not> leader_only q \<longrightarrow>
        (\<exists>v auth. authenticate (an_auth contacted) = Inr auth
           \<and> fst (api_handler (an_conf contacted) (an_env contacted) q auth (fst (an_state contacted))) = Inr v
           \<and> server_request X fails (Inr token) mtd target body (Some content) = (Inr v, Some content)))"
proof (intro conjI impI)
  assume L: "leader_only q \<and> follows contacted address \<and> prints_not_leader contacted
      \<and> list_all graphic address \<and> normalize_endpoint address \<noteq> []
      \<and> normalize_endpoint (trim content) \<noteq> normalize_endpoint address
      \<and> (\<forall>k. request_once X k address (trim token) mtd target body = received (fst (node_serves A leader mtd target txt)))
      \<and> fst (node_serves A leader mtd target txt) = Inr \<lparr>hr_status = 200, hr_body = answer\<rparr>"
  then have addr: "list_all graphic address" "normalize_endpoint address \<noteq> []" by simp_all
  have "trim address \<noteq> []"
    using addr by (auto simp: normalize_endpoint_def strip_prefixes.simps trim_end_char_def)
  then have redirect: "redirect_target (not_leader_response (an_conf contacted) (rq_view (an_env contacted))
      (fst (fst (an_state contacted)))) = Some (normalize_endpoint address)"
    using L not_leader_redirects by blast
  obtain al where served: "node_serves A contacted mtd target txt = (Inr \<lparr>hr_status = 409,
      hr_body = not_leader_response (an_conf contacted) (rq_view (an_env contacted)) (fst (fst (an_state contacted)))\<rparr>,
      fst (an_state contacted), al)"
    using follower_serves [OF assms(1) _ assms(2)] L by blast
  then show "fst (snd (node_serves A contacted mtd target txt)) = fst (an_state contacted)" by simp
  have first: "\<exists>code v. request_once X 0 (trim content) (trim token) mtd target body = Inr (code, v) \<and> \<not> is_success code
      \<and> redirect_target v = Some (normalize_endpoint address)"
    using assms(3) redirect by (simp add: served received_def is_success_def)
  have ok: "\<And>k. request_once X k address (trim token) mtd target body = Inr (200, answer)" "is_success 200"
    using L by (simp_all add: received_def is_success_def)
  show "\<exists>content'. server_request X False (Inr token) mtd target body (Some content) = (Inr answer, Some content')
      \<and> normalize_endpoint (trim content') = normalize_endpoint address"
    by (rule request_redirected [OF addr first ok])
next
  assume "\<not> leader_only q"
  from reader_serves [OF assms(1) this assms(2)] obtain v flag al auth
    where v: "node_serves A contacted mtd target txt = (Inr \<lparr>hr_status = 200, hr_body = v\<rparr>, (fst (fst (an_state contacted)), flag), al)"
      "authenticate (an_auth contacted) = Inr auth"
      "fst (api_handler (an_conf contacted) (an_env contacted) q auth (fst (an_state contacted))) = Inr v"
    by blast
  have "request_once X 0 (trim content) (trim token) mtd target body = Inr (200, v)" "is_success 200"
    using assms(3) by (simp_all add: v(1) received_def is_success_def)
  from request_at_leader [OF refl this] v(2,3)
  show "\<exists>v auth. authenticate (an_auth contacted) = Inr auth
      \<and> fst (api_handler (an_conf contacted) (an_env contacted) q auth (fst (an_state contacted))) = Inr v
      \<and> server_request X fails (Inr token) mtd target body (Some content) = (Inr v, Some content)" by blast
qed

section \<open>A claim read before another worker's run\<close>

lemma claim_history:
  assumes "\<not> list_ex (\<lambda>r. pa_timer_id r = tid) (bt_values (psm_active_runs st))"
  shows "\<exists>tenant. psm_history (apply_claim_run tid rid worker token attempt deadline st)
      = psm_history st @ [run_entry ''RUN_CLAIMED'' (timer_id_str tid) tenant (run_id_str rid) worker [] token]"
    and "psm_active_runs (apply_claim_run tid rid worker token attempt deadline st)
      = bt_insert (run_id_str rid) \<lparr>pa_timer_id = tid, pa_run_id = rid, pa_worker_id = worker,
          pa_fencing_token = token, pa_attempt = attempt, pa_lease_deadline = deadline\<rparr> (psm_active_runs st)"
  using assms by (auto simp: apply_claim_run_def Let_def)

lemma complete_history:
  assumes "owned_run rid worker token st = Some active" "apply_complete_run L rid worker token now st = Inr st'"
  shows "\<exists>tenant. psm_history st' = psm_history st @ [run_entry ''RUN_SUCCEEDED'' (timer_id_str (pa_timer_id active))
        tenant (run_id_str rid) worker [] (pa_fencing_token active)]"
    and "psm_active_runs st' = bt_remove (run_id_str rid) (psm_active_runs st)"
  using assms by (auto simp: apply_complete_run_def Let_def split: sum.splits dest!: reschedule_runs)

lemma no_run_after_insert_remove:
  "\<not> list_ex P (bt_values m) \<Longrightarrow> \<not> list_ex P (bt_values (bt_remove k (bt_insert k v m)))"
  using set_bt_insert [of k v m]
  by (fastforce simp: list_ex_iff bt_values_def bt_remove_def bt_retain_def)

text \<open>C23: one occurrence can run twice under one fencing token.  A poll chooses a due timer from
  the state it reads and then proposes the claim.  If another worker, which read the same
  state, gets its claim of the same timer committed in between and completes the run, the claim
  still succeeds: the poll returns the run, and the history shows one run of the timer claimed and
  succeeded, and then this one claimed, under the same fencing token.\<close>

theorem stale_claim_repeats_run:
  assumes "find_map (claim_candidate (rq_libs R) tenant tasks (rq_now R (2 * k + 1)) (rq_ulid R k)
      (map (\<lambda>r. timer_id_str (pa_timer_id r)) (bt_values (psm_active_runs st))))
      (bt_values (app_timers (app_state st))) = Some run"
    and "plus_seconds (rq_libs R) (rq_now R (2 * k + 2)) (worker_lease_seconds (rq_lease_var R)) = Inr deadline"
    and "rq_write R (k + 1) = Committed
      [ClaimRun (TimerId (wr_timer run)) rid' worker' (wr_fencing_token run) attempt' deadline',
       CompleteRun rid' worker' (wr_fencing_token run) finished]"
    and "apply_commands (rq_libs R)
      [ClaimRun (TimerId (wr_timer run)) rid' worker' (wr_fencing_token run) attempt' deadline',
       CompleteRun rid' worker' (wr_fencing_token run) finished] st = Inr st1"
  shows "\<exists>st' t1 t2 t3. try_claim R k worker tasks tenant st = (Inr (Some run), st')
    \<and> psm_history st' = psm_history st @
        [run_entry ''RUN_CLAIMED'' (wr_timer run) t1 (run_id_str rid') worker' [] (wr_fencing_token run),
         run_entry ''RUN_SUCCEEDED'' (wr_timer run) t2 (run_id_str rid') worker' [] (wr_fencing_token run),
         run_entry ''RUN_CLAIMED'' (wr_timer run) t3 (wr_run_id run) worker [] (wr_fencing_token run)]"
proof -
  let ?tid = "TimerId (wr_timer run)" and ?m = "psm_active_runs st" and ?tok = "wr_fencing_token run"
  let ?P = "\<lambda>r. pa_timer_id r = TimerId (wr_timer run)"
  obtain s where "claim_candidate (rq_libs R) tenant tasks (rq_now R (2 * k + 1)) (rq_ulid R k)
      (map (\<lambda>r. timer_id_str (pa_timer_id r)) (bt_values ?m)) s = Some run"
    using find_mapD [OF assms(1)] by blast
  note cand = claim_candidateD [OF this]
  have free: "\<not> list_ex ?P (bt_values ?m)" using cand(1,4) by (force simp: list_ex_iff)
  define sta where "sta = apply_claim_run ?tid rid' worker' ?tok attempt' deadline' st"
  note a = claim_history [OF free, of rid' worker' ?tok attempt' deadline', folded sta_def]
  have own: "owned_run rid' worker' ?tok sta = Some \<lparr>pa_timer_id = ?tid, pa_run_id = rid', pa_worker_id = worker',
      pa_fencing_token = ?tok, pa_attempt = attempt', pa_lease_deadline = deadline'\<rparr>"
    by (simp add: owned_run_def a(2))
  have "apply_complete_run (rq_libs R) rid' worker' ?tok finished sta = Inr st1"
    using assms(4) by (simp add: sta_def split: sum.splits)
  note b = complete_history [OF own this]
  have free1: "\<not> list_ex ?P (bt_values (psm_active_runs st1))"
    unfolding b(2) a(2) by (rule no_run_after_insert_remove [OF free])
  note c = claim_history [OF free1, of "RunId (wr_run_id run)" worker ?tok "wr_attempt run" deadline]
  let ?st = "apply_claim_run ?tid (RunId (wr_run_id run)) worker ?tok (wr_attempt run) deadline st1"
  have "write_command R (k + 1) (ClaimRun ?tid (RunId (wr_run_id run)) worker ?tok (wr_attempt run) deadline) st
      = (Inr (), ?st)"
    unfolding write_command_def assms(3) write_outcome.case apply_commands_append assms(4) by simp
  then have "try_claim R k worker tasks tenant st = (Inr (Some run), ?st)"
    using assms(1,2) c(2) by (simp add: try_claim_def app_state_get Let_def)
  then show ?thesis using a(1) b(1) c(1) by auto
qed

section \<open>Witnesses\<close>

text \<open>A framework that matches segments and reads every body as the failure of the sample run.\<close>

definition sample_axum :: axum where
  "sample_axum = \<lparr>ax_capture = segment_capture, ax_json = (he_json sample_http_env)\<lparr>hj_fail :=
     (\<lambda>_. Inr \<lparr>rf_worker_id = ''w1'', rf_fencing_token = 1, rf_error = ''no server''\<rparr>)\<rparr>\<rparr>"

lemma sample_axum_captures: "captures_segments sample_axum"
  by (simp add: captures_segments_def sample_axum_def)


definition sample_polled :: json where
  "sample_polled = Object [(''task'', String ''mail''), (''run_id'', String (wr_run_id sample_run)),
     (''fencing_token'', json_u64 1), (''payload'', Null)]"

definition reply_of :: "state_machine \<Rightarrow> string \<Rightarrow> http_response res \<times> node_state \<times> audit_log" where
  "reply_of st path = serve_public sample_axum sample_error_text sample_auth_env sample_audit_env sample_node sample_request_env
     ''POST'' path [] ((st, False), empty_audit)"

lemma sample_report_env:
  "rv_linearizable (rq_view sample_request_env)" "rq_write sample_request_env 0 = Committed []"
  "audit_works sample_audit_env" "allows Admin Worker" "tenant_matches None t"
  by (simp_all add: sample_request_env_def audit_works_def sample_audit_env_def
      number_encode allows_def tenant_matches_def)

lemma sample_claimed_by_admin:
  "\<exists>st. try_claim sample_request_env 0 ''w1'' [''mail''] None sample_created = (Inr (Some sample_run), st)
     \<and> next_run_in_range (rq_libs sample_request_env) (wr_timer sample_run) (rq_now sample_request_env 0) st"
  by (simp add: try_claim_def sample_runtime_defs sample_dspec_def apply_create_timer_def default_state_machine_def
      set_next_run_def push_history_def app_state_def bt_values_def claim_candidate_def tenant_matches_def
      write_command_def apply_claim_run_def plus_seconds_def minute_libs_def worker_lease_seconds_def Let_def
      bt_get_def next_run_in_range_def next_run_after_def bt_modify_def set_state_def)

theorem raft_outcome_accepted_witness:
  "\<exists>send st path body st' al'. try_claim sample_request_env 0 ''w1'' [''mail''] None sample_created = (Inr (Some sample_run), st)
    \<and> execute_run send 2 sample_polled mail_worker = (Inr (), mail_worker, [(''POST'', path, body)])
    \<and> reply_of st path = (Inr \<lparr>hr_status = 200, hr_body = ok_json\<rparr>, (st', False), al')
    \<and> run_reported sample_run ''w1'' False st st'"
proof -
  obtain st where claim: "try_claim sample_request_env 0 (wk_id mail_worker) [''mail'']
      (ac_tenant_id \<lparr>ac_actor = ''legacy-admin-token'', ac_role = Admin, ac_tenant_id = None\<rparr>) sample_created
      = (Inr (Some sample_run), st)"
    and in_range: "next_run_in_range (rq_libs sample_request_env) (wr_timer sample_run) (rq_now sample_request_env 0) st"
    using sample_claimed_by_admin by (auto simp: mail_worker_fields)
  let ?send = "\<lambda>(k::nat) (mtd::string) path (body::json) server. (node_reply (fst (reply_of st path)), server)"
  have com: "rq_write sample_request_env (0 + 1) = Committed []" by (simp add: sample_env)
  have run: "run_fields sample_run sample_polled" "map_of (wk_tasks mail_worker) (wr_task sample_run) = Some (\<lambda>_. Inl ''no server'')"
    "plain_word (wr_run_id sample_run)"
    by (simp_all add: run_fields_def sample_run_def sample_polled_def str_field_def mail_worker_fields plain_word_def
        new_run_id_def)
  have json: "case (\<lambda>_. Inl ''no server'') (wr_payload sample_run) of
      Inr _ \<Rightarrow> hj_complete (ax_json sample_axum) [] = Inr \<lparr>rc_worker_id = wk_id mail_worker, rc_fencing_token = wr_fencing_token sample_run\<rparr>
    | Inl err \<Rightarrow> hj_fail (ax_json sample_axum) []
        = Inr \<lparr>rf_worker_id = wk_id mail_worker, rf_fencing_token = wr_fencing_token sample_run, rf_error = err\<rparr>"
    by (simp add: sample_axum_def mail_worker_fields sample_run_def)
  have role: "allows (ac_role \<lparr>ac_actor = ''legacy-admin-token'', ac_role = Admin, ac_tenant_id = None\<rparr>) Worker"
    by (simp add: sample_report_env)
  have sends: "\<forall>path. ?send 2 ''POST'' path (outcome_body mail_worker (wr_fencing_token sample_run) ((\<lambda>_. Inl ''no server'') (wr_payload sample_run)))
      (wk_server mail_worker) = (node_reply (fst (serve_public sample_axum sample_error_text sample_auth_env sample_audit_env
        sample_node sample_request_env ''POST'' path [] ((st, False), empty_audit))), wk_server mail_worker)"
    by (simp add: reply_of_def)
  from raft_outcome_accepted [where send = ?send and k = 2 and f = "\<lambda>_. Inl ''no server''" and body = "[]" and flag = False
      and al = empty_audit and k0 = 0, OF sample_committed_env com claim run sample_axum_captures sample_report_env(3)
      sample_authenticated role json sample_report_env(1,2) in_range sends] claim
  show ?thesis unfolding reply_of_def [symmetric]
    by (intro exI [of _ ?send] exI [of _ st]) (auto simp: mail_worker_fields)
qed

theorem stale_claim_repeats_run_witness:
  "\<exists>st' t1 t2 t3. try_claim (sample_request_env\<lparr>rq_write := \<lambda>_. Committed
        [ClaimRun (TimerId ''digest'') (RunId ''r9'') ''w9'' 1 1 91000000000, CompleteRun (RunId ''r9'') ''w9'' 1 62000000000]\<rparr>)
        0 ''w1'' [''mail''] (Some ''acme'') sample_created = (Inr (Some sample_run), st')
    \<and> psm_history st' = psm_history sample_created @ [run_entry ''RUN_CLAIMED'' ''digest'' t1 ''r9'' ''w9'' [] 1,
        run_entry ''RUN_SUCCEEDED'' ''digest'' t2 ''r9'' ''w9'' [] 1,
        run_entry ''RUN_CLAIMED'' ''digest'' t3 (wr_run_id sample_run) ''w1'' [] 1]"
proof -
  let ?cs = "[ClaimRun (TimerId ''digest'') (RunId ''r9'') ''w9'' 1 1 91000000000,
    CompleteRun (RunId ''r9'') ''w9'' 1 62000000000]"
  let ?R = "sample_request_env\<lparr>rq_write := \<lambda>_. Committed ?cs\<rparr>"
  have run: "wr_timer sample_run = ''digest''" "wr_fencing_token sample_run = 1" by (simp_all add: sample_run_def)
  have cand: "find_map (claim_candidate (rq_libs ?R) (Some ''acme'') [''mail''] (rq_now ?R (2 * 0 + 1)) (rq_ulid ?R 0)
      (map (\<lambda>r. timer_id_str (pa_timer_id r)) (bt_values (psm_active_runs sample_created))))
      (bt_values (app_timers (app_state sample_created))) = Some sample_run"
    by (simp add: sample_timer app_state_def bt_values_def claim_candidate_def tenant_matches_def
        sample_request_env_def sample_run_def sample_dspec_def bt_get_def minute_libs_def)
  have lease: "plus_seconds (rq_libs ?R) (rq_now ?R (2 * 0 + 2)) (worker_lease_seconds (rq_lease_var ?R)) = Inr 91000000000"
    using sample_env by simp
  have wr: "rq_write ?R (0 + 1) = Committed
      [ClaimRun (TimerId (wr_timer sample_run)) (RunId ''r9'') ''w9'' (wr_fencing_token sample_run) 1 91000000000,
       CompleteRun (RunId ''r9'') ''w9'' (wr_fencing_token sample_run) 62000000000]"
    by (simp add: run)
  obtain st1 where "apply_commands (rq_libs ?R)
      [ClaimRun (TimerId (wr_timer sample_run)) (RunId ''r9'') ''w9'' (wr_fencing_token sample_run) 1 91000000000,
       CompleteRun (RunId ''r9'') ''w9'' (wr_fencing_token sample_run) 62000000000] sample_created = Inr st1"
    by (simp add: run sample_env apply_claim_run_def sample_timer bt_values_def Let_def apply_complete_run_def
        owned_run_def bt_get_def reschedule_timer_def bt_modify_def sample_dspec_def
        next_run_after_def plus_seconds_def minute_libs_def nanos_per_sec_def set_state_def)
  from stale_claim_repeats_run [OF cand lease wr this, of "''w1''"] show ?thesis by (simp add: run)
qed

text \<open>Two nodes: the follower at \<open>a:1\<close> sends the client to the leader at \<open>b:1\<close>.\<close>

definition leave_axum :: axum where
  "leave_axum = sample_axum\<lparr>ax_json := (ax_json sample_axum)\<lparr>hj_leave := (\<lambda>_. Inr \<lparr>lr_node_id = ''n3''\<rparr>)\<rparr>\<rparr>"

definition two_nodes_state :: state_machine where
  "two_nodes_state = default_state_machine\<lparr>psm_nodes :=
     [(''n2'', \<lparr>ni_node_id = ''n2'', ni_http_addr = ''b:1'', ni_raft_addr = ''b:2''\<rparr>)]\<rparr>"

definition follower_answer :: json where
  "follower_answer = Object [(''error'', String ''not_leader''), (''leader_id'', json_u64 2), (''leader_http'', String ''b:1'')]"

definition follower_node :: api_node where
  "follower_node = \<lparr>an_text = \<lparr>et_show = (\<lambda>e. case e of IpcUnavailable s \<Rightarrow> ''IPC unavailable: '' @ s | _ \<Rightarrow> []),
       et_parse = (\<lambda>_. Inr follower_answer)\<rparr>,
     an_auth = sample_auth_env, an_audit = sample_audit_env,
     an_conf = \<lparr>nc_node_id = 1, nc_node_name = ''n1'', nc_http_addr = ''a:1'', nc_raft_addr = ''a:2''\<rparr>,
     an_env = sample_request_env\<lparr>rq_text := (\<lambda>_. ''{}''), rq_view := \<lparr>rv_linearizable = False, rv_leader = Some 2\<rparr>\<rparr>,
     an_state = ((two_nodes_state, False), empty_audit)\<rparr>"

definition leader_node :: api_node where
  "leader_node = follower_node\<lparr>an_conf := \<lparr>nc_node_id = 2, nc_node_name = ''n2'', nc_http_addr = ''b:1'', nc_raft_addr = ''b:2''\<rparr>,
     an_env := sample_request_env\<rparr>"

definition two_nodes :: client_env where
  "two_nodes = \<lparr>cx_text = (\<lambda>_. Inr ''{}''),
     cx_parse = (\<lambda>t. Inr (if t = ''no'' then follower_answer else Object [(''left'', Bool True)])),
     cx_exchange = (\<lambda>_ addr _. Inr (if addr = ''b:1'' then write_json 200 ''ok'' else write_json 409 ''no''))\<rparr>"

lemma node_two: "parse_node_id ''n2'' = 2"
  by (simp add: parse_node_id_def parse_unsigned_def digit_val_def)

lemma two_nodes_known: "not_leader_response (an_conf follower_node) (rq_view (an_env follower_node)) (fst (fst (an_state follower_node))) = follower_answer"
  by (simp add: not_leader_response_def follower_node_def two_nodes_state_def follower_answer_def app_state_def bt_values_def
      node_two opt_string_def)

lemma two_nodes_follow: "follows follower_node ''b:1''" "prints_not_leader follower_node"
proof -
  show "follows follower_node ''b:1''"
    by (simp add: follows_def follower_node_def two_nodes_state_def app_state_def bt_values_def node_two)
  show "prints_not_leader follower_node"
    unfolding prints_not_leader_def two_nodes_known by (simp add: follower_node_def)
qed

lemma leave_routed: "public_router leave_axum ''POST'' ''/v1/cluster/leave'' ''{}'' = Inr (ApiLeave \<lparr>lr_node_id = ''n3''\<rparr>)"
  by (rule fixed_requests) (simp_all add: captures_segments_def leave_axum_def sample_axum_def)

lemma two_nodes_admit: "admits follower_node (ApiLeave q)" "admits leader_node (ApiLeave q)"
  using sample_authenticated sample_report_env(3)
  by (simp_all add: admits_def follower_node_def leader_node_def allows_def)

lemma leader_serves_leave:
  "fst (node_serves leave_axum leader_node ''POST'' ''/v1/cluster/leave'' ''{}'')
     = Inr \<lparr>hr_status = 200, hr_body = Object [(''left'', Bool True)]\<rparr>"
proof -
  have "api_handler (an_conf leader_node) (an_env leader_node) (ApiLeave \<lparr>lr_node_id = ''n3''\<rparr>)
      \<lparr>ac_actor = ''legacy-admin-token'', ac_role = Admin, ac_tenant_id = None\<rparr> (two_nodes_state, False)
      = (Inr (Object [(''left'', Bool True)]), two_nodes_state, False)"
    by (simp add: leave_def ensure_leader_def leader_node_def sample_request_env_def as_json_def Let_def)
  from api_accepts [OF sample_report_env(3) sample_authenticated _ this, of "an_text leader_node" empty_audit] show ?thesis
    by (auto simp: node_serves_def serve_public_def leave_routed leader_node_def follower_node_def allows_def)
qed

lemma two_nodes_normal: "normalize_endpoint ''a:1'' = ''a:1''" "normalize_endpoint ''b:1'' = ''b:1''"
  by (simp_all add: normalize_endpoint_def trim_graphic graphic_def strip_prefixes.simps trim_end_char_def)

lemma two_nodes_once:
  "request_once two_nodes k ''a:1'' token mtd path v = Inr (409, follower_answer)"
  "request_once two_nodes k ''b:1'' token mtd path v = Inr (200, Object [(''left'', Bool True)])"
  using write_json_utf8 [OF utf8_ascii, of "''no''"] write_json_utf8 [OF utf8_ascii, of "''ok''"]
  by (simp_all add: request_once_def two_nodes_def body_text_def two_nodes_normal parse_written ascii_def Let_def)

theorem cli_finds_leader_witness:
  "\<exists>content'. server_request two_nodes False (Inr ''s'') ''POST'' ''/v1/cluster/leave'' (Object [(''node_id'', String ''n3'')])
      (Some (''a:1'' @ [LF])) = (Inr (Object [(''left'', Bool True)]), Some content')
    \<and> normalize_endpoint (trim content') = normalize_endpoint ''b:1''"
proof -
  have content: "trim (''a:1'' @ [LF]) = ''a:1''" by (rule endpoint_file) (simp_all add: graphic_def)
  obtain al where "node_serves leave_axum follower_node ''POST'' ''/v1/cluster/leave'' ''{}''
      = (Inr \<lparr>hr_status = 409, hr_body = follower_answer\<rparr>, fst (an_state follower_node), al)"
    using follower_serves [OF leave_routed _ two_nodes_admit(1) two_nodes_follow] unfolding two_nodes_known by auto
  then have once: "request_once two_nodes 0 (trim (''a:1'' @ [LF])) (trim ''s'') ''POST'' ''/v1/cluster/leave''
      (Object [(''node_id'', String ''n3'')])
      = received (fst (node_serves leave_axum follower_node ''POST'' ''/v1/cluster/leave'' ''{}''))"
    unfolding content by (simp add: two_nodes_once received_def)
  have leader: "\<forall>k. request_once two_nodes k ''b:1'' (trim ''s'') ''POST'' ''/v1/cluster/leave''
      (Object [(''node_id'', String ''n3'')])
      = received (fst (node_serves leave_axum leader_node ''POST'' ''/v1/cluster/leave'' ''{}''))"
    by (simp add: two_nodes_once leader_serves_leave received_def)
  have address: "list_all graphic ''b:1''" "normalize_endpoint ''b:1'' \<noteq> []"
    "normalize_endpoint (trim (''a:1'' @ [LF])) \<noteq> normalize_endpoint ''b:1''"
    unfolding content two_nodes_normal by (simp_all add: graphic_def)
  from cli_finds_leader [OF leave_routed two_nodes_admit(1) once, of "''b:1''" leader_node "Object [(''left'', Bool True)]"]
    two_nodes_follow address leader leader_serves_leave
  show ?thesis by simp
qed

end
