(* ===== verification/Spec2Isabelle.thy ===== *)
theory Spec2Isabelle
  imports Kron_Recovery Kron_Cluster_Log Kron_Cluster_Server Kron_Raft_Cluster Kron_Raft_Api
begin

text \<open>
  Kron: a durable timer engine in Rust.  The repository has three crates: kron-core (the engine
  that is embedded in a process, and the cluster that runs timers on workers), kron-cli (the
  command line) and kron-py (the Python module).  This development models all three.

  \<^bold>\<open>The program.\<close>  The embedded engine keeps the timers of one data directory.  A mutex guards the
  state; an event loop pops due timers from a heap and spawns a task per run; every change is an
  event that is appended to the log \<open>kron.aof\<close> before it is applied.  Opening a directory replays
  \<open>kron.snapshot\<close> and the log; compaction replaces the log by a snapshot.  A local control channel
  (Unix socket and TCP) serves the command line.  The cluster replicates commands with the
  openraft library: each node keeps a segmented, checksummed log and a state machine, and
  serves an authenticated, audited HTTP interface through which clients create timers and
  workers claim runs under fencing tokens and leases.  cluster.rs holds an earlier cluster, here
  called alpha, with its own log, quorum and HTTP server; the commands start the openraft
  cluster only, and no other module calls the alpha engine.  The command line and the Python
  module speak the protocol of both and follow redirections to the leader.

  \<^bold>\<open>Theories and sources\<close> (paths under src/crates; core stands for kron-core/src).
  \<^item> Kron_Prelude, Kron_Text: machine integers, failures (\<open>Err\<close> for an error value, \<open>Panic\<close> for a
    panic), third-party libraries as the record \<open>libs\<close>, and the strings of the standard library.
  \<^item> Kron_Retry, Kron_Schedule, Kron_Timer, Kron_State: core/retry.rs, schedule.rs, timer.rs and
    event.rs, state.rs.  Delays equal the documented formula, next runs lie in the future exactly for the
    schedules that advance, replay reconstructs what the history of each timer says.
  \<^item> Kron_Binary_Heap, Kron_Heap: the heap of the standard library on its array, and core/heap.rs on
    it through the locales \<open>min_queue\<close> and \<open>due_queue\<close>.
  \<^item> Kron_Log, Kron_Snapshot, Kron_Recovery: core/log.rs, snapshot.rs.  Recovery after a crash at any
    byte of an append or any step of a compaction.
  \<^item> Kron_Engine, Kron_Engine_System: core/engine.rs, clock.rs.  Each critical section is a function on
    \<open>inner\<close>; the running engine is the step relation \<open>reach\<close> over the actions of the event loop and
    the tasks.  Overlap policies, accounting of runs, retries, and well-formedness hold for every
    interleaving; the locale \<open>section_rel\<close> carries what every critical section keeps.
  \<^item> Kron_Audit: core/audit.rs, the hash chain of the audit log and its verification.
  \<^item> Kron_Ipc, Kron_Ipc_Channel: core/ipc.rs, requests, tokens and limits, then the start of the
    server, the thread of a channel and the client.
  \<^item> Kron_Btree_Map, Kron_Cluster_Types: ordered maps (locale \<open>ordered_map\<close>) and the data of the
    cluster (core/cluster.rs, openraft_adapter.rs).
  \<^item> Kron_Raft_State, Kron_Raft_Log, Kron_Raft_Store: core/openraft_adapter/file_store.rs, the state
    machine, the byte format of the log and the store with its files; the locale \<open>run_invariant\<close>
    carries the invariants of the state machine through every command.
  \<^item> Kron_Auth, Kron_Runtime, Kron_Tenancy, Kron_Node: core/openraft_adapter/runtime.rs, the gate of
    tokens, roles and audit, the operations of the runtime, the isolation of tenants over the
    whole route table, and the life of a node.
  \<^item> Kron_Raft_Network: core/openraft_adapter/network.rs and the router that receives its calls; the
    locale \<open>raft_rpc\<close> is interpreted for the three calls.
  \<^item> Kron_Raft_Cluster: several nodes over one agreed log, as the step relation \<open>cluster_step\<close> over the
    operations of file_store.rs, snapshots on the way and restarts; the locale \<open>log_replica\<close> is the
    contract between a numbered log and a machine that executes it, interpreted for the state
    machine of the cluster.
  \<^item> Kron_Raft_Api: the public router of core/openraft_adapter/runtime.rs with its handlers, against the
    requests of kron-py and kron-cli, the redirection of a client from a follower to the leader, and
    the race between the choice and the commit of a claim.
  \<^item> Kron_Cluster, Kron_Cluster_Log, Kron_Cluster_Http, Kron_Cluster_Scheduler, Kron_Cluster_Server:
    core/cluster.rs, the alpha engine, the replay of its command log, its HTTP server down to the
    bytes of a request, the turns of its scheduler, and the threads of the server as the step
    relation \<open>server_step\<close>.
  \<^item> Kron_Http_Client, Kron_Cli: kron-cli/src, the HTTP client with the locale \<open>leader_redirect\<close>, and the
    commands as functions to printed lines, result and files, up to the status of the process.
  \<^item> Kron_Python, Kron_Python_Worker: kron-py/src/lib.rs, the module over the embedded engine, and
    clients and workers over HTTP (a second interpretation of \<open>leader_redirect\<close>).
  \<^item> Kron_Number_Codec: a concrete JSON library for witnesses.

  \<^bold>\<open>What the theorems show.\<close>  Durability: what was acknowledged survives a crash, for the engine, the
  replicated store and the alpha log.  Scheduling: exclusive and sequential overlap policies,
  exact pops of the heap, retries as documented.  Cluster: at most one active run per timer,
  outcomes only from the owner of the claim, matching claims and outcomes in every history,
  released leases, tenants confined.  Replication: every node holds the result of a prefix of the
  agreed log, whatever is stored, applied, installed and restarted, nodes never disagree on the
  owner of a run, and a node that is behind catches up through its own stored log.  Security: nothing
  happens without the token or the role, and a raft reply is counted only if an authenticated call
  of the peer's library gave it.  Protocols: client and server understand each other byte for byte,
  a call of a client reaches its handler exactly when the name in it is one segment of a path,
  requests that only the leader serves are redirected to it while a node answers the others from its
  own state, a worker's outcome is accepted.  Errors: where the code loses
  data, runs or engines, or runs an occurrence twice, a theorem states it.

  \<^bold>\<open>Conventions.\<close>  A string is its UTF-8 bytes.  A date is an integer of nanoseconds.  Unsigned integers are
  words of their width; the release profile wraps.  An operation returns \<open>fault + value\<close> with the new
  state.  The clock, random identifiers, the outcomes of writes and the iteration order of hash
  maps are arguments.  The JSON library is a codec with named assumptions (\<open>wf_entry\<close>: one printable
  line that decodes to its value and no proper prefix of which decodes); SHA-256, chrono, cron,
  openraft, reqwest, axum, clap and pyo3 are parameters in the same way.

  \<^bold>\<open>Loops.\<close>  Loops over data are structural or have a termination proof (reading a request, trimming,
  heap sifts).  A poll has a number of further attempts as an argument, since the code repeats it
  until a deadline of 20 seconds; the theorems hold for every number.  The scheduler, the lease
  task, the loop of a worker and the thread of a channel are functions of the turns that are
  observed.  A redirected request makes at most two attempts, as in the code.

  \<^bold>\<open>Not modelled.\<close>  The internals of openraft (elections, replication order, quorum of the raft log): the
  theorems on one node start from committed entries and from the calls that the library makes to
  the store, and those on several nodes from the steps of \<open>cluster_step\<close>, in which the library agrees on one
  numbered log.  Sockets and thread scheduling below the level of a request, file permissions, the
  asyncio wrappers of the Python module, which forward to the synchronous functions, argument
  parsing by clap, and the module declarations of lib.rs and mod.rs.  In the alpha server an
  operation of the engine is one step; what other threads do while a poll sleeps is an argument of
  the poll, any sequence \<open>server_ops\<close> of operations that requests lead to; \<open>sv_claim_sent\<close> records
  whether a request sent a claim to the replication route.  A write that the raft library reports
  as failed leaves the state as it was (the library may commit the entry later); opening a node
  gives the store as read from the files, before the library writes to it; one registration of the
  engine reads the clock once; writing the store fails in the model only where a value cannot be
  serialised.
\<close>

end
